(* ===== verification/Numerics.thy ===== *)
theory Numerics
  imports Prelude
begin

text \<open>
  The numbers of the program. A \<open>Decimal\<close> is the rational it denotes; a \<open>DecimalField\<close>
  column with \<open>n\<close> decimal places stores \<open>quantize n x\<close>, the value rounded half to even
  at that scale. A Python \<open>float\<close> is a rational of at most 53 significant bits, and every
  arithmetic operation of the source is the exact operation followed by \<open>fl\<close>, rounding
  to the nearest such rational, ties to even. The exponent range of binary64 is not
  modelled: overflow to an infinity and gradual underflow are outside the model.

  The locale \<open>float_format\<close> states what the sizing code relies on of the float
  rounding, and is interpreted on \<open>fl\<close>.
\<close>

subsection \<open>Rounding to an integer, half to even\<close>

definition round_half_even :: "rat \<Rightarrow> int" where
  "round_half_even x =
     (let f = \<lfloor>x\<rfloor>; d = x - of_int f
      in if d < 1 / 2 then f else if 1 / 2 < d then f + 1 else if even f then f else f + 1)"

lemma round_half_even_of_int [simp]: "round_half_even (of_int n) = n"
  by (simp add: round_half_even_def)

lemma round_half_even_bounds:
  "x - 1 / 2 \<le> of_int (round_half_even x)" "of_int (round_half_even x) \<le> x + 1 / 2"
  using floor_correct [of x] by (simp_all add: round_half_even_def Let_def) linarith+

lemma round_half_even_mono:
  assumes "x \<le> y"
  shows "round_half_even x \<le> round_half_even y"
proof (cases "\<lfloor>x\<rfloor> = \<lfloor>y\<rfloor>")
  case True
  with assms show ?thesis by (auto simp: round_half_even_def Let_def)
next
  case False
  with assms have "\<lfloor>x\<rfloor> + 1 \<le> \<lfloor>y\<rfloor>" using floor_mono [OF assms] by linarith
  moreover have "round_half_even x \<le> \<lfloor>x\<rfloor> + 1" "\<lfloor>y\<rfloor> \<le> round_half_even y"
    by (auto simp: round_half_even_def Let_def)
  ultimately show ?thesis by linarith
qed

lemma floor_minus_nonint: "x \<noteq> of_int \<lfloor>x\<rfloor> \<Longrightarrow> \<lfloor>- x\<rfloor> = - \<lfloor>x\<rfloor> - 1" for x :: rat
  using floor_correct [of x] by (intro floor_unique) (auto simp: less_le)

lemma round_half_even_minus [simp]: "round_half_even (- x) = - round_half_even x"
proof (cases "x = of_int \<lfloor>x\<rfloor>")
  case True
  then show ?thesis by (metis of_int_minus round_half_even_of_int)
next
  case False
  let ?f = "\<lfloor>x\<rfloor>"
  have "\<lfloor>- x\<rfloor> = - ?f - 1" by (rule floor_minus_nonint [OF False])
  then show ?thesis by (auto simp: round_half_even_def Let_def)
qed

subsection \<open>Decimal columns\<close>

definition quantize :: "nat \<Rightarrow> rat \<Rightarrow> rat" where
  "quantize n x = of_int (round_half_even (x * 10 ^ n)) / 10 ^ n"

definition has_scale :: "nat \<Rightarrow> rat \<Rightarrow> bool" where
  "has_scale n x \<longleftrightarrow> quantize n x = x"

lemma quantize_0 [simp]: "quantize n 0 = 0"
  using round_half_even_of_int [of 0] by (simp add: quantize_def)

lemma quantize_minus [simp]: "quantize n (- x) = - quantize n x"
  by (simp add: quantize_def)

lemma quantize_mono: "x \<le> y \<Longrightarrow> quantize n x \<le> quantize n y"
  by (simp add: quantize_def divide_right_mono round_half_even_mono)

lemma has_scale_iff: "has_scale n x \<longleftrightarrow> (\<exists>k. x = of_int k / 10 ^ n)"
proof
  show "has_scale n x \<Longrightarrow> \<exists>k. x = of_int k / 10 ^ n"
    by (auto simp: has_scale_def quantize_def intro: sym)
qed (auto simp: has_scale_def quantize_def)

lemma has_scale_quantize [simp]: "has_scale n (quantize n x)"
  by (auto simp: has_scale_iff quantize_def)

lemma has_scale_0 [simp]: "has_scale n 0"
  by (simp add: has_scale_def)

lemma has_scale_of_nat [simp]: "has_scale n (of_nat m)"
  by (simp add: has_scale_iff) (rule exI [of _ "int m * 10 ^ n"], simp)

lemma has_scale_numeral [simp]: "has_scale n (numeral m)" "has_scale n 1"
  using has_scale_of_nat [of n "numeral m"] has_scale_of_nat [of n 1] by simp_all

lemma has_scale_minus [simp]: "has_scale n (- x) \<longleftrightarrow> has_scale n x"
  by (simp add: has_scale_def)

lemma has_scale_add: "has_scale n x \<Longrightarrow> has_scale n y \<Longrightarrow> has_scale n (x + y)"
  unfolding has_scale_iff by (metis add_divide_distrib of_int_add)

lemma has_scale_diff: "has_scale n x \<Longrightarrow> has_scale n y \<Longrightarrow> has_scale n (x - y)"
  using has_scale_add [of n x "- y"] by simp

lemma quantize_id: "has_scale n x \<Longrightarrow> quantize n x = x"
  by (simp add: has_scale_def)

lemma quantize_nonneg: "0 \<le> x \<Longrightarrow> 0 \<le> quantize n x"
  using quantize_mono [of 0 x n] by simp

subsection \<open>Rounding to significant digits\<close>

text \<open>\<open>ilog b x\<close> is the exponent of the leading digit of \<open>x > 0\<close> in base \<open>b\<close>.\<close>

fun nlog :: "nat \<Rightarrow> nat \<Rightarrow> nat" where
  "nlog b n = (if b < 2 \<or> n < b then 0 else Suc (nlog b (n div b)))"

declare nlog.simps [simp del]

definition ilog :: "nat \<Rightarrow> rat \<Rightarrow> int" where
  "ilog b x =
     (if 1 \<le> x then int (nlog b (nat \<lfloor>x\<rfloor>))
      else - int (nlog b (nat (\<lceil>1 / x\<rceil> - 1)) + 1))"

definition round_sig :: "nat \<Rightarrow> nat \<Rightarrow> rat \<Rightarrow> rat" where
  "round_sig b p x =
     (if x = 0 then 0
      else let u = of_nat b powi (ilog b \<bar>x\<bar> - (int p - 1))
           in of_int (round_half_even (x / u)) * u)"

lemma nlog_bounds:
  assumes "2 \<le> b" "0 < n"
  shows "b ^ nlog b n \<le> n \<and> n < b ^ Suc (nlog b n)"
  using assms
proof (induction b n rule: nlog.induct)
  case (1 b n)
  show ?case
  proof (cases "n < b")
    case True
    with 1 show ?thesis by (simp add: nlog.simps)
  next
    case False
    with 1 have ih: "b ^ nlog b (n div b) \<le> n div b" "n div b < b ^ Suc (nlog b (n div b))"
      by (auto simp: div_greater_zero_iff)
    have "b * b ^ nlog b (n div b) \<le> n"
      using ih(1) by (metis le_trans mult.commute mult_le_mono2 times_div_less_eq_dividend)
    moreover have "n < b * b ^ Suc (nlog b (n div b))"
      using ih(2) 1 by (metis div_less_iff_less_mult less_le_trans mult.commute zero_less_numeral)
    ultimately show ?thesis using 1 False by (simp add: nlog.simps [of b n])
  qed
qed

lemma ilog_bounds:
  assumes b: "2 \<le> b" and x: "0 < x"
  shows "of_nat b powi ilog b x \<le> x \<and> x < of_nat b powi (ilog b x + 1)"
proof (cases "1 \<le> x")
  case True
  define n where "n = nat \<lfloor>x\<rfloor>"
  have n: "0 < n" "of_nat n \<le> x" "x < of_nat n + 1"
    using True floor_correct [of x] by (auto simp: n_def le_floor_iff)
  have "of_nat b ^ nlog b n \<le> (of_nat n :: rat)" "(of_nat n :: rat) + 1 \<le> of_nat b ^ Suc (nlog b n)"
    using nlog_bounds [OF b n(1)]
    by (simp_all flip: of_nat_power of_nat_Suc add: Suc_le_eq) 
      (metis Suc_le_eq of_nat_Suc of_nat_le_iff of_nat_mult of_nat_power add.commute)
  then have "of_nat b ^ nlog b n \<le> x" "x < of_nat b ^ Suc (nlog b n)"
    using n by linarith+
  with True b show ?thesis
    by (simp add: ilog_def n_def [symmetric] power_int_add power_int_of_nat mult.commute)
next
  case False
  define m where "m = nat (\<lceil>1 / x\<rceil> - 1)"
  have y: "1 < 1 / x" using False x by simp
  then have "2 \<le> \<lceil>1 / x\<rceil>" by (simp add: le_ceiling_iff)
  then have "int m = \<lceil>1 / x\<rceil> - 1"
    unfolding m_def by (intro nat_0_le) linarith
  then have "(of_nat m :: rat) = of_int \<lceil>1 / x\<rceil> - 1" "0 < m"
    using \<open>2 \<le> \<lceil>1 / x\<rceil>\<close> by (metis of_int_1 of_int_diff of_int_of_nat_eq, linarith)
  then have m: "0 < m" "of_nat m < 1 / x" "1 / x \<le> of_nat m + 1"
    using ceiling_correct [of "1 / x"] by simp_all
  have lo: "of_nat b ^ nlog b m \<le> (of_nat m :: rat)" and hi: "(of_nat m :: rat) + 1 \<le> of_nat b ^ Suc (nlog b m)"
    using nlog_bounds [OF b m(1)]
    by (simp_all flip: of_nat_power of_nat_Suc add: Suc_le_eq) 
      (metis Suc_le_eq of_nat_Suc of_nat_le_iff of_nat_mult of_nat_power add.commute)
  have "of_nat b ^ nlog b m < 1 / x" "1 / x \<le> of_nat b ^ Suc (nlog b m)"
    using lo hi m by linarith+
  then have "1 / of_nat b ^ Suc (nlog b m) \<le> x" "x < 1 / of_nat b ^ nlog b m"
    using b x by (simp_all add: field_simps)
  moreover have e: "ilog b x = - int (Suc (nlog b m))" "ilog b x + 1 = - int (nlog b m)"
    using False by (simp_all add: ilog_def m_def)
  ultimately show ?thesis
    unfolding e(2) unfolding e(1) by (simp only: power_int_minus power_int_of_nat divide_inverse mult_1 simp_thms)
qed

lemma powi_mono: "2 \<le> b \<Longrightarrow> i \<le> j \<Longrightarrow> of_nat b powi i \<le> (of_nat b powi j :: rat)"
  by (rule power_int_increasing) auto

lemma powi_strict: "2 \<le> b \<Longrightarrow> of_nat b powi i < (of_nat b powi j :: rat) \<Longrightarrow> i < j"
  by (meson linorder_not_less powi_mono)

lemma ilog_unique:
  assumes b: "2 \<le> b" and "0 < x" and "of_nat b powi e \<le> x" and "x < of_nat b powi (e + 1)"
  shows "ilog b x = e"
proof -
  have "of_nat b powi ilog b x < (of_nat b powi (e + 1) :: rat)"
    and "of_nat b powi e < (of_nat b powi (ilog b x + 1) :: rat)"
    using ilog_bounds [OF b assms(2)] assms(3,4) by linarith+
  with b have "ilog b x < e + 1" "e < ilog b x + 1" by (blast intro: powi_strict)+
  then show ?thesis by simp
qed

lemma ilog_mono: "2 \<le> b \<Longrightarrow> 0 < x \<Longrightarrow> x \<le> y \<Longrightarrow> ilog b x \<le> ilog b y"
  using ilog_bounds [of b x] ilog_bounds [of b y] powi_strict [of b "ilog b x" "ilog b y + 1"]
  by force

lemma round_sig_0 [simp]: "round_sig b p 0 = 0"
  by (simp add: round_sig_def)

lemma round_sig_minus [simp]: "round_sig b p (- x) = - round_sig b p x"
  by (simp add: round_sig_def Let_def)

text \<open>A multiple of the unit of \<open>y\<close>'s last digit is a bound that rounding \<open>y\<close> respects.\<close>

lemma round_scaled_ge:
  "0 < u \<Longrightarrow> z = of_int k * u \<Longrightarrow> z \<le> y \<Longrightarrow> z \<le> of_int (round_half_even (y / u)) * u" for u :: rat
  using round_half_even_mono [of "of_int k" "y / u"] by (simp add: le_divide_eq mult_right_mono)

lemma round_scaled_le:
  "0 < u \<Longrightarrow> z = of_int k * u \<Longrightarrow> y \<le> z \<Longrightarrow> of_int (round_half_even (y / u)) * u \<le> z" for u :: rat
  using round_half_even_mono [of "y / u" "of_int k"] by (simp add: divide_le_eq mult_right_mono)

lemma powi_multiple:
  assumes "2 \<le> b" and "i \<le> j"
  shows "\<exists>k. (of_nat b powi j :: rat) = of_int k * of_nat b powi i"
proof
  have "of_nat b powi j = (of_nat b powi (j - i) * of_nat b powi i :: rat)"
    using assms by (simp flip: power_int_add)
  also have "of_nat b powi (j - i) = (of_int (int b ^ nat (j - i)) :: rat)"
    using assms power_int_of_nat [of "of_nat b :: rat" "nat (j - i)"] by simp
  finally show "(of_nat b powi j :: rat) = of_int (int b ^ nat (j - i)) * of_nat b powi i" .
qed

lemma round_sig_bounds:
  assumes b: "2 \<le> b" and p: "1 \<le> p" and x: "0 < x"
  shows "of_nat b powi ilog b x \<le> round_sig b p x \<and> round_sig b p x \<le> of_nat b powi (ilog b x + 1)"
proof -
  let ?u = "of_nat b powi (ilog b x - (int p - 1)) :: rat"
  have u: "0 < ?u" using b by simp
  obtain k where k: "of_nat b powi ilog b x = of_int k * ?u"
    using powi_multiple [OF b, of "ilog b x - (int p - 1)" "ilog b x"] p by auto
  obtain l where l: "of_nat b powi (ilog b x + 1) = of_int l * ?u"
    using powi_multiple [OF b, of "ilog b x - (int p - 1)" "ilog b x + 1"] p by auto
  have "round_sig b p x = of_int (round_half_even (x / ?u)) * ?u"
    using x by (simp add: round_sig_def Let_def)
  then show ?thesis
    using round_scaled_ge [OF u k] round_scaled_le [OF u l] ilog_bounds [OF b x] by simp
qed

lemma round_sig_pos: "2 \<le> b \<Longrightarrow> 1 \<le> p \<Longrightarrow> 0 < x \<Longrightarrow> 0 < round_sig b p x"
  using round_sig_bounds [of b p x] by (force intro: less_le_trans [of _ "of_nat b powi ilog b x"])

lemma round_sig_mono_pos:
  assumes b: "2 \<le> b" and p: "1 \<le> p" and x: "0 < x" and xy: "x \<le> y"
  shows "round_sig b p x \<le> round_sig b p y"
proof (cases "ilog b x = ilog b y")
  case True
  let ?u = "of_nat b powi (ilog b y - (int p - 1)) :: rat"
  have "x / ?u \<le> y / ?u" using b xy by (simp add: divide_right_mono)
  then have "round_half_even (x / ?u) \<le> round_half_even (y / ?u)" by (rule round_half_even_mono)
  with True b x xy show ?thesis by (simp add: round_sig_def Let_def mult_right_mono)
next
  case False
  with ilog_mono [OF b x xy] have "ilog b x + 1 \<le> ilog b y" by simp
  then have "of_nat b powi (ilog b x + 1) \<le> (of_nat b powi ilog b y :: rat)" by (rule powi_mono [OF b])
  with round_sig_bounds [OF b p x] round_sig_bounds [OF b p, of y] x xy show ?thesis
    by (meson less_le_trans order_trans)
qed

lemma round_sig_mono:
  assumes b: "2 \<le> b" and p: "1 \<le> p" and xy: "x \<le> y"
  shows "round_sig b p x \<le> round_sig b p y"
proof (cases "0 < x")
  case True
  with assms show ?thesis by (simp add: round_sig_mono_pos)
next
  case False
  have neg: "round_sig b p z \<le> 0" if "z \<le> 0" for z
    using that round_sig_pos [OF b p, of "- z"] by (cases "z = 0") auto
  show ?thesis
  proof (cases "0 < y")
    case True
    with False neg [of x] round_sig_pos [OF b p, of y] show ?thesis by simp
  next
    case y: False
    show ?thesis
    proof (cases "y = 0")
      case True
      with False neg [of x] show ?thesis by simp
    next
      case ynz: False
      with y False xy have "round_sig b p (- y) \<le> round_sig b p (- x)"
        by (intro round_sig_mono_pos b p) auto
      then show ?thesis by simp
    qed
  qed
qed

text \<open>Numbers with at most \<open>p\<close> significant digits are rounded to themselves.\<close>

lemma round_sig_fixed:
  assumes b: "2 \<le> b" and x: "x = of_int k * of_nat b powi e" and k: "\<bar>k\<bar> \<le> int b ^ p"
    and p: "1 \<le> p"
  shows "round_sig b p x = x"
proof (cases "k = 0")
  case True
  with x show ?thesis by simp
next
  case False
  let ?B = "of_nat b :: rat"
  have B: "0 < ?B" using b by simp
  then have ax: "\<bar>x\<bar> = of_int \<bar>k\<bar> * ?B powi e" by (simp add: x abs_mult)
  have x0: "0 < \<bar>x\<bar>" using False B by (simp add: ax)
  have "\<exists>j. \<bar>x\<bar> = of_int j * ?B powi (ilog b \<bar>x\<bar> - (int p - 1))"
  proof (cases "\<bar>k\<bar> = int b ^ p")
    case True
    then have eq: "\<bar>x\<bar> = ?B powi (int p + e)"
      using B by (simp add: ax power_int_add power_int_of_nat)
    have "ilog b \<bar>x\<bar> = int p + e"
      by (rule ilog_unique [OF b x0]) (use b in \<open>simp_all add: eq power_int_add\<close>)
    then show ?thesis using powi_multiple [OF b, of "e + 1" "int p + e"] p by (simp add: eq algebra_simps)
  next
    case F: False
    with k have "\<bar>k\<bar> < int b ^ p" by simp
    then have "(of_int \<bar>k\<bar> :: rat) < ?B ^ p" by (metis of_int_less_iff of_int_of_nat_eq of_int_power)
    then have "\<bar>x\<bar> < ?B powi (int p + e)"
      using B by (simp add: ax power_int_add power_int_of_nat)
    with conjunct1 [OF ilog_bounds [OF b x0]] have "?B powi ilog b \<bar>x\<bar> < ?B powi (int p + e)"
      by (rule le_less_trans)
    then have "ilog b \<bar>x\<bar> - (int p - 1) \<le> e" using powi_strict [OF b] by force
    then obtain j where j: "?B powi e = of_int j * ?B powi (ilog b \<bar>x\<bar> - (int p - 1))"
      using powi_multiple [OF b] by blast
    have "\<bar>x\<bar> = of_int (\<bar>k\<bar> * j) * ?B powi (ilog b \<bar>x\<bar> - (int p - 1))"
      by (subst ax, subst j) (simp only: of_int_mult mult.assoc)
    then show ?thesis by blast
  qed
  then obtain j where j: "\<bar>x\<bar> = of_int j * ?B powi (ilog b \<bar>x\<bar> - (int p - 1))" by blast
  define u where "u = ?B powi (ilog b \<bar>x\<bar> - (int p - 1))"
  have "0 < u" using B by (simp add: u_def)
  moreover have ju: "\<bar>x\<bar> = of_int j * u" unfolding u_def by (rule j)
  ultimately have "\<bar>x\<bar> / u = of_int j" by simp
  then have "round_half_even (\<bar>x\<bar> / u) = j" by simp
  moreover have "round_sig b p \<bar>x\<bar> = of_int (round_half_even (\<bar>x\<bar> / u)) * u"
    using x0 by (simp add: round_sig_def Let_def u_def)
  ultimately have "round_sig b p \<bar>x\<bar> = \<bar>x\<bar>" by (simp only: ju [symmetric])
  then show ?thesis by (cases "0 \<le> x") auto
qed

lemma round_sig_form:
  assumes b: "2 \<le> b" and p: "1 \<le> p"
  shows "\<exists>k e. round_sig b p x = of_int k * of_nat b powi e \<and> \<bar>k\<bar> \<le> int b ^ p"
proof (cases "x = 0")
  case True
  then show ?thesis by (auto intro!: exI [of _ 0])
next
  case False
  let ?u = "of_nat b powi (ilog b \<bar>x\<bar> - (int p - 1)) :: rat"
  let ?k = "round_half_even (\<bar>x\<bar> / ?u)"
  have u: "0 < ?u" using b by simp
  have "\<bar>x\<bar> < of_nat b powi (ilog b \<bar>x\<bar> + 1)" using ilog_bounds [OF b, of "\<bar>x\<bar>"] False by simp
  also have "\<dots> = of_int (int b ^ p) * ?u"
    using b power_int_add [of "of_nat b :: rat" "int p" "ilog b \<bar>x\<bar> - (int p - 1)"]
    by (simp add: power_int_of_nat)
  finally have "\<bar>x\<bar> / ?u \<le> of_int (int b ^ p)" using u by (simp add: divide_le_eq)
  then have hi: "?k \<le> int b ^ p" using round_half_even_mono round_half_even_of_int by metis
  have "0 \<le> \<bar>x\<bar> / ?u" using u by simp
  then have lo: "0 \<le> ?k" using round_half_even_mono [of 0] round_half_even_of_int [of 0] by fastforce
  have "round_sig b p \<bar>x\<bar> = of_int ?k * ?u" using False by (simp add: round_sig_def Let_def)
  moreover have "round_sig b p x = round_sig b p \<bar>x\<bar> \<or> round_sig b p x = - round_sig b p \<bar>x\<bar>"
    by (simp add: abs_if)
  ultimately have "round_sig b p x = of_int ?k * ?u \<or> round_sig b p x = of_int (- ?k) * ?u"
    by (metis minus_mult_left of_int_minus)
  with lo hi show ?thesis by (metis abs_minus_cancel abs_of_nonneg)
qed

lemma round_sig_idem:
  "2 \<le> b \<Longrightarrow> 1 \<le> p \<Longrightarrow> round_sig b p (round_sig b p x) = round_sig b p x"
  using round_sig_form [of b p x] by (auto intro: round_sig_fixed)

subsection \<open>Floats\<close>

definition fl :: "rat \<Rightarrow> rat" where
  "fl x = round_sig 2 53 x"

text \<open>What the program's float code relies on of the rounding.\<close>

locale float_format =
  fixes rnd :: "rat \<Rightarrow> rat"
  assumes rnd_mono: "x \<le> y \<Longrightarrow> rnd x \<le> rnd y"
    and rnd_idem: "rnd (rnd x) = rnd x"
    and rnd_minus: "rnd (- x) = - rnd x"
    and rnd_pos: "0 < x \<Longrightarrow> 0 < rnd x"
    and rnd_small_int: "\<bar>k\<bar> \<le> 2 ^ 53 \<Longrightarrow> rnd (of_int k) = of_int k"
begin

definition is_float :: "rat \<Rightarrow> bool" where
  "is_float x \<longleftrightarrow> rnd x = x"

lemma rnd_0: "rnd 0 = 0"
  using rnd_small_int [of 0] by simp

lemma rnd_nonneg: "0 \<le> x \<Longrightarrow> 0 \<le> rnd x"
  using rnd_mono [of 0 x] by (simp add: rnd_0)

lemma rnd_nonpos: "x \<le> 0 \<Longrightarrow> rnd x \<le> 0"
  using rnd_mono [of x 0] by (simp add: rnd_0)

lemma rnd_eq_0: "rnd x = 0 \<longleftrightarrow> x = 0"
  using rnd_pos [of x] rnd_pos [of "- x"] rnd_0 rnd_minus [of x] by (cases "x = 0") (auto simp: neq_iff)

lemma rnd_le_float: "is_float y \<Longrightarrow> x \<le> y \<Longrightarrow> rnd x \<le> y"
  using rnd_mono [of x y] by (simp add: is_float_def)

lemma is_float_rnd: "is_float (rnd x)"
  by (simp add: is_float_def rnd_idem)

lemma is_float_min: "is_float x \<Longrightarrow> is_float y \<Longrightarrow> is_float (min x y)"
  by (simp add: min_def)

lemma is_float_max: "is_float x \<Longrightarrow> is_float y \<Longrightarrow> is_float (max x y)"
  by (simp add: max_def)

text \<open>Rounding a float down to a whole number of units of 1 is exact and does not raise it.\<close>

lemma rnd_floor_le: "is_float x \<Longrightarrow> rnd (of_int \<lfloor>x\<rfloor>) \<le> x"
  by (rule rnd_le_float) simp_all

end

interpretation binary64: float_format fl
proof unfold_locales
  fix x y :: rat and k :: int
  show "x \<le> y \<Longrightarrow> fl x \<le> fl y" by (simp add: fl_def round_sig_mono)
  show "fl (fl x) = fl x" by (simp add: fl_def round_sig_idem)
  show "fl (- x) = - fl x" by (simp add: fl_def)
  show "0 < x \<Longrightarrow> 0 < fl x" by (simp add: fl_def round_sig_pos)
  show "\<bar>k\<bar> \<le> 2 ^ 53 \<Longrightarrow> fl (of_int k) = of_int k"
    unfolding fl_def by (rule round_sig_fixed [where e = 0 and k = k]) simp_all
qed

text \<open>Arithmetic of the default \<open>decimal\<close> context: 28 significant digits, half to even.\<close>

definition dec_round :: "rat \<Rightarrow> rat" where
  "dec_round x = round_sig 10 28 x"

interpretation decimal28: float_format dec_round
proof unfold_locales
  fix x y :: rat and k :: int
  show "x \<le> y \<Longrightarrow> dec_round x \<le> dec_round y" by (simp add: dec_round_def round_sig_mono)
  show "dec_round (dec_round x) = dec_round x" by (simp add: dec_round_def round_sig_idem)
  show "dec_round (- x) = - dec_round x" by (simp add: dec_round_def)
  show "0 < x \<Longrightarrow> 0 < dec_round x" by (simp add: dec_round_def round_sig_pos)
  show "\<bar>k\<bar> \<le> 2 ^ 53 \<Longrightarrow> dec_round (of_int k) = of_int k"
    unfolding dec_round_def by (rule round_sig_fixed [where e = 0 and k = k]) simp_all
qed

end
