(* ===== verification/Decimals.thy ===== *)
theory Decimals
  imports Numerics
begin

text \<open>
  Python's \<open>decimal.Decimal\<close> as the program uses it at its text boundaries: the
  constructor \<open>Decimal(text)\<close> (\<open>dec_parse\<close>: white space stripped, underscores
  dropped, sign, digits with an optional point, an optional exponent, or an infinity or
  NaN) and \<open>str(d)\<close> (\<open>dec_str\<close>: plain notation while the exponent is small, else
  scientific). A finite decimal is its sign, coefficient and exponent, as in the
  \<open>decimal\<close> module; \<open>dec_value\<close> is the rational it denotes. The module's exponent limits
  are not modelled. \<open>dec_parse_str\<close> is the round trip that the fill transport relies on.
\<close>

datatype decimal = DFin bool nat int | DInf bool | DNaN

definition dec_value :: "decimal \<Rightarrow> rat" where
  "dec_value d = (case d of DFin s c e \<Rightarrow> (if s then - 1 else 1) * of_nat c * 10 powi e | _ \<Rightarrow> 0)"

fun dec_is_finite :: "decimal \<Rightarrow> bool" where
  "dec_is_finite (DFin s c e) = True"
| "dec_is_finite d = False"

subsection \<open>Digits\<close>

definition digits_nat :: "string \<Rightarrow> nat" where
  "digits_nat s = foldl (\<lambda>a c. 10 * a + (char_code c - 48)) 0 s"

lemma digits_nat_append: "digits_nat (s @ [c]) = 10 * digits_nat s + (char_code c - 48)"
  by (simp add: digits_nat_def)

lemma digits_nat_zeros: "digits_nat (replicate n CHR ''0'' @ s) = digits_nat s"
  by (induction n) (simp_all add: digits_nat_def char_code_def)

lemma char_code_digit [simp]: "n < 10 \<Longrightarrow> char_code (char_of (48 + n)) = 48 + n"
  by (simp add: char_code_def)

lemma digits_nat_nat_str [simp]: "digits_nat (nat_str n) = n"
proof (induction n rule: nat_str.induct)
  case (1 n)
  show ?case
  proof (cases "n < 10")
    case True
    then show ?thesis by (simp add: nat_str.simps [of n] digits_nat_def)
  next
    case False
    then show ?thesis using 1 by (simp add: nat_str.simps [of n] digits_nat_append)
  qed
qed

lemma nat_str_inj: "nat_str a = nat_str b \<longleftrightarrow> a = b"
  by (metis digits_nat_nat_str)

lemma is_digit_char_digit [simp]: "n < 10 \<Longrightarrow> is_digit_char (char_of (48 + n))" for n :: nat
  by (simp add: is_digit_char_def)

lemma nat_str_digits [simp]: "list_all is_digit_char (nat_str n)"
proof (induction n rule: nat_str.induct)
  case (1 n)
  then show ?case by (cases "n < 10") (simp_all add: nat_str.simps [of n])
qed

lemma nat_str_not_Nil [simp]: "nat_str n \<noteq> []"
  by (subst nat_str.simps) simp

subsection \<open>The constructor\<close>

definition take_digits :: "string \<Rightarrow> string \<times> string" where
  "take_digits s = (takeWhile is_digit_char s, dropWhile is_digit_char s)"

fun take_sign :: "string \<Rightarrow> bool \<times> string" where
  "take_sign [] = (False, [])"
| "take_sign (c # cs) =
     (if c = CHR ''-'' then (True, cs) else if c = CHR ''+'' then (False, cs) else (False, c # cs))"

text \<open>The exponent part: nothing, or \<open>e\<close>/\<open>E\<close>, a sign and at least one digit.\<close>

definition parse_exponent :: "string \<Rightarrow> int option" where
  "parse_exponent s =
     (case s of
        [] \<Rightarrow> Some 0
      | c # cs \<Rightarrow>
          if c = CHR ''e'' \<or> c = CHR ''E''
          then (case take_sign cs of (neg, ds) \<Rightarrow>
                  if py_isdigit ds then Some (if neg then - int (digits_nat ds) else int (digits_nat ds))
                  else None)
          else None)"

definition parse_finite :: "bool \<Rightarrow> string \<Rightarrow> decimal option" where
  "parse_finite neg s =
     (case take_digits s of (ip, rest) \<Rightarrow>
        (case (case rest of
                 [] \<Rightarrow> ([], [])
               | c # cs \<Rightarrow> if c = CHR ''.'' then take_digits cs else ([], rest)) of
           (fp, ex) \<Rightarrow>
             if ip @ fp = [] then None
             else (case parse_exponent ex of
                     None \<Rightarrow> None
                   | Some e \<Rightarrow> Some (DFin neg (digits_nat (ip @ fp)) (e - int (length fp))))))"

definition parse_special :: "bool \<Rightarrow> string \<Rightarrow> decimal option" where
  "parse_special neg s =
     (let l = py_lower s
      in if l = ''inf'' \<or> l = ''infinity'' then Some (DInf neg)
         else if prefix ''nan'' l \<and> list_all is_digit_char (drop 3 l) then Some DNaN
         else if prefix ''snan'' l \<and> list_all is_digit_char (drop 4 l) then Some DNaN
         else None)"

text \<open>\<open>None\<close> is \<open>InvalidOperation\<close>.\<close>

definition dec_parse :: "string \<Rightarrow> decimal option" where
  "dec_parse text =
     (case take_sign (filter (\<lambda>c. c \<noteq> CHR ''_'') (py_strip text)) of (neg, body) \<Rightarrow>
        (case parse_finite neg body of Some d \<Rightarrow> Some d | None \<Rightarrow> parse_special neg body))"

subsection \<open>Printing\<close>

definition dec_digits_str :: "nat \<Rightarrow> int \<Rightarrow> string" where
  "dec_digits_str c e =
     (let ds = nat_str c;
          left = e + int (length ds);
          dot = (if e \<le> 0 \<and> - 6 < left then left else 1);
          body = (if dot \<le> 0 then ''0.'' @ replicate (nat (- dot)) CHR ''0'' @ ds
                  else if int (length ds) \<le> dot then ds @ replicate (nat dot - length ds) CHR ''0''
                  else take (nat dot) ds @ ''.'' @ drop (nat dot) ds)
      in body @ (if left = dot then []
                 else ''E'' @ (if left - dot < 0 then ''-'' else ''+'') @ nat_str (nat \<bar>left - dot\<bar>)))"

definition dec_str :: "decimal \<Rightarrow> string" where
  "dec_str d =
     (case d of
        DFin s c e \<Rightarrow> (if s then ''-'' else []) @ dec_digits_str c e
      | DInf s \<Rightarrow> (if s then ''-Infinity'' else ''Infinity'')
      | DNaN \<Rightarrow> ''NaN'')"

subsection \<open>Round trip\<close>

lemma take_digits_append:
  assumes "list_all is_digit_char ds" and "rest = [] \<or> \<not> is_digit_char (hd rest)"
  shows "take_digits (ds @ rest) = (ds, rest)"
proof -
  have "takeWhile is_digit_char (ds @ rest) = ds \<and> dropWhile is_digit_char (ds @ rest) = rest"
    using assms by (induction ds) (cases rest; auto)+
  then show ?thesis by (simp add: take_digits_def)
qed

lemma not_digit_chars [simp]:
  "\<not> is_digit_char (CHR ''.'')" "\<not> is_digit_char (CHR ''E'')" "\<not> is_digit_char (CHR ''-'')"
  "\<not> is_digit_char (CHR ''+'')" "\<not> is_digit_char (CHR ''_'')"
  by (simp_all add: is_digit_char_def char_code_def)

lemma digit_not_sign:
  "is_digit_char c \<Longrightarrow> c \<noteq> CHR ''-'' \<and> c \<noteq> CHR ''+'' \<and> c \<noteq> CHR ''.'' \<and> c \<noteq> CHR ''_'' \<and> \<not> is_space_char c"
  by (auto simp: is_space_char_def is_digit_char_def char_code_def)

definition exp_suffix :: "int \<Rightarrow> string" where
  "exp_suffix x = (if x = 0 then [] else ''E'' @ (if x < 0 then ''-'' else ''+'') @ nat_str (nat \<bar>x\<bar>))"

lemma parse_exponent_suffix [simp]: "parse_exponent (exp_suffix x) = Some x"
  by (auto simp: exp_suffix_def parse_exponent_def py_isdigit_def)

lemma exp_suffix_head: "exp_suffix x = [] \<or> hd (exp_suffix x) = CHR ''E''"
  by (simp add: exp_suffix_def)

lemma parse_finite_whole:
  assumes "list_all is_digit_char ds" and "ds \<noteq> []"
  shows "parse_finite s (ds @ exp_suffix x) = Some (DFin s (digits_nat ds) x)"
proof -
  have td: "take_digits (ds @ exp_suffix x) = (ds, exp_suffix x)"
    using assms exp_suffix_head [of x] by (intro take_digits_append) auto
  show ?thesis
  proof (cases "exp_suffix x")
    case Nil
    then have "x = 0" by (simp add: exp_suffix_def split: if_splits)
    with Nil assms td show ?thesis by (simp add: parse_finite_def parse_exponent_def)
  next
    case (Cons c cs)
    then have "c = CHR ''E''" "parse_exponent (c # cs) = Some x"
      using exp_suffix_head [of x] parse_exponent_suffix [of x] by auto
    with Cons assms td show ?thesis by (simp add: parse_finite_def)
  qed
qed

lemma parse_finite_point:
  assumes "list_all is_digit_char ip" and "list_all is_digit_char fp" and "ip \<noteq> []"
  shows "parse_finite s (ip @ ''.'' @ fp @ exp_suffix x) =
    Some (DFin s (digits_nat (ip @ fp)) (x - int (length fp)))"
proof -
  have "take_digits (ip @ ''.'' @ fp @ exp_suffix x) = (ip, ''.'' @ fp @ exp_suffix x)"
    using assms by (intro take_digits_append) simp_all
  moreover have "take_digits (fp @ exp_suffix x) = (fp, exp_suffix x)"
    using assms exp_suffix_head [of x] by (intro take_digits_append) auto
  ultimately show ?thesis using assms by (simp add: parse_finite_def)
qed

lemma dec_digits_str_cases:
  fixes c e
  defines "ds \<equiv> nat_str c" and "n \<equiv> int (length (nat_str c))"
  obtains (whole) x where "dec_digits_str c e = ds @ exp_suffix x" "x = e"
  | (point) ip fp x where "dec_digits_str c e = ip @ ''.'' @ fp @ exp_suffix x"
      "list_all is_digit_char ip" "list_all is_digit_char fp" "ip \<noteq> []"
      "digits_nat (ip @ fp) = c" "x - int (length fp) = e"
proof -
  define left where "left = e + n"
  define dot where "dot = (if e \<le> 0 \<and> - 6 < left then left else 1)"
  have n: "1 \<le> n" by (simp add: n_def Suc_le_eq)
  have suffix: "(if left = dot then []
      else ''E'' @ (if left - dot < 0 then ''-'' else ''+'') @ nat_str (nat \<bar>left - dot\<bar>)) = exp_suffix (left - dot)"
    by (simp add: exp_suffix_def)
  have ddig: "list_all is_digit_char (take k ds)" "list_all is_digit_char (drop k ds)" for k
    using nat_str_digits [of c] by (auto simp: ds_def list_all_iff dest: in_set_takeD in_set_dropD)
  have unfold: "dec_digits_str c e =
     (if dot \<le> 0 then ''0.'' @ replicate (nat (- dot)) CHR ''0'' @ ds
      else if n \<le> dot then ds @ replicate (nat dot - length ds) CHR ''0''
      else take (nat dot) ds @ ''.'' @ drop (nat dot) ds) @ exp_suffix (left - dot)"
    unfolding dec_digits_str_def Let_def suffix [symmetric] by (simp add: ds_def n_def left_def dot_def)
  consider "dot \<le> 0" | "0 < dot" "n \<le> dot" | "0 < dot" "dot < n" by linarith
  then show thesis
  proof cases
    case 1
    then have "left = dot" by (simp add: dot_def split: if_splits)
    have rep: "list_all is_digit_char (replicate (nat (- dot)) CHR ''0'')"
      by (simp add: list_all_iff is_digit_char_def char_code_def)
    show ?thesis
    proof (rule point [of "''0''" "replicate (nat (- dot)) CHR ''0'' @ ds" 0])
      show "dec_digits_str c e = ''0'' @ ''.'' @ (replicate (nat (- dot)) CHR ''0'' @ ds) @ exp_suffix 0"
        using 1 \<open>left = dot\<close> by (simp add: unfold)
      show "list_all is_digit_char (replicate (nat (- dot)) CHR ''0'' @ ds)"
        using rep by (simp add: ds_def)
      show "digits_nat (''0'' @ replicate (nat (- dot)) CHR ''0'' @ ds) = c"
        using digits_nat_zeros [of "Suc (nat (- dot))" ds] by (simp add: ds_def)
      show "0 - int (length (replicate (nat (- dot)) CHR ''0'' @ ds)) = e"
        using 1 \<open>left = dot\<close> by (simp add: left_def n_def ds_def)
    qed (simp_all add: is_digit_char_def char_code_def)
  next
    case 2
    then have "left - dot = e \<and> nat dot - length ds = 0"
      using n by (auto simp: dot_def left_def n_def ds_def split: if_splits)
    then show ?thesis using 2 by (intro whole [of e]) (simp_all add: unfold)
  next
    case 3
    show ?thesis
    proof (rule point [of "take (nat dot) ds" "drop (nat dot) ds" "left - dot"])
      show "dec_digits_str c e = take (nat dot) ds @ ''.'' @ drop (nat dot) ds @ exp_suffix (left - dot)"
        using 3 by (simp add: unfold)
      show "take (nat dot) ds \<noteq> []" using 3 by (simp add: ds_def)
      show "left - dot - int (length (drop (nat dot) ds)) = e"
        using 3 by (simp add: left_def n_def ds_def of_nat_diff)
    qed (use ddig in \<open>simp_all add: ds_def\<close>)
  qed
qed

lemma parse_finite_dec_digits_str: "parse_finite s (dec_digits_str c e) = Some (DFin s c e)"
proof (cases rule: dec_digits_str_cases [of c e])
  case (whole x)
  then show ?thesis by (simp add: parse_finite_whole)
next
  case (point ip fp x)
  then show ?thesis by (simp only: point(1) parse_finite_point [OF point(2,3,4)] point(5,6))
qed

lemma dec_digits_str_head: "\<exists>d ds. dec_digits_str c e = d # ds \<and> is_digit_char d"
proof (cases rule: dec_digits_str_cases [of c e])
  case (whole x)
  then show ?thesis using nat_str_digits [of c] by (cases "nat_str c") auto
next
  case (point ip fp x)
  then show ?thesis by (cases ip) auto
qed

definition clean_char :: "char \<Rightarrow> bool" where
  "clean_char c \<longleftrightarrow> c \<noteq> CHR ''_'' \<and> \<not> is_space_char c"

lemma clean_chars [simp]:
  "clean_char (CHR ''.'')" "clean_char (CHR ''E'')" "clean_char (CHR ''-'')" "clean_char (CHR ''+'')"
  by (simp_all add: clean_char_def is_space_char_def char_code_def)

lemma clean_digits: "list_all is_digit_char s \<Longrightarrow> list_all clean_char s"
  by (induction s) (simp_all add: clean_char_def digit_not_sign)

lemma exp_suffix_clean: "list_all clean_char (exp_suffix x)"
  by (simp add: exp_suffix_def clean_digits)

lemma dec_digits_str_clean: "list_all clean_char (dec_digits_str c e)"
proof (cases rule: dec_digits_str_cases [of c e])
  case (whole x)
  then show ?thesis by (simp only: whole(1) list_all_append exp_suffix_clean clean_digits nat_str_digits simp_thms)
next
  case (point ip fp x)
  show ?thesis
    unfolding point(1) by (simp add: exp_suffix_clean clean_digits point(2,3))
qed

lemma py_strip_clean: "(\<And>c. c \<in> set s \<Longrightarrow> \<not> is_space_char c) \<Longrightarrow> py_strip s = s"
proof -
  assume a: "\<And>c. c \<in> set s \<Longrightarrow> \<not> is_space_char c"
  then have "dropWhile is_space_char s = s" "dropWhile is_space_char (rev s) = rev s"
    by (metis dropWhile_eq_self_iff list.set_sel(1), metis dropWhile_eq_self_iff list.set_sel(1) set_rev)
  then show ?thesis by (simp add: py_strip_def)
qed

lemma dec_parse_str: "dec_parse (dec_str (DFin s c e)) = Some (DFin s c e)"
proof -
  obtain d ds where head: "dec_digits_str c e = d # ds" "is_digit_char d"
    using dec_digits_str_head by blast
  have "list_all clean_char (dec_str (DFin s c e))"
    by (simp add: dec_str_def dec_digits_str_clean)
  then have "filter (\<lambda>c. c \<noteq> CHR ''_'') (py_strip (dec_str (DFin s c e))) = dec_str (DFin s c e)"
    by (simp add: py_strip_clean filter_id_conv list_all_iff clean_char_def)
  moreover have "take_sign (dec_str (DFin s c e)) = (s, dec_digits_str c e)"
    using head digit_not_sign [OF head(2)] by (simp add: dec_str_def)
  ultimately show ?thesis by (simp add: dec_parse_def parse_finite_dec_digits_str)
qed

end
