(* ===== verification/Store.thy ===== *)
theory Store
  imports Decimals
begin

text \<open>
  The data model: the rows of the program's tables (the \<open>models.py\<close> files of the apps),
  the message types that cross the broker boundary (\<open>brokers/base.py\<close>), and the state
  \<open>db\<close> every handler reads and returns: the tables, the shared cache, and the outbound
  effects in the order they happen (realtime pushes, audit emissions, orders placed at a
  broker, tasks handed to Celery, flattens scheduled on commit).

  Primary keys are natural numbers drawn from \<open>d_next\<close>; times are integers
  (microseconds UTC). \<open>env\<close> collects what a handler reads of its surroundings: the clock,
  the time-zone database and the date parser.
\<close>

subsection \<open>Enumerations\<close>

datatype order_side = BUY | SELL | BUY_TO_OPEN | SELL_TO_OPEN | BUY_TO_CLOSE | SELL_TO_CLOSE

datatype order_type = MKT | LMT | STP | STP_LMT

datatype time_in_force = DAY | GTC | IOC

datatype asset_class = STOCK | ETF | OPTION | FUTURE

datatype order_status =
    PENDING_SUBMIT | SUBMITTED | PARTIAL | FILLED | CANCELLED | REJECTED | NEEDS_RECONCILE

datatype broker_side = Buy | Sell

datatype recon_kind = DRIFT | HEAL | RESOLVED

datatype halt_level = L0 | L1 | L2 | L3

datatype broker_name = ALPACA | TRADESTATION

datatype account_mode = PAPER | LIVE

datatype account_status = ACC_PENDING | ACC_CONNECTED | ACC_DEGRADED | ACC_DOWN | ACC_ERROR

datatype alert_status = RECEIVED | ACCEPTED | ALERT_REJECTED | DUPLICATE | INVALID

datatype risk_event_type =
    DAILY_LOSS_BREACH | KILL_SWITCH_ON | KILL_SWITCH_OFF | SOFT_STOP | SIZING_REJECT | FLATTEN

primrec order_side_str :: "order_side \<Rightarrow> string" where
  "order_side_str BUY = ''BUY''"
| "order_side_str SELL = ''SELL''"
| "order_side_str BUY_TO_OPEN = ''BUY_TO_OPEN''"
| "order_side_str SELL_TO_OPEN = ''SELL_TO_OPEN''"
| "order_side_str BUY_TO_CLOSE = ''BUY_TO_CLOSE''"
| "order_side_str SELL_TO_CLOSE = ''SELL_TO_CLOSE''"

primrec order_type_str :: "order_type \<Rightarrow> string" where
  "order_type_str MKT = ''MKT''"
| "order_type_str LMT = ''LMT''"
| "order_type_str STP = ''STP''"
| "order_type_str STP_LMT = ''STP_LMT''"

primrec tif_str :: "time_in_force \<Rightarrow> string" where
  "tif_str DAY = ''DAY''"
| "tif_str GTC = ''GTC''"
| "tif_str IOC = ''IOC''"

primrec asset_class_str :: "asset_class \<Rightarrow> string" where
  "asset_class_str STOCK = ''STOCK''"
| "asset_class_str ETF = ''ETF''"
| "asset_class_str OPTION = ''OPTION''"
| "asset_class_str FUTURE = ''FUTURE''"

primrec order_status_str :: "order_status \<Rightarrow> string" where
  "order_status_str PENDING_SUBMIT = ''PENDING_SUBMIT''"
| "order_status_str SUBMITTED = ''SUBMITTED''"
| "order_status_str PARTIAL = ''PARTIAL''"
| "order_status_str FILLED = ''FILLED''"
| "order_status_str CANCELLED = ''CANCELLED''"
| "order_status_str REJECTED = ''REJECTED''"
| "order_status_str NEEDS_RECONCILE = ''NEEDS_RECONCILE''"

primrec broker_side_str :: "broker_side \<Rightarrow> string" where
  "broker_side_str Buy = ''BUY''"
| "broker_side_str Sell = ''SELL''"

primrec halt_level_str :: "halt_level \<Rightarrow> string" where
  "halt_level_str L0 = ''L0''"
| "halt_level_str L1 = ''L1''"
| "halt_level_str L2 = ''L2''"
| "halt_level_str L3 = ''L3''"

primrec broker_name_str :: "broker_name \<Rightarrow> string" where
  "broker_name_str ALPACA = ''ALPACA''"
| "broker_name_str TRADESTATION = ''TRADESTATION''"

subsection \<open>Messages at the broker boundary\<close>

record account_info =
  ai_number :: string
  ai_buying_power :: rat
  ai_cash :: rat
  ai_currency :: string
  ai_status :: string
  ai_is_paper :: bool
  ai_equity :: rat
  ai_last_equity :: rat

record position_dto =
  pd_symbol :: string
  pd_qty :: rat
  pd_avg_cost :: rat
  pd_market_price :: "rat option"
  pd_side :: broker_side

record option_contract =
  oc_expiry :: string
  oc_strike :: rat
  oc_right :: string

record future_contract =
  fc_root :: string
  fc_expiry :: string

record order_request =
  rq_symbol :: string
  rq_side :: broker_side
  rq_qty :: rat
  rq_type :: order_type
  rq_limit :: "rat option"
  rq_stop :: "rat option"
  rq_tif :: time_in_force
  rq_class :: string
  rq_option :: "option_contract option"
  rq_future :: "future_contract option"

record order_ack =
  ak_coid :: string
  ak_boid :: string
  ak_status :: order_status
  ak_symbol :: string
  ak_qty :: rat
  ak_filled :: rat
  ak_submitted :: "string option"

record fill_event =
  fe_exec :: string
  fe_coid :: string
  fe_boid :: string
  fe_symbol :: string
  fe_side :: broker_side
  fe_type :: string
  fe_qty :: decimal
  fe_price :: decimal
  fe_ts :: "string option"
  fe_filled :: decimal

text \<open>
  A \<open>BrokerError\<close> carries its code and whether a retry is safe; any other exception an
  adapter lets through has no code.
\<close>

datatype broker_exn = BrokerError string bool | OtherExn

text \<open>
  A value of a payload dict: a number is the number whose \<open>str()\<close> is sent, a time the
  instant whose \<open>isoformat()\<close> is sent, an id the row id whose \<open>str()\<close> is sent.
\<close>

datatype wire_val =
  WNull | WBool bool | WStr string | WNum rat | WTime int | WId nat

type_synonym wire_dict = "(string \<times> wire_val) list"

subsection \<open>Rows\<close>

record order =
  o_id :: nat
  o_user :: nat
  o_strategy :: "nat option"
  o_account :: "nat option"
  o_alert :: "nat option"
  o_coid :: string
  o_boid :: string
  o_symbol :: string
  o_side :: order_side
  o_qty :: rat
  o_type :: order_type
  o_limit :: "rat option"
  o_stop :: "rat option"
  o_tif :: time_in_force
  o_class :: asset_class
  o_opt_expiry :: "string option"
  o_opt_strike :: "rat option"
  o_opt_right :: string
  o_fut_root :: string
  o_fut_expiry :: string
  o_status :: order_status
  o_reason :: string
  o_filled :: rat
  o_created :: int

record fill =
  f_id :: nat
  f_order :: nat
  f_account :: "nat option"
  f_qty :: rat
  f_price :: rat
  f_ts :: int
  f_exec :: string

record position =
  p_user :: nat
  p_account :: nat
  p_symbol :: string
  p_qty :: rat
  p_avg_cost :: rat
  p_market_price :: "rat option"

record recon_event =
  r_user :: nat
  r_account :: nat
  r_symbol :: string
  r_kind :: recon_kind
  r_our_qty :: rat
  r_broker_qty :: rat
  r_resolved :: "int option"

record halt =
  h_id :: nat
  h_user :: "nat option"
  h_strategy :: "nat option"
  h_level :: halt_level
  h_auto :: bool
  h_reason :: string
  h_created_by :: "nat option"
  h_created :: int
  h_released :: "int option"
  h_released_by :: "nat option"

record account =
  b_id :: nat
  b_user :: nat
  b_broker :: broker_name
  b_mode :: account_mode
  b_status :: account_status
  b_default :: bool
  b_number :: string
  b_created :: int

record strategy =
  s_id :: nat
  s_owner :: "nat option"
  s_enabled :: bool
  s_deleted :: "int option"

record webhook_config =
  w_user :: nat
  w_strategy :: nat
  w_secret :: string
  w_schema :: json

record alert =
  a_id :: nat
  a_user :: nat
  a_strategy :: nat
  a_body :: "(string \<times> json) list"
  a_idem :: string
  a_status :: alert_status
  a_reason :: string
  a_received :: int
  a_processed :: "int option"

record risk_profile =
  rp_user :: nat
  rp_risk_per_trade_pct :: rat
  rp_max_position_pct :: rat
  rp_max_concurrent :: nat
  rp_daily_loss_usd :: rat
  rp_daily_loss_pct :: rat
  rp_leverage_cap :: rat
  rp_permitted :: "asset_class list"
  rp_soft_stop_pct :: rat
  rp_hard_stop_pct :: rat
  rp_strict_mode :: bool
  rp_atr_factor :: rat

record sizing_decision =
  sd_user :: nat
  sd_order :: nat
  sd_alert :: nat
  sd_strategy :: "nat option"
  sd_symbol :: string
  sd_requested :: rat
  sd_computed :: rat
  sd_ok :: bool
  sd_reason :: string
  sd_inputs :: wire_dict

record risk_event =
  re_user :: "nat option"
  re_type :: risk_event_type
  re_scope :: string
  re_details :: wire_dict

subsection \<open>Outbound effects\<close>

datatype push_type = ORDER_CREATED | ORDER_UPDATED | FILL_CREATED | POSITION_UPDATED

record push =
  u_user :: nat
  u_type :: push_type
  u_data :: wire_dict

record audit_call =
  ac_event :: string
  ac_user :: "nat option"
  ac_actor :: "nat option"
  ac_entity :: string
  ac_entity_id :: string
  ac_after :: wire_dict

text \<open>A cache entry is its value and the instant it expires.\<close>

type_synonym 'v cache = "string \<rightharpoonup> ('v \<times> int)"

record db =
  d_users :: "nat list"
  d_orders :: "order list"
  d_fills :: "fill list"
  d_positions :: "position list"
  d_recons :: "recon_event list"
  d_halts :: "halt list"
  d_accounts :: "account list"
  d_strategies :: "strategy list"
  d_configs :: "webhook_config list"
  d_alerts :: "alert list"
  d_profiles :: "risk_profile list"
  d_sizings :: "sizing_decision list"
  d_risk_events :: "risk_event list"
  d_cache :: "int cache"
  d_next :: nat
  d_pushes :: "push list"
  d_audits :: "audit_call list"
  d_placed :: "(string \<times> order_request) list"
  d_tasks :: "nat list"
  d_flattens :: "(nat \<times> string) list"

record env =
  e_now :: int
  e_parse_dt :: "string \<Rightarrow> int option"
  e_ny_day :: "int \<Rightarrow> int"
  e_ny_weekday :: "int \<Rightarrow> nat"
  e_ny_seconds :: "int \<Rightarrow> nat"

end
