(* ===== verification/Samples.thy ===== *)
theory Samples
  imports Store
begin

text \<open>
  Concrete rows and states on which the witnesses of the properties are evaluated: one
  user (7) with a connected paper account (2), one enabled strategy (3), a market buy of 10
  AAPL waiting for its fills, and a clock.
\<close>

definition sample_env :: env where
  "sample_env = \<lparr>e_now = 1000, e_parse_dt = (\<lambda>s. None), e_ny_day = (\<lambda>t. t div 100),
     e_ny_weekday = (\<lambda>t. 1), e_ny_seconds = (\<lambda>t. 36000)\<rparr>"

definition empty_db :: db where
  "empty_db = \<lparr>d_users = [], d_orders = [], d_fills = [], d_positions = [], d_recons = [], d_halts = [],
     d_accounts = [], d_strategies = [], d_configs = [], d_alerts = [], d_profiles = [],
     d_sizings = [], d_risk_events = [], d_cache = Map.empty, d_next = 100, d_pushes = [],
     d_audits = [], d_placed = [], d_tasks = [], d_flattens = []\<rparr>"

definition sample_order :: order where
  "sample_order = \<lparr>o_id = 11, o_user = 7, o_strategy = Some 3, o_account = Some 2, o_alert = Some 21,
     o_coid = ''stp-21'', o_boid = [], o_symbol = ''AAPL'', o_side = BUY, o_qty = 10, o_type = MKT,
     o_limit = None, o_stop = None, o_tif = DAY, o_class = STOCK, o_opt_expiry = None,
     o_opt_strike = None, o_opt_right = [], o_fut_root = [], o_fut_expiry = [],
     o_status = SUBMITTED, o_reason = [], o_filled = 0, o_created = 900\<rparr>"

definition sample_account :: account where
  "sample_account = \<lparr>b_id = 2, b_user = 7, b_broker = ALPACA, b_mode = PAPER, b_status = ACC_CONNECTED,
     b_default = True, b_number = ''PA1'', b_created = 10\<rparr>"

definition sample_strategy :: strategy where
  "sample_strategy = \<lparr>s_id = 3, s_owner = Some 7, s_enabled = True, s_deleted = None\<rparr>"

definition sample_db :: db where
  "sample_db = empty_db\<lparr>d_users := [7], d_orders := [sample_order], d_accounts := [sample_account],
     d_strategies := [sample_strategy]\<rparr>"

definition sample_event :: "string \<Rightarrow> string \<Rightarrow> nat \<Rightarrow> nat \<Rightarrow> nat \<Rightarrow> fill_event" where
  "sample_event exec ty q pr cum =
     \<lparr>fe_exec = exec, fe_coid = ''stp-21'', fe_boid = ''b-1'', fe_symbol = ''AAPL'', fe_side = Buy,
      fe_type = ty, fe_qty = DFin False q 0, fe_price = DFin False pr 0, fe_ts = None,
      fe_filled = DFin False cum 0\<rparr>"

lemmas sample_defs =
  sample_env_def empty_db_def sample_order_def sample_account_def sample_strategy_def sample_db_def
  sample_event_def

end
