(* ===== verification/Orders.thy ===== *)
theory Orders
  imports Samples
begin

text \<open>
  Fill ingestion (\<open>orders/services.py\<close>): the position arithmetic, the idempotent
  \<open>ingest_fill_event\<close> every execution flows through, and the payloads it pushes. The
  lemmas show that positions are the ledger sum of the fills, that a redelivered event
  changes no row, that the filled quantity never falls, and what the average cost is.

  A Python exception inside the transaction is \<open>Inl\<close> and leaves the caller's state, the
  rollback. Quantities and prices are rounded to their column's scale when a row is saved.
\<close>

named_theorems ingest_simps "definitions unfolded when an ingested event is analysed"

subsection \<open>Payloads\<close>

definition opt_num :: "rat option \<Rightarrow> wire_val" where
  "opt_num x = (case x of None \<Rightarrow> WNull | Some r \<Rightarrow> WNum r)"

definition order_to_wire :: "order \<Rightarrow> wire_dict" where
  "order_to_wire od =
     [(''id'', WId (o_id od)),
      (''client_order_id'', WStr (o_coid od)),
      (''broker_order_id'', WStr (o_boid od)),
      (''symbol'', WStr (o_symbol od)),
      (''side'', WStr (order_side_str (o_side od))),
      (''qty'', WNum (o_qty od)),
      (''filled_qty'', WNum (o_filled od)),
      (''order_type'', WStr (order_type_str (o_type od))),
      (''limit_price'', opt_num (o_limit od)),
      (''status'', WStr (order_status_str (o_status od))),
      (''reason'', WStr (o_reason od)),
      (''created_at'', WTime (o_created od))]"

definition unrealized_pnl :: "position \<Rightarrow> rat option" where
  "unrealized_pnl p =
     (case p_market_price p of None \<Rightarrow> None | Some m \<Rightarrow> Some ((m - p_avg_cost p) * p_qty p))"

definition position_to_wire :: "position \<Rightarrow> wire_dict" where
  "position_to_wire p =
     [(''symbol'', WStr (p_symbol p)),
      (''qty'', WNum (p_qty p)),
      (''avg_cost'', WNum (p_avg_cost p)),
      (''market_price'', opt_num (p_market_price p)),
      (''unrealized_pnl'', opt_num (unrealized_pnl p)),
      (''broker_account'', WId (p_account p))]"

definition fill_row_to_wire :: "string \<Rightarrow> fill \<Rightarrow> wire_dict" where
  "fill_row_to_wire symbol f =
     [(''id'', WId (f_id f)),
      (''order_id'', WId (f_order f)),
      (''symbol'', WStr symbol),
      (''qty'', WNum (f_qty f)),
      (''price'', WNum (f_price f)),
      (''ts'', WTime (f_ts f)),
      (''broker_exec_id'', WStr (f_exec f))]"

definition push_to_user :: "nat \<Rightarrow> push_type \<Rightarrow> wire_dict \<Rightarrow> db \<Rightarrow> db" where
  "push_to_user uid ty data db =
     db\<lparr>d_pushes := d_pushes db @ [\<lparr>u_user = uid, u_type = ty, u_data = data\<rparr>]\<rparr>"

definition audit_emit :: "audit_call \<Rightarrow> db \<Rightarrow> db" where
  "audit_emit c db = db\<lparr>d_audits := d_audits db @ [c]\<rparr>"

definition parse_ts :: "env \<Rightarrow> string option \<Rightarrow> int" where
  "parse_ts env ts =
     (case ts of
        None \<Rightarrow> e_now env
      | Some s \<Rightarrow>
          if s = [] then e_now env
          else (case e_parse_dt env s of None \<Rightarrow> e_now env | Some t \<Rightarrow> t))"

subsection \<open>Position arithmetic\<close>

definition buy_sides :: "order_side list" where
  "buy_sides = [BUY, BUY_TO_OPEN, BUY_TO_CLOSE]"

definition signed_qty :: "order_side \<Rightarrow> rat \<Rightarrow> rat" where
  "signed_qty side q = (if side \<in> set buy_sides then q else - q)"

definition fill_avg_cost :: "rat \<Rightarrow> rat \<Rightarrow> rat \<Rightarrow> rat \<Rightarrow> rat \<Rightarrow> rat" where
  "fill_avg_cost old_qty old_avg signed qty price =
     (let new_qty = old_qty + signed
      in if old_qty = 0 \<or> new_qty = 0 then (if new_qty \<noteq> 0 then price else 0)
         else if (0 < old_qty) = (0 < signed)
           then (old_avg * \<bar>old_qty\<bar> + price * qty) / \<bar>new_qty\<bar>
         else if (0 < old_qty) \<noteq> (0 < new_qty) then price
         else old_avg)"

definition fill_position :: "order_side \<Rightarrow> rat \<Rightarrow> rat \<Rightarrow> position \<Rightarrow> position" where
  "fill_position side qty price p =
     (let signed = signed_qty side qty
      in p\<lparr>p_qty := quantize 8 (p_qty p + signed),
           p_avg_cost := quantize 4 (fill_avg_cost (p_qty p) (p_avg_cost p) signed qty price),
           p_market_price := Some (quantize 4 price)\<rparr>)"

definition pos_key :: "nat \<Rightarrow> string \<Rightarrow> position \<Rightarrow> bool" where
  "pos_key acct symb p \<longleftrightarrow> p_account p = acct \<and> p_symbol p = symb"

definition get_position :: "nat \<Rightarrow> string \<Rightarrow> db \<Rightarrow> position option" where
  "get_position acct symb db = first_where (pos_key acct symb) (d_positions db)"

definition new_position :: "nat \<Rightarrow> nat \<Rightarrow> string \<Rightarrow> position" where
  "new_position uid acct symb =
     \<lparr>p_user = uid, p_account = acct, p_symbol = symb, p_qty = 0, p_avg_cost = 0, p_market_price = None\<rparr>"

text \<open>\<open>get_or_create\<close> followed by a change of the row it returns.\<close>

definition with_position :: "nat \<Rightarrow> nat \<Rightarrow> string \<Rightarrow> (position \<Rightarrow> position) \<Rightarrow> db \<Rightarrow> db" where
  "with_position uid acct symb f db =
     (case get_position acct symb db of
        None \<Rightarrow> db\<lparr>d_positions := d_positions db @ [f (new_position uid acct symb)]\<rparr>
      | Some _ \<Rightarrow> db\<lparr>d_positions := update_where (pos_key acct symb) f (d_positions db)\<rparr>)"

definition apply_fill_to_position :: "order \<Rightarrow> nat \<Rightarrow> rat \<Rightarrow> rat \<Rightarrow> db \<Rightarrow> db" where
  "apply_fill_to_position od acct qty price db =
     with_position (o_user od) acct (o_symbol od) (fill_position (o_side od) qty price) db"

subsection \<open>Ingesting one broker event\<close>

datatype ingest_error = InvalidOperation | IntegrityError

datatype ingest_outcome = Ignored | Applied nat order_status bool bool

definition find_order :: "fill_event \<Rightarrow> db \<Rightarrow> order option" where
  "find_order ev db =
     (case first_where (\<lambda>od. o_coid od = fe_coid ev) (d_orders db) of
        Some od \<Rightarrow> Some od
      | None \<Rightarrow>
          if fe_boid ev \<noteq> [] then first_where (\<lambda>od. o_boid od = fe_boid ev) (d_orders db) else None)"

text \<open>\<open>d > 0\<close> of a \<open>Decimal\<close>: a comparison with NaN raises.\<close>

definition dec_positive :: "decimal \<Rightarrow> bool option" where
  "dec_positive d =
     (case d of DFin s c e \<Rightarrow> Some (0 < dec_value d) | DInf s \<Rightarrow> Some (\<not> s) | DNaN \<Rightarrow> None)"

definition is_fill_type :: "string \<Rightarrow> bool" where
  "is_fill_type t \<longleftrightarrow> t = ''fill'' \<or> t = ''partial_fill''"

definition fill_key :: "nat option \<Rightarrow> string \<Rightarrow> fill \<Rightarrow> bool" where
  "fill_key acct exec f \<longleftrightarrow> f_account f = acct \<and> f_exec f = exec"

definition find_fill :: "order \<Rightarrow> fill_event \<Rightarrow> db \<Rightarrow> fill option" where
  "find_fill od ev db = first_where (fill_key (o_account od) (fe_exec ev)) (d_fills db)"

definition new_fill :: "env \<Rightarrow> order \<Rightarrow> fill_event \<Rightarrow> nat \<Rightarrow> fill" where
  "new_fill env od ev i =
     \<lparr>f_id = i, f_order = o_id od, f_account = o_account od, f_qty = dec_value (fe_qty ev),
      f_price = dec_value (fe_price ev), f_ts = parse_ts env (fe_ts ev), f_exec = fe_exec ev\<rparr>"

definition save_fill :: "fill \<Rightarrow> fill" where
  "save_fill f = f\<lparr>f_qty := quantize 8 (f_qty f), f_price := quantize 4 (f_price f)\<rparr>"

text \<open>
  The fill part: whether the event carries an execution, whether the execution is already
  recorded, and the new row, position, quantity and audit record if it is not. The result
  is the state, the order in memory and the created row.
\<close>

definition record_fill ::
  "env \<Rightarrow> fill_event \<Rightarrow> nat \<Rightarrow> order \<Rightarrow> db \<Rightarrow> ingest_error + (db \<times> order \<times> fill option)" where
  "record_fill env ev uid od db =
     (if \<not> is_fill_type (fe_type ev) then Inr (db, od, None)
      else case dec_positive (fe_qty ev) of
        None \<Rightarrow> Inl InvalidOperation
      | Some False \<Rightarrow> Inr (db, od, None)
      | Some True \<Rightarrow>
          (case find_fill od ev db of
             Some _ \<Rightarrow> Inr (db, od, None)
           | None \<Rightarrow>
               if \<not> dec_is_finite (fe_qty ev) \<or> \<not> dec_is_finite (fe_price ev) then Inl InvalidOperation
               else (case o_account od of
                 None \<Rightarrow> Inl IntegrityError
               | Some acct \<Rightarrow>
                   let row = new_fill env od ev (d_next db);
                       qty = dec_value (fe_qty ev);
                       db1 = db\<lparr>d_fills := d_fills db @ [save_fill row], d_next := d_next db + 1\<rparr>;
                       db2 = apply_fill_to_position od acct qty (dec_value (fe_price ev)) db1;
                       db3 = audit_emit
                         \<lparr>ac_event = ''order.fill_ingested'', ac_user = Some uid, ac_actor = None,
                          ac_entity = ''fill'', ac_entity_id = nat_str (f_id row),
                          ac_after = [(''order_id'', WId (o_id od)), (''qty'', WNum qty),
                                      (''price'', WNum (dec_value (fe_price ev))),
                                      (''broker_exec_id'', WStr (fe_exec ev))]\<rparr> db2
                   in Inr (db3, od\<lparr>o_filled := o_filled od + qty\<rparr>, Some row))))"

text \<open>The broker's cumulative quantity, when the event carries one, never lowers the count.\<close>

definition apply_cumulative :: "fill_event \<Rightarrow> order \<Rightarrow> ingest_error + order" where
  "apply_cumulative ev od =
     (case dec_positive (fe_filled ev) of
        None \<Rightarrow> Inl InvalidOperation
      | Some False \<Rightarrow> Inr od
      | Some True \<Rightarrow>
          if dec_is_finite (fe_filled ev)
          then Inr (od\<lparr>o_filled := max (o_filled od) (dec_value (fe_filled ev))\<rparr>)
          else Inl InvalidOperation)"

definition status_from_event :: "string \<Rightarrow> order_status option" where
  "status_from_event t =
     (if t = ''new'' then Some SUBMITTED
      else if t = ''canceled'' then Some CANCELLED
      else if t = ''rejected'' then Some REJECTED
      else if t = ''partial_fill'' then Some PARTIAL
      else None)"

definition terminal_status :: "order_status \<Rightarrow> bool" where
  "terminal_status st \<longleftrightarrow> st = FILLED \<or> st = CANCELLED \<or> st = REJECTED"

definition resolve_status :: "string \<Rightarrow> order \<Rightarrow> order_status" where
  "resolve_status t od =
     (if t = ''fill'' then (if o_qty od \<le> o_filled od then FILLED else PARTIAL)
      else (case status_from_event t of
              None \<Rightarrow> o_status od
            | Some st \<Rightarrow> if terminal_status (o_status od) then o_status od else st))"

definition save_order :: "order \<Rightarrow> db \<Rightarrow> db" where
  "save_order od db =
     db\<lparr>d_orders := update_where (\<lambda>x. o_id x = o_id od) (\<lambda>_. od\<lparr>o_filled := quantize 8 (o_filled od)\<rparr>)
                     (d_orders db)\<rparr>"

definition adopt_broker_id :: "fill_event \<Rightarrow> order \<Rightarrow> order" where
  "adopt_broker_id ev od =
     (if fe_boid ev \<noteq> [] \<and> o_boid od \<noteq> fe_boid ev then od\<lparr>o_boid := fe_boid ev\<rparr> else od)"

definition ingest_pushes :: "nat \<Rightarrow> order \<Rightarrow> fill option \<Rightarrow> db \<Rightarrow> db" where
  "ingest_pushes uid od row db =
     (let db1 = push_to_user uid ORDER_UPDATED (order_to_wire od) db
      in case row of
           None \<Rightarrow> db1
         | Some f \<Rightarrow>
             let db2 = push_to_user uid FILL_CREATED (fill_row_to_wire (o_symbol od) f) db1
             in (case o_account od of
                   None \<Rightarrow> db2
                 | Some acct \<Rightarrow>
                     (case get_position acct (o_symbol od) db2 of
                        None \<Rightarrow> db2
                      | Some p \<Rightarrow> push_to_user uid POSITION_UPDATED (position_to_wire p) db2)))"

definition ingest_fill_event ::
  "env \<Rightarrow> fill_event \<Rightarrow> nat \<Rightarrow> db \<Rightarrow> ingest_error + (db \<times> ingest_outcome)" where
  "ingest_fill_event env ev uid db =
     (case find_order ev db of
        None \<Rightarrow> Inr (db, Ignored)
      | Some o0 \<Rightarrow>
          (case record_fill env ev uid (adopt_broker_id ev o0) db of
             Inl e \<Rightarrow> Inl e
           | Inr (db1, o1, row) \<Rightarrow>
               (case apply_cumulative ev o1 of
                  Inl e \<Rightarrow> Inl e
                | Inr o2 \<Rightarrow>
                    let o3 = o2\<lparr>o_status := resolve_status (fe_type ev) o2\<rparr>
                    in Inr (ingest_pushes uid o3 row (save_order o3 db1),
                            Applied (o_id o3) (o_status o3) (row \<noteq> None) (row \<noteq> None)))))"

text \<open>A stream of events, each applied to the state the last one left; a failed one is skipped.\<close>

fun ingest_all :: "env \<Rightarrow> fill_event list \<Rightarrow> nat \<Rightarrow> db \<Rightarrow> db" where
  "ingest_all env [] uid db = db"
| "ingest_all env (ev # evs) uid db =
     (case ingest_fill_event env ev uid db of
        Inl _ \<Rightarrow> ingest_all env evs uid db
      | Inr (db', _) \<Rightarrow> ingest_all env evs uid db')"

subsection \<open>Positions as rows\<close>

lemma pos_key_unique:
  "distinct (map (\<lambda>p. (p_account p, p_symbol p)) ps) \<Longrightarrow> p \<in> set ps \<Longrightarrow> q \<in> set ps \<Longrightarrow>
   pos_key a s p \<Longrightarrow> pos_key a s q \<Longrightarrow> p = q"
  by (auto simp: pos_key_def distinct_map inj_on_def)

lemma get_position_key: "get_position a s db = Some p \<Longrightarrow> p_account p = a \<and> p_symbol p = s"
  by (auto simp: get_position_def pos_key_def dest: first_where_Some)

lemma get_with_position:
  assumes keep: "\<And>p. p_account (f p) = p_account p \<and> p_symbol (f p) = p_symbol p"
  shows "get_position a' s' (with_position uid a s f db) =
    (if a' = a \<and> s' = s
     then Some (f (case get_position a s db of None \<Rightarrow> new_position uid a s | Some p \<Rightarrow> p))
     else get_position a' s' db)"
proof (cases "get_position a s db")
  case None
  then show ?thesis
    by (auto simp: with_position_def get_position_def first_where_append first_where_Cons pos_key_def keep
        new_position_def split: option.splits)
next
  case (Some p)
  have "first_where (pos_key a' s') (update_where (pos_key a s) f (d_positions db)) =
      map_option (\<lambda>x. if pos_key a s x then f x else x) (first_where (pos_key a' s') (d_positions db))"
    by (rule first_where_update_where) (simp add: pos_key_def keep)
  moreover have "\<not> pos_key a s x" if "first_where (pos_key a' s') (d_positions db) = Some x" "\<not> (a' = a \<and> s' = s)" for x
    using that by (auto simp: pos_key_def dest: first_where_Some)
  moreover have "pos_key a s p" using Some by (auto simp: get_position_def dest: first_where_Some)
  ultimately show ?thesis using Some
    by (cases "first_where (pos_key a' s') (d_positions db)") (auto simp: with_position_def get_position_def)
qed

lemma fill_position_key [simp]:
  "p_account (fill_position sd q pr p) = p_account p" "p_symbol (fill_position sd q pr p) = p_symbol p"
  "p_user (fill_position sd q pr p) = p_user p"
  by (simp_all add: fill_position_def Let_def)

lemma with_position_frame [simp]:
  "d_orders (with_position u a s f db) = d_orders db" "d_fills (with_position u a s f db) = d_fills db"
  "d_next (with_position u a s f db) = d_next db" "d_cache (with_position u a s f db) = d_cache db"
  by (simp_all add: with_position_def split: option.splits)

lemma push_audit_frame [simp]:
  "d_orders (push_to_user u t d db) = d_orders db" "d_fills (push_to_user u t d db) = d_fills db"
  "d_positions (push_to_user u t d db) = d_positions db" "d_next (push_to_user u t d db) = d_next db"
  "d_orders (audit_emit c db) = d_orders db" "d_fills (audit_emit c db) = d_fills db"
  "d_positions (audit_emit c db) = d_positions db" "d_next (audit_emit c db) = d_next db"
  "get_position a s (push_to_user u t d db) = get_position a s db"
  "get_position a s (audit_emit c db) = get_position a s db"
  by (simp_all add: push_to_user_def audit_emit_def get_position_def)

lemma ingest_pushes_frame [simp]:
  "d_orders (ingest_pushes u od row db) = d_orders db" "d_fills (ingest_pushes u od row db) = d_fills db"
  "d_positions (ingest_pushes u od row db) = d_positions db" "d_next (ingest_pushes u od row db) = d_next db"
  "get_position a s (ingest_pushes u od row db) = get_position a s db"
  by (simp_all add: ingest_pushes_def Let_def split: option.splits)

lemma save_order_frame [simp]:
  "d_fills (save_order od db) = d_fills db" "d_positions (save_order od db) = d_positions db"
  "d_next (save_order od db) = d_next db" "get_position a s (save_order od db) = get_position a s db"
  by (simp_all add: save_order_def get_position_def)

subsection \<open>The ledger of an account\<close>

definition order_of :: "db \<Rightarrow> fill \<Rightarrow> order option" where
  "order_of db f = first_where (\<lambda>od. o_id od = f_order f) (d_orders db)"

text \<open>The effect of a side on the position, side by side, independent of the code's set of buy sides.\<close>

primrec side_sign :: "order_side \<Rightarrow> rat" where
  "side_sign BUY = 1"
| "side_sign SELL = - 1"
| "side_sign BUY_TO_OPEN = 1"
| "side_sign SELL_TO_OPEN = - 1"
| "side_sign BUY_TO_CLOSE = 1"
| "side_sign SELL_TO_CLOSE = - 1"

lemma signed_qty_sign: "signed_qty side q = side_sign side * q"
  by (cases side) (simp_all add: signed_qty_def buy_sides_def)

definition fill_signed :: "db \<Rightarrow> nat \<Rightarrow> string \<Rightarrow> fill \<Rightarrow> rat" where
  "fill_signed db a s f =
     (case order_of db f of
        None \<Rightarrow> 0
      | Some od \<Rightarrow> if f_account f = Some a \<and> o_symbol od = s then side_sign (o_side od) * f_qty f else 0)"

definition ledger :: "db \<Rightarrow> nat \<Rightarrow> string \<Rightarrow> rat" where
  "ledger db a s = sum_list (map (fill_signed db a s) (d_fills db))"

definition position_qty :: "db \<Rightarrow> nat \<Rightarrow> string \<Rightarrow> rat" where
  "position_qty db a s = (case get_position a s db of None \<Rightarrow> 0 | Some p \<Rightarrow> p_qty p)"

definition ledger_ok :: "db \<Rightarrow> bool" where
  "ledger_ok db \<longleftrightarrow> (\<forall>a s. position_qty db a s = ledger db a s)"

text \<open>
  Well-formed tables: order ids are keys, a fill refers to an order that is there, and
  the stored quantities are at the scale of their column.
\<close>

definition orders_wf :: "db \<Rightarrow> bool" where
  "orders_wf db \<longleftrightarrow>
     distinct (map o_id (d_orders db)) \<and>
     (\<forall>f\<in>set (d_fills db). \<exists>od\<in>set (d_orders db). o_id od = f_order f) \<and>
     (\<forall>p\<in>set (d_positions db). has_scale 8 (p_qty p)) \<and>
     (\<forall>od\<in>set (d_orders db). has_scale 8 (o_filled od))"

definition order_core :: "order \<Rightarrow> nat \<times> nat \<times> nat option \<times> string \<times> string \<times> order_side \<times> rat" where
  "order_core od = (o_id od, o_user od, o_account od, o_coid od, o_symbol od, o_side od, o_qty od)"

lemma adopt_core [simp]:
  "order_core (adopt_broker_id ev od) = order_core od" "o_filled (adopt_broker_id ev od) = o_filled od"
  "o_status (adopt_broker_id ev od) = o_status od"
  by (simp_all add: adopt_broker_id_def order_core_def)

lemma apply_cumulative_core:
  "apply_cumulative ev od = Inr od' \<Longrightarrow>
   order_core od' = order_core od \<and> o_status od' = o_status od \<and> o_boid od' = o_boid od \<and> o_filled od \<le> o_filled od'"
  by (auto simp: apply_cumulative_def order_core_def split: option.splits bool.splits if_splits)

lemma find_order_frame: "d_orders db' = d_orders db \<Longrightarrow> find_order ev db' = find_order ev db"
  by (simp add: find_order_def cong: option.case_cong)

lemma find_order_Some: "find_order ev db = Some od \<Longrightarrow> od \<in> set (d_orders db)"
  by (auto simp: find_order_def dest: first_where_Some split: option.splits if_splits)

text \<open>The two ways the fill part can succeed.\<close>

lemma record_fill_cases:
  assumes "record_fill env ev uid od db = Inr (db1, o1, row)"
  obtains (none) "db1 = db" "o1 = od" "row = None"
  | (created) acct where "row = Some (new_fill env od ev (d_next db))" "o_account od = Some acct"
      "is_fill_type (fe_type ev)" "0 < dec_value (fe_qty ev)" "find_fill od ev db = None"
      "o1 = od\<lparr>o_filled := o_filled od + dec_value (fe_qty ev)\<rparr>"
      "d_orders db1 = d_orders db" "d_next db1 = d_next db + 1"
      "d_fills db1 = d_fills db @ [save_fill (new_fill env od ev (d_next db))]"
      "\<And>a s. get_position a s db1 = get_position a s
         (with_position (o_user od) acct (o_symbol od)
           (fill_position (o_side od) (dec_value (fe_qty ev)) (dec_value (fe_price ev))) db)"
      "d_positions db1 = d_positions
         (with_position (o_user od) acct (o_symbol od)
           (fill_position (o_side od) (dec_value (fe_qty ev)) (dec_value (fe_price ev))) db)"
proof -
  have dp: "d_positions (with_position u a s f (db\<lparr>d_fills := X, d_next := Y\<rparr>)) = d_positions (with_position u a s f db)"
    for u a s f X Y by (simp add: with_position_def get_position_def split: option.splits)
  then have gp: "get_position a' s' (with_position u a s f (db\<lparr>d_fills := X, d_next := Y\<rparr>)) =
      get_position a' s' (with_position u a s f db)" for u a s f X Y a' s'
    by (simp add: get_position_def)
  consider "db1 = db \<and> o1 = od \<and> row = None"
    | acct where "is_fill_type (fe_type ev)" "dec_positive (fe_qty ev) = Some True" "dec_is_finite (fe_qty ev)"
        "find_fill od ev db = None" "o_account od = Some acct"
    using assms by (auto simp: record_fill_def split: if_splits option.splits bool.splits)
  then show thesis
  proof cases
    case 1
    then show ?thesis by (simp add: none)
  next
    case (2 acct)
    then have "0 < dec_value (fe_qty ev)"
      by (cases "fe_qty ev") (auto simp: dec_positive_def)
    with 2 assms show ?thesis
      by (intro created [of acct])
        (auto simp: record_fill_def apply_fill_to_position_def Let_def dp gp split: if_splits)
  qed
qed

subsection \<open>What one event does to the tables\<close>

lemma order_by_id:
  "distinct (map o_id os) \<Longrightarrow> od \<in> set os \<Longrightarrow> first_where (\<lambda>x. o_id x = o_id od) os = Some od"
  by (rule first_where_unique) (auto simp: distinct_map inj_on_def)

lemma order_of_save_order:
  assumes "distinct (map o_id (d_orders db))" and "od0 \<in> set (d_orders db)" and "order_core od = order_core od0"
  shows "map_option (\<lambda>x. (o_symbol x, o_side x)) (order_of (save_order od db) f) =
         map_option (\<lambda>x. (o_symbol x, o_side x)) (order_of db f)"
proof -
  have same: "o_symbol x = o_symbol od \<and> o_side x = o_side od"
    if "x \<in> set (d_orders db)" "o_id x = o_id od" for x
    using assms that by (auto simp: order_core_def distinct_map inj_on_def)
  have "order_of (save_order od db) f =
      map_option (\<lambda>x. if o_id x = o_id od then od\<lparr>o_filled := quantize 8 (o_filled od)\<rparr> else x) (order_of db f)"
    unfolding order_of_def save_order_def by (simp add: first_where_update_where)
  with same show ?thesis
    by (cases "order_of db f") (auto simp: order_of_def dest!: first_where_Some)
qed

lemma fill_signed_cong:
  "map_option (\<lambda>x. (o_symbol x, o_side x)) (order_of db' f) = map_option (\<lambda>x. (o_symbol x, o_side x)) (order_of db f) \<Longrightarrow>
   fill_signed db' a s f = fill_signed db a s f"
  by (auto simp: fill_signed_def split: option.splits)

lemma order_of_frame: "d_orders db' = d_orders db \<Longrightarrow> order_of db' f = order_of db f"
  by (simp add: order_of_def)

lemma ledger_save_order:
  assumes "distinct (map o_id (d_orders db))" and "od0 \<in> set (d_orders db)" and "order_core od = order_core od0"
  shows "ledger (save_order od db) a s = ledger db a s"
  unfolding ledger_def save_order_frame
  by (rule arg_cong [where f = sum_list], rule map_cong [OF refl], rule fill_signed_cong)
    (rule order_of_save_order [OF assms])

lemma signed_qty_simps [simp]:
  "has_scale 8 (signed_qty sd q) \<longleftrightarrow> has_scale 8 q" "signed_qty sd q = 0 \<longleftrightarrow> q = 0"
  by (simp_all add: signed_qty_def)

lemma fill_position_qty: "p_qty (fill_position sd q pr p) = quantize 8 (p_qty p + signed_qty sd q)"
  by (simp add: fill_position_def Let_def)

lemma position_qty_with_fill:
  assumes "\<And>p. p \<in> set (d_positions db) \<Longrightarrow> has_scale 8 (p_qty p)" and "has_scale 8 q"
  shows "(case get_position a' s' (with_position u a s (fill_position sd q pr) db) of None \<Rightarrow> 0 | Some p \<Rightarrow> p_qty p) =
    position_qty db a' s' + (if a' = a \<and> s' = s then signed_qty sd q else 0)"
proof -
  have "has_scale 8 (p_qty (case get_position a s db of None \<Rightarrow> new_position u a s | Some p \<Rightarrow> p))"
    using assms(1) by (auto simp: new_position_def get_position_def split: option.splits dest!: first_where_Some)
  then have "quantize 8 (p_qty (case get_position a s db of None \<Rightarrow> new_position u a s | Some p \<Rightarrow> p) + signed_qty sd q) =
      p_qty (case get_position a s db of None \<Rightarrow> new_position u a s | Some p \<Rightarrow> p) + signed_qty sd q"
    using assms(2) by (intro quantize_id has_scale_add) simp_all
  then show ?thesis
    by (simp add: get_with_position fill_position_qty position_qty_def new_position_def split: option.splits)
qed

lemma ledger_new_fill:
  assumes wf: "distinct (map o_id (d_orders db))" and od0: "od0 \<in> set (d_orders db)"
    and core: "order_core od = order_core od0" and acct: "o_account od = Some acct"
    and db1: "d_orders db1 = d_orders db" "d_fills db1 = d_fills db @ [save_fill (new_fill env od ev i)]"
    and scale: "has_scale 8 (dec_value (fe_qty ev))"
  shows "ledger db1 a s = ledger db a s +
    (if a = acct \<and> s = o_symbol od then signed_qty (o_side od) (dec_value (fe_qty ev)) else 0)"
proof -
  have "o_id od0 = o_id od" using core by (simp add: order_core_def)
  with order_by_id [OF wf od0] have "order_of db (save_fill (new_fill env od ev i)) = Some od0"
    by (simp add: order_of_def save_fill_def new_fill_def)
  with core acct scale have "fill_signed db a s (save_fill (new_fill env od ev i)) =
      (if a = acct \<and> s = o_symbol od then signed_qty (o_side od) (dec_value (fe_qty ev)) else 0)"
    by (auto simp: fill_signed_def order_core_def save_fill_def new_fill_def quantize_id signed_qty_sign)
  moreover have "fill_signed db1 a s = fill_signed db a s"
    by (rule ext, rule fill_signed_cong) (simp add: order_of_frame [OF db1(1)])
  ultimately show ?thesis by (simp add: ledger_def db1(2))
qed

text \<open>An event that is applied, taken apart once for all the proofs below.\<close>

lemma ingest_cases:
  assumes "ingest_fill_event env ev uid db = Inr (db', r)"
  obtains (ignored) "find_order ev db = None" "db' = db" "r = Ignored"
  | (applied) od0 db1 o1 row o2 o3 where
      "find_order ev db = Some od0" "od0 \<in> set (d_orders db)"
      "record_fill env ev uid (adopt_broker_id ev od0) db = Inr (db1, o1, row)"
      "apply_cumulative ev o1 = Inr o2"
      "o3 = o2\<lparr>o_status := resolve_status (fe_type ev) o2\<rparr>"
      "db' = ingest_pushes uid o3 row (save_order o3 db1)"
      "r = Applied (o_id o3) (o_status o3) (row \<noteq> None) (row \<noteq> None)"
      "order_core o1 = order_core od0" "order_core o3 = order_core od0"
      "o_status o2 = o_status od0" "o_filled od0 \<le> o_filled o3"
proof (cases "find_order ev db")
  case None
  with assms show ?thesis by (intro ignored) (auto simp: ingest_fill_event_def)
next
  case (Some od0)
  with assms obtain db1 o1 row o2 where
    rec: "record_fill env ev uid (adopt_broker_id ev od0) db = Inr (db1, o1, row)"
    and cum: "apply_cumulative ev o1 = Inr o2"
    and fin: "db' = ingest_pushes uid (o2\<lparr>o_status := resolve_status (fe_type ev) o2\<rparr>) row
        (save_order (o2\<lparr>o_status := resolve_status (fe_type ev) o2\<rparr>) db1)"
      "r = Applied (o_id o2) (resolve_status (fe_type ev) o2) (row \<noteq> None) (row \<noteq> None)"
    by (auto simp: ingest_fill_event_def Let_def split: sum.splits)
  have "order_core o1 = order_core od0 \<and> o_status o1 = o_status od0 \<and> o_filled od0 \<le> o_filled o1"
    using rec
  proof (cases rule: record_fill_cases)
    case none
    then show ?thesis by simp
  next
    case (created acct)
    then show ?thesis using adopt_core [of ev od0] by (simp add: order_core_def)
  qed
  moreover note apply_cumulative_core [OF cum]
  ultimately show ?thesis
    using Some rec cum fin find_order_Some [OF Some]
    by (intro applied [of od0 db1 o1 row o2 "o2\<lparr>o_status := resolve_status (fe_type ev) o2\<rparr>"])
      (auto simp: order_core_def)
qed

subsection \<open>Positions are the ledger of the fills\<close>

lemma save_order_wf:
  assumes "orders_wf db" and "od0 \<in> set (d_orders db)" and "o_id od = o_id od0"
  shows "distinct (map o_id (d_orders (save_order od db)))"
    and "o_id ` set (d_orders (save_order od db)) = o_id ` set (d_orders db)"
    and "\<forall>x\<in>set (d_orders (save_order od db)). has_scale 8 (o_filled x)"
proof -
  have "map o_id (d_orders (save_order od db)) = map o_id (d_orders db)"
    unfolding save_order_def by simp (rule map_update_where, simp)
  then show "distinct (map o_id (d_orders (save_order od db)))"
    and "o_id ` set (d_orders (save_order od db)) = o_id ` set (d_orders db)"
    using assms by (simp_all add: orders_wf_def) (metis list.set_map)
  show "\<forall>x\<in>set (d_orders (save_order od db)). has_scale 8 (o_filled x)"
    using assms by (auto simp: save_order_def set_update_where orders_wf_def)
qed

lemma orders_wf_ids:
  "orders_wf db \<longleftrightarrow> distinct (map o_id (d_orders db)) \<and> f_order ` set (d_fills db) \<subseteq> o_id ` set (d_orders db) \<and>
     (\<forall>p\<in>set (d_positions db). has_scale 8 (p_qty p)) \<and> (\<forall>od\<in>set (d_orders db). has_scale 8 (o_filled od))"
  unfolding orders_wf_def by (force simp: image_iff)

lemma ingest_pushes_ledger [simp]:
  "orders_wf (ingest_pushes u od row db) = orders_wf db"
  "ledger (ingest_pushes u od row db) = ledger db"
  "position_qty (ingest_pushes u od row db) = position_qty db"
  by (simp_all add: orders_wf_def ledger_def fill_signed_def order_of_def position_qty_def fun_eq_iff
      cong: option.case_cong map_cong)

lemma with_fill_scale:
  "\<forall>p\<in>set (d_positions db). has_scale 8 (p_qty p) \<Longrightarrow>
   p \<in> set (d_positions (with_position u a s (fill_position sd q pr) db)) \<Longrightarrow> has_scale 8 (p_qty p)"
  by (auto simp: with_position_def set_update_where fill_position_qty split: option.splits)

lemma record_fill_step:
  assumes rec: "record_fill env ev uid od db = Inr (db1, o1, row)"
    and wf: "orders_wf db" and od0: "od0 \<in> set (d_orders db)" "order_core od = order_core od0"
    and scale: "has_scale 8 (dec_value (fe_qty ev))"
  shows "orders_wf db1 \<and> d_orders db1 = d_orders db \<and> (ledger_ok db \<longrightarrow> ledger_ok db1)"
  using rec
proof (cases rule: record_fill_cases)
  case none
  with wf show ?thesis by simp
next
  case (created acct)
  have "o_id od = o_id od0" using od0 by (simp add: order_core_def)
  then have "orders_wf db1"
    using wf created(7,9,11) od0(1) with_fill_scale [of db]
    by (auto simp: orders_wf_ids save_fill_def new_fill_def)
  moreover have "position_qty db1 a s = position_qty db a s +
      (if a = acct \<and> s = o_symbol od then signed_qty (o_side od) (dec_value (fe_qty ev)) else 0)" for a s
    unfolding position_qty_def [of db1] created(10)
    by (rule position_qty_with_fill [OF _ scale]) (use wf in \<open>simp add: orders_wf_def\<close>)
  moreover have "ledger db1 a s = ledger db a s +
      (if a = acct \<and> s = o_symbol od then signed_qty (o_side od) (dec_value (fe_qty ev)) else 0)" for a s
    by (rule ledger_new_fill [OF _ od0 created(2,7,9) scale]) (use wf in \<open>simp add: orders_wf_def\<close>)
  ultimately show ?thesis using created(7) by (simp add: ledger_ok_def)
qed

lemma ingest_step:
  assumes ing: "ingest_fill_event env ev uid db = Inr (db', r)" and wf: "orders_wf db"
    and scale: "has_scale 8 (dec_value (fe_qty ev))"
  shows "orders_wf db' \<and> (ledger_ok db \<longrightarrow> ledger_ok db')"
  using ing
proof (cases rule: ingest_cases)
  case ignored
  with wf show ?thesis by simp
next
  case (applied od0 db1 o1 row o2 o3)
  have step: "orders_wf db1" "d_orders db1 = d_orders db" "ledger_ok db \<longrightarrow> ledger_ok db1"
    using record_fill_step [OF applied(3) wf applied(2) adopt_core(1) scale] by auto
  have od0: "od0 \<in> set (d_orders db1)" using applied(2) step(2) by simp
  have "o_id o3 = o_id od0" using applied(9) by (simp add: order_core_def)
  note save = save_order_wf [OF step(1) od0 this]
  have "orders_wf (save_order o3 db1)"
    using step(1) save by (simp add: orders_wf_ids)
  moreover have "ledger (save_order o3 db1) a s = ledger db1 a s" for a s
    by (rule ledger_save_order [OF _ od0 applied(9)]) (use step(1) in \<open>simp add: orders_wf_def\<close>)
  ultimately show ?thesis
    using step(3) unfolding applied(6)
    by (simp add: ledger_ok_def position_qty_def)
qed

subsection \<open>Evaluating ingestion on the sample rows\<close>

lemmas ingest_eval =
  sample_defs ingest_fill_event_def find_order_def table_simps record_fill_def is_fill_type_def
  dec_positive_def dec_value_def find_fill_def Let_def adopt_broker_id_def apply_cumulative_def
  resolve_status_def status_from_event_def terminal_status_def max_def apply_fill_to_position_def
  get_with_position get_position_def with_position_def save_order_def ingest_pushes_def
  fill_position_def new_position_def signed_qty_def buy_sides_def quantize_def round_half_even_def
  fill_avg_cost_def pos_key_def fill_key_def new_fill_def save_fill_def audit_emit_def push_to_user_def

lemma sample_wf [simp]: "orders_wf sample_db" "ledger_ok sample_db"
  by (simp_all add: sample_defs orders_wf_def ledger_ok_def ledger_def position_qty_def get_position_def)

lemma sample_scale [simp]:
  "has_scale n (dec_value (fe_qty (sample_event e t q p c)))"
  "has_scale n (dec_value (fe_filled (sample_event e t q p c)))"
  by (auto simp: sample_event_def dec_value_def has_scale_iff intro: exI [of _ "int _ * 10 ^ n"])

lemma sample_ingest:
  "\<exists>db1. ingest_fill_event sample_env (sample_event ''e1'' ''partial_fill'' 4 100 4) 7 sample_db =
     Inr (db1, Applied 11 PARTIAL True True) \<and> position_qty db1 2 ''AAPL'' = 4"
  by (simp add: ingest_eval position_qty_def)

definition sample_events :: "fill_event list" where
  "sample_events = [sample_event ''e1'' ''partial_fill'' 4 100 4, sample_event ''e2'' ''fill'' 6 101 10,
     sample_event ''e1'' ''partial_fill'' 4 100 4]"

lemma sample_ingest_all: "position_qty (ingest_all sample_env sample_events 7 sample_db) 2 ''AAPL'' = 10"
  by (simp add: sample_events_def ingest_eval position_qty_def)

subsection \<open>Properties of ingestion\<close>

lemma ingest_all_ledger:
  "orders_wf db \<Longrightarrow> ledger_ok db \<Longrightarrow> (\<And>ev. ev \<in> set evs \<Longrightarrow> has_scale 8 (dec_value (fe_qty ev))) \<Longrightarrow>
   orders_wf (ingest_all env evs uid db) \<and> ledger_ok (ingest_all env evs uid db)"
proof (induction evs arbitrary: db)
  case Nil
  then show ?case by simp
next
  case (Cons ev evs)
  show ?case
  proof (cases "ingest_fill_event env ev uid db")
    case (Inl e)
    with Cons show ?thesis by simp
  next
    case (Inr dr)
    obtain db' r where dr: "dr = (db', r)" by (cases dr)
    have "orders_wf db' \<and> ledger_ok db'"
      using ingest_step [OF Inr [unfolded dr]] Cons.prems by simp
    with Cons Inr dr show ?thesis by simp
  qed
qed

text \<open>
  C1. Positions are the ledger. After any stream of broker events, delivered in any order
  and any number of times and with any of them failing, the position of every account in
  every symbol is the signed sum of the recorded fills (plus for the three buy sides, minus
  for the three sell sides), and the tables stay well formed. The event quantities are at
  the scale of the column (8 decimals), so that storing them rounds nothing.
\<close>

theorem positions_are_ledger:
  assumes "orders_wf db" and "ledger_ok db"
    and "\<And>ev. ev \<in> set evs \<Longrightarrow> has_scale 8 (dec_value (fe_qty ev))"
  shows "orders_wf (ingest_all env evs uid db) \<and>
    position_qty (ingest_all env evs uid db) a s = ledger (ingest_all env evs uid db) a s"
  using ingest_all_ledger [OF assms] by (simp add: ledger_ok_def)

theorem positions_are_ledger_witness:
  "position_qty (ingest_all sample_env sample_events 7 sample_db) 2 ''AAPL'' = 10 \<and>
   ledger (ingest_all sample_env sample_events 7 sample_db) 2 ''AAPL'' = 10"
proof -
  have "position_qty (ingest_all sample_env sample_events 7 sample_db) 2 ''AAPL'' =
      ledger (ingest_all sample_env sample_events 7 sample_db) 2 ''AAPL''"
    by (rule positions_are_ledger [OF sample_wf, THEN conjunct2]) (auto simp: sample_events_def)
  then show ?thesis using sample_ingest_all by simp
qed

text \<open>Reading the recorded executions: a second delivery finds the first.\<close>

lemma find_fill_after:
  assumes "record_fill env ev uid od db = Inr (db1, o1, row)" "row \<noteq> None"
  shows "find_fill od ev db1 \<noteq> None"
  using assms
proof (cases rule: record_fill_cases)
  case (created acct)
  then show ?thesis
    by (auto simp: find_fill_def first_where_append first_where_Cons fill_key_def save_fill_def new_fill_def
        split: option.splits)
qed simp

lemma find_order_after_save:
  assumes wf: "distinct (map o_id (d_orders db))" and "find_order ev db = Some od0"
    and core: "order_core od = order_core od0"
    and boid: "o_boid od = fe_boid ev \<or> (fe_boid ev = [] \<and> o_boid od = o_boid od0)"
  shows "find_order ev (save_order od db) = Some (od\<lparr>o_filled := quantize 8 (o_filled od)\<rparr>)"
proof -
  have in0: "od0 \<in> set (d_orders db)" by (rule find_order_Some [OF assms(2)])
  have only: "x = od0" if "x \<in> set (d_orders db)" "o_id x = o_id od" for x
    using that wf in0 core by (auto simp: order_core_def distinct_map inj_on_def)
  have id0: "o_id od0 = o_id od" and coid0: "o_coid od0 = o_coid od" using core by (simp_all add: order_core_def)
  let ?f = "\<lambda>x. if o_id x = o_id od then od\<lparr>o_filled := quantize 8 (o_filled od)\<rparr> else x"
  have c: "first_where (\<lambda>x. o_coid x = k) (d_orders (save_order od db)) =
      map_option ?f (first_where (\<lambda>x. o_coid x = k) (d_orders db))" for k
    unfolding save_order_def by simp (rule first_where_update_where, use only coid0 in auto)
  show ?thesis
  proof (cases "first_where (\<lambda>x. o_coid x = fe_coid ev) (d_orders db)")
    case (Some x)
    with assms(2) have "x = od0" by (simp add: find_order_def)
    with Some c id0 show ?thesis by (simp add: find_order_def)
  next
    case None
    with assms(2) have b: "fe_boid ev \<noteq> []" "first_where (\<lambda>x. o_boid x = fe_boid ev) (d_orders db) = Some od0"
      by (auto simp: find_order_def split: if_splits)
    then have b0: "o_boid od0 = fe_boid ev" by (auto dest: first_where_Some)
    have "first_where (\<lambda>x. o_boid x = fe_boid ev) (d_orders (save_order od db)) =
        map_option ?f (first_where (\<lambda>x. o_boid x = fe_boid ev) (d_orders db))"
      unfolding save_order_def by simp (rule first_where_update_where, use only b0 boid b(1) in auto)
    with None b c id0 show ?thesis by (simp add: find_order_def)
  qed
qed

lemma adopt_boid:
  "o_boid (adopt_broker_id ev od) = fe_boid ev \<or> (fe_boid ev = [] \<and> o_boid (adopt_broker_id ev od) = o_boid od)"
  by (simp add: adopt_broker_id_def)

lemma record_fill_boid:
  "record_fill env ev uid od db = Inr (db1, o1, row) \<Longrightarrow> o_boid o1 = o_boid od \<and> o_account o1 = o_account od"
  by (erule record_fill_cases) simp_all

lemma record_fill_filled:
  "record_fill env ev uid od db = Inr (db1, o1, row) \<Longrightarrow> has_scale 8 (o_filled od) \<Longrightarrow>
   has_scale 8 (dec_value (fe_qty ev)) \<Longrightarrow> has_scale 8 (o_filled o1)"
  by (erule record_fill_cases) (simp_all add: has_scale_add)

text \<open>Once the execution is on record, or if the event carries none, the fill part does nothing.\<close>

lemma record_fill_again:
  assumes "record_fill env ev uid od db = Inr (db1, o1, row)"
    and "d_fills db' = d_fills db1" and "o_account od' = o_account od"
  shows "record_fill env' ev uid od' db' = Inr (db', od', None)"
proof -
  have "find_fill od' ev db' = find_fill od ev db1"
    using assms(2,3) by (simp add: find_fill_def)
  moreover have "find_fill od ev db1 \<noteq> None"
    if "is_fill_type (fe_type ev)" "dec_positive (fe_qty ev) = Some True"
  proof (cases row)
    case None
    with assms(1) that have "db1 = db" "find_fill od ev db \<noteq> None"
      by (auto simp: record_fill_def Let_def split: option.splits if_splits)
    then show ?thesis by simp
  next
    case (Some r)
    then show ?thesis using find_fill_after [OF assms(1)] by simp
  qed
  ultimately show ?thesis
    using assms(1) by (auto simp: record_fill_def split: option.splits bool.splits)
qed

lemma apply_cumulative_again:
  assumes cum: "apply_cumulative ev o1 = Inr o2" and le: "o_filled o2 \<le> o_filled od"
  shows "apply_cumulative ev od = Inr od"
proof (cases "dec_positive (fe_filled ev) = Some True")
  case True
  with cum have fin: "dec_is_finite (fe_filled ev)" and "o_filled o2 = max (o_filled o1) (dec_value (fe_filled ev))"
    by (auto simp: apply_cumulative_def split: if_splits)
  with le have "max (o_filled od) (dec_value (fe_filled ev)) = o_filled od" by simp
  with True fin show ?thesis by (simp add: apply_cumulative_def)
next
  case False
  with cum show ?thesis by (auto simp: apply_cumulative_def split: option.splits bool.splits)
qed

lemma apply_cumulative_scale:
  "apply_cumulative ev o1 = Inr o2 \<Longrightarrow> has_scale 8 (o_filled o1) \<Longrightarrow> has_scale 8 (dec_value (fe_filled ev)) \<Longrightarrow>
   has_scale 8 (o_filled o2)"
  by (auto simp: apply_cumulative_def max_def split: option.splits bool.splits if_splits)

lemma resolve_status_again:
  assumes "o_qty od' = o_qty od" and "o_filled od' = o_filled od" and st: "o_status od' = resolve_status t od"
  shows "resolve_status t od' = resolve_status t od"
proof (cases "t = ''fill''")
  case True
  with assms(1,2) show ?thesis by (simp add: resolve_status_def)
next
  case False
  show ?thesis
  proof (cases "status_from_event t")
    case None
    with False have "resolve_status t x = o_status x" for x
      by (simp add: resolve_status_def)
    then show ?thesis using st by simp
  next
    case (Some s1)
    with False have "resolve_status t x = (if terminal_status (o_status x) then o_status x else s1)" for x
      by (simp add: resolve_status_def)
    then show ?thesis using st by (cases "terminal_status (o_status od)") metis+
  qed
qed

lemma save_order_again:
  assumes "distinct (map o_id (d_orders db))"
  shows "d_orders (save_order od (save_order od db)) = d_orders (save_order od db)"
  by (simp add: save_order_def update_where_def)

text \<open>
  C2. Redelivery is harmless. A broker event that was applied once, delivered again (a
  reconnect catch-up, a stream replay), is accepted and changes no order, no fill and no
  position row, and reports that it created no fill.
\<close>

theorem ingest_idempotent:
  assumes ing: "ingest_fill_event env ev uid db = Inr (db1, Applied i st fc pc)"
    and wf: "orders_wf db"
    and scale: "has_scale 8 (dec_value (fe_qty ev))" "has_scale 8 (dec_value (fe_filled ev))"
  shows "\<exists>db2. ingest_fill_event env' ev uid db1 = Inr (db2, Applied i st False False) \<and>
    d_orders db2 = d_orders db1 \<and> d_fills db2 = d_fills db1 \<and> d_positions db2 = d_positions db1"
  using ing
proof (cases rule: ingest_cases)
  case ignored
  then show ?thesis by simp
next
  case (applied od0 dbr o1 row o2 o3)
  have step: "orders_wf dbr" "d_orders dbr = d_orders db"
    using record_fill_step [OF applied(3) wf applied(2) adopt_core(1) scale(1)] by auto
  have dist: "distinct (map o_id (d_orders dbr))" using step(1) by (simp add: orders_wf_def)
  have f0: "has_scale 8 (o_filled (adopt_broker_id ev od0))" using wf applied(2) by (simp add: orders_wf_def)
  have f2: "has_scale 8 (o_filled o2)"
    by (rule apply_cumulative_scale [OF applied(4) record_fill_filled [OF applied(3) f0 scale(1)] scale(2)])
  then have o3: "o3\<lparr>o_filled := quantize 8 (o_filled o3)\<rparr> = o3" by (simp add: applied(5) quantize_id)
  have acct: "o_account o3 = o_account (adopt_broker_id ev od0)"
    using applied(9) adopt_core(1) [of ev od0] by (simp add: order_core_def)
  have boid: "o_boid o3 = fe_boid ev \<or> (fe_boid ev = [] \<and> o_boid o3 = o_boid od0)"
    using adopt_boid [of ev od0] record_fill_boid [OF applied(3)] apply_cumulative_core [OF applied(4)]
    by (simp add: applied(5))
  have "find_order ev dbr = Some od0" using applied(1) find_order_frame [OF step(2)] by simp
  from find_order_after_save [OF dist this applied(9) boid]
  have find: "find_order ev db1 = Some o3" using find_order_frame [of db1 "save_order o3 dbr"] by (simp add: applied(6) o3)
  have adopt: "adopt_broker_id ev o3 = o3" using boid by (auto simp: adopt_broker_id_def)
  have rec: "record_fill env' ev uid o3 db1 = Inr (db1, o3, None)"
    by (rule record_fill_again [OF applied(3) _ acct]) (simp add: applied(6))
  have cum: "apply_cumulative ev o3 = Inr o3"
    by (rule apply_cumulative_again [OF applied(4)]) (simp add: applied(5))
  have st: "resolve_status (fe_type ev) o3 = o_status o3"
    using resolve_status_again [of o3 o2 "fe_type ev"] by (simp add: applied(5))
  have "ingest_fill_event env' ev uid db1 =
      Inr (ingest_pushes uid o3 None (save_order o3 db1), Applied (o_id o3) (o_status o3) False False)"
    by (simp add: ingest_fill_event_def find adopt rec cum st)
  moreover have "d_orders (save_order o3 db1) = d_orders db1"
    using save_order_again [OF dist, of o3] by (simp add: applied(6) save_order_def)
  ultimately show ?thesis using applied(6,7) by simp
qed

theorem ingest_idempotent_witness:
  "\<exists>db1 db2. ingest_fill_event sample_env (sample_event ''e1'' ''partial_fill'' 4 100 4) 7 sample_db =
       Inr (db1, Applied 11 PARTIAL True True) \<and>
     ingest_fill_event sample_env (sample_event ''e1'' ''partial_fill'' 4 100 4) 7 db1 =
       Inr (db2, Applied 11 PARTIAL False False) \<and>
     d_fills db2 = d_fills db1"
proof -
  obtain db1 where "ingest_fill_event sample_env (sample_event ''e1'' ''partial_fill'' 4 100 4) 7 sample_db =
       Inr (db1, Applied 11 PARTIAL True True)"
    using sample_ingest by blast
  with ingest_idempotent [OF this sample_wf(1) sample_scale, of sample_env] show ?thesis by blast
qed

text \<open>
  The filled quantity of an order never falls, whatever the event carries (a late or
  duplicated event, a cumulative count behind the local sum, a cancel or a reject).
\<close>

theorem filled_never_falls:
  assumes ing: "ingest_fill_event env ev uid db = Inr (db', r)" and wf: "orders_wf db"
    and od: "od \<in> set (d_orders db)"
  shows "\<exists>od'\<in>set (d_orders db'). o_id od' = o_id od \<and> o_filled od \<le> o_filled od'"
  using ing
proof (cases rule: ingest_cases)
  case ignored
  with od show ?thesis by auto
next
  case (applied od0 db1 o1 row o2 o3)
  have same: "d_orders db1 = d_orders db"
    using applied(3) by (cases rule: record_fill_cases) simp_all
  have orders: "d_orders db' = d_orders (save_order o3 db1)" by (simp add: applied(6))
  have id0: "o_id o3 = o_id od0" using applied(9) by (simp add: order_core_def)
  show ?thesis
  proof (cases "o_id od = o_id o3")
    case True
    then have "od = od0" using wf od applied(2) id0 by (auto simp: orders_wf_def distinct_map inj_on_def)
    moreover have "has_scale 8 (o_filled od)" using wf od by (simp add: orders_wf_def)
    then have "o_filled od \<le> quantize 8 (o_filled o3)"
      using applied(11) \<open>od = od0\<close> quantize_mono [of "o_filled od" "o_filled o3" 8] by (simp add: quantize_id)
    moreover have "o3\<lparr>o_filled := quantize 8 (o_filled o3)\<rparr> \<in> set (d_orders db')"
      using applied(2) id0 same orders by (auto simp: save_order_def set_update_where image_iff intro!: bexI [of _ od0])
    ultimately show ?thesis using id0 by (intro bexI) auto
  next
    case False
    with od same orders show ?thesis by (auto simp: save_order_def set_update_where intro!: bexI [of _ od])
  qed
qed

theorem filled_never_falls_witness:
  "\<exists>db1. ingest_fill_event sample_env (sample_event ''e1'' ''partial_fill'' 4 100 4) 7 sample_db =
       Inr (db1, Applied 11 PARTIAL True True) \<and>
     (\<exists>od'\<in>set (d_orders db1). o_id od' = 11 \<and> 0 \<le> o_filled od')"
proof -
  obtain db1 where i: "ingest_fill_event sample_env (sample_event ''e1'' ''partial_fill'' 4 100 4) 7 sample_db =
       Inr (db1, Applied 11 PARTIAL True True)"
    using sample_ingest by blast
  with filled_never_falls [OF i sample_wf(1), of sample_order] show ?thesis
    by (auto simp: sample_db_def sample_order_def)
qed

text \<open>
  Terminal orders. A filled, cancelled or rejected order keeps its status under every
  event except a \<open>fill\<close>, which moves it to FILLED or PARTIAL.
\<close>

theorem terminal_status_only_left_by_fill:
  assumes ing: "ingest_fill_event env ev uid db = Inr (db', Applied i st fc pc)"
    and fo: "find_order ev db = Some od" and tmn: "terminal_status (o_status od)"
  shows "if fe_type ev = ''fill'' then st = FILLED \<or> st = PARTIAL else st = o_status od"
  using ing
proof (cases rule: ingest_cases)
  case ignored
  then show ?thesis by simp
next
  case (applied od0 db1 o1 row o2 o3)
  with fo tmn show ?thesis by (auto simp: resolve_status_def split: option.splits)
qed

theorem terminal_status_witness:
  "\<exists>db1. ingest_fill_event sample_env (sample_event ''e1'' ''fill'' 10 100 10) 7
       (sample_db\<lparr>d_orders := [sample_order\<lparr>o_status := CANCELLED\<rparr>]\<rparr>) =
       Inr (db1, Applied 11 FILLED True True)"
proof -
  let ?db = "sample_db\<lparr>d_orders := [sample_order\<lparr>o_status := CANCELLED\<rparr>]\<rparr>"
  let ?ev = "sample_event ''e1'' ''fill'' 10 100 10"
  obtain db1 i st fc pc where i: "ingest_fill_event sample_env ?ev 7 ?db = Inr (db1, Applied i st fc pc)"
    "i = 11" "fc" "pc" "st \<noteq> PARTIAL"
    by (simp add: ingest_eval)
  moreover have "find_order ?ev ?db = Some (sample_order\<lparr>o_status := CANCELLED\<rparr>)"
    by (simp add: ingest_eval)
  ultimately show ?thesis
    using terminal_status_only_left_by_fill [OF i(1)] by (simp add: terminal_status_def sample_event_def)
qed

subsection \<open>Cost basis\<close>

lemma weighted_between:
  fixes a p m n :: rat
  assumes "0 < m" "0 < n"
  shows "min a p \<le> (a * m + p * n) / (m + n) \<and> (a * m + p * n) / (m + n) \<le> max a p"
proof -
  have mn: "0 < m + n" using assms by simp
  have "min a p * (m + n) \<le> a * m + p * n" "a * m + p * n \<le> max a p * (m + n)"
    using assms by (auto simp: algebra_simps intro!: add_mono mult_left_mono)
  with mn show ?thesis by (simp add: le_divide_eq divide_le_eq)
qed

lemma fill_avg_cost_between:
  assumes "0 < q" and new: "old_qty + signed_qty sd q \<noteq> 0"
  shows "min old_avg price \<le> fill_avg_cost old_qty old_avg (signed_qty sd q) q price \<and>
    fill_avg_cost old_qty old_avg (signed_qty sd q) q price \<le> max old_avg price"
proof (cases "old_qty \<noteq> 0 \<and> (0 < old_qty) = (0 < signed_qty sd q)")
  case True
  then have "\<bar>old_qty + signed_qty sd q\<bar> = \<bar>old_qty\<bar> + q"
    using assms(1) by (auto simp: signed_qty_def split: if_splits)
  with True new weighted_between [of "\<bar>old_qty\<bar>" q old_avg price] assms(1) show ?thesis
    by (simp add: fill_avg_cost_def)
next
  case False
  with new show ?thesis by (auto simp: fill_avg_cost_def Let_def)
qed

lemma fill_avg_cost_open:
  assumes "s \<noteq> 0" and "old_qty = 0 \<or> old_qty * (old_qty + s) < 0"
  shows "fill_avg_cost old_qty old_avg s q price = price"
  using assms by (auto simp: fill_avg_cost_def Let_def mult_less_0_iff)

text \<open>
  The cost basis of a position. After a fill of a positive quantity: a position that
  becomes flat has basis 0; one that opens, or flips through zero, takes the fill price;
  one that shrinks keeps its basis; and in every case where it is not flat the basis lies
  between the old basis and the fill price. Both prices are at the column scale.
\<close>

theorem cost_basis:
  assumes q: "0 < q" "has_scale 8 q"
    and scale: "has_scale 8 (p_qty p)" "has_scale 4 (p_avg_cost p)" "has_scale 4 pr"
    and p': "p' = fill_position sd q pr p"
  shows "p_qty p' = p_qty p + side_sign sd * q \<and>
    (p_qty p' = 0 \<longrightarrow> p_avg_cost p' = 0) \<and>
    (p_qty p' \<noteq> 0 \<longrightarrow> min (p_avg_cost p) pr \<le> p_avg_cost p' \<and> p_avg_cost p' \<le> max (p_avg_cost p) pr) \<and>
    (p_qty p = 0 \<or> p_qty p * p_qty p' < 0 \<longrightarrow> p_avg_cost p' = pr) \<and>
    (0 < p_qty p * p_qty p' \<and> \<bar>p_qty p'\<bar> < \<bar>p_qty p\<bar> \<longrightarrow> p_avg_cost p' = p_avg_cost p)"
proof -
  let ?avg = "fill_avg_cost (p_qty p) (p_avg_cost p) (signed_qty sd q) q pr"
  have qty: "p_qty p' = p_qty p + signed_qty sd q"
    using q scale by (simp add: p' fill_position_qty quantize_id has_scale_add)
  then have 1: "p_qty p' = p_qty p + side_sign sd * q" by (simp add: signed_qty_sign)
  have avg: "p_avg_cost p' = quantize 4 ?avg" by (simp add: p' fill_position_def Let_def)
  have 2: "p_qty p' = 0 \<longrightarrow> p_avg_cost p' = 0" by (simp add: avg qty fill_avg_cost_def)
  have s0: "signed_qty sd q \<noteq> 0" using q(1) by (simp add: signed_qty_def)
  have 4: "p_qty p = 0 \<or> p_qty p * p_qty p' < 0 \<longrightarrow> p_avg_cost p' = pr"
    using fill_avg_cost_open [OF s0, of "p_qty p" "p_avg_cost p" q pr] scale(3)
    unfolding avg qty by (auto simp: quantize_id)
  have 5: "0 < p_qty p * p_qty p' \<and> \<bar>p_qty p'\<bar> < \<bar>p_qty p\<bar> \<longrightarrow> p_avg_cost p' = p_avg_cost p"
    using q(1) scale(2) unfolding avg qty
    by (auto simp: fill_avg_cost_def Let_def quantize_id zero_less_mult_iff)
  have 3: "min (p_avg_cost p) pr \<le> p_avg_cost p' \<and> p_avg_cost p' \<le> max (p_avg_cost p) pr" if "p_qty p' \<noteq> 0"
  proof -
    have b: "min (p_avg_cost p) pr \<le> ?avg" "?avg \<le> max (p_avg_cost p) pr"
      using fill_avg_cost_between [OF q(1), of "p_qty p" sd] qty that by auto
    have "quantize 4 (min (p_avg_cost p) pr) = min (p_avg_cost p) pr"
      "quantize 4 (max (p_avg_cost p) pr) = max (p_avg_cost p) pr"
      using scale by (simp_all add: min_def max_def quantize_id)
    with quantize_mono [OF b(1), of 4] quantize_mono [OF b(2), of 4] show ?thesis by (simp add: avg)
  qed
  from 1 2 3 4 5 show ?thesis by blast
qed

theorem cost_basis_witness:
  "p_avg_cost (fill_position SELL 15 90
     \<lparr>p_user = 7, p_account = 1, p_symbol = ''AAPL'', p_qty = 10, p_avg_cost = 100, p_market_price = None\<rparr>) = 90"
proof -
  let ?p = "\<lparr>p_user = 7, p_account = 1, p_symbol = ''AAPL'', p_qty = 10, p_avg_cost = 100, p_market_price = None\<rparr>"
  have "p_qty (fill_position SELL 15 90 ?p) = - 5"
    using cost_basis [OF _ _ _ _ _ refl, of 15 ?p 90 SELL] by simp
  then show ?thesis
    using cost_basis [OF _ _ _ _ _ refl, of 15 ?p 90 SELL] by simp
qed

end
