(* ===== verification/Reconcile.thy ===== *)
theory Reconcile
  imports Orders "HOL-Library.AList"
begin

text \<open>
  Reconciliation of our rows with the broker's (\<open>orders/reconcile.py\<close> and the two
  functions of \<open>orders/services.py\<close> that snap positions and resolve ambiguous submits).
  A broker connection is the record \<open>adapter\<close> of what its calls return at this point
  (\<open>brokers/base.py\<close>, the protocol \<open>BrokerAdapter\<close>); an optional method is an
  option. The lemmas show the two-strike rule, that healing is toward broker truth and that
  no step of reconciliation places an order.
\<close>

record adapter =
  ad_account :: "broker_exn + account_info"
  ad_positions :: "broker_exn + position_dto list"
  ad_flatten :: "string \<Rightarrow> broker_exn + order_ack list"
  ad_quote :: "(string \<Rightarrow> broker_exn + rat option) option"
  ad_place :: "order_request \<Rightarrow> string \<Rightarrow> broker_exn + order_ack"
  ad_events :: "order_request \<Rightarrow> string \<Rightarrow> fill_event list"
  ad_resolve :: "(string \<Rightarrow> broker_exn + order_ack option) option"

subsection \<open>The periodic reconcile\<close>

text \<open>\<open>{p.symbol: p for p in ...}\<close>: the last of two equal symbols wins.\<close>

definition by_symbol :: "position_dto list \<Rightarrow> (string \<times> position_dto) list" where
  "by_symbol ps = fold (\<lambda>p d. AList.update (pd_symbol p) p d) ps []"

definition our_positions :: "nat \<Rightarrow> db \<Rightarrow> position list" where
  "our_positions acct db = filter (\<lambda>p. p_account p = acct) (d_positions db)"

definition is_open_drift :: "nat \<Rightarrow> string \<Rightarrow> recon_event \<Rightarrow> bool" where
  "is_open_drift acct symb r \<longleftrightarrow>
     r_account r = acct \<and> r_symbol r = symb \<and> r_kind r = DRIFT \<and> r_resolved r = None"

definition open_drift :: "nat \<Rightarrow> string \<Rightarrow> db \<Rightarrow> bool" where
  "open_drift acct symb db \<longleftrightarrow> exists_where (is_open_drift acct symb) (d_recons db)"

definition resolve_drifts :: "env \<Rightarrow> nat \<Rightarrow> string \<Rightarrow> db \<Rightarrow> db" where
  "resolve_drifts env acct symb db =
     db\<lparr>d_recons := update_where (is_open_drift acct symb) (\<lambda>r. r\<lparr>r_resolved := Some (e_now env)\<rparr>) (d_recons db)\<rparr>"

definition new_recon :: "account \<Rightarrow> string \<Rightarrow> recon_kind \<Rightarrow> rat \<Rightarrow> rat \<Rightarrow> int option \<Rightarrow> recon_event" where
  "new_recon ac symb kind oq bq res =
     \<lparr>r_user = b_user ac, r_account = b_id ac, r_symbol = symb, r_kind = kind, r_our_qty = oq,
      r_broker_qty = bq, r_resolved = res\<rparr>"

definition create_recon :: "recon_event \<Rightarrow> db \<Rightarrow> db" where
  "create_recon r db = db\<lparr>d_recons := d_recons db @
     [r\<lparr>r_our_qty := quantize 8 (r_our_qty r), r_broker_qty := quantize 8 (r_broker_qty r)\<rparr>]\<rparr>"

definition tolerance :: rat where
  "tolerance = 1 / 100"

definition adopt_broker_position :: "account \<Rightarrow> position_dto \<Rightarrow> position \<Rightarrow> position" where
  "adopt_broker_position ac bp p =
     p\<lparr>p_user := b_user ac, p_qty := quantize 8 (pd_qty bp), p_avg_cost := quantize 4 (pd_avg_cost bp),
       p_market_price := map_option (quantize 4) (pd_market_price bp)\<rparr>"

definition flat_position :: "position \<Rightarrow> position" where
  "flat_position p = p\<lparr>p_qty := 0, p_avg_cost := 0\<rparr>"

definition heal :: "account \<Rightarrow> string \<Rightarrow> position_dto option \<Rightarrow> db \<Rightarrow> db" where
  "heal ac symb bp db =
     (let db1 =
        (case bp of
           Some b \<Rightarrow>
             if pd_qty b = 0
             then db\<lparr>d_positions := update_where (pos_key (b_id ac) symb) flat_position (d_positions db)\<rparr>
             else with_position (b_user ac) (b_id ac) symb (adopt_broker_position ac b) db
         | None \<Rightarrow> db\<lparr>d_positions := update_where (pos_key (b_id ac) symb) flat_position (d_positions db)\<rparr>)
      in case get_position (b_id ac) symb db1 of
           None \<Rightarrow> db1
         | Some p \<Rightarrow> push_to_user (b_user ac) POSITION_UPDATED (position_to_wire p) db1)"

definition broker_qty :: "(string \<times> position_dto) list \<Rightarrow> string \<Rightarrow> rat" where
  "broker_qty bps symb = (case map_of bps symb of None \<Rightarrow> 0 | Some b \<Rightarrow> pd_qty b)"

definition our_qty :: "position list \<Rightarrow> string \<Rightarrow> rat" where
  "our_qty ours symb = (case first_where (\<lambda>p. p_symbol p = symb) ours of None \<Rightarrow> 0 | Some p \<Rightarrow> p_qty p)"

text \<open>One iteration of the loop; \<open>bq\<close> and \<open>oq\<close> come from the snapshots taken before it.\<close>

definition reconcile_symbol ::
  "env \<Rightarrow> account \<Rightarrow> (string \<times> position_dto) list \<Rightarrow> position list \<Rightarrow> string \<Rightarrow> db \<Rightarrow> db \<times> recon_event list" where
  "reconcile_symbol env ac bps ours symb db =
     (let bq = broker_qty bps symb; oq = our_qty ours symb
      in if \<bar>bq - oq\<bar> \<le> tolerance then (resolve_drifts env (b_id ac) symb db, [])
         else
           let prior = open_drift (b_id ac) symb db;
               drift = new_recon ac symb DRIFT oq bq None;
               db1 = create_recon drift db
           in if prior
              then let healed = new_recon ac symb HEAL oq bq (Some (e_now env))
                   in (resolve_drifts env (b_id ac) symb
                         (create_recon healed (heal ac symb (map_of bps symb) db1)), [drift, healed])
              else (db1, [drift]))"

fun reconcile_symbols ::
  "env \<Rightarrow> account \<Rightarrow> (string \<times> position_dto) list \<Rightarrow> position list \<Rightarrow> string list \<Rightarrow> db \<Rightarrow> db \<times> recon_event list" where
  "reconcile_symbols env ac bps ours [] db = (db, [])"
| "reconcile_symbols env ac bps ours (symb # syms) db =
     (let (db1, evs) = reconcile_symbol env ac bps ours symb db;
          (db2, evs') = reconcile_symbols env ac bps ours syms db1
      in (db2, evs @ evs'))"

text \<open>
  The loop runs over a set, in no fixed order: \<open>syms\<close> is any enumeration of it. The
  definition below is the enumeration that lists the broker's symbols first.
\<close>

definition recon_symbols :: "(string \<times> position_dto) list \<Rightarrow> position list \<Rightarrow> string list" where
  "recon_symbols bps ours = remdups (map fst bps @ map p_symbol ours)"

definition apply_reconcile ::
  "env \<Rightarrow> account \<Rightarrow> string list \<Rightarrow> (string \<times> position_dto) list \<Rightarrow> db \<Rightarrow> db \<times> recon_event list" where
  "apply_reconcile env ac syms bps db = reconcile_symbols env ac bps (our_positions (b_id ac) db) syms db"

subsection \<open>Ambiguous submits\<close>

definition needs_reconcile :: "nat \<Rightarrow> order \<Rightarrow> bool" where
  "needs_reconcile acct od \<longleftrightarrow> o_account od = Some acct \<and> o_status od = NEEDS_RECONCILE"

definition resolve_order :: "(string \<Rightarrow> broker_exn + order_ack option) \<Rightarrow> order \<Rightarrow> db \<Rightarrow> db \<times> nat" where
  "resolve_order resolver od db =
     (case resolver (o_coid od) of
        Inl _ \<Rightarrow> (db, 0)
      | Inr None \<Rightarrow>
          (db\<lparr>d_orders := update_where (\<lambda>x. o_id x = o_id od \<and> o_status x = NEEDS_RECONCILE)
                 (\<lambda>x. x\<lparr>o_status := REJECTED, o_reason := ''RECONCILE_NOT_FOUND''\<rparr>) (d_orders db)\<rparr>, 1)
      | Inr (Some ack) \<Rightarrow>
          (db\<lparr>d_orders := update_where (\<lambda>x. o_id x = o_id od)
                 (\<lambda>x. if ak_boid ack \<noteq> [] then x\<lparr>o_status := ak_status ack, o_boid := ak_boid ack\<rparr>
                      else x\<lparr>o_status := ak_status ack\<rparr>) (d_orders db)\<rparr>, 1))"

fun resolve_orders :: "(string \<Rightarrow> broker_exn + order_ack option) \<Rightarrow> order list \<Rightarrow> db \<Rightarrow> db \<times> nat" where
  "resolve_orders resolver [] db = (db, 0)"
| "resolve_orders resolver (od # ods) db =
     (let (db1, n) = resolve_order resolver od db; (db2, m) = resolve_orders resolver ods db1
      in (db2, n + m))"

definition resolve_needs_reconcile :: "account \<Rightarrow> adapter \<Rightarrow> db \<Rightarrow> db \<times> nat" where
  "resolve_needs_reconcile ac ad db =
     (case ad_resolve ad of
        None \<Rightarrow> (db, 0)
      | Some resolver \<Rightarrow> resolve_orders resolver (filter (needs_reconcile (b_id ac)) (d_orders db)) db)"

definition reconcile_account ::
  "env \<Rightarrow> (account \<Rightarrow> broker_exn + adapter) \<Rightarrow> account \<Rightarrow> db \<Rightarrow> broker_exn + (db \<times> recon_event list)" where
  "reconcile_account env build ac db =
     (case build ac of
        Inl e \<Rightarrow> Inl e
      | Inr ad \<Rightarrow>
          (case ad_positions ad of
             Inl e \<Rightarrow> Inl e
           | Inr ps \<Rightarrow>
               let bps = by_symbol ps;
                   (db1, evs) = apply_reconcile env ac (recon_symbols bps (our_positions (b_id ac) db)) bps db
               in Inr (fst (resolve_needs_reconcile ac ad db1), evs)))"

subsection \<open>Snapping positions after a flatten\<close>

definition snap_position :: "account \<Rightarrow> position_dto \<Rightarrow> db \<Rightarrow> db \<times> nat" where
  "snap_position ac bp db =
     (let symb = pd_symbol bp;
          p = (case get_position (b_id ac) symb db of None \<Rightarrow> new_position (b_user ac) (b_id ac) symb | Some p \<Rightarrow> p)
      in if p_qty p \<noteq> pd_qty bp \<or> p_avg_cost p \<noteq> pd_avg_cost bp
         then let mem = p\<lparr>p_qty := pd_qty bp, p_avg_cost := pd_avg_cost bp, p_market_price := pd_market_price bp\<rparr>;
                  db1 = with_position (b_user ac) (b_id ac) symb
                    (\<lambda>x. x\<lparr>p_qty := quantize 8 (pd_qty bp), p_avg_cost := quantize 4 (pd_avg_cost bp),
                            p_market_price := map_option (quantize 4) (pd_market_price bp)\<rparr>) db
              in (push_to_user (b_user ac) POSITION_UPDATED (position_to_wire mem) db1, 1)
         else (with_position (b_user ac) (b_id ac) symb (\<lambda>x. x) db, 0))"

fun snap_positions :: "account \<Rightarrow> position_dto list \<Rightarrow> db \<Rightarrow> db \<times> nat" where
  "snap_positions ac [] db = (db, 0)"
| "snap_positions ac (bp # bps) db =
     (let (db1, n) = snap_position ac bp db; (db2, m) = snap_positions ac bps db1 in (db2, n + m))"

text \<open>Symbols we hold that the broker no longer reports become flat.\<close>

definition flatten_missing :: "account \<Rightarrow> string list \<Rightarrow> db \<Rightarrow> db \<times> nat" where
  "flatten_missing ac seen db =
     (let gone = (\<lambda>p. p_account p = b_id ac \<and> p_symbol p \<notin> set seen \<and> p_qty p \<noteq> 0);
          flats = map flat_position (filter gone (d_positions db));
          db1 = db\<lparr>d_positions := update_where gone flat_position (d_positions db)\<rparr>
      in (fold (\<lambda>p. push_to_user (b_user ac) POSITION_UPDATED (position_to_wire p)) flats db1, length flats))"

definition reconcile_positions :: "account \<Rightarrow> adapter \<Rightarrow> db \<Rightarrow> broker_exn + (db \<times> nat)" where
  "reconcile_positions ac ad db =
     (case ad_positions ad of
        Inl e \<Rightarrow> Inl e
      | Inr ps \<Rightarrow>
          let bps = by_symbol ps;
              (db1, n) = snap_positions ac (map snd bps) db;
              (db2, m) = flatten_missing ac (map fst bps) db1
          in Inr (db2, n + m))"

subsection \<open>Frames\<close>

lemma broker_rows_frame [simp]:
  "d_orders (with_position u a s f db) = d_orders db" "d_placed (with_position u a s f db) = d_placed db"
  "d_recons (with_position u a s f db) = d_recons db" "d_placed (push_to_user u t d db) = d_placed db"
  "d_recons (push_to_user u t d db) = d_recons db" "d_placed (create_recon r db) = d_placed db"
  by (simp_all add: with_position_def push_to_user_def create_recon_def split: option.splits)

lemma resolve_drifts_frame [simp]:
  "d_orders (resolve_drifts env a s db) = d_orders db" "d_fills (resolve_drifts env a s db) = d_fills db"
  "d_placed (resolve_drifts env a s db) = d_placed db" "d_positions (resolve_drifts env a s db) = d_positions db"
  "get_position a' s' (resolve_drifts env a s db) = get_position a' s' db"
  "our_positions a' (resolve_drifts env a s db) = our_positions a' db"
  by (simp_all add: resolve_drifts_def get_position_def our_positions_def)

lemma create_recon_frame [simp]:
  "d_orders (create_recon r db) = d_orders db" "d_fills (create_recon r db) = d_fills db"
  "d_positions (create_recon r db) = d_positions db" "get_position a' s' (create_recon r db) = get_position a' s' db"
  by (simp_all add: create_recon_def get_position_def)

lemma heal_frame [simp]:
  "d_orders (heal ac s bp db) = d_orders db" "d_fills (heal ac s bp db) = d_fills db"
  "d_placed (heal ac s bp db) = d_placed db" "d_recons (heal ac s bp db) = d_recons db"
  by (simp_all add: heal_def Let_def split: option.splits)

lemma reconcile_symbol_frame [simp]:
  "d_orders (fst (reconcile_symbol env ac bps ours s db)) = d_orders db"
  "d_fills (fst (reconcile_symbol env ac bps ours s db)) = d_fills db"
  "d_placed (fst (reconcile_symbol env ac bps ours s db)) = d_placed db"
  by (simp_all add: reconcile_symbol_def Let_def)

lemma reconcile_symbols_frame [simp]:
  "d_orders (fst (reconcile_symbols env ac bps ours syms db)) = d_orders db"
  "d_fills (fst (reconcile_symbols env ac bps ours syms db)) = d_fills db"
  "d_placed (fst (reconcile_symbols env ac bps ours syms db)) = d_placed db"
  by (induction syms arbitrary: db)
    (simp_all add: case_prod_beta Let_def)

subsection \<open>One symbol\<close>

lemma open_drift_cong: "d_recons db' = d_recons db \<Longrightarrow> open_drift a s db' = open_drift a s db"
  by (simp add: open_drift_def)

lemma open_drift_create:
  "open_drift a s (create_recon r db) \<longleftrightarrow> open_drift a s db \<or> is_open_drift a s r"
  by (auto simp: open_drift_def create_recon_def table_simps is_open_drift_def)

lemma open_drift_resolve:
  "open_drift a s (resolve_drifts env a' s' db) \<longleftrightarrow> open_drift a s db \<and> \<not> (a = a' \<and> s = s')"
  by (auto simp: open_drift_def resolve_drifts_def table_simps set_update_where is_open_drift_def split: if_splits)

lemma open_drift_heal [simp]: "open_drift a s (heal ac s' bp db) = open_drift a s db"
  by (rule open_drift_cong) simp

lemma get_position_flat:
  "get_position a' s' (db\<lparr>d_positions := update_where (pos_key a s) flat_position (d_positions db)\<rparr>) =
    (if a' = a \<and> s' = s then map_option flat_position (get_position a s db) else get_position a' s' db)"
proof -
  have "first_where (pos_key a' s') (update_where (pos_key a s) flat_position (d_positions db)) =
      map_option (\<lambda>x. if pos_key a s x then flat_position x else x) (first_where (pos_key a' s') (d_positions db))"
    by (rule first_where_update_where) (simp add: pos_key_def flat_position_def)
  then show ?thesis
    by (auto simp: get_position_def pos_key_def dest!: first_where_Some
        split: option.splits intro!: option.map_cong)
      (cases "first_where (pos_key a' s') (d_positions db)"; auto simp: pos_key_def dest!: first_where_Some)+
qed

lemma adopt_key [simp]:
  "p_account (adopt_broker_position ac bp p) = p_account p" "p_symbol (adopt_broker_position ac bp p) = p_symbol p"
  by (simp_all add: adopt_broker_position_def)

lemma heal_other:
  "s' \<noteq> s \<Longrightarrow> get_position (b_id ac) s' (heal ac s bp db) = get_position (b_id ac) s' db"
  by (simp add: heal_def Let_def get_position_flat get_with_position split: option.splits)

lemma heal_self:
  "get_position (b_id ac) s (heal ac s bp db) =
    (case bp of
       Some b \<Rightarrow> if pd_qty b = 0 then map_option flat_position (get_position (b_id ac) s db)
         else Some (adopt_broker_position ac b
           (case get_position (b_id ac) s db of None \<Rightarrow> new_position (b_user ac) (b_id ac) s | Some p \<Rightarrow> p))
     | None \<Rightarrow> map_option flat_position (get_position (b_id ac) s db))"
  by (cases bp) (auto simp: heal_def Let_def get_position_flat get_with_position split: option.splits)

lemma heal_qty:
  "position_qty (heal ac s bp db) (b_id ac) s =
    (case bp of None \<Rightarrow> 0 | Some b \<Rightarrow> quantize 8 (pd_qty b))"
  by (cases bp) (auto simp: heal_self position_qty_def flat_position_def adopt_broker_position_def split: option.splits)

lemma reconcile_symbol_other:
  assumes "s' \<noteq> s"
  shows "get_position (b_id ac) s' (fst (reconcile_symbol env ac bps ours s db)) = get_position (b_id ac) s' db"
    and "open_drift (b_id ac) s' (fst (reconcile_symbol env ac bps ours s db)) = open_drift (b_id ac) s' db"
  using assms
  by (simp_all add: reconcile_symbol_def Let_def heal_other open_drift_create open_drift_resolve
      is_open_drift_def new_recon_def)

lemma reconcile_symbols_other:
  assumes "s' \<notin> set syms"
  shows "get_position (b_id ac) s' (fst (reconcile_symbols env ac bps ours syms db)) = get_position (b_id ac) s' db"
    and "open_drift (b_id ac) s' (fst (reconcile_symbols env ac bps ours syms db)) = open_drift (b_id ac) s' db"
  using assms
  by (induction syms arbitrary: db)
    (auto simp: case_prod_beta Let_def reconcile_symbol_other)

text \<open>The fate of a symbol is decided by its own iteration, wherever it comes in the order.\<close>

lemma reconcile_symbols_at:
  assumes "distinct syms" "s \<in> set syms"
  shows "get_position (b_id ac) s (fst (reconcile_symbols env ac bps ours syms db)) =
      get_position (b_id ac) s (fst (reconcile_symbol env ac bps ours s db)) \<and>
    open_drift (b_id ac) s (fst (reconcile_symbols env ac bps ours syms db)) =
      open_drift (b_id ac) s (fst (reconcile_symbol env ac bps ours s db))"
  using assms
proof (induction syms arbitrary: db)
  case Nil
  then show ?case by simp
next
  case (Cons x syms)
  show ?case
  proof (cases "x = s")
    case True
    with Cons.prems show ?thesis
      by (simp add: case_prod_beta Let_def reconcile_symbols_other)
  next
    case False
    let ?db1 = "fst (reconcile_symbol env ac bps ours x db)"
    have frame: "get_position (b_id ac) s ?db1 = get_position (b_id ac) s db"
      "open_drift (b_id ac) s ?db1 = open_drift (b_id ac) s db"
      using reconcile_symbol_other [of s x] False by auto
    have own: "get_position (b_id ac) s (fst (reconcile_symbol env ac bps ours s d1)) =
        get_position (b_id ac) s (fst (reconcile_symbol env ac bps ours s d2)) \<and>
      open_drift (b_id ac) s (fst (reconcile_symbol env ac bps ours s d1)) =
        open_drift (b_id ac) s (fst (reconcile_symbol env ac bps ours s d2))"
      if "get_position (b_id ac) s d1 = get_position (b_id ac) s d2"
        "open_drift (b_id ac) s d1 = open_drift (b_id ac) s d2" for d1 d2
      using that by (simp add: reconcile_symbol_def Let_def open_drift_create open_drift_resolve heal_self cong: option.case_cong if_cong)
    show ?thesis
      using Cons False own [OF frame] by (simp add: case_prod_beta Let_def)
  qed
qed

lemma our_qty_position: "our_qty (our_positions a db) s = position_qty db a s"
proof -
  have "first_where (\<lambda>p. p_symbol p = s) (filter (\<lambda>p. p_account p = a) ps) = first_where (pos_key a s) ps" for ps
    by (induction ps) (auto simp: first_where_Cons pos_key_def)
  then show ?thesis by (simp add: our_qty_def our_positions_def position_qty_def get_position_def)
qed

lemma tolerance_quantize: "\<bar>x - quantize 8 x\<bar> \<le> tolerance"
  using round_half_even_bounds [of "x * 10 ^ 8"] by (simp add: tolerance_def quantize_def abs_le_iff field_simps)

text \<open>What one run leaves of a symbol it looks at.\<close>

lemma apply_reconcile_at:
  fixes env ac syms bps db
  defines "db' \<equiv> fst (apply_reconcile env ac syms bps db)"
  assumes "distinct syms" "s \<in> set syms"
  shows "position_qty db' (b_id ac) s =
      (if \<bar>broker_qty bps s - position_qty db (b_id ac) s\<bar> \<le> tolerance \<or> \<not> open_drift (b_id ac) s db
       then position_qty db (b_id ac) s else quantize 8 (broker_qty bps s)) \<and>
    open_drift (b_id ac) s db' =
      (tolerance < \<bar>broker_qty bps s - position_qty db (b_id ac) s\<bar> \<and> \<not> open_drift (b_id ac) s db)"
proof -
  have q: "position_qty d1 a s = position_qty d2 a s" if "get_position a s d1 = get_position a s d2" for d1 d2 a
    using that by (simp add: position_qty_def)
  let ?r = "fst (reconcile_symbol env ac bps (our_positions (b_id ac) db) s db)"
  have "position_qty ?r (b_id ac) s =
      (if \<bar>broker_qty bps s - position_qty db (b_id ac) s\<bar> \<le> tolerance \<or> \<not> open_drift (b_id ac) s db
       then position_qty db (b_id ac) s else quantize 8 (broker_qty bps s))"
    by (simp add: reconcile_symbol_def Let_def our_qty_position heal_qty broker_qty_def position_qty_def
        heal_self flat_position_def adopt_broker_position_def split: option.splits)
  moreover have "open_drift (b_id ac) s ?r =
      (tolerance < \<bar>broker_qty bps s - position_qty db (b_id ac) s\<bar> \<and> \<not> open_drift (b_id ac) s db)"
    by (auto simp: reconcile_symbol_def Let_def our_qty_position open_drift_create open_drift_resolve
        is_open_drift_def new_recon_def)
  ultimately show ?thesis
    using reconcile_symbols_at [OF assms(2,3), of ac env bps "our_positions (b_id ac) db" db] q
    unfolding db'_def apply_reconcile_def by metis
qed

subsection \<open>Resolving ambiguous submits\<close>

lemma resolve_order_ids [simp]: "map o_id (d_orders (fst (resolve_order f od db))) = map o_id (d_orders db)"
  by (auto simp: resolve_order_def map_update_where split: sum.splits option.splits)

lemma resolve_order_other:
  "x \<in> set (d_orders (fst (resolve_order f od db))) \<Longrightarrow> o_id x \<noteq> o_id od \<Longrightarrow> x \<in> set (d_orders db)"
  by (auto simp: resolve_order_def set_update_where split: sum.splits option.splits if_splits)

lemma resolve_order_keeps:
  "x \<in> set (d_orders db) \<Longrightarrow> o_id x \<noteq> o_id od \<Longrightarrow> x \<in> set (d_orders (fst (resolve_order f od db)))"
  by (auto simp: resolve_order_def set_update_where image_iff split: sum.splits option.splits intro!: bexI [of _ x])

lemma resolve_order_done:
  assumes "\<And>c. \<exists>r. f c = Inr r" "\<And>c ack. f c = Inr (Some ack) \<Longrightarrow> ak_status ack \<noteq> NEEDS_RECONCILE"
    and "x \<in> set (d_orders (fst (resolve_order f od db)))" "o_id x = o_id od"
  shows "o_status x \<noteq> NEEDS_RECONCILE"
proof -
  obtain r where r: "f (o_coid od) = Inr r" using assms(1) by blast
  show ?thesis
    using assms(2) [of "o_coid od"] assms(3,4) r
    by (cases r) (auto simp: resolve_order_def set_update_where split: if_splits)
qed

lemma resolve_orders_keeps:
  "x \<in> set (d_orders db) \<Longrightarrow> (\<And>y. y \<in> set ods \<Longrightarrow> o_id y \<noteq> o_id x) \<Longrightarrow>
   x \<in> set (d_orders (fst (resolve_orders f ods db)))"
proof (induction ods arbitrary: db)
  case (Cons od ods)
  have ne: "o_id x \<noteq> o_id od" using Cons.prems(2) [of od] by simp
  then have "x \<in> set (d_orders (fst (resolve_order f od db)))"
    using resolve_order_keeps Cons.prems(1) by blast
  from Cons.IH [OF this] Cons.prems(2) show ?case by (simp add: case_prod_beta Let_def)
qed simp

lemma resolve_orders_done:
  assumes f: "\<And>c. \<exists>r. f c = Inr r" "\<And>c ack. f c = Inr (Some ack) \<Longrightarrow> ak_status ack \<noteq> NEEDS_RECONCILE"
  shows "x \<in> set (d_orders (fst (resolve_orders f ods db))) \<Longrightarrow> o_status x = NEEDS_RECONCILE \<Longrightarrow>
    x \<in> set (d_orders db) \<and> (\<forall>y\<in>set ods. o_id y \<noteq> o_id x)"
proof (induction ods arbitrary: db)
  case (Cons od ods)
  then have "x \<in> set (d_orders (fst (resolve_order f od db)))" "\<forall>y\<in>set ods. o_id y \<noteq> o_id x"
    by (auto simp: case_prod_beta Let_def)
  then show ?case using resolve_order_done [OF f] resolve_order_other Cons.prems(2) by fastforce
qed simp

subsection \<open>Snapping\<close>

lemma get_position_frame: "d_positions db' = d_positions db \<Longrightarrow> get_position a s db' = get_position a s db"
  by (simp add: get_position_def)

lemma snap_position_frame [simp]:
  "d_orders (fst (snap_position ac bp db)) = d_orders db" "d_fills (fst (snap_position ac bp db)) = d_fills db"
  "d_placed (fst (snap_position ac bp db)) = d_placed db"
  by (simp_all add: snap_position_def Let_def)

lemma snap_position_qty:
  "position_qty (fst (snap_position ac bp db)) (b_id ac) s =
    (if s = pd_symbol bp
     then (if has_scale 8 (pd_qty bp) then pd_qty bp else position_qty (fst (snap_position ac bp db)) (b_id ac) s)
     else position_qty db (b_id ac) s)"
  by (auto simp: snap_position_def Let_def position_qty_def get_with_position quantize_id new_position_def
      split: option.splits)

lemma snap_positions_frame [simp]:
  "d_orders (fst (snap_positions ac bps db)) = d_orders db" "d_fills (fst (snap_positions ac bps db)) = d_fills db"
  "d_placed (fst (snap_positions ac bps db)) = d_placed db"
  by (induction bps arbitrary: db) (simp_all add: case_prod_beta Let_def)

lemma snap_positions_qty:
  assumes "distinct (map pd_symbol bps)" "\<And>b. b \<in> set bps \<Longrightarrow> has_scale 8 (pd_qty b)"
  shows "position_qty (fst (snap_positions ac bps db)) (b_id ac) s =
    (case first_where (\<lambda>b. pd_symbol b = s) bps of None \<Rightarrow> position_qty db (b_id ac) s | Some b \<Rightarrow> pd_qty b)"
  using assms
proof (induction bps arbitrary: db)
  case (Cons b bps)
  then have "has_scale 8 (pd_qty b)" "pd_symbol b \<notin> set (map pd_symbol bps)" by auto
  moreover have "first_where (\<lambda>b'. pd_symbol b' = pd_symbol b) bps = None"
    using Cons.prems(1) by (simp add: first_where_None) (metis image_eqI)
  ultimately show ?case
    using Cons snap_position_qty [of ac b db s]
    by (auto simp: case_prod_beta Let_def first_where_Cons split: option.splits)
qed simp

subsection \<open>Properties of reconciliation\<close>

definition sample_bps :: "(string \<times> position_dto) list" where
  "sample_bps = [(''AAPL'', \<lparr>pd_symbol = ''AAPL'', pd_qty = 10, pd_avg_cost = 100, pd_market_price = None, pd_side = Buy\<rparr>)]"

lemma sample_no_position: "position_qty sample_db 2 ''AAPL'' = 0" "\<not> open_drift 2 ''AAPL'' sample_db"
  by (simp_all add: sample_defs position_qty_def get_position_def open_drift_def table_simps)

lemma sample_b_id: "b_id sample_account = 2"
  by (simp add: sample_account_def)

text \<open>
  C3. The two-strike rule. In whatever order the periodic reconcile visits the symbols: a
  symbol within the tolerance keeps its position and has no open drift after the run; a
  first drift changes no position and leaves an open drift; a second one sets the position
  to the broker's quantity (at the column scale) and closes the drifts. Orders, fills and
  the orders placed at a broker are never touched.
\<close>

theorem two_strike_rule:
  assumes "distinct syms" "s \<in> set syms"
    and db': "db' = fst (apply_reconcile env ac syms bps db)"
    and drift: "drift = (tolerance < \<bar>broker_qty bps s - position_qty db (b_id ac) s\<bar>)"
  shows "position_qty db' (b_id ac) s =
      (if drift \<and> open_drift (b_id ac) s db then quantize 8 (broker_qty bps s) else position_qty db (b_id ac) s) \<and>
    open_drift (b_id ac) s db' = (drift \<and> \<not> open_drift (b_id ac) s db) \<and>
    d_orders db' = d_orders db \<and> d_fills db' = d_fills db \<and> d_placed db' = d_placed db"
  using apply_reconcile_at [OF assms(1,2), of env ac bps db] unfolding db' drift
  by (auto simp: apply_reconcile_def)

theorem two_strike_rule_witness:
  "open_drift 2 ''AAPL'' (fst (apply_reconcile sample_env sample_account [''AAPL''] sample_bps sample_db)) \<and>
   position_qty (fst (apply_reconcile sample_env sample_account [''AAPL''] sample_bps sample_db)) 2 ''AAPL'' = 0"
  using two_strike_rule [of "[''AAPL'']" "''AAPL''", OF _ _ refl refl, of sample_env sample_account sample_bps sample_db]
  by (simp add: sample_b_id sample_no_position tolerance_def broker_qty_def sample_bps_def)

text \<open>
  Two runs against the same broker list settle every symbol of either side: whatever
  the state before, afterwards each is within the tolerance of the broker and no drift is
  open.
\<close>

theorem reconcile_converges:
  assumes "distinct syms1" "s \<in> set syms1" "distinct syms2" "s \<in> set syms2"
  shows "\<bar>broker_qty bps s - position_qty
        (fst (apply_reconcile env2 ac syms2 bps (fst (apply_reconcile env1 ac syms1 bps db)))) (b_id ac) s\<bar> \<le> tolerance \<and>
    \<not> open_drift (b_id ac) s (fst (apply_reconcile env2 ac syms2 bps (fst (apply_reconcile env1 ac syms1 bps db))))"
  using apply_reconcile_at [OF assms(1,2), of env1 ac bps db]
    apply_reconcile_at [OF assms(3,4), of env2 ac bps "fst (apply_reconcile env1 ac syms1 bps db)"]
    tolerance_quantize [of "broker_qty bps s"]
  by (auto split: if_splits)

theorem reconcile_converges_witness:
  "\<bar>10 - position_qty (fst (apply_reconcile sample_env sample_account [''AAPL''] sample_bps
       (fst (apply_reconcile sample_env sample_account [''AAPL''] sample_bps sample_db)))) 2 ''AAPL''\<bar> \<le> 1 / 100"
  using reconcile_converges [of "[''AAPL'']" "''AAPL''" "[''AAPL'']" sample_bps sample_env sample_account sample_env sample_db]
  by (simp add: sample_b_id tolerance_def broker_qty_def sample_bps_def)

text \<open>
  No order stays ambiguous. If the broker answers for every client order id, and with
  one of its own statuses, the account has no order in NEEDS_RECONCILE after the probe,
  and every other order is as it was.
\<close>

theorem ambiguous_orders_resolved:
  assumes ad: "ad_resolve ad = Some f"
    and f: "\<And>c. \<exists>r. f c = Inr r" "\<And>c ack. f c = Inr (Some ack) \<Longrightarrow> ak_status ack \<noteq> NEEDS_RECONCILE"
    and ids: "distinct (map o_id (d_orders db))"
  shows "(\<forall>od\<in>set (d_orders (fst (resolve_needs_reconcile ac ad db))). \<not> needs_reconcile (b_id ac) od) \<and>
    (\<forall>od\<in>set (d_orders db). \<not> needs_reconcile (b_id ac) od \<longrightarrow>
       od \<in> set (d_orders (fst (resolve_needs_reconcile ac ad db))))"
proof -
  let ?ods = "filter (needs_reconcile (b_id ac)) (d_orders db)"
  have key: "x = y" if "x \<in> set (d_orders db)" "y \<in> set (d_orders db)" "o_id x = o_id y" for x y
    using that ids by (auto simp: distinct_map inj_on_def)
  have "\<not> needs_reconcile (b_id ac) od" if "od \<in> set (d_orders (fst (resolve_orders f ?ods db)))" for od
  proof
    assume n: "needs_reconcile (b_id ac) od"
    have "od \<in> set (d_orders db) \<and> (\<forall>y\<in>set ?ods. o_id y \<noteq> o_id od)"
      by (rule resolve_orders_done [OF _ _ that]) (rule f(1), erule f(2), use n in \<open>simp add: needs_reconcile_def\<close>)
    from conjunct1 [OF this] have "od \<in> set ?ods" using n by (simp only: set_filter mem_Collect_eq simp_thms)
    with \<open>od \<in> set (d_orders db) \<and> (\<forall>y\<in>set ?ods. o_id y \<noteq> o_id od)\<close> show False by blast
  qed
  moreover have "od \<in> set (d_orders (fst (resolve_orders f ?ods db)))"
    if "od \<in> set (d_orders db)" "\<not> needs_reconcile (b_id ac) od" for od
  proof (rule resolve_orders_keeps [OF that(1)])
    fix y
    assume "y \<in> set ?ods"
    then have y: "y \<in> set (d_orders db)" "needs_reconcile (b_id ac) y" by simp_all
    then show "o_id y \<noteq> o_id od" using key [OF y(1) that(1)] that(2) by blast
  qed
  ultimately show ?thesis unfolding resolve_needs_reconcile_def ad option.case by blast
qed

definition sample_adapter :: adapter where
  "sample_adapter = \<lparr>ad_account = Inr \<lparr>ai_number = ''PA1'', ai_buying_power = 200000, ai_cash = 100000, ai_currency = ''USD'', ai_status = ''ACTIVE'',
       ai_is_paper = True, ai_equity = 100000, ai_last_equity = 100000\<rparr>,
     ad_positions = Inr (map snd sample_bps), ad_flatten = (\<lambda>r. Inr []), ad_quote = Some (\<lambda>s. Inr (Some 100)),
     ad_place = (\<lambda>r c. Inr \<lparr>ak_coid = c, ak_boid = ''b-1'', ak_status = SUBMITTED, ak_symbol = rq_symbol r,
       ak_qty = rq_qty r, ak_filled = 0, ak_submitted = None\<rparr>),
     ad_events = (\<lambda>r c. []), ad_resolve = Some (\<lambda>c. Inr None)\<rparr>"

theorem ambiguous_orders_resolved_witness:
  "filter (needs_reconcile 2) (d_orders (fst (resolve_needs_reconcile sample_account sample_adapter
      (sample_db\<lparr>d_orders := [sample_order\<lparr>o_status := NEEDS_RECONCILE\<rparr>]\<rparr>)))) = []"
proof -
  have "ad_resolve sample_adapter = Some (\<lambda>c. Inr None)" by (simp add: sample_adapter_def)
  from ambiguous_orders_resolved [OF this, where ac = sample_account and
      db = "sample_db\<lparr>d_orders := [sample_order\<lparr>o_status := NEEDS_RECONCILE\<rparr>]\<rparr>"]
  show ?thesis by (simp add: sample_b_id filter_empty_conv)
qed

lemma fold_push_frame [simp]:
  "d_positions (fold (\<lambda>p. push_to_user u t (g p)) ps db) = d_positions db"
  "d_orders (fold (\<lambda>p. push_to_user u t (g p)) ps db) = d_orders db"
  "d_fills (fold (\<lambda>p. push_to_user u t (g p)) ps db) = d_fills db"
  by (induction ps arbitrary: db) simp_all

lemma flatten_missing_qty:
  "position_qty (fst (flatten_missing ac seen db)) (b_id ac) s =
    (if s \<in> set seen then position_qty db (b_id ac) s else 0)"
proof -
  let ?gone = "\<lambda>p. p_account p = b_id ac \<and> p_symbol p \<notin> set seen \<and> p_qty p \<noteq> 0"
  have "first_where (pos_key (b_id ac) s) (update_where ?gone flat_position (d_positions db)) =
      map_option (\<lambda>x. if ?gone x then flat_position x else x) (first_where (pos_key (b_id ac) s) (d_positions db))"
    by (rule first_where_update_where) (simp add: pos_key_def flat_position_def)
  then show ?thesis
    by (auto simp: flatten_missing_def Let_def position_qty_def get_position_def flat_position_def
        pos_key_def dest!: first_where_Some split: option.splits)
qed

lemma flatten_missing_frame [simp]:
  "d_orders (fst (flatten_missing ac seen db)) = d_orders db" "d_fills (fst (flatten_missing ac seen db)) = d_fills db"
  by (simp_all add: flatten_missing_def Let_def)

lemma by_symbol_keys:
  "distinct (map fst (by_symbol ps)) \<and> (\<forall>x\<in>set (by_symbol ps). fst x = pd_symbol (snd x) \<and> snd x \<in> set ps)"
proof -
  have "distinct (map fst (fold (\<lambda>p d. AList.update (pd_symbol p) p d) ps d)) \<and>
      (\<forall>x\<in>set (fold (\<lambda>p d. AList.update (pd_symbol p) p d) ps d). fst x = pd_symbol (snd x) \<and> snd x \<in> set ps \<union> snd ` set d)"
    if "distinct (map fst d)" "\<forall>x\<in>set d. fst x = pd_symbol (snd x)" for d
    using that
  proof (induction ps arbitrary: d)
    case (Cons p ps)
    let ?d = "AList.update (pd_symbol p) p d"
    have sub: "set ?d \<subseteq> insert (pd_symbol p, p) (set d)"
      by (induction d) auto
    have "distinct (map fst ?d)" using Cons.prems(1) by (rule distinct_update)
    moreover have "\<forall>x\<in>set ?d. fst x = pd_symbol (snd x)" using sub Cons.prems(2) by auto
    ultimately have "distinct (map fst (fold (\<lambda>p d. AList.update (pd_symbol p) p d) ps ?d)) \<and>
      (\<forall>x\<in>set (fold (\<lambda>p d. AList.update (pd_symbol p) p d) ps ?d). fst x = pd_symbol (snd x) \<and>
         snd x \<in> set ps \<union> snd ` set ?d)" by (rule Cons.IH)
    moreover have "snd ` set ?d \<subseteq> insert p (snd ` set d)" using sub by force
    ultimately show ?case by (simp del: update.simps) blast
  qed auto
  from this [of "[]"] show ?thesis by (simp add: by_symbol_def)
qed

lemma map_of_first_where:
  "(\<And>x. x \<in> set xs \<Longrightarrow> fst x = key (snd x)) \<Longrightarrow> map_of xs s = first_where (\<lambda>b. key b = s) (map snd xs)"
proof (induction xs)
  case (Cons x xs)
  obtain k v where x: "x = (k, v)" by (cases x)
  with Cons.prems [of x] have "k = key v" by simp
  with Cons x show ?case by (simp add: first_where_Cons)
qed simp

text \<open>
  After a flatten our positions are the broker's: every symbol it lists has the quantity
  it lists, every other symbol of the account is flat, and no order or fill is touched.
\<close>

theorem snapped_positions:
  assumes rp: "reconcile_positions ac ad db = Inr (db', n)" and ps: "ad_positions ad = Inr ps"
    and scale: "\<And>b. b \<in> set ps \<Longrightarrow> has_scale 8 (pd_qty b)"
  shows "position_qty db' (b_id ac) s = broker_qty (by_symbol ps) s \<and>
    d_orders db' = d_orders db \<and> d_fills db' = d_fills db"
proof -
  let ?bps = "by_symbol ps"
  have db': "db' = fst (flatten_missing ac (map fst ?bps) (fst (snap_positions ac (map snd ?bps) db)))"
    using rp ps by (simp add: reconcile_positions_def Let_def case_prod_beta)
  have keys: "\<And>x. x \<in> set ?bps \<Longrightarrow> fst x = pd_symbol (snd x)"
    and sc: "\<And>b. b \<in> set (map snd ?bps) \<Longrightarrow> has_scale 8 (pd_qty b)"
    using by_symbol_keys [of ps] scale by auto
  have names: "map pd_symbol (map snd ?bps) = map fst ?bps" using keys by simp
  then have "distinct (map pd_symbol (map snd ?bps))" using by_symbol_keys [of ps] by metis
  note snap = snap_positions_qty [OF this sc, of ac db s]
  have of: "map_of ?bps s = first_where (\<lambda>b. pd_symbol b = s) (map snd ?bps)"
    by (rule map_of_first_where) (rule keys)
  have "map_of ?bps s = None \<longleftrightarrow> s \<notin> set (map fst ?bps)" by (simp add: map_of_eq_None_iff)
  then show ?thesis
    unfolding db' using snap of by (auto simp: flatten_missing_qty broker_qty_def split: option.splits)
qed
theorem snapped_positions_witness:
  "\<exists>db' n. reconcile_positions sample_account sample_adapter sample_db = Inr (db', n) \<and>
     position_qty db' 2 ''AAPL'' = 10"
proof -
  have ps: "ad_positions sample_adapter = Inr (map snd sample_bps)" by (simp add: sample_adapter_def)
  obtain db' n where r: "reconcile_positions sample_account sample_adapter sample_db = Inr (db', n)"
    by (cases "reconcile_positions sample_account sample_adapter sample_db")
      (auto simp: reconcile_positions_def ps Let_def case_prod_beta)
  have "broker_qty (by_symbol (map snd sample_bps)) ''AAPL'' = 10"
    by (simp add: sample_bps_def by_symbol_def broker_qty_def)
  with snapped_positions [OF r ps, of "''AAPL''"] r show ?thesis by (auto simp: sample_bps_def sample_b_id)
qed

end
