(* ===== verification/Cache.thy ===== *)
theory Cache
  imports Samples
begin

text \<open>
  The Django cache the program counts with (Redis in production): \<open>get\<close>, \<open>set\<close>, \<open>add\<close>,
  \<open>incr\<close> and \<open>delete\<close> of keys that expire. An entry is live while the clock is before its
  expiry. The locale \<open>expiring_store\<close> is the contract the rate limits, the two-poll
  confirmation of the daily-loss breaker and the attempt limits rely on: a counter that is
  added at zero and incremented counts from one, keeps its window, and no operation touches
  another key.
\<close>

text \<open>Timeouts are given in seconds; the clock counts microseconds.\<close>

definition seconds :: "int \<Rightarrow> int" where
  "seconds n = n * 1000000"

definition cache_get :: "'v cache \<Rightarrow> int \<Rightarrow> string \<Rightarrow> 'v option" where
  "cache_get c now k = (case c k of None \<Rightarrow> None | Some (v, e) \<Rightarrow> if now < e then Some v else None)"

definition cache_set :: "'v cache \<Rightarrow> int \<Rightarrow> string \<Rightarrow> 'v \<Rightarrow> int \<Rightarrow> 'v cache" where
  "cache_set c now k v ttl = c(k \<mapsto> (v, now + seconds ttl))"

definition cache_delete :: "'v cache \<Rightarrow> string \<Rightarrow> 'v cache" where
  "cache_delete c k = c(k := None)"

definition cache_add :: "'v cache \<Rightarrow> int \<Rightarrow> string \<Rightarrow> 'v \<Rightarrow> int \<Rightarrow> bool \<times> 'v cache" where
  "cache_add c now k v ttl =
     (case cache_get c now k of
        None \<Rightarrow> (True, cache_set c now k v ttl)
      | Some _ \<Rightarrow> (False, c))"

text \<open>\<open>incr\<close> keeps the expiry and raises \<open>ValueError\<close>, here \<open>None\<close>, on an absent key.\<close>

definition cache_incr :: "int cache \<Rightarrow> int \<Rightarrow> string \<Rightarrow> (int \<times> int cache) option" where
  "cache_incr c now k =
     (case c k of
        None \<Rightarrow> None
      | Some (v, e) \<Rightarrow> if now < e then Some (v + 1, c(k \<mapsto> (v + 1, e))) else None)"

text \<open>
  The counting idiom of the program: \<open>cache.add(key, 0, timeout)\<close>, then \<open>cache.incr(key)\<close>,
  and a reset to one if the key vanished in between.
\<close>

definition bump :: "int cache \<Rightarrow> int \<Rightarrow> string \<Rightarrow> int \<Rightarrow> int \<times> int cache" where
  "bump c now k ttl =
     (let c1 = snd (cache_add c now k 0 ttl)
      in case cache_incr c1 now k of
           Some r \<Rightarrow> r
         | None \<Rightarrow> (1, cache_set c1 now k 1 ttl))"

subsection \<open>The contract of an expiring counter store\<close>

locale expiring_store =
  fixes look :: "'s \<Rightarrow> int \<Rightarrow> string \<Rightarrow> int option"
    and add :: "'s \<Rightarrow> int \<Rightarrow> string \<Rightarrow> int \<Rightarrow> int \<Rightarrow> bool \<times> 's"
    and incr :: "'s \<Rightarrow> int \<Rightarrow> string \<Rightarrow> (int \<times> 's) option"
    and del :: "'s \<Rightarrow> string \<Rightarrow> 's"
  assumes add_taken: "look c now k = Some v \<Longrightarrow> add c now k x ttl = (False, c)"
    and add_free: "look c now k = None \<Longrightarrow> fst (add c now k x ttl) \<and>
      (0 < ttl \<longrightarrow> look (snd (add c now k x ttl)) now k = Some x)"
    and add_window: "look c now k = None \<Longrightarrow> now \<le> t \<Longrightarrow>
      look (snd (add c now k x ttl)) t k = (if t < now + seconds ttl then Some x else None)"
    and add_other: "k' \<noteq> k \<Longrightarrow> look (snd (add c now k x ttl)) t k' = look c t k'"
    and incr_live: "look c now k = Some v \<Longrightarrow> \<exists>c'. incr c now k = Some (v + 1, c') \<and>
      (\<forall>t\<ge>now. look c' t k = map_option (\<lambda>_. v + 1) (look c t k)) \<and>
      (\<forall>t k'. k' \<noteq> k \<longrightarrow> look c' t k' = look c t k')"
    and incr_dead: "look c now k = None \<Longrightarrow> incr c now k = None"
    and del_self: "look (del c k) t k = None"
    and del_other: "k' \<noteq> k \<Longrightarrow> look (del c k) t k' = look c t k'"
begin

lemma count_first:
  assumes "look c now k = None" "0 < ttl"
  shows "\<exists>c'. incr (snd (add c now k 0 ttl)) now k = Some (1, c') \<and>
    (\<forall>t\<ge>now. look c' t k = (if t < now + seconds ttl then Some 1 else None)) \<and>
    (\<forall>t k'. k' \<noteq> k \<longrightarrow> look c' t k' = look c t k')"
proof -
  have "look (snd (add c now k 0 ttl)) now k = Some 0"
    using add_free [OF assms(1)] assms(2) by simp
  from incr_live [OF this] show ?thesis using add_window [OF assms(1)] add_other by auto
qed

lemma count_next:
  assumes "look c now k = Some n"
  shows "\<exists>c'. incr (snd (add c now k 0 ttl)) now k = Some (n + 1, c') \<and>
    (\<forall>t\<ge>now. look c' t k = map_option (\<lambda>_. n + 1) (look c t k)) \<and>
    (\<forall>t k'. k' \<noteq> k \<longrightarrow> look c' t k' = look c t k')"
  using incr_live [OF assms] by (simp add: add_taken [OF assms])

end

interpretation counters: expiring_store cache_get cache_add cache_incr cache_delete
  by unfold_locales
    (auto simp: cache_get_def cache_add_def cache_set_def cache_incr_def cache_delete_def seconds_def
      split: option.splits if_splits)

subsection \<open>Counting\<close>

lemma bump_value:
  assumes "0 < ttl"
  shows "fst (bump c now k ttl) = (case cache_get c now k of None \<Rightarrow> 1 | Some n \<Rightarrow> n + 1)"
proof (cases "cache_get c now k")
  case None
  from counters.count_first [OF None assms] None show ?thesis by (auto simp: bump_def)
next
  case (Some n)
  from counters.count_next [OF Some, of ttl] Some show ?thesis by (auto simp: bump_def)
qed

lemma bump_get:
  assumes "0 < ttl" "now \<le> t"
  shows "cache_get (snd (bump c now k ttl)) t k =
    (case cache_get c now k of
       None \<Rightarrow> if t < now + seconds ttl then Some 1 else None
     | Some n \<Rightarrow> map_option (\<lambda>_. n + 1) (cache_get c t k))"
proof (cases "cache_get c now k")
  case None
  from counters.count_first [OF None assms(1)] None assms(2) show ?thesis by (auto simp: bump_def)
next
  case (Some n)
  from counters.count_next [OF Some, of ttl] Some assms(2) show ?thesis by (auto simp: bump_def)
qed

lemma bump_other:
  assumes "0 < ttl" "k' \<noteq> k"
  shows "cache_get (snd (bump c now k ttl)) t k' = cache_get c t k'"
proof (cases "cache_get c now k")
  case None
  from counters.count_first [OF None assms(1)] None assms(2) show ?thesis by (auto simp: bump_def)
next
  case (Some n)
  from counters.count_next [OF Some, of ttl] Some assms(2) show ?thesis by (auto simp: bump_def)
qed

end
