(* ===== verification/Killswitch.thy ===== *)
theory Killswitch
  imports Reconcile Cache
begin

text \<open>
  The kill-switch engine (\<open>risk/killswitch.py\<close>, \<open>risk/tasks.py\<close>): halts at four levels,
  their trigger and release, flattening, and the daily-loss breaker with its two-poll
  confirmation. The lemmas show who is blocked by which halt and with what priority, that
  an automatic daily-loss halt holds to the end of the New York day, and that missing
  broker data never trips the breaker.

  A flatten scheduled with \<open>transaction.on_commit\<close> is recorded in \<open>d_flattens\<close>.
\<close>

named_theorems halt_simps "definitions unfolded when a change of the halts is analysed"

subsection \<open>Reading halts\<close>

definition active_halt :: "halt \<Rightarrow> bool" where
  "active_halt h \<longleftrightarrow> h_released h = None"

definition halt_scope :: "halt \<Rightarrow> string" where
  "halt_scope h =
     (if h_user h = None then ''PLATFORM'' else if h_strategy h \<noteq> None then ''STRATEGY'' else ''USER'')"

definition is_blocked :: "db \<Rightarrow> nat \<Rightarrow> nat option \<Rightarrow> string option" where
  "is_blocked db uid strategy_id =
     (if exists_where (\<lambda>h. h_user h = None \<and> h_level h = L3 \<and> h_released h = None) (d_halts db)
      then Some ''PLATFORM_HALTED''
      else if exists_where (\<lambda>h. h_user h = Some uid \<and> h_strategy h = None \<and> h_released h = None) (d_halts db)
      then Some ''USER_HALTED''
      else if strategy_id \<noteq> None \<and>
        exists_where (\<lambda>h. h_user h = Some uid \<and> h_strategy h = strategy_id \<and> h_released h = None) (d_halts db)
      then Some ''STRATEGY_HALTED''
      else None)"

definition resolve_user :: "nat option \<Rightarrow> db \<Rightarrow> nat option" where
  "resolve_user uid db =
     (case uid of
        None \<Rightarrow> None
      | Some u \<Rightarrow> if u = 0 then None else first_where (\<lambda>x. x = u) (d_users db))"

definition trading_day :: "env \<Rightarrow> int \<Rightarrow> int" where
  "trading_day env t = e_ny_day env t"

definition market_is_open :: "env \<Rightarrow> bool" where
  "market_is_open env =
     (if 5 \<le> e_ny_weekday env (e_now env) then False
      else 9 * 3600 + 30 * 60 \<le> e_ny_seconds env (e_now env) \<and> e_ny_seconds env (e_now env) \<le> 16 * 3600)"

subsection \<open>Trigger and release\<close>

definition create_risk_event :: "nat option \<Rightarrow> risk_event_type \<Rightarrow> string \<Rightarrow> wire_dict \<Rightarrow> db \<Rightarrow> db" where
  "create_risk_event uid ty scope details db =
     db\<lparr>d_risk_events := d_risk_events db @ [\<lparr>re_user = uid, re_type = ty, re_scope = scope, re_details = details\<rparr>]\<rparr>"

definition halt_scope_query :: "nat option \<Rightarrow> halt_level \<Rightarrow> nat option \<Rightarrow> halt \<Rightarrow> bool" where
  "halt_scope_query uid level strategy_id h \<longleftrightarrow>
     h_released h = None \<and> h_level h = level \<and>
     (if level = L3 then h_user h = None
      else if level = L0 then h_user h = uid \<and> h_strategy h = strategy_id
      else h_user h = uid \<and> h_strategy h = None)"

record halt_request =
  q_user :: "nat option"
  q_level :: halt_level
  q_strategy :: "nat option"
  q_reason :: string
  q_created_by :: "nat option"
  q_auto :: bool
  q_flatten :: bool

definition new_halt :: "env \<Rightarrow> halt_request \<Rightarrow> nat \<Rightarrow> halt" where
  "new_halt env q i =
     \<lparr>h_id = i,
      h_user = (if q_level q = L3 then None else q_user q),
      h_strategy = (if q_level q = L0 then q_strategy q else None),
      h_level = q_level q, h_auto = q_auto q,
      h_reason = take 255 (if q_reason q \<noteq> [] then q_reason q else halt_level_str (q_level q)),
      h_created_by = q_created_by q, h_created = e_now env, h_released = None, h_released_by = None\<rparr>"

definition trigger_halt :: "env \<Rightarrow> halt_request \<Rightarrow> db \<Rightarrow> db \<times> halt" where
  "trigger_halt env q db =
     (case first_where (halt_scope_query (q_user q) (q_level q) (q_strategy q)) (d_halts db) of
        Some h \<Rightarrow> (db, h)
      | None \<Rightarrow>
          let h = new_halt env q (d_next db);
              scope = halt_scope h;
              db1 = db\<lparr>d_halts := d_halts db @ [h], d_next := d_next db + 1\<rparr>;
              db2 = create_risk_event (if q_level q = L3 then None else q_user q) KILL_SWITCH_ON scope
                [(''level'', WStr (halt_level_str (q_level q))), (''auto'', WBool (q_auto q)),
                 (''reason'', WStr (q_reason q))] db1;
              db3 = audit_emit
                \<lparr>ac_event = ''risk.halt_engaged'',
                 ac_user = (if q_level q = L3 then None else resolve_user (q_user q) db),
                 ac_actor = resolve_user (q_created_by q) db,
                 ac_entity = ''trading_halt'', ac_entity_id = nat_str (h_id h),
                 ac_after = [(''level'', WStr (halt_level_str (q_level q))), (''scope'', WStr scope),
                   (''auto'', WBool (q_auto q)), (''reason'', WStr (q_reason q)),
                   (''strategy_id'', case q_strategy q of None \<Rightarrow> WNull | Some s \<Rightarrow> WId s)]\<rparr> db2
          in (case q_user q of
                Some u \<Rightarrow>
                  if q_flatten q \<and> q_level q \<noteq> L3 then (db3\<lparr>d_flattens := d_flattens db3 @ [(u, scope)]\<rparr>, h)
                  else (db3, h)
              | None \<Rightarrow> (db3, h)))"

definition release_halt :: "env \<Rightarrow> nat \<Rightarrow> nat option \<Rightarrow> db \<Rightarrow> db \<times> bool" where
  "release_halt env hid released_by db =
     (case first_where (\<lambda>h. h_id h = hid \<and> h_released h = None) (d_halts db) of
        None \<Rightarrow> (db, False)
      | Some h \<Rightarrow>
          if h_auto h \<and> h_level h = L2 \<and> trading_day env (h_created h) = trading_day env (e_now env)
          then (db, False)
          else
            let db1 = db\<lparr>d_halts := update_where (\<lambda>x. h_id x = hid)
                  (\<lambda>x. x\<lparr>h_released := Some (e_now env), h_released_by := released_by\<rparr>) (d_halts db)\<rparr>;
                db2 = create_risk_event (h_user h) KILL_SWITCH_OFF (halt_scope h)
                  [(''level'', WStr (halt_level_str (h_level h)))] db1;
                db3 = audit_emit
                  \<lparr>ac_event = ''risk.halt_released'', ac_user = h_user h, ac_actor = resolve_user released_by db,
                   ac_entity = ''trading_halt'', ac_entity_id = nat_str (h_id h),
                   ac_after = [(''level'', WStr (halt_level_str (h_level h))), (''scope'', WStr (halt_scope h))]\<rparr> db2
            in (db3, True))"

subsection \<open>Flattening\<close>

definition connected_accounts :: "nat \<Rightarrow> db \<Rightarrow> account list" where
  "connected_accounts uid db = filter (\<lambda>a. b_user a = uid \<and> b_status a = ACC_CONNECTED) (d_accounts db)"

text \<open>
  One account: any exception ends its turn only, and the snap of the positions is a
  transaction of its own; \<open>flattened\<close> has been counted before the snap can fail.
\<close>

definition flatten_account :: "(account \<Rightarrow> broker_exn + adapter) \<Rightarrow> string \<Rightarrow> account \<Rightarrow> db \<Rightarrow> db \<times> nat" where
  "flatten_account build scope ac db =
     (case build ac of
        Inl _ \<Rightarrow> (db, 0)
      | Inr ad \<Rightarrow>
          (case ad_flatten ad scope of
             Inl _ \<Rightarrow> (db, 0)
           | Inr acks \<Rightarrow>
               (case reconcile_positions ac ad db of
                  Inl _ \<Rightarrow> (db, length acks)
                | Inr (db1, _) \<Rightarrow> (db1, length acks))))"

fun flatten_accounts :: "(account \<Rightarrow> broker_exn + adapter) \<Rightarrow> string \<Rightarrow> account list \<Rightarrow> db \<Rightarrow> db \<times> nat" where
  "flatten_accounts build scope [] db = (db, 0)"
| "flatten_accounts build scope (ac # acs) db =
     (let (db1, n) = flatten_account build scope ac db; (db2, m) = flatten_accounts build scope acs db1
      in (db2, n + m))"

definition flatten_user ::
  "(account \<Rightarrow> broker_exn + adapter) \<Rightarrow> nat \<Rightarrow> string \<Rightarrow> wire_val \<Rightarrow> db \<Rightarrow> db \<times> nat" where
  "flatten_user build uid scope latency db =
     (let accounts = connected_accounts uid db;
          (db1, n) = flatten_accounts build scope accounts db
      in (create_risk_event (Some uid) FLATTEN scope
            [(''latency_s'', latency), (''accounts'', WNum (of_nat (length accounts))),
             (''flattened'', WNum (of_nat n))] db1, n))"

subsection \<open>The daily-loss breaker\<close>

definition account_equity :: "(account \<Rightarrow> broker_exn + adapter) \<Rightarrow> account \<Rightarrow> (rat \<times> rat) option" where
  "account_equity build ac =
     (case build ac of
        Inl _ \<Rightarrow> None
      | Inr ad \<Rightarrow>
          (case ad_account ad of
             Inl _ \<Rightarrow> None
           | Inr acct \<Rightarrow>
               if ai_equity acct \<le> 0 then None
               else Some (ai_equity acct - ai_last_equity acct, ai_equity acct)))"

fun sum_equity :: "(account \<Rightarrow> broker_exn + adapter) \<Rightarrow> account list \<Rightarrow> rat \<times> rat \<times> bool" where
  "sum_equity build [] = (0, 0, False)"
| "sum_equity build (ac # acs) =
     (let (pnl, eq, ok) = sum_equity build acs
      in case account_equity build ac of
           None \<Rightarrow> (pnl, eq, ok)
         | Some (p, e) \<Rightarrow> (p + pnl, e + eq, True))"

definition user_daily_pnl :: "(account \<Rightarrow> broker_exn + adapter) \<Rightarrow> nat \<Rightarrow> db \<Rightarrow> (rat \<times> rat) option" where
  "user_daily_pnl build uid db =
     (let (pnl, eq, ok) = sum_equity build (connected_accounts uid db)
      in if \<not> ok \<or> eq \<le> 0 then None else Some (pnl, eq))"

definition daily_loss_thresholds :: "nat \<Rightarrow> db \<Rightarrow> rat \<times> rat" where
  "daily_loss_thresholds uid db =
     (case first_where (\<lambda>p. rp_user p = uid) (d_profiles db) of
        None \<Rightarrow> (1000, 5)
      | Some p \<Rightarrow> (rp_daily_loss_usd p, rp_daily_loss_pct p))"

definition daily_loss_breached :: "rat \<times> rat \<Rightarrow> rat \<Rightarrow> rat \<Rightarrow> bool" where
  "daily_loss_breached th pnl equity \<longleftrightarrow>
     (0 < fst th \<and> pnl \<le> - \<bar>fst th\<bar>) \<or>
     (0 < snd th \<and> 0 < equity \<and> dec_round (dec_round (pnl / equity) * 100) \<le> - \<bar>snd th\<bar>)"

definition daily_loss_key :: "env \<Rightarrow> nat \<Rightarrow> string" where
  "daily_loss_key env uid = ''risk:dl:'' @ nat_str uid @ '':'' @ int_str (trading_day env (e_now env))"

definition l2_request :: "nat \<Rightarrow> string \<Rightarrow> halt_request" where
  "l2_request uid reason =
     \<lparr>q_user = Some uid, q_level = L2, q_strategy = None, q_reason = reason, q_created_by = None,
      q_auto = True, q_flatten = True\<rparr>"

definition check_daily_loss ::
  "env \<Rightarrow> (account \<Rightarrow> broker_exn + adapter) \<Rightarrow> nat \<Rightarrow> int \<Rightarrow> db \<Rightarrow> db \<times> bool" where
  "check_daily_loss env build uid require_consecutive db =
     (if exists_where (\<lambda>h. h_user h = Some uid \<and> h_level h = L2 \<and> h_auto h \<and> h_released h = None) (d_halts db)
      then (db, False)
      else case user_daily_pnl build uid db of
        None \<Rightarrow> (db, False)
      | Some (pnl, equity) \<Rightarrow>
          let key = daily_loss_key env uid
          in if \<not> daily_loss_breached (daily_loss_thresholds uid db) pnl equity
             then (db\<lparr>d_cache := cache_delete (d_cache db) key\<rparr>, False)
             else
               let (n, c) = bump (d_cache db) (e_now env) key 3600;
                   db1 = db\<lparr>d_cache := c\<rparr>
               in if n < require_consecutive then (db1, False)
                  else
                    let db2 = create_risk_event (Some uid) DAILY_LOSS_BREACH ''USER''
                          [(''pnl'', WNum pnl), (''equity'', WNum equity)] db1
                    in (fst (trigger_halt env (l2_request uid ''DAILY_LOSS_BREACH'') db2), True))"

fun release_each :: "env \<Rightarrow> halt list \<Rightarrow> db \<Rightarrow> db \<times> nat" where
  "release_each env [] db = (db, 0)"
| "release_each env (h # hs) db =
     (let (db1, ok) = release_halt env (h_id h) None db; (db2, n) = release_each env hs db1
      in (db2, if ok then n + 1 else n))"

definition release_expired_l2_halts :: "env \<Rightarrow> db \<Rightarrow> db \<times> nat" where
  "release_expired_l2_halts env db =
     release_each env (filter (\<lambda>h. h_level h = L2 \<and> h_auto h \<and> h_released h = None) (d_halts db)) db"

definition watched_users :: "db \<Rightarrow> nat list" where
  "watched_users db =
     filter (\<lambda>u. exists_where (\<lambda>p. rp_user p = u) (d_profiles db) \<or>
                 exists_where (\<lambda>a. b_user a = u \<and> b_status a = ACC_CONNECTED \<and> b_mode a = LIVE) (d_accounts db))
       (d_users db)"

fun check_each ::
  "env \<Rightarrow> (account \<Rightarrow> broker_exn + adapter) \<Rightarrow> nat list \<Rightarrow> db \<Rightarrow> db \<times> nat" where
  "check_each env build [] db = (db, 0)"
| "check_each env build (u # us) db =
     (let (db1, hit) = check_daily_loss env build u 2 db; (db2, n) = check_each env build us db1
      in (db2, if hit then n + 1 else n))"

datatype watch_result = WatchDisabled | WatchLocked | WatchClosed nat | Watched nat nat

definition watch_lock :: string where
  "watch_lock = ''risk:daily_loss_watcher:lock''"

definition daily_loss_watcher ::
  "env \<Rightarrow> (account \<Rightarrow> broker_exn + adapter) \<Rightarrow> bool \<Rightarrow> db \<Rightarrow> db \<times> watch_result" where
  "daily_loss_watcher env build kill_switches_enabled db =
     (if \<not> kill_switches_enabled then (db, WatchDisabled)
      else
        let (got, c) = cache_add (d_cache db) (e_now env) watch_lock 1 45
        in if \<not> got then (db, WatchLocked)
           else
             let (db1, released) = release_expired_l2_halts env (db\<lparr>d_cache := c\<rparr>)
             in if \<not> market_is_open env
                then (db1\<lparr>d_cache := cache_delete (d_cache db1) watch_lock\<rparr>, WatchClosed released)
                else
                  let (db2, tripped) = check_each env build (watched_users db1) db1
                  in (db2\<lparr>d_cache := cache_delete (d_cache db2) watch_lock\<rparr>, Watched tripped released))"

subsection \<open>Which halts cover which orders\<close>

text \<open>What each level promises, by level alone.\<close>

definition covers :: "halt \<Rightarrow> nat \<Rightarrow> nat option \<Rightarrow> bool" where
  "covers h uid st =
     (case h_level h of
        L3 \<Rightarrow> True
      | L2 \<Rightarrow> h_user h = Some uid
      | L1 \<Rightarrow> h_user h = Some uid
      | L0 \<Rightarrow> h_user h = Some uid \<and> st \<noteq> None \<and> h_strategy h = st)"

definition halt_shape :: "halt \<Rightarrow> bool" where
  "halt_shape h \<longleftrightarrow> (h_user h = None \<longleftrightarrow> h_level h = L3) \<and> (h_strategy h = None \<longleftrightarrow> h_level h \<noteq> L0)"

definition same_scope :: "halt \<Rightarrow> halt \<Rightarrow> bool" where
  "same_scope h h' \<longleftrightarrow> h_level h = h_level h' \<and> h_user h = h_user h' \<and> h_strategy h = h_strategy h'"

text \<open>Halts have the shape of their level, keys are keys, and a scope has one active halt.\<close>

definition halts_wf :: "db \<Rightarrow> bool" where
  "halts_wf db \<longleftrightarrow>
     (\<forall>h\<in>set (d_halts db). halt_shape h \<and> h_id h < d_next db) \<and>
     distinct (map h_id (d_halts db)) \<and>
     (\<forall>h\<in>set (d_halts db). \<forall>h'\<in>set (d_halts db).
        active_halt h \<and> active_halt h' \<and> same_scope h h' \<longrightarrow> h = h')"

definition request_ok :: "halt_request \<Rightarrow> bool" where
  "request_ok q \<longleftrightarrow> (q_level q \<noteq> L3 \<longrightarrow> q_user q \<noteq> None) \<and> (q_level q = L0 \<longrightarrow> q_strategy q \<noteq> None)"

lemma halt_frame [simp]:
  "d_halts (create_risk_event u t s d db) = d_halts db" "d_next (create_risk_event u t s d db) = d_next db"
  "d_cache (create_risk_event u t s d db) = d_cache db" "d_halts (audit_emit c db) = d_halts db"
  "d_orders (create_risk_event u t s d db) = d_orders db" "d_accounts (create_risk_event u t s d db) = d_accounts db"
  "d_profiles (create_risk_event u t s d db) = d_profiles db" "d_users (create_risk_event u t s d db) = d_users db"
  "d_cache (audit_emit c db) = d_cache db" "d_accounts (audit_emit c db) = d_accounts db"
  "d_profiles (audit_emit c db) = d_profiles db" "d_users (audit_emit c db) = d_users db"
  by (simp_all add: create_risk_event_def audit_emit_def)

lemma trigger_halt_cases:
  obtains (reused) h where "first_where (halt_scope_query (q_user q) (q_level q) (q_strategy q)) (d_halts db) = Some h"
      "trigger_halt env q db = (db, h)"
  | (created) db' where "first_where (halt_scope_query (q_user q) (q_level q) (q_strategy q)) (d_halts db) = None"
      "trigger_halt env q db = (db', new_halt env q (d_next db))"
      "d_halts db' = d_halts db @ [new_halt env q (d_next db)]" "d_next db' = d_next db + 1"
      "d_cache db' = d_cache db" "d_orders db' = d_orders db" "d_profiles db' = d_profiles db"
      "d_accounts db' = d_accounts db"
proof (cases "first_where (halt_scope_query (q_user q) (q_level q) (q_strategy q)) (d_halts db)")
  case None
  then show thesis
    by (intro created [of "fst (trigger_halt env q db)"])
      (simp_all add: trigger_halt_def Let_def split: option.splits)
next
  case (Some h)
  then show thesis by (intro reused [of h]) (simp_all add: trigger_halt_def)
qed

lemma new_halt_fields [simp]:
  "h_id (new_halt env q i) = i" "h_level (new_halt env q i) = q_level q" "h_auto (new_halt env q i) = q_auto q"
  "h_released (new_halt env q i) = None" "h_created (new_halt env q i) = e_now env"
  "h_user (new_halt env q i) = (if q_level q = L3 then None else q_user q)"
  "h_strategy (new_halt env q i) = (if q_level q = L0 then q_strategy q else None)"
  by (simp_all add: new_halt_def)

lemma new_halt_shape: "request_ok q \<Longrightarrow> halt_shape (new_halt env q i)"
  by (auto simp: halt_shape_def request_ok_def)

lemma trigger_halt_wf:
  assumes wf: "halts_wf db" and q: "request_ok q"
  shows "halts_wf (fst (trigger_halt env q db))"
proof (cases rule: trigger_halt_cases [of q db env])
  case (reused h)
  with wf show ?thesis by simp
next
  case (created db')
  have "\<not> same_scope h (new_halt env q (d_next db))" if "h \<in> set (d_halts db)" "active_halt h" for h
    using created(1) that wf
    by (auto simp: first_where_None halt_scope_query_def same_scope_def active_halt_def halts_wf_def halt_shape_def)
  moreover from this have "\<not> same_scope (new_halt env q (d_next db)) h" if "h \<in> set (d_halts db)" "active_halt h" for h
    using that unfolding same_scope_def by metis
  moreover have "h_id h < d_next db" if "h \<in> set (d_halts db)" for h
    using that wf by (simp add: halts_wf_def)
  moreover from this have "d_next db \<notin> h_id ` set (d_halts db)" by force
  ultimately show ?thesis
    using wf created(2,3,4) new_halt_shape [OF q] by (auto simp: halts_wf_def less_Suc_eq)
qed

text \<open>Releasing: no change, or exactly the halt with this id is marked released.\<close>

lemma release_halt_cases:
  obtains (kept) "release_halt env i by db = (db, False)"
  | (released) h db' where "release_halt env i by db = (db', True)" "h \<in> set (d_halts db)" "h_id h = i"
      "active_halt h" "\<not> (h_auto h \<and> h_level h = L2 \<and> trading_day env (h_created h) = trading_day env (e_now env))"
      "d_halts db' = update_where (\<lambda>x. h_id x = i)
         (\<lambda>x. x\<lparr>h_released := Some (e_now env), h_released_by := by\<rparr>) (d_halts db)"
      "d_next db' = d_next db" "d_cache db' = d_cache db" "d_orders db' = d_orders db"
      "d_profiles db' = d_profiles db" "d_accounts db' = d_accounts db" "d_users db' = d_users db"
proof (cases "first_where (\<lambda>h. h_id h = i \<and> h_released h = None) (d_halts db)")
  case None
  then show thesis using kept by (simp add: release_halt_def)
next
  case (Some h)
  then have h: "h \<in> set (d_halts db)" "h_id h = i" "active_halt h"
    by (auto dest!: first_where_Some simp: active_halt_def)
  show thesis
  proof (cases "h_auto h \<and> h_level h = L2 \<and> trading_day env (h_created h) = trading_day env (e_now env)")
    case True
    with Some show thesis using kept by (simp add: release_halt_def)
  next
    case False
    with Some h show thesis
      by (intro released [of "fst (release_halt env i by db)" h]) (auto simp: release_halt_def Let_def)
  qed
qed

lemma release_halt_wf:
  assumes "halts_wf db"
  shows "halts_wf (fst (release_halt env i by db))"
proof (cases rule: release_halt_cases [of env i "by" db])
  case (released h db')
  have "map h_id (d_halts db') = map h_id (d_halts db)" unfolding released(6) by (rule map_update_where) simp
  with assms released show ?thesis
    by (auto simp: halts_wf_def set_update_where halt_shape_def same_scope_def active_halt_def split: if_splits)
qed (use assms in simp)

lemma release_halt_active:
  "h \<in> set (d_halts (fst (release_halt env i by db))) \<Longrightarrow> active_halt h \<Longrightarrow> h \<in> set (d_halts db)"
  by (cases rule: release_halt_cases [of env i "by" db])
    (auto simp: set_update_where active_halt_def split: if_splits)

lemma is_blocked_None:
  "is_blocked db u st = None \<longleftrightarrow>
     (\<forall>h\<in>set (d_halts db). active_halt h \<longrightarrow>
        \<not> (h_user h = None \<and> h_level h = L3) \<and>
        \<not> (h_user h = Some u \<and> (h_strategy h = None \<or> st \<noteq> None \<and> h_strategy h = st)))"
  by (auto simp: is_blocked_def exists_where_iff active_halt_def)

lemma is_blocked_frame: "d_halts db' = d_halts db \<Longrightarrow> is_blocked db' u st = is_blocked db u st"
  by (simp add: is_blocked_def)


definition sample_l2 :: halt_request where
  "sample_l2 = l2_request 7 ''DAILY_LOSS_BREACH''"

lemma sample_halts_wf: "halts_wf sample_db"
  by (simp add: sample_defs halts_wf_def)


lemma trigger_keeps_halts: "h \<in> set (d_halts db) \<Longrightarrow> h \<in> set (d_halts (fst (trigger_halt env q db)))"
  by (cases rule: trigger_halt_cases [of q db env]) auto

lemma trigger_in_force:
  "request_ok q \<Longrightarrow> halts_wf db \<Longrightarrow>
   \<exists>h\<in>set (d_halts (fst (trigger_halt env q db))). active_halt h \<and> halt_scope_query (q_user q) (q_level q) (q_strategy q) h"
proof (cases rule: trigger_halt_cases [of q db env])
  case (reused h)
  then show ?thesis by (auto simp: active_halt_def halt_scope_query_def dest!: first_where_Some)
next
  case (created db')
  then show ?thesis
    by (intro bexI [of _ "new_halt env q (d_next db)"]) (auto simp: active_halt_def halt_scope_query_def)
qed

text \<open>
  Triggering halts. A triggered halt takes effect at once on everything its level
  covers, unblocks nothing, keeps the tables well formed, and triggering it again reuses
  the row: no second halt, event or flatten.
\<close>

theorem trigger_halt_blocks:
  assumes wf: "halts_wf db" and q: "request_ok q" and db': "db' = fst (trigger_halt env q db)"
  shows "(q_level q = L3 \<or> q_user q = Some u \<and> (q_level q = L0 \<longrightarrow> q_strategy q = st) \<longrightarrow> is_blocked db' u st \<noteq> None) \<and>
    (is_blocked db u' st' \<noteq> None \<longrightarrow> is_blocked db' u' st' \<noteq> None) \<and>
    halts_wf db' \<and> fst (trigger_halt env' q db') = db'"
proof -
  have wf': "halts_wf db'" unfolding db' by (rule trigger_halt_wf [OF wf q])
  obtain h where h: "h \<in> set (d_halts db')" "active_halt h" "halt_scope_query (q_user q) (q_level q) (q_strategy q) h"
    using trigger_in_force [OF q wf] db' by blast
  have "is_blocked db' u st \<noteq> None" if "q_level q = L3 \<or> q_user q = Some u \<and> (q_level q = L0 \<longrightarrow> q_strategy q = st)"
    using h that q unfolding is_blocked_None
    by (cases "q_level q") (auto simp: halt_scope_query_def request_ok_def intro!: bexI [of _ h])
  moreover have "is_blocked db u' st' \<noteq> None \<longrightarrow> is_blocked db' u' st' \<noteq> None"
    unfolding is_blocked_None db' using trigger_keeps_halts by blast
  moreover have "first_where (halt_scope_query (q_user q) (q_level q) (q_strategy q)) (d_halts db') \<noteq> None"
    using h by (auto simp: first_where_None)
  then have "fst (trigger_halt env' q db') = db'"
    by (cases rule: trigger_halt_cases [of q db' env']) auto
  ultimately show ?thesis using wf' by blast
qed

theorem trigger_halt_blocks_witness:
  "is_blocked (fst (trigger_halt sample_env sample_l2 sample_db)) 7 (Some 3) \<noteq> None"
  using trigger_halt_blocks [OF sample_halts_wf _ refl, of sample_l2 7 "Some 3" sample_env 7 None sample_env]
  by (simp add: request_ok_def sample_l2_def l2_request_def)


definition l2_auto :: "halt \<Rightarrow> bool" where
  "l2_auto h \<longleftrightarrow> h_level h = L2 \<and> h_auto h"

definition locked :: "env \<Rightarrow> halt \<Rightarrow> bool" where
  "locked env h \<longleftrightarrow> l2_auto h \<and> trading_day env (h_created h) = trading_day env (e_now env)"

lemma release_other:
  assumes "h \<in> set (d_halts db)" "h_id h \<noteq> i \<or> \<not> active_halt h" "distinct (map h_id (d_halts db))"
  shows "h \<in> set (d_halts (fst (release_halt env i by db)))"
proof (cases rule: release_halt_cases [of env i "by" db])
  case (released h' db')
  have "h_id h \<noteq> i"
  proof
    assume "h_id h = i"
    with released(2,3) assms(1,3) have "h = h'" by (auto simp: distinct_map inj_on_def)
    with assms(2) released(3,4) show False by simp
  qed
  with assms(1) released show ?thesis by (auto simp: set_update_where image_iff intro!: bexI [of _ h])
qed (use assms in simp)

lemma release_locked:
  assumes wf: "halts_wf db" and h: "h \<in> set (d_halts db)" and l: "locked env h"
  shows "release_halt env (h_id h) by db = (db, False)"
proof (cases rule: release_halt_cases [of env "h_id h" "by" db])
  case (released h' db')
  then have "h' = h" using wf h by (auto simp: halts_wf_def distinct_map inj_on_def)
  with released(5) l show ?thesis by (simp add: locked_def l2_auto_def)
qed

lemma release_each_wf: "halts_wf db \<Longrightarrow> halts_wf (fst (release_each env hs db))"
proof (induction hs arbitrary: db)
  case (Cons h hs)
  then show ?case using release_halt_wf by (simp add: case_prod_beta Let_def)
qed simp

lemma release_each_keeps:
  assumes "halts_wf db" "h \<in> set (d_halts db)" "locked env h \<or> h \<notin> set hs" "set hs \<subseteq> set (d_halts db) \<union> H"
    "\<And>x. x \<in> set hs \<Longrightarrow> h_id x = h_id h \<Longrightarrow> x = h"
  shows "h \<in> set (d_halts (fst (release_each env hs db)))"
  using assms
proof (induction hs arbitrary: db H)
  case (Cons x hs)
  let ?db1 = "fst (release_halt env (h_id x) None db)"
  have "h \<in> set (d_halts ?db1)"
  proof (cases "h_id x = h_id h")
    case True
    then have "x = h" using Cons.prems(5) by simp
    with Cons.prems(3) have "locked env h" by auto
    from release_locked [OF Cons.prems(1,2) this] \<open>x = h\<close> Cons.prems(2) show ?thesis by simp
  next
    case False
    with release_other [OF Cons.prems(2), of "h_id x" env None] Cons.prems(1) show ?thesis
      by (auto simp: halts_wf_def)
  qed
  moreover have "halts_wf ?db1" using release_halt_wf Cons.prems(1) by blast
  ultimately have "h \<in> set (d_halts (fst (release_each env hs ?db1)))"
    using Cons.prems by (intro Cons.IH [where H = "set (x # hs)"]) auto
  then show ?case by (simp add: case_prod_beta Let_def)
qed simp

lemma release_each_active:
  "h \<in> set (d_halts (fst (release_each env hs db))) \<Longrightarrow> active_halt h \<Longrightarrow> h \<in> set (d_halts db)"
proof (induction hs arbitrary: db)
  case (Cons x hs)
  have "h \<in> set (d_halts (fst (release_each env hs (fst (release_halt env (h_id x) None db)))))"
    using Cons.prems(1) by (simp add: case_prod_beta Let_def)
  from Cons.IH [OF this Cons.prems(2)] show ?case by (rule release_halt_active) (rule Cons.prems(2))
qed simp

lemma released_rows:
  "\<forall>y\<in>set (update_where (\<lambda>x. h_id x = i) (\<lambda>x. x\<lparr>h_released := Some t, h_released_by := r\<rparr>) xs).
     h_id y = i \<longrightarrow> \<not> active_halt y"
  by (simp add: set_update_where active_halt_def del: if_image_distrib)

lemma halt_key:
  "halts_wf db \<Longrightarrow> x \<in> set (d_halts db) \<Longrightarrow> y \<in> set (d_halts db) \<Longrightarrow> h_id x = h_id y \<Longrightarrow> x = y"
  by (auto simp: halts_wf_def distinct_map inj_on_def)

lemma release_halt_releases:
  assumes wf: "halts_wf db" and h: "h \<in> set (d_halts db)" "active_halt h" "\<not> locked env h"
  shows "h \<notin> set (d_halts (fst (release_halt env (h_id h) by db)))"
proof (cases rule: release_halt_cases [of env "h_id h" "by" db])
  case kept
  have "first_where (\<lambda>x. h_id x = h_id h \<and> h_released x = None) (d_halts db) = Some h"
  proof (rule first_where_unique [OF h(1)])
    show "h_id h = h_id h \<and> h_released h = None" using h(2) by (simp add: active_halt_def)
  next
    fix y
    assume "y \<in> set (d_halts db)" "h_id y = h_id h \<and> h_released y = None"
    then show "y = h" using halt_key [OF wf _ h(1)] by blast
  qed
  moreover have "\<not> (h_auto h \<and> h_level h = L2 \<and> trading_day env (h_created h) = trading_day env (e_now env))"
    using h(3) by (auto simp: locked_def l2_auto_def)
  ultimately have "snd (release_halt env (h_id h) by db)"
    by (simp only: release_halt_def option.case if_False Let_def snd_conv)
  with kept show ?thesis by simp
next
  case (released h' db')
  show ?thesis
  proof
    assume "h \<in> set (d_halts (fst (release_halt env (h_id h) by db)))"
    then have "h \<in> set (d_halts db')" unfolding released(1) by simp
    with released_rows h(2) show False unfolding released(6) by blast
  qed
qed

lemma release_each_releases:
  assumes "halts_wf db" "h \<in> set hs" "active_halt h" "\<not> locked env h"
  shows "h \<notin> set (d_halts (fst (release_each env hs db)))"
  using assms
proof (induction hs arbitrary: db)
  case (Cons x hs)
  let ?db1 = "fst (release_halt env (h_id x) None db)"
  have wf1: "halts_wf ?db1" using release_halt_wf Cons.prems(1) by blast
  show ?case
  proof (cases "h \<in> set hs")
    case True
    with Cons.IH [OF wf1] Cons.prems show ?thesis by (simp add: case_prod_beta Let_def)
  next
    case False
    with Cons.prems(2) have "x = h" by simp
    then have "h \<notin> set (d_halts ?db1)"
      using release_halt_releases [OF Cons.prems(1) _ Cons.prems(3,4)] release_halt_active Cons.prems(3) by blast
    then have "h \<notin> set (d_halts (fst (release_each env hs ?db1)))"
      using release_each_active [OF _ Cons.prems(3)] by blast
    then show ?thesis by (simp add: case_prod_beta Let_def)
  qed
qed simp

lemma daily_loss_lock_keeps:
  assumes wf: "halts_wf db" and h: "h \<in> set (d_halts db)" and l: "\<not> l2_auto h \<or> locked env h"
  shows "h \<in> set (d_halts (fst (release_expired_l2_halts env db)))"
  unfolding release_expired_l2_halts_def
proof (rule release_each_keeps [OF wf h, where H = "{}"])
  show "x = h" if "x \<in> set (filter (\<lambda>h. h_level h = L2 \<and> h_auto h \<and> h_released h = None) (d_halts db))" "h_id x = h_id h" for x
    using that halt_key [OF wf _ h] by simp
qed (use l in \<open>auto simp: l2_auto_def\<close>)

lemma daily_loss_lock_releases:
  assumes wf: "halts_wf db" and h: "h \<in> set (d_halts db)" "active_halt h" "l2_auto h" "\<not> locked env h"
  shows "h \<notin> set (d_halts (fst (release_expired_l2_halts env db)))"
  unfolding release_expired_l2_halts_def
  by (rule release_each_releases [OF wf _ h(2,4)]) (use h in \<open>simp add: l2_auto_def active_halt_def\<close>)

text \<open>
  C5. The daily-loss lock. An automatic L2 halt cannot be released, by an operator or by the
  sweep, on the New York day it was created: the state does not change. Once the day has
  rolled over, the sweep releases every such halt of an earlier day and nothing else.
\<close>

theorem daily_loss_lock:
  assumes wf: "halts_wf db" and h: "h \<in> set (d_halts db)" "active_halt h"
  shows "(locked env h \<longrightarrow> release_halt env (h_id h) who db = (db, False)) \<and>
    (h \<in> set (d_halts (fst (release_expired_l2_halts env db))) \<longleftrightarrow> \<not> l2_auto h \<or> locked env h)"
  using release_locked [OF wf h(1)] daily_loss_lock_keeps [OF wf h(1)] daily_loss_lock_releases [OF wf h] by blast

theorem daily_loss_lock_witness:
  "\<exists>h. h \<in> set (d_halts (fst (trigger_halt sample_env sample_l2 sample_db))) \<and>
     h \<notin> set (d_halts (fst (release_expired_l2_halts (sample_env\<lparr>e_now := 2000\<rparr>)
        (fst (trigger_halt sample_env sample_l2 sample_db)))))"
proof -
  let ?db = "fst (trigger_halt sample_env sample_l2 sample_db)" and ?h = "new_halt sample_env sample_l2 100"
  have wf: "halts_wf ?db"
    by (rule trigger_halt_wf [OF sample_halts_wf]) (simp add: request_ok_def sample_l2_def l2_request_def)
  have h: "?h \<in> set (d_halts ?db)"
    by (cases rule: trigger_halt_cases [of sample_l2 sample_db sample_env]) (auto simp: sample_defs)
  have "active_halt ?h" "l2_auto ?h" "\<not> locked (sample_env\<lparr>e_now := 2000\<rparr>) ?h"
    by (simp_all add: active_halt_def l2_auto_def locked_def trading_day_def sample_env_def sample_l2_def l2_request_def)
  with daily_loss_lock [OF wf h, of "sample_env\<lparr>e_now := 2000\<rparr>" None] h show ?thesis by blast
qed

subsection \<open>The breaker\<close>

text \<open>
  Missing data never trips the breaker. With no usable broker equity (no connected
  account, every read failing or reporting none) a poll changes nothing.
\<close>

theorem monitoring_gap_is_safe:
  assumes "\<And>a. a \<in> set (connected_accounts uid db) \<Longrightarrow> account_equity build a = None"
  shows "check_daily_loss env build uid n db = (db, False)"
proof -
  have "sum_equity build as = (0, 0, False)" if "\<And>a. a \<in> set as \<Longrightarrow> account_equity build a = None" for as
    using that by (induction as) simp_all
  then have "user_daily_pnl build uid db = None" using assms by (simp add: user_daily_pnl_def)
  then show ?thesis by (simp add: check_daily_loss_def)
qed

theorem monitoring_gap_witness:
  "check_daily_loss sample_env (\<lambda>a. Inl (BrokerError ''BROKER_UNAVAILABLE'' True)) 7 2 sample_db = (sample_db, False)"
  by (rule monitoring_gap_is_safe) (simp add: account_equity_def)

lemma dec_pct_fixed:
  assumes "has_scale 4 x" "\<bar>x\<bar> \<le> 10000"
  shows "dec_round x = x"
proof -
  obtain k where k: "x = of_int k / 10 ^ 4" using assms(1) by (auto simp: has_scale_iff)
  then have "\<bar>rat_of_int k\<bar> \<le> 10 ^ 8" using assms(2) by (simp add: abs_le_iff field_simps)
  then have "\<bar>k\<bar> \<le> 10 ^ 8" by (simp add: abs_le_iff)
  then have "\<bar>k\<bar> \<le> int 10 ^ 28" by simp
  then show ?thesis unfolding dec_round_def
    by (intro round_sig_fixed [where e = "- 4" and k = k]) (simp_all add: k power_int_minus)
qed

text \<open>
  A loss at the threshold is a breach. A day's loss of at least the dollar limit, or of
  at least the percentage limit of the equity, is a breach; the 28-digit division cannot
  lose it. A limit of zero is no limit.
\<close>

theorem threshold_loss_is_breach:
  assumes "has_scale 2 pct" "pct \<le> 10000" "0 < equity" "0 \<le> pct" "0 \<le> usd"
  shows "(0 < usd \<and> pnl \<le> - usd \<or> 0 < pct \<and> pnl \<le> - (pct / 100 * equity) \<longrightarrow>
      daily_loss_breached (usd, pct) pnl equity) \<and>
    (usd = 0 \<and> pct = 0 \<longrightarrow> \<not> daily_loss_breached (usd, pct) pnl equity)"
proof -
  have "dec_round (dec_round (pnl / equity) * 100) \<le> - pct" if "0 < pct" "pnl \<le> - (pct / 100 * equity)"
  proof -
    have s: "has_scale 4 (pct / 100)" "has_scale 4 pct"
    proof -
      obtain k where "pct = of_int k / 10 ^ 2" using assms(1) by (auto simp: has_scale_iff)
      then have "pct / 100 = of_int k / 10 ^ 4" "pct = of_int (k * 100) / 10 ^ 4" by simp_all
      then show "has_scale 4 (pct / 100)" "has_scale 4 pct" unfolding has_scale_iff by blast+
    qed
    have "pnl / equity \<le> - (pct / 100)" using that assms(3) by (simp add: field_simps)
    then have "dec_round (pnl / equity) \<le> dec_round (- (pct / 100))" by (rule decimal28.rnd_mono)
    also have "\<dots> = - (pct / 100)"
      using s assms(2,4) by (simp add: decimal28.rnd_minus dec_pct_fixed)
    finally have "dec_round (pnl / equity) * 100 \<le> - pct" by simp
    then have "dec_round (dec_round (pnl / equity) * 100) \<le> dec_round (- pct)" by (rule decimal28.rnd_mono)
    also have "\<dots> = - pct" using s assms(2,4) by (simp add: decimal28.rnd_minus dec_pct_fixed)
    finally show ?thesis .
  qed
  then show ?thesis using assms by (auto simp: daily_loss_breached_def)
qed

theorem threshold_loss_is_breach_witness:
  "daily_loss_breached (1000, 5) (- 1000) 100000 \<and> daily_loss_breached (0, 5) (- 5000) 100000 \<and>
   \<not> daily_loss_breached (0, 0) (- 5000) 100000"
  using threshold_loss_is_breach [of 5 100000 1000 "- 1000"] threshold_loss_is_breach [of 5 100000 0 "- 5000"]
    threshold_loss_is_breach [of 0 100000 0 "- 5000"]
  by simp

lemma check_daily_loss_quiet:
  assumes "user_daily_pnl build uid db = Some (pnl, eq)"
    "daily_loss_breached (daily_loss_thresholds uid db) pnl eq"
    "\<not> exists_where (\<lambda>h. h_user h = Some uid \<and> h_level h = L2 \<and> h_auto h \<and> h_released h = None) (d_halts db)"
    "bump (d_cache db) (e_now env) (daily_loss_key env uid) 3600 = (n, c)"
  shows "check_daily_loss env build uid k db =
    (if n < k then (db\<lparr>d_cache := c\<rparr>, False)
     else (fst (trigger_halt env (l2_request uid ''DAILY_LOSS_BREACH'')
       (create_risk_event (Some uid) DAILY_LOSS_BREACH ''USER''
          [(''pnl'', WNum pnl), (''equity'', WNum eq)] (db\<lparr>d_cache := c\<rparr>))), True))"
  using assms by (simp add: check_daily_loss_def Let_def)

lemma connected_frame: "d_accounts db' = d_accounts db \<Longrightarrow> connected_accounts uid db' = connected_accounts uid db"
  by (simp add: connected_accounts_def)

text \<open>
  Two polls. With no automatic halt and no count pending, a first breaching poll halts
  nobody; a second breaching poll on the same trading day within the hour (the tables
  otherwise unchanged) trips the breaker, and the user is blocked.
\<close>

theorem two_poll_confirmation:
  assumes wf: "halts_wf db"
    and none: "\<not> exists_where (\<lambda>h. h_user h = Some uid \<and> h_level h = L2 \<and> h_auto h \<and> h_released h = None) (d_halts db)"
    and fresh: "cache_get (d_cache db) (e_now env1) (daily_loss_key env1 uid) = None"
    and breach1: "user_daily_pnl build1 uid db = Some (pnl1, eq1)"
      "daily_loss_breached (daily_loss_thresholds uid db) pnl1 eq1"
    and breach2: "user_daily_pnl build2 uid db = Some (pnl2, eq2)"
      "daily_loss_breached (daily_loss_thresholds uid db) pnl2 eq2"
    and later: "e_now env1 \<le> e_now env2" "e_now env2 < e_now env1 + seconds 3600"
      "daily_loss_key env2 uid = daily_loss_key env1 uid"
  shows "\<exists>db1. check_daily_loss env1 build1 uid 2 db = (db1, False) \<and> d_halts db1 = d_halts db \<and>
    (\<exists>db2. check_daily_loss env2 build2 uid 2 db1 = (db2, True) \<and> is_blocked db2 uid st \<noteq> None)"
proof -
  obtain n c where b: "bump (d_cache db) (e_now env1) (daily_loss_key env1 uid) 3600 = (n, c)"
    by (cases "bump (d_cache db) (e_now env1) (daily_loss_key env1 uid) 3600")
  have n: "n = 1" using bump_value [of 3600 "d_cache db" "e_now env1" "daily_loss_key env1 uid"] fresh b by simp
  let ?db1 = "db\<lparr>d_cache := c\<rparr>"
  have c1: "check_daily_loss env1 build1 uid 2 db = (?db1, False)"
    using check_daily_loss_quiet [OF breach1 none b, of 2] n by simp
  have live: "cache_get c (e_now env2) (daily_loss_key env2 uid) = Some 1"
    using bump_get [of 3600 "e_now env1" "e_now env2" "d_cache db" "daily_loss_key env1 uid"] fresh b later by simp
  obtain m c2 where b2: "bump (d_cache ?db1) (e_now env2) (daily_loss_key env2 uid) 3600 = (m, c2)"
    by (cases "bump (d_cache ?db1) (e_now env2) (daily_loss_key env2 uid) 3600")
  have m: "m = 2" using bump_value [of 3600 c "e_now env2" "daily_loss_key env2 uid"] live b2 by simp
  let ?db2 = "create_risk_event (Some uid) DAILY_LOSS_BREACH ''USER''
    [(''pnl'', WNum pnl2), (''equity'', WNum eq2)] (?db1\<lparr>d_cache := c2\<rparr>)"
  let ?q = "l2_request uid ''DAILY_LOSS_BREACH''"
  have same: "user_daily_pnl build2 uid ?db1 = Some (pnl2, eq2)"
    "daily_loss_thresholds uid ?db1 = daily_loss_thresholds uid db"
    using breach2(1) by (simp_all add: user_daily_pnl_def connected_accounts_def daily_loss_thresholds_def)
  have c2: "check_daily_loss env2 build2 uid 2 ?db1 = (fst (trigger_halt env2 ?q ?db2), True)"
    using check_daily_loss_quiet [OF same(1) _ _ b2, of 2] same(2) breach2(2) none m by simp
  have "halts_wf ?db2" using wf by (simp add: halts_wf_def)
  from trigger_in_force [OF _ this, of ?q env2]
  obtain h where h: "h \<in> set (d_halts (fst (trigger_halt env2 ?q ?db2)))" "active_halt h"
    "halt_scope_query (Some uid) L2 None h"
    by (auto simp: request_ok_def l2_request_def)
  then have "is_blocked (fst (trigger_halt env2 ?q ?db2)) uid st \<noteq> None"
    unfolding is_blocked_None by (auto simp: halt_scope_query_def intro!: bexI [of _ h])
  with c1 c2 show ?thesis by auto
qed

definition losing_build :: "account \<Rightarrow> broker_exn + adapter" where
  "losing_build a = Inr (sample_adapter\<lparr>ad_account := Inr \<lparr>ai_number = ''PA1'', ai_buying_power = 180000,
     ai_cash = 90000, ai_currency = ''USD'', ai_status = ''ACTIVE'', ai_is_paper = True, ai_equity = 90000, ai_last_equity = 100000\<rparr>\<rparr>)"

theorem two_poll_confirmation_witness:
  "\<exists>db1 db2. check_daily_loss sample_env losing_build 7 2 sample_db = (db1, False) \<and>
     check_daily_loss (sample_env\<lparr>e_now := 1050\<rparr>) losing_build 7 2 db1 = (db2, True) \<and>
     is_blocked db2 7 None \<noteq> None"
proof -
  have p: "user_daily_pnl losing_build 7 sample_db = Some (- 10000, 90000)"
    by (simp add: user_daily_pnl_def connected_accounts_def sample_defs account_equity_def losing_build_def)
  have b: "daily_loss_breached (daily_loss_thresholds 7 sample_db) (- 10000) 90000"
    by (simp add: daily_loss_breached_def daily_loss_thresholds_def sample_defs)
  have "\<not> exists_where (\<lambda>h. h_user h = Some 7 \<and> h_level h = L2 \<and> h_auto h \<and> h_released h = None) (d_halts sample_db)"
    "cache_get (d_cache sample_db) (e_now sample_env) (daily_loss_key sample_env 7) = None"
    "e_now sample_env \<le> e_now (sample_env\<lparr>e_now := 1050\<rparr>)"
    "e_now (sample_env\<lparr>e_now := 1050\<rparr>) < e_now sample_env + seconds 3600"
    "daily_loss_key (sample_env\<lparr>e_now := 1050\<rparr>) 7 = daily_loss_key sample_env 7"
    by (simp_all add: sample_defs table_simps cache_get_def seconds_def daily_loss_key_def trading_day_def)
  from two_poll_confirmation [OF sample_halts_wf this(1,2) p b p b this(3-5), of None] show ?thesis by blast
qed

lemma check_daily_loss_keeps:
  "h \<in> set (d_halts db) \<Longrightarrow> h \<in> set (d_halts (fst (check_daily_loss env build u k db)))"
proof -
  assume h: "h \<in> set (d_halts db)"
  have "h \<in> set (d_halts (fst (trigger_halt env q d)))" if "d_halts d = d_halts db" for q d
    by (rule trigger_keeps_halts) (simp add: that h)
  with h show ?thesis by (simp add: check_daily_loss_def Let_def split: option.splits prod.splits)
qed

lemma check_each_keeps:
  "h \<in> set (d_halts db) \<Longrightarrow> h \<in> set (d_halts (fst (check_each env build us db)))"
proof (induction us arbitrary: db)
  case (Cons u us)
  then show ?case using check_daily_loss_keeps by (simp add: case_prod_beta Let_def)
qed simp

text \<open>
  What a run of the watcher can do. It releases only automatic daily-loss halts of an
  earlier trading day; while the market is closed, while another run holds the lock, or when
  automation is switched off, it adds no active halt. Every other halt stays in force.
\<close>

theorem watcher_scope:
  assumes wf: "halts_wf db" and run: "daily_loss_watcher env build enabled db = (db', r)"
  shows "(\<forall>h\<in>set (d_halts db). active_halt h \<and> (\<not> l2_auto h \<or> locked env h) \<longrightarrow> h \<in> set (d_halts db')) \<and>
    (\<not> enabled \<or> \<not> market_is_open env \<longrightarrow>
       (\<forall>h\<in>set (d_halts db'). active_halt h \<longrightarrow> h \<in> set (d_halts db)))"
proof (cases "enabled \<and> fst (cache_add (d_cache db) (e_now env) watch_lock 1 45)")
  case False
  then have "db' = db" using run by (auto simp: daily_loss_watcher_def split: prod.splits if_splits)
  then show ?thesis by simp
next
  case True
  let ?db0 = "db\<lparr>d_cache := snd (cache_add (d_cache db) (e_now env) watch_lock 1 45)\<rparr>"
  let ?db1 = "fst (release_expired_l2_halts env ?db0)"
  have wf0: "halts_wf ?db0" using wf by (simp add: halts_wf_def)
  have keep: "h \<in> set (d_halts ?db1)" if "h \<in> set (d_halts db)" "active_halt h" "\<not> l2_auto h \<or> locked env h" for h
    using daily_loss_lock_keeps [OF wf0, of h env] that by simp
  have old: "h \<in> set (d_halts db)" if "h \<in> set (d_halts ?db1)" "active_halt h" for h
    using release_each_active [of h env _ ?db0] that by (simp add: release_expired_l2_halts_def)
  have d': "d_halts db' = (if market_is_open env then d_halts (fst (check_each env build (watched_users ?db1) ?db1))
      else d_halts ?db1)"
    using run True by (auto simp: daily_loss_watcher_def Let_def split: prod.splits if_splits)
  show ?thesis unfolding d' using keep old check_each_keeps True by auto
qed

theorem watcher_scope_witness:
  "d_halts (fst (daily_loss_watcher (sample_env\<lparr>e_ny_weekday := (\<lambda>t. 6)\<rparr>) losing_build True sample_db)) = []"
proof -
  obtain db' r where r: "daily_loss_watcher (sample_env\<lparr>e_ny_weekday := (\<lambda>t. 6)\<rparr>) losing_build True sample_db = (db', r)"
    by (cases "daily_loss_watcher (sample_env\<lparr>e_ny_weekday := (\<lambda>t. 6)\<rparr>) losing_build True sample_db")
  have "\<not> market_is_open (sample_env\<lparr>e_ny_weekday := (\<lambda>t. 6)\<rparr>)" by (simp add: market_is_open_def)
  with watcher_scope [OF sample_halts_wf r] have "\<forall>h\<in>set (d_halts db'). \<not> active_halt h"
    by (auto simp: sample_defs)
  moreover have "d_halts db' = []"
    using r by (auto simp: daily_loss_watcher_def market_is_open_def release_expired_l2_halts_def sample_defs
        split: prod.splits if_splits)
  ultimately show ?thesis by (simp add: r)
qed
end
