(* ===== verification/Sizing.thy ===== *)
theory Sizing
  imports Samples
begin

text \<open>
  Position sizing (\<open>risk/sizing.py\<close>) and the risk-profile validators
  (\<open>risk/serializers.py\<close>). The arithmetic of \<open>compute_size\<close> is in floats: every operation
  is followed by its rounding \<open>fl\<close>, and \<open>Decimal(str(qty))\<close> is the shortest decimal that
  reads back as the float. The lemmas show that an accepted size is a whole lot that stays
  within the request and under the position and leverage ceilings, and which situations are
  always rejected.
\<close>

subsection \<open>Regimes, sides, multipliers\<close>

definition regime_scale :: "string \<Rightarrow> rat" where
  "regime_scale label =
     (if label = ''CRISIS'' then 0
      else if label = ''BEAR'' then fl (3 / 10)
      else if label = ''CHOP'' then fl (6 / 10)
      else if label = ''NEUTRAL'' then fl (6 / 10)
      else if label = ''BULL'' then 1
      else fl (6 / 10))"

definition long_sides :: "string list" where
  "long_sides = [''LONG'', ''BUY'', ''BUY_TO_OPEN'', ''BUY_TO_CLOSE'']"

definition future_multiplier :: "string \<Rightarrow> rat" where
  "future_multiplier fut_root =
     (case map_of [(''ES'', 50), (''MES'', 5), (''NQ'', 20), (''MNQ'', 2), (''YM'', 5), (''RTY'', 50),
                   (''CL'', 1000), (''GC'', 100), (''MGC'', 10), (''ZB'', 1000), (''ZN'', 1000), (''6E'', 125000)]
        fut_root of None \<Rightarrow> 50 | Some m \<Rightarrow> m)"

definition contract_multiplier_for :: "string option \<Rightarrow> string \<Rightarrow> rat" where
  "contract_multiplier_for ac future_root =
     (let c = py_upper (case ac of None \<Rightarrow> [] | Some s \<Rightarrow> s)
      in if c = ''OPTION'' then 100
         else if c = ''FUTURE'' then future_multiplier (py_upper future_root)
         else 1)"

subsection \<open>The size of an order\<close>

record sizing_inputs =
  si_requested :: rat
  si_side :: string
  si_symbol :: string
  si_price :: rat
  si_equity :: rat
  si_regime :: string
  si_sentiment :: rat
  si_dd :: rat
  si_atr14 :: "rat option"
  si_stop :: "rat option"
  si_mult :: rat
  si_lot :: rat

record sizing_result =
  sr_ok :: bool
  sr_qty :: rat
  sr_reason :: string
  sr_meta :: wire_dict

definition sizing_reject :: "string \<Rightarrow> wire_dict \<Rightarrow> sizing_result" where
  "sizing_reject reason meta = \<lparr>sr_ok = False, sr_qty = 0, sr_reason = reason, sr_meta = meta\<rparr>"

definition sizing_accept :: "rat \<Rightarrow> wire_dict \<Rightarrow> sizing_result" where
  "sizing_accept qty meta = \<lparr>sr_ok = True, sr_qty = qty, sr_reason = [], sr_meta = meta\<rparr>"

text \<open>\<open>round(x, n)\<close> of a float, and the value of \<open>Decimal(str(x))\<close>.\<close>

definition py_round :: "nat \<Rightarrow> rat \<Rightarrow> rat" where
  "py_round n x = fl (quantize n x)"

definition float_str_value :: "rat \<Rightarrow> rat" where
  "float_str_value x =
     (case List.find (\<lambda>n. fl (round_sig 10 n x) = x) [1..<18] of None \<Rightarrow> x | Some n \<Rightarrow> round_sig 10 n x)"

definition round_to_lot :: "rat \<Rightarrow> rat \<Rightarrow> rat" where
  "round_to_lot qty lot =
     (let l = (if lot = 0 then 1 else lot) in fl (fl (of_int \<lfloor>fl (qty / l)\<rfloor>) * l))"

definition sizing_label :: "sizing_inputs \<Rightarrow> string" where
  "sizing_label inp = py_upper (if si_regime inp = [] then ''NEUTRAL'' else si_regime inp)"

definition is_long_side :: "string \<Rightarrow> bool" where
  "is_long_side side \<longleftrightarrow> py_upper side \<in> set long_sides"

definition or_zero :: "rat option \<Rightarrow> rat" where
  "or_zero x = (case x of None \<Rightarrow> 0 | Some r \<Rightarrow> r)"

definition sizing_price :: "sizing_inputs \<Rightarrow> rat" where
  "sizing_price inp = max (fl (si_price inp)) (fl (1 / 100))"

definition sizing_mult :: "sizing_inputs \<Rightarrow> rat" where
  "sizing_mult inp = (let m = fl (if si_mult inp = 0 then 1 else si_mult inp) in if m = 0 then 1 else m)"

definition sizing_risk_pct :: "sizing_inputs \<Rightarrow> risk_profile \<Rightarrow> rat" where
  "sizing_risk_pct inp p = fl (fl (rp_risk_per_trade_pct p) * regime_scale (sizing_label inp))"

definition sizing_stop_dist :: "sizing_inputs \<Rightarrow> risk_profile \<Rightarrow> rat" where
  "sizing_stop_dist inp p =
     (let atr_stop = fl (fl (rp_atr_factor p) * fl (or_zero (si_atr14 inp)));
          d = max (fl (or_zero (si_stop inp))) atr_stop
      in if d \<le> 0 then fl (sizing_price inp * fl (2 / 100)) else d)"

definition sizing_raw_qty :: "sizing_inputs \<Rightarrow> risk_profile \<Rightarrow> rat" where
  "sizing_raw_qty inp p =
     (let dollar_risk = fl (fl (si_equity inp) * fl (sizing_risk_pct inp p / 100))
      in fl (dollar_risk / fl (sizing_stop_dist inp p * sizing_mult inp)))"

definition max_qty_by_pos :: "sizing_inputs \<Rightarrow> risk_profile \<Rightarrow> rat" where
  "max_qty_by_pos inp p =
     fl (fl (fl (fl (si_equity inp) * fl (rp_max_position_pct p)) / 100) / fl (sizing_price inp * sizing_mult inp))"

definition max_qty_by_leverage :: "sizing_inputs \<Rightarrow> risk_profile \<Rightarrow> rat option" where
  "max_qty_by_leverage inp p =
     (let cap = fl (rp_leverage_cap p)
      in if 0 < cap then Some (fl (fl (fl (si_equity inp) * cap) / fl (sizing_price inp * sizing_mult inp))) else None)"

definition soft_stop_applied :: "sizing_inputs \<Rightarrow> risk_profile \<Rightarrow> bool" where
  "soft_stop_applied inp p \<longleftrightarrow> fl (rp_soft_stop_pct p) \<le> si_dd inp"

definition sentiment_adjusted :: "sizing_inputs \<Rightarrow> rat \<Rightarrow> rat" where
  "sentiment_adjusted inp q =
     (if fl (7 / 10) < si_sentiment inp \<and> is_long_side (si_side inp) then fl (q * fl (11 / 10))
      else if si_sentiment inp < - fl (1 / 2) \<and> is_long_side (si_side inp) then fl (q * fl (1 / 2))
      else q)"

definition sized_before_lot :: "sizing_inputs \<Rightarrow> risk_profile \<Rightarrow> rat" where
  "sized_before_lot inp p =
     (let q0 = min (sizing_raw_qty inp p) (max_qty_by_pos inp p);
          q1 = sentiment_adjusted inp q0;
          q2 = (if soft_stop_applied inp p then fl (q1 * fl (1 / 2)) else q1);
          q3 = min q2 (max_qty_by_pos inp p);
          q4 = (case max_qty_by_leverage inp p of None \<Rightarrow> q3 | Some m \<Rightarrow> min q3 m);
          req = fl (si_requested inp)
      in if 0 < req then min q4 req else q4)"

definition sizing_meta :: "sizing_inputs \<Rightarrow> risk_profile \<Rightarrow> wire_dict" where
  "sizing_meta inp p =
     [(''regime_label'', WStr (sizing_label inp)),
      (''regime_scale'', WNum (regime_scale (sizing_label inp))),
      (''risk_pct'', WNum (py_round 4 (sizing_risk_pct inp p))),
      (''stop_dist'', WNum (py_round 4 (sizing_stop_dist inp p))),
      (''raw_qty'', WNum (py_round 6 (sizing_raw_qty inp p))),
      (''max_qty_by_pos'', WNum (py_round 6 (max_qty_by_pos inp p))),
      (''sentiment'', WNum (si_sentiment inp)),
      (''soft_stop_applied'', WBool (soft_stop_applied inp p)),
      (''leverage_cap'', WNum (fl (rp_leverage_cap p))),
      (''max_qty_by_leverage'',
        case max_qty_by_leverage inp p of None \<Rightarrow> WNull | Some m \<Rightarrow> WNum (py_round 6 m)),
      (''requested_qty'', WNum (fl (si_requested inp))),
      (''contract_multiplier'', WNum (sizing_mult inp))]"

definition compute_size :: "sizing_inputs \<Rightarrow> risk_profile \<Rightarrow> sizing_result" where
  "compute_size inp p =
     (let label = sizing_label inp;
          scale = regime_scale label;
          hard_stop = fl (rp_hard_stop_pct p)
      in if rp_strict_mode p \<and> (label = ''BEAR'' \<or> label = ''CRISIS'') \<and> is_long_side (si_side inp)
         then sizing_reject ''REGIME_SIDE_MISMATCH'' []
         else if label = ''CRISIS'' \<or> scale \<le> 0 then sizing_reject ''REGIME_CRISIS'' []
         else if 0 < hard_stop \<and> hard_stop \<le> si_dd inp
         then sizing_reject ''HARD_STOP'' [(''intraday_dd_pct'', WNum (si_dd inp)), (''hard_stop_pct'', WNum hard_stop)]
         else
           let qty = round_to_lot (sized_before_lot inp p) (fl (if si_lot inp = 0 then 1 else si_lot inp));
               meta = sizing_meta inp p
           in if qty \<le> 0 then sizing_reject ''SIZING_ZERO'' meta
              else sizing_accept (float_str_value qty) meta)"

subsection \<open>Profile validation\<close>

datatype ('e, 'a) checked = Invalid 'e | Valid 'a

definition validate_risk_per_trade_pct :: "rat \<Rightarrow> (string, rat) checked" where
  "validate_risk_per_trade_pct v =
     (if \<not> (0 < fl v \<and> fl v \<le> 5) then Invalid ''risk_per_trade_pct'' else Valid v)"

definition validate_max_position_pct :: "rat \<Rightarrow> (string, rat) checked" where
  "validate_max_position_pct v = (if 50 < fl v then Invalid ''max_position_pct'' else Valid v)"

definition validate_max_concurrent :: "int \<Rightarrow> (string, int) checked" where
  "validate_max_concurrent v = (if v < 1 then Invalid ''max_concurrent'' else Valid v)"

definition validate_daily_loss_pct :: "rat \<Rightarrow> (string, rat) checked" where
  "validate_daily_loss_pct v = (if 25 < fl v then Invalid ''daily_loss_pct'' else Valid v)"

definition validate_permitted_asset_classes :: "string list \<Rightarrow> (string, string list) checked" where
  "validate_permitted_asset_classes v =
     (if v = [] then Invalid ''permitted_asset_classes''
      else if filter (\<lambda>a. a \<notin> set [''STOCK'', ''ETF'', ''OPTION'', ''FUTURE'']) v \<noteq> []
      then Invalid ''permitted_asset_classes'' else Valid v)"

text \<open>Absent keys take the value of the instance being updated, or the defaults 5 and 10.\<close>

definition validate_stops :: "rat option \<Rightarrow> rat option \<Rightarrow> risk_profile option \<Rightarrow> bool" where
  "validate_stops soft hard inst =
     (let s = (case soft of Some v \<Rightarrow> v | None \<Rightarrow> (case inst of Some p \<Rightarrow> rp_soft_stop_pct p | None \<Rightarrow> 5));
          h = (case hard of Some v \<Rightarrow> v | None \<Rightarrow> (case inst of Some p \<Rightarrow> rp_hard_stop_pct p | None \<Rightarrow> 10))
      in \<not> fl h \<le> fl s)"

subsection \<open>Rounding of the sizing arithmetic\<close>

lemma fl_rel_error: "\<bar>fl x - x\<bar> \<le> \<bar>x\<bar> / 2 ^ 53"
proof -
  have pos: "\<bar>fl x - x\<bar> \<le> x / 2 ^ 53" if x: "0 < x" for x
  proof -
    let ?u = "2 powi (ilog 2 x - 52) :: rat"
    have u: "0 < ?u" by simp
    have f: "fl x = of_int (round_half_even (x / ?u)) * ?u"
      using x by (simp add: fl_def round_sig_def Let_def)
    have b: "2 powi ilog 2 x \<le> x" using ilog_bounds [of 2 x] x by simp
    have "2 powi ilog 2 x = ?u * 2 ^ 52" by (simp add: power_int_diff)
    with b have ux: "?u \<le> x / 2 ^ 52" by simp
    have "\<bar>of_int (round_half_even (x / ?u)) - x / ?u\<bar> \<le> 1 / 2"
      using round_half_even_bounds [of "x / ?u"] unfolding abs_le_iff by linarith
    then have "\<bar>of_int (round_half_even (x / ?u)) - x / ?u\<bar> * ?u \<le> 1 / 2 * ?u"
      using u by (intro mult_right_mono) simp_all
    also have "\<bar>of_int (round_half_even (x / ?u)) - x / ?u\<bar> * ?u =
        \<bar>(of_int (round_half_even (x / ?u)) - x / ?u) * ?u\<bar>" using u by (simp add: abs_mult)
    also have "(of_int (round_half_even (x / ?u)) - x / ?u) * ?u = fl x - x"
      using u by (simp add: f left_diff_distrib)
    finally show ?thesis using ux by simp
  qed
  show ?thesis
    using pos [of x] pos [of "- x"] binary64.rnd_minus [of x] binary64.rnd_0
    by (cases "x = 0") (auto simp: neq_iff abs_if split: if_splits)
qed

lemma floor_fl_le:
  assumes s: "has_scale 8 x" and b: "0 < x" "x \<le> 2 ^ 24"
  shows "of_int \<lfloor>fl x\<rfloor> \<le> x"
proof (rule ccontr)
  define N where "N = \<lfloor>fl x\<rfloor>"
  assume "\<not> of_int \<lfloor>fl x\<rfloor> \<le> x"
  then have lt: "x < of_int N" by (simp add: N_def)
  obtain k where k: "x = of_int k / 10 ^ 8" using s by (auto simp: has_scale_iff)
  have "of_int k < (of_int (N * 10 ^ 8) :: rat)" using lt k by simp
  then have "k + 1 \<le> N * 10 ^ 8" by linarith
  then have "of_int (k + 1) \<le> (of_int (N * 10 ^ 8) :: rat)" by (simp only: of_int_le_iff)
  then have x8: "x \<le> of_int N - 1 / 10 ^ 8" using k by simp
  have "fl x \<le> fl (2 ^ 24)" using b(2) by (rule binary64.rnd_mono)
  also have "fl (2 ^ 24) = 2 ^ 24" using binary64.rnd_small_int [of "2 ^ 24"] by simp
  finally have "fl x \<le> of_int (2 ^ 24)" by simp
  from floor_mono [OF this] have N24: "N \<le> 2 ^ 24" unfolding N_def by simp
  have N0: "0 < N" using lt b(1) by (metis less_trans of_int_0_less_iff)
  let ?y = "of_int (N * 2 ^ 29 - 1) / 2 ^ 29 :: rat"
  have k53: "\<bar>N * 2 ^ 29 - 1\<bar> \<le> int 2 ^ 53" using N0 N24 by simp
  have p29: "1 / 2 ^ 29 = (of_nat 2 powi (- 29) :: rat)" by (simp only: power_int_minus power_int_numeral of_nat_numeral divide_inverse mult_1_left)
  have y: "?y = of_int (N * 2 ^ 29 - 1) * of_nat 2 powi (- 29)" unfolding p29 [symmetric] by (simp only: times_divide_eq_right mult_1_right)
  have "fl ?y = ?y" unfolding fl_def by (rule round_sig_fixed [OF _ y k53]) simp_all
  moreover have "x \<le> ?y" using x8 by simp
  ultimately have "fl x \<le> ?y" using binary64.rnd_mono by metis
  moreover have "?y < of_int N" by simp
  ultimately have "fl x < of_int N" by simp
  then show False unfolding N_def by linarith
qed

lemma round_sig_int:
  assumes k: "0 < k" "k \<le> 10 ^ 15" and n: "1 \<le> n"
  shows "round_sig 10 n (of_int k) = of_int k \<or>
    (\<exists>m. round_sig 10 n (of_int k) = of_int m \<and> 0 \<le> m \<and> m \<le> 10 ^ 15)"
proof -
  define i where "i = ilog 10 (of_int k)"
  have ib: "10 powi i \<le> rat_of_int k" "rat_of_int k < 10 powi (i + 1)"
    using ilog_bounds [of 10 "of_int k"] k(1) by (simp_all add: i_def)
  let ?u = "10 powi (i - (int n - 1)) :: rat"
  have r: "round_sig 10 n (of_int k) = of_int (round_half_even (of_int k / ?u)) * ?u"
    using k(1) by (simp add: round_sig_def Let_def i_def)
  have kle: "rat_of_int k \<le> of_int (10 ^ 15)" using k(2) by (simp only: of_int_le_iff)
  have le: "round_sig 10 n (of_int k) \<le> of_int (10 ^ 15)"
  proof -
    have "round_sig 10 n (of_int k) \<le> round_sig 10 n (of_int (10 ^ 15))"
      using n by (intro round_sig_mono [OF _ _ kle]) simp_all
    also have "\<dots> = of_int (10 ^ 15)"
      using n by (intro round_sig_fixed [where e = 15 and k = 1]) (simp_all add: power_int_def)
    finally show ?thesis .
  qed
  have ge: "0 < round_sig 10 n (of_int k)" using k(1) n by (intro round_sig_pos) simp_all
  show ?thesis
  proof (cases "int n - 1 \<le> i")
    case True
    then have "?u = of_int (10 ^ nat (i - (int n - 1)))" by (simp add: power_int_def)
    then have "round_sig 10 n (of_int k) = of_int (round_half_even (of_int k / ?u) * 10 ^ nat (i - (int n - 1)))"
      using r by (simp only: of_int_mult)
    moreover from this ge le have "0 \<le> round_half_even (of_int k / ?u) * 10 ^ nat (i - (int n - 1))"
      "round_half_even (of_int k / ?u) * 10 ^ nat (i - (int n - 1)) \<le> 10 ^ 15"
      by (simp_all only: of_int_0_less_iff of_int_le_iff order.strict_implies_order)
    ultimately show ?thesis by blast
  next
    case False
    let ?j = "nat (int n - 1 - i)"
    have u: "?u = 1 / 10 ^ ?j" using False by (simp add: power_int_def field_simps)
    have "rat_of_int (k * 10 ^ ?j) = of_int k / ?u" by (simp add: u)
    also have "\<dots> \<le> 10 powi (i + 1) / ?u" using ib(2) by (intro divide_right_mono) simp_all
    also have "\<dots> = 10 powi int n" by (simp flip: power_int_diff)
    also have "\<dots> = of_int (10 ^ n)" by simp
    finally have "k * 10 ^ ?j \<le> 10 ^ n" by (simp only: of_int_le_iff)
    then have "round_sig 10 n (of_int k) = of_int k"
      using n k(1) u by (intro round_sig_fixed [where e = "i - (int n - 1)" and k = "k * 10 ^ ?j"]) simp_all
    then show ?thesis by simp
  qed
qed

lemma float_str_value_int:
  assumes k: "0 < k" "k \<le> 10 ^ 15"
  shows "float_str_value (of_int k) = of_int k"
proof (cases "List.find (\<lambda>n. fl (round_sig 10 n (of_int k)) = of_int k) [1..<18]")
  case None
  then show ?thesis by (simp add: float_str_value_def)
next
  case (Some n)
  then have n: "fl (round_sig 10 n (of_int k)) = of_int k" "1 \<le> n"
    by (auto simp: find_Some_iff)
  have "fl (of_int m) = of_int m" if "0 \<le> m" "m \<le> 10 ^ 15" for m
    using that by (intro binary64.rnd_small_int) simp
  with round_sig_int [OF k n(2)] n(1) have "round_sig 10 n (of_int k) = of_int k" by metis
  with Some show ?thesis by (simp add: float_str_value_def)
qed
lemma fl_near: "0 \<le> x \<Longrightarrow> fl x \<le> x + x / 2 ^ 53 \<and> x - x / 2 ^ 53 \<le> fl x"
proof -
  assume "0 \<le> x"
  then have "\<bar>fl x - x\<bar> \<le> x / 2 ^ 53" using fl_rel_error [of x] by (simp only: abs_of_nonneg)
  then have "fl x - x \<le> x / 2 ^ 53" "- (fl x - x) \<le> x / 2 ^ 53" by (simp_all only: abs_le_iff)
  then show ?thesis by linarith
qed

lemma fl_upper: "0 \<le> x \<Longrightarrow> fl x \<le> x * (1 + 1 / 2 ^ 53)"
  using fl_near [of x] by (simp add: distrib_left)

lemma fl_lower: "0 \<le> x \<Longrightarrow> x * (1 - 1 / 2 ^ 53) \<le> fl x"
  using fl_near [of x] by (simp only: right_diff_distrib times_divide_eq_right mult_1_right)

text \<open>Numbers of the profile columns keep their order as floats.\<close>

lemma fl_less_iff:
  assumes s: "has_scale 4 x" "has_scale 4 y" and b: "\<bar>x\<bar> \<le> 10 ^ 5" "\<bar>y\<bar> \<le> 10 ^ 5"
  shows "fl x < fl y \<longleftrightarrow> x < y"
proof
  show "x < y" if "fl x < fl y" using that binary64.rnd_mono [of y x] by (meson not_le)
next
  assume xy: "x < y"
  obtain i j where ij: "x = of_int i / 10 ^ 4" "y = of_int j / 10 ^ 4" using s by (auto simp: has_scale_iff)
  with xy have "i + 1 \<le> j" by simp
  then have "rat_of_int (i + 1) \<le> of_int j" by (simp only: of_int_le_iff)
  with ij have gap: "x + 1 / 10 ^ 4 \<le> y" by simp
  have "\<bar>fl x - x\<bar> \<le> 10 ^ 5 / 2 ^ 53" "\<bar>fl y - y\<bar> \<le> 10 ^ 5 / 2 ^ 53"
    using fl_rel_error [of x] fl_rel_error [of y] b by (simp_all add: divide_le_eq)
  then have "fl x \<le> x + 10 ^ 5 / 2 ^ 53" "y - 10 ^ 5 / 2 ^ 53 \<le> fl y"
    unfolding abs_le_iff by linarith+
  moreover have "2 * (10 ^ 5 / 2 ^ 53) < (1 / 10 ^ 4 :: rat)" by simp
  ultimately show "fl x < fl y" using gap by linarith
qed

subsection \<open>The size before and after rounding to the lot\<close>

lemma sized_bounds:
  "sized_before_lot inp p \<le> max_qty_by_pos inp p"
  "max_qty_by_leverage inp p = Some m \<Longrightarrow> sized_before_lot inp p \<le> m"
  "0 < fl (si_requested inp) \<Longrightarrow> sized_before_lot inp p \<le> fl (si_requested inp)"
  by (auto simp: sized_before_lot_def Let_def split: option.splits)

lemma fl_fl [simp]: "fl (fl x) = fl x"
  by (rule binary64.rnd_idem)

lemma fl_min: "fl x = x \<Longrightarrow> fl y = y \<Longrightarrow> fl (min x y) = min x y"
  by (simp add: min_def)

lemma sized_is_float: "fl (sized_before_lot inp p) = sized_before_lot inp p"
proof -
  have "fl (max_qty_by_pos inp p) = max_qty_by_pos inp p" "fl (sizing_raw_qty inp p) = sizing_raw_qty inp p"
    by (simp_all add: max_qty_by_pos_def sizing_raw_qty_def Let_def)
  moreover have "fl (sentiment_adjusted inp q) = sentiment_adjusted inp q" if "fl q = q" for q
    using that by (simp add: sentiment_adjusted_def)
  moreover have "fl m = m" if "max_qty_by_leverage inp p = Some m" for m
    using that by (auto simp: max_qty_by_leverage_def Let_def split: if_splits)
  ultimately show ?thesis
    unfolding sized_before_lot_def Let_def
    by (cases "max_qty_by_leverage inp p") (simp_all add: fl_min)
qed

lemma fl_one [simp]: "fl 1 = 1"
  using binary64.rnd_small_int [of 1] by simp

lemma whole_lot:
  assumes "fl q = q" "\<bar>\<lfloor>q\<rfloor>\<bar> \<le> 2 ^ 53"
  shows "round_to_lot q 1 = of_int \<lfloor>q\<rfloor>"
  using assms binary64.rnd_small_int [of "\<lfloor>q\<rfloor>"] by (simp add: round_to_lot_def)

lemma compute_size_ok:
  assumes "compute_size inp p = r" "sr_ok r"
  shows "0 < round_to_lot (sized_before_lot inp p) (fl (if si_lot inp = 0 then 1 else si_lot inp))"
    and "sr_qty r = float_str_value (round_to_lot (sized_before_lot inp p) (fl (if si_lot inp = 0 then 1 else si_lot inp)))"
  using assms by (auto simp: compute_size_def Let_def sizing_reject_def sizing_accept_def split: if_splits)

lemma accepted_whole:
  assumes acc: "compute_size inp p = r" "sr_ok r" and lot: "si_lot inp = 1"
    and req: "0 < si_requested inp" "si_requested inp \<le> 2 ^ 24" "has_scale 8 (si_requested inp)"
  shows "\<exists>k. sr_qty r = of_int k \<and> 1 \<le> k \<and> of_int k \<le> sized_before_lot inp p \<and> of_int k \<le> si_requested inp \<and>
    k = \<lfloor>sized_before_lot inp p\<rfloor>"
proof -
  let ?q = "sized_before_lot inp p" and ?req = "si_requested inp"
  have freq: "0 < fl ?req" using req(1) by (rule binary64.rnd_pos)
  have "fl ?req \<le> fl (2 ^ 24)" using req(2) by (rule binary64.rnd_mono)
  also have "fl (2 ^ 24) = 2 ^ 24" using binary64.rnd_small_int [of "2 ^ 24"] by simp
  finally have q24: "?q \<le> 2 ^ 24" using sized_bounds(3) [OF freq, of p] by linarith
  have pos: "0 < round_to_lot ?q 1" and qty: "sr_qty r = float_str_value (round_to_lot ?q 1)"
    using compute_size_ok [OF acc] lot by simp_all
  have q0: "0 \<le> ?q"
  proof (rule ccontr)
    assume "\<not> 0 \<le> ?q"
    then have "fl (?q / 1) \<le> 0" using sized_is_float [of inp p] by simp
    then have "rat_of_int \<lfloor>fl (?q / 1)\<rfloor> \<le> 0" by (simp add: floor_le_iff)
    then have "round_to_lot ?q 1 \<le> 0" by (simp add: round_to_lot_def binary64.rnd_nonpos)
    with pos show False by simp
  qed
  have "\<bar>\<lfloor>?q\<rfloor>\<bar> \<le> 2 ^ 53"
  proof -
    have "?q \<le> of_int (2 ^ 24)" using q24 by simp
    from floor_mono [OF this] q0 show ?thesis by simp
  qed
  from whole_lot [OF sized_is_float this] have w: "round_to_lot ?q 1 = of_int \<lfloor>?q\<rfloor>" .
  with pos have k1: "1 \<le> \<lfloor>?q\<rfloor>" by simp
  have "\<lfloor>?q\<rfloor> \<le> 10 ^ 15"
  proof -
    have "?q \<le> of_int (2 ^ 24)" using q24 by simp
    from floor_mono [OF this] show ?thesis by simp
  qed
  with k1 have "sr_qty r = of_int \<lfloor>?q\<rfloor>" by (simp add: qty w float_str_value_int)
  moreover have "of_int \<lfloor>?q\<rfloor> \<le> ?req"
  proof -
    have "\<lfloor>?q\<rfloor> \<le> \<lfloor>fl ?req\<rfloor>" using sized_bounds(3) [OF freq, of p] by (rule floor_mono)
    then have "rat_of_int \<lfloor>?q\<rfloor> \<le> of_int \<lfloor>fl ?req\<rfloor>" by simp
    with floor_fl_le [OF req(3,1,2)] show ?thesis by linarith
  qed
  ultimately show ?thesis using k1 by (intro exI [of _ "\<lfloor>?q\<rfloor>"]) simp
qed

subsection \<open>Properties of sizing\<close>

definition sample_profile :: risk_profile where
  "sample_profile = \<lparr>rp_user = 7, rp_risk_per_trade_pct = 25 / 8, rp_max_position_pct = 20, rp_max_concurrent = 5,
     rp_daily_loss_usd = 1000, rp_daily_loss_pct = 5, rp_leverage_cap = 1, rp_permitted = [STOCK, ETF],
     rp_soft_stop_pct = 5, rp_hard_stop_pct = 10, rp_strict_mode = False, rp_atr_factor = 3 / 2\<rparr>"

definition sample_inputs :: sizing_inputs where
  "sample_inputs = \<lparr>si_requested = 10, si_side = ''BUY'', si_symbol = ''AAPL'', si_price = 100,
     si_equity = 100000, si_regime = ''BULL'', si_sentiment = 0, si_dd = 0, si_atr14 = None,
     si_stop = Some 2, si_mult = 1, si_lot = 1\<rparr>"

lemma sample_fields [simp]:
  "si_requested sample_inputs = 10" "si_price sample_inputs = 100" "si_equity sample_inputs = 100000"
  "si_mult sample_inputs = 1" "si_lot sample_inputs = 1" "si_dd sample_inputs = 0" "si_sentiment sample_inputs = 0"
  "si_stop sample_inputs = Some 2" "si_atr14 sample_inputs = None" "si_regime sample_inputs = ''BULL''"
  "rp_max_position_pct sample_profile = 20" "rp_risk_per_trade_pct sample_profile = 25 / 8"
  "rp_leverage_cap sample_profile = 1" "rp_soft_stop_pct sample_profile = 5" "rp_hard_stop_pct sample_profile = 10"
  "rp_strict_mode sample_profile = False" "rp_atr_factor sample_profile = 3 / 2"
  by (simp_all add: sample_inputs_def sample_profile_def)

lemma fl_dyadic: "\<bar>k\<bar> \<le> 2 ^ 53 \<Longrightarrow> fl (of_int k / 2 ^ n) = of_int k / 2 ^ n"
  unfolding fl_def by (rule round_sig_fixed [where e = "- int n" and k = k]) (simp_all add: power_int_minus divide_inverse)

lemma fl_numeral [simp]: "numeral k \<le> (2 ^ 53 :: int) \<Longrightarrow> fl (numeral k) = numeral k"
  using binary64.rnd_small_int [of "numeral k"] by simp

lemma fl_0 [simp]: "fl 0 = 0"
  by (rule binary64.rnd_0)

lemma sample_label: "sizing_label sample_inputs = ''BULL''"
  by (simp add: sizing_label_def) code_simp

lemma sample_sized: "sized_before_lot sample_inputs sample_profile = 10"
proof -
  have "fl (1 / 100) \<le> fl 100" by (rule binary64.rnd_mono) simp
  then have price: "sizing_price sample_inputs = 100" by (simp add: sizing_price_def max_def)
  have mult: "sizing_mult sample_inputs = 1" by (simp add: sizing_mult_def)
  have d: "fl (25 / 8) = 25 / 8" "fl (1 / 32) = 1 / 32" "fl (3125 / 2) = 3125 / 2"
    using fl_dyadic [of 25 3] fl_dyadic [of 1 5] fl_dyadic [of 3125 1] by simp_all
  have raw: "sizing_raw_qty sample_inputs sample_profile = 3125 / 2"
    by (simp add: sizing_raw_qty_def sizing_risk_pct_def sample_label regime_scale_def sizing_stop_dist_def
        or_zero_def mult d)
  have "fl 1 = 1" "- fl (1 / 2) < 0" "0 < fl (7 / 10)" using binary64.rnd_pos [of "1 / 2"] binary64.rnd_pos [of "7 / 10"] by simp_all
  then show ?thesis
    by (simp add: sized_before_lot_def raw max_qty_by_pos_def max_qty_by_leverage_def price mult
        sentiment_adjusted_def soft_stop_applied_def Let_def)
qed

lemma sample_size: "sr_ok (compute_size sample_inputs sample_profile)" "sr_qty (compute_size sample_inputs sample_profile) = 10"
proof -
  have "round_to_lot 10 1 = 10" "float_str_value 10 = 10"
    using whole_lot [of 10] float_str_value_int [of 10] by simp_all
  then show "sr_ok (compute_size sample_inputs sample_profile)" "sr_qty (compute_size sample_inputs sample_profile) = 10"
    by (simp_all add: compute_size_def Let_def sample_sized sample_label regime_scale_def sizing_accept_def)
qed

text \<open>
  An accepted size is a positive whole number of shares or contracts that never exceeds
  what the alert asked for, nor the position and leverage ceilings the code computed. The
  request is at the column scale and at most 2^24, where converting it to a float cannot
  round it up across a whole number.
\<close>

theorem size_is_whole_and_capped:
  assumes "compute_size inp p = r" "sr_ok r" "si_lot inp = 1"
    and "0 < si_requested inp" "si_requested inp \<le> 2 ^ 24" "has_scale 8 (si_requested inp)"
  shows "\<exists>k::int. sr_qty r = of_int k \<and> 1 \<le> k \<and> sr_qty r \<le> si_requested inp \<and>
    sr_qty r \<le> max_qty_by_pos inp p \<and>
    (\<forall>m. max_qty_by_leverage inp p = Some m \<longrightarrow> sr_qty r \<le> m)"
proof -
  obtain k where "sr_qty r = of_int k" "1 \<le> k" "of_int k \<le> sized_before_lot inp p" "of_int k \<le> si_requested inp"
    using accepted_whole [OF assms] by blast
  moreover from this(3) have "of_int k \<le> max_qty_by_pos inp p"
    using sized_bounds(1) [of inp p] by linarith
  moreover have "of_int k \<le> m" if "max_qty_by_leverage inp p = Some m" for m
    using sized_bounds(2) [OF that] calculation(3) by linarith
  ultimately show ?thesis by metis
qed

theorem size_is_whole_and_capped_witness:
  "sr_qty (compute_size sample_inputs sample_profile) \<le> 10"
  using size_is_whole_and_capped [OF refl sample_size(1)] by auto

lemma ratio_bound:
  assumes a: "0 \<le> a" "A \<le> a * (1 + 1 / 2 ^ 53) ^ 4" and d: "0 < d" "d * (1 - 1 / 2 ^ 53) ^ 3 \<le> D" and q: "q \<le> fl (A / D)"
  shows "q * d \<le> a * (1 + 1 / 10 ^ 14)"
proof -
  let ?c = "(1 + 1 / 2 ^ 53) ^ 4 :: rat" and ?e = "(1 - 1 / 2 ^ 53) ^ 3 :: rat"
  have e: "0 < ?e" by simp
  have D: "0 < D" using d e by (metis less_le_trans mult_pos_pos)
  have "A / D \<le> a * ?c / (d * ?e)"
    using a d e D by (intro frac_le) simp_all
  then have "q \<le> fl (a * ?c / (d * ?e))" using q binary64.rnd_mono order_trans by blast
  also have "\<dots> \<le> a * ?c / (d * ?e) * (1 + 1 / 2 ^ 53)" using a d e by (intro fl_upper) simp
  finally have "q * d \<le> a * ?c / (d * ?e) * (1 + 1 / 2 ^ 53) * d" using d by (intro mult_right_mono) simp_all
  also have "\<dots> = a * (?c * (1 + 1 / 2 ^ 53) / ?e)" using d e by simp
  also have "\<dots> \<le> a * (1 + 1 / 10 ^ 14)" using a by (intro mult_left_mono) (simp_all add: power_divide)
  finally show ?thesis .
qed

lemma fl_product_upper:
  assumes "0 \<le> x" "0 \<le> y" "x' \<le> x * (1 + 1 / 2 ^ 53) ^ i" "y' \<le> y * (1 + 1 / 2 ^ 53) ^ j" "0 \<le> x'" "0 \<le> y'"
  shows "fl (x' * y') \<le> x * y * (1 + 1 / 2 ^ 53) ^ (i + j + 1)"
proof -
  let ?u = "1 + 1 / 2 ^ 53 :: rat"
  have "x' * y' \<le> (x * ?u ^ i) * (y * ?u ^ j)" using assms by (intro mult_mono) simp_all
  then have "x' * y' * ?u \<le> (x * ?u ^ i) * (y * ?u ^ j) * ?u" by (intro mult_right_mono) simp_all
  with fl_upper [of "x' * y'"] assms(5,6) show ?thesis by (simp add: power_add mult_ac)
qed

lemma sizing_denominator:
  assumes "0 < si_price inp" "0 < si_mult inp"
  shows "si_price inp * si_mult inp * (1 - 1 / 2 ^ 53) ^ 3 \<le> fl (sizing_price inp * sizing_mult inp)"
proof -
  let ?l = "1 - 1 / 2 ^ 53 :: rat"
  have m: "sizing_mult inp = fl (si_mult inp)" using assms(2) binary64.rnd_pos [OF assms(2)] by (simp add: sizing_mult_def)
  have "si_price inp * ?l * (si_mult inp * ?l) \<le> sizing_price inp * sizing_mult inp"
    using fl_lower [of "si_price inp"] fl_lower [of "si_mult inp"] assms
    by (intro mult_mono) (simp_all add: m sizing_price_def)
  then have "si_price inp * ?l * (si_mult inp * ?l) * ?l \<le> sizing_price inp * sizing_mult inp * ?l"
    by (intro mult_right_mono) simp_all
  moreover have "0 \<le> sizing_price inp * sizing_mult inp"
    using binary64.rnd_nonneg [of "1 / 100"] binary64.rnd_nonneg [of "si_mult inp"] assms(2)
    by (simp add: m sizing_price_def max_def)
  ultimately show ?thesis
    using fl_lower [of "sizing_price inp * sizing_mult inp"] by (simp add: power3_eq_cube mult_ac)
qed

lemma notional_bounds:
  assumes acc: "compute_size inp p = r" "sr_ok r" "si_lot inp = 1"
    and req: "0 < si_requested inp" "si_requested inp \<le> 2 ^ 24" "has_scale 8 (si_requested inp)"
    and pos: "0 < si_price inp" "0 < si_mult inp" "0 \<le> si_equity inp" "0 \<le> rp_max_position_pct p"
  shows "sr_qty r * (si_price inp * si_mult inp) \<le> si_equity inp * rp_max_position_pct p / 100 * (1 + 1 / 10 ^ 14) \<and>
    (0 < rp_leverage_cap p \<longrightarrow>
       sr_qty r * (si_price inp * si_mult inp) \<le> si_equity inp * rp_leverage_cap p * (1 + 1 / 10 ^ 14))"
proof -
  let ?u = "1 + 1 / 2 ^ 53 :: rat" and ?E = "si_equity inp"
  obtain k where k: "sr_qty r = of_int k" "of_int k \<le> sized_before_lot inp p"
    using accepted_whole [OF acc req] by blast
  have E: "fl ?E \<le> ?E * ?u ^ 1" "0 \<le> fl ?E" using fl_upper [OF pos(3)] binary64.rnd_nonneg [OF pos(3)] by simp_all
  have den: "0 < si_price inp * si_mult inp" using pos by simp
  note dl = sizing_denominator [OF pos(1,2)]
  let ?P = "rp_max_position_pct p"
  have P: "fl ?P \<le> ?P * ?u ^ 1" "0 \<le> fl ?P" using fl_upper [OF pos(4)] binary64.rnd_nonneg [OF pos(4)] by simp_all
  have "fl (fl ?E * fl ?P) \<le> ?E * ?P * ?u ^ 3"
    using fl_product_upper [OF pos(3,4) E(1) P(1) E(2) P(2)] by (simp add: power_divide)
  then have h: "fl (fl ?E * fl ?P) / 100 \<le> ?E * ?P / 100 * ?u ^ 3" by simp
  have "fl (fl (fl ?E * fl ?P) / 100) \<le> fl (fl ?E * fl ?P) / 100 * ?u"
    using E(2) P(2) by (intro fl_upper) (simp add: binary64.rnd_nonneg)
  also have "\<dots> \<le> ?E * ?P / 100 * ?u ^ 3 * ?u" using h by (intro mult_right_mono) simp_all
  finally have A: "fl (fl (fl ?E * fl ?P) / 100) \<le> ?E * ?P / 100 * ?u ^ 4" by (simp add: power_numeral_reduce mult_ac)
  have "sr_qty r \<le> fl (fl (fl (fl ?E * fl ?P) / 100) / fl (sizing_price inp * sizing_mult inp))"
    using k sized_bounds(1) [of inp p] by (simp add: max_qty_by_pos_def)
  from ratio_bound [OF _ A den dl this] pos
  have one: "sr_qty r * (si_price inp * si_mult inp) \<le> ?E * ?P / 100 * (1 + 1 / 10 ^ 14)" by simp
  have two: "sr_qty r * (si_price inp * si_mult inp) \<le> ?E * rp_leverage_cap p * (1 + 1 / 10 ^ 14)" if c: "0 < rp_leverage_cap p"
  proof -
    let ?L = "rp_leverage_cap p"
    have L: "fl ?L \<le> ?L * ?u ^ 1" "0 \<le> fl ?L" "0 < fl ?L"
      using c fl_upper [of ?L] binary64.rnd_nonneg [of ?L] binary64.rnd_pos [of ?L] by simp_all
    have "fl (fl ?E * fl ?L) \<le> ?E * ?L * ?u ^ 3"
      using fl_product_upper [OF pos(3) _ E(1) L(1) E(2) L(2)] c by (simp add: power_divide)
    also have "\<dots> \<le> ?E * ?L * ?u ^ 4"
      using c pos(3) by (intro mult_left_mono) (simp_all add: power_numeral_reduce)
    finally have B: "fl (fl ?E * fl ?L) \<le> ?E * ?L * ?u ^ 4" .
    have "max_qty_by_leverage inp p = Some (fl (fl (fl ?E * fl ?L) / fl (sizing_price inp * sizing_mult inp)))"
      using L(3) by (simp add: max_qty_by_leverage_def)
    from sized_bounds(2) [OF this]
    have "sr_qty r \<le> fl (fl (fl ?E * fl ?L) / fl (sizing_price inp * sizing_mult inp))" using k by simp
    from ratio_bound [OF _ B den dl this] c pos(3) show ?thesis by simp
  qed
  from one two show ?thesis by blast
qed

lemmas notional_position = notional_bounds [THEN conjunct1]

text \<open>
  The ceilings hold in money. Whatever the float rounding did on the way, the notional of
  an accepted size exceeds the profile's percentage of equity by less than one part in
  10^14, and the same for the leverage cap.
\<close>

theorem notional_ceiling:
  assumes acc: "compute_size inp p = r" "sr_ok r" "si_lot inp = 1"
    and req: "0 < si_requested inp" "si_requested inp \<le> 2 ^ 24" "has_scale 8 (si_requested inp)"
    and pos: "0 < si_price inp" "0 < si_mult inp" "0 \<le> si_equity inp" "0 \<le> rp_max_position_pct p"
  shows "sr_qty r * (si_price inp * si_mult inp) \<le> si_equity inp * rp_max_position_pct p / 100 * (1 + 1 / 10 ^ 14) \<and>
    (0 < rp_leverage_cap p \<longrightarrow>
       sr_qty r * (si_price inp * si_mult inp) \<le> si_equity inp * rp_leverage_cap p * (1 + 1 / 10 ^ 14))"
  using notional_bounds [OF assms] .

theorem notional_ceiling_witness:
  "sr_qty (compute_size sample_inputs sample_profile) * (100 * 1) \<le> 100000 * 20 / 100 * (1 + 1 / 10 ^ 14)"
  using notional_ceiling [OF refl sample_size(1)] by simp

lemma float_str_value_sign:
  assumes "0 < x" shows "0 < float_str_value x"
proof (cases "List.find (\<lambda>n. fl (round_sig 10 n x) = x) [1..<18]")
  case None
  with assms show ?thesis by (simp add: float_str_value_def)
next
  case (Some n)
  then have "1 \<le> n" by (auto simp: find_Some_iff)
  with Some show ?thesis by (simp add: float_str_value_def round_sig_pos assms)
qed

text \<open>
  C6. What is never accepted. Nothing in a crisis regime, nothing at or past the hard stop,
  no long side in a bear market under strict mode, and never a size that is not positive;
  a rejected order has size 0 and a reason.
\<close>

theorem never_accepted:
  assumes "compute_size inp p = r"
  shows "(sr_ok r \<longrightarrow> sizing_label inp \<noteq> ''CRISIS'' \<and> 0 < sr_qty r \<and>
      (0 < fl (rp_hard_stop_pct p) \<longrightarrow> si_dd inp < fl (rp_hard_stop_pct p)) \<and>
      \<not> (rp_strict_mode p \<and> sizing_label inp = ''BEAR'' \<and> is_long_side (si_side inp))) \<and>
    (\<not> sr_ok r \<longrightarrow> sr_qty r = 0 \<and> sr_reason r \<noteq> [])"
  using assms by (auto simp: compute_size_def Let_def sizing_reject_def sizing_accept_def float_str_value_sign split: if_splits)

theorem never_accepted_witness:
  "sizing_label sample_inputs \<noteq> ''CRISIS'' \<and> 0 < sr_qty (compute_size sample_inputs sample_profile) \<and>
   \<not> sr_ok (compute_size (sample_inputs\<lparr>si_dd := 10\<rparr>) sample_profile)"
proof -
  show ?thesis
    using never_accepted [OF refl, of sample_inputs sample_profile] sample_size(1)
      never_accepted [OF refl, of "sample_inputs\<lparr>si_dd := 10\<rparr>" sample_profile]
    by (auto simp: sample_profile_def)
qed

lemma sized_mono:
  assumes "si_equity inp \<le> e" "0 < sizing_stop_dist inp p * sizing_mult inp" "0 < sizing_mult inp"
    "0 \<le> rp_risk_per_trade_pct p" "0 \<le> rp_max_position_pct p" 
  shows "sized_before_lot inp p \<le> sized_before_lot (inp\<lparr>si_equity := e\<rparr>) p"
proof -
  let ?i = "inp\<lparr>si_equity := e\<rparr>"
  have same: "sizing_label ?i = sizing_label inp" "sizing_price ?i = sizing_price inp" "sizing_mult ?i = sizing_mult inp"
    "sizing_risk_pct ?i p = sizing_risk_pct inp p" "sizing_stop_dist ?i p = sizing_stop_dist inp p"
    by (simp_all add: sizing_label_def sizing_price_def sizing_mult_def sizing_risk_pct_def sizing_stop_dist_def Let_def)
  note mono = binary64.rnd_mono
  have price: "0 < sizing_price inp" using binary64.rnd_pos [of "1 / 100"] by (simp add: sizing_price_def less_max_iff_disj)
  have eq: "fl (si_equity inp) \<le> fl e" using assms(1) by (rule mono)
  have scale: "0 \<le> regime_scale l" for l by (simp add: regime_scale_def binary64.rnd_nonneg)
  have risk: "0 \<le> fl (sizing_risk_pct inp p / 100)"
    using assms(4) scale by (simp add: sizing_risk_pct_def binary64.rnd_nonneg)
  have "sizing_raw_qty inp p \<le> sizing_raw_qty ?i p"
    unfolding sizing_raw_qty_def Let_def same
    using eq risk binary64.rnd_nonneg [of "sizing_stop_dist inp p * sizing_mult inp"] assms(2)
    by (auto intro!: mono divide_right_mono mult_right_mono)
  moreover have pos: "max_qty_by_pos inp p \<le> max_qty_by_pos ?i p"
    unfolding max_qty_by_pos_def same
    using eq binary64.rnd_nonneg [of "rp_max_position_pct p"] assms(5) price assms(3)
    by (auto intro!: mono divide_right_mono mult_right_mono binary64.rnd_nonneg)
  ultimately have q0: "min (sizing_raw_qty inp p) (max_qty_by_pos inp p) \<le> min (sizing_raw_qty ?i p) (max_qty_by_pos ?i p)"
    by (rule min.mono)
  have adj: "sentiment_adjusted inp x \<le> sentiment_adjusted ?i y" if "x \<le> y" for x y
    using that binary64.rnd_nonneg [of "11 / 10"] binary64.rnd_nonneg [of "1 / 2"]
    by (auto simp: sentiment_adjusted_def intro!: mono mult_right_mono)
  have soft: "(if soft_stop_applied inp p then fl (x * fl (1 / 2)) else x) \<le> (if soft_stop_applied ?i p then fl (y * fl (1 / 2)) else y)"
    if "x \<le> y" for x y
    using that binary64.rnd_nonneg [of "1 / 2"] by (auto simp: soft_stop_applied_def intro!: mono mult_right_mono)
  let ?q3 = "\<lambda>i. min (if soft_stop_applied i p
      then fl (sentiment_adjusted i (min (sizing_raw_qty i p) (max_qty_by_pos i p)) * fl (1 / 2))
      else sentiment_adjusted i (min (sizing_raw_qty i p) (max_qty_by_pos i p))) (max_qty_by_pos i p)"
  have q3: "?q3 inp \<le> ?q3 ?i" using min.mono [OF soft [OF adj [OF q0]] pos] .
  have lev: "fl (fl (fl (si_equity inp) * c) / fl (sizing_price inp * sizing_mult inp)) \<le>
      fl (fl (fl e * c) / fl (sizing_price inp * sizing_mult inp))" if "0 < c" for c
    using eq that price assms(3) by (auto intro!: mono divide_right_mono mult_right_mono binary64.rnd_nonneg)
  have q4: "(case max_qty_by_leverage inp p of None \<Rightarrow> ?q3 inp | Some m \<Rightarrow> min (?q3 inp) m) \<le>
      (case max_qty_by_leverage ?i p of None \<Rightarrow> ?q3 ?i | Some m \<Rightarrow> min (?q3 ?i) m)"
    using q3 lev [of "fl (rp_leverage_cap p)"]
    by (simp add: max_qty_by_leverage_def Let_def same min.mono del: min_le_iff_disj min.bounded_iff)
  then show ?thesis
    unfolding sized_before_lot_def Let_def
    by (cases "0 < fl (si_requested inp)") (simp_all add: min.mono del: min_le_iff_disj min.bounded_iff)
qed

lemma sized_at_most_24:
  assumes "0 < si_requested inp" "si_requested inp \<le> 2 ^ 24"
  shows "sized_before_lot inp p \<le> 2 ^ 24"
proof -
  have "fl (si_requested inp) \<le> fl (2 ^ 24)" using assms(2) by (rule binary64.rnd_mono)
  also have "fl (2 ^ 24) = 2 ^ 24" using binary64.rnd_small_int [of "2 ^ 24"] by simp
  finally show ?thesis using sized_bounds(3) [of inp p] binary64.rnd_pos [OF assms(1)] by linarith
qed

lemma compute_size_accepts:
  assumes r: "sr_ok (compute_size inp p)" and lot: "si_lot inp = 1" "si_lot inp' = 1"
    and same: "sizing_label inp' = sizing_label inp" "si_side inp' = si_side inp" "si_dd inp' = si_dd inp"
    and q: "0 < round_to_lot (sized_before_lot inp' p) 1"
  shows "sr_ok (compute_size inp' p)"
  using r q lot unfolding compute_size_def Let_def same
  by (auto simp: sizing_reject_def sizing_accept_def split: if_splits)

lemma compute_size_qty_nonneg: "0 \<le> sr_qty (compute_size inp p) \<and> (\<not> sr_ok (compute_size inp p) \<longrightarrow> sr_qty (compute_size inp p) = 0)"
  by (auto simp: compute_size_def Let_def sizing_reject_def sizing_accept_def intro: order.strict_implies_order [OF float_str_value_sign])

text \<open>
  Sizing is monotone in equity: with everything else equal, more equity never gives a
  smaller order, and so a falling account is never sized up.
\<close>

theorem size_monotone_in_equity:
  assumes e: "si_equity inp \<le> e" and lot: "si_lot inp = 1"
    and req: "0 < si_requested inp" "si_requested inp \<le> 2 ^ 24" "has_scale 8 (si_requested inp)"
    and pos: "0 < sizing_stop_dist inp p * sizing_mult inp" "0 < sizing_mult inp"
      "0 \<le> rp_risk_per_trade_pct p" "0 \<le> rp_max_position_pct p"
  shows "sr_qty (compute_size inp p) \<le> sr_qty (compute_size (inp\<lparr>si_equity := e\<rparr>) p)"
proof (cases "sr_ok (compute_size inp p)")
  case False
  then show ?thesis using compute_size_qty_nonneg by metis
next
  case True
  let ?i = "inp\<lparr>si_equity := e\<rparr>"
  have r': "0 < si_requested ?i" "si_requested ?i \<le> 2 ^ 24" "has_scale 8 (si_requested ?i)" "si_lot ?i = 1"
    using req lot by simp_all
  obtain k where k: "sr_qty (compute_size inp p) = of_int k" "1 \<le> k" "k = \<lfloor>sized_before_lot inp p\<rfloor>"
    using accepted_whole [OF refl True lot req] by blast
  have fm: "k \<le> \<lfloor>sized_before_lot ?i p\<rfloor>"
    unfolding k(3) by (rule floor_mono) (rule sized_mono [OF e pos])
  have "sized_before_lot ?i p \<le> of_int (2 ^ 24)" using sized_at_most_24 [OF r'(1,2), of p] by simp
  from floor_mono [OF this] have "\<lfloor>sized_before_lot ?i p\<rfloor> \<le> 2 ^ 24" by (simp only: floor_of_int)
  then have "\<lfloor>sized_before_lot ?i p\<rfloor> \<le> 2 ^ 53" by simp
  with fm k(2) have "\<bar>\<lfloor>sized_before_lot ?i p\<rfloor>\<bar> \<le> 2 ^ 53" by linarith
  moreover have "rat_of_int 0 < of_int \<lfloor>sized_before_lot ?i p\<rfloor>"
    unfolding of_int_less_iff using fm k(2) by linarith
  ultimately have "0 < round_to_lot (sized_before_lot ?i p) 1"
    using whole_lot [OF sized_is_float] by simp
  then have ok: "sr_ok (compute_size ?i p)"
    by (intro compute_size_accepts [OF True lot]) (simp_all add: lot sizing_label_def)
  obtain k' where "sr_qty (compute_size ?i p) = of_int k'" "k' = \<lfloor>sized_before_lot ?i p\<rfloor>"
    using accepted_whole [OF refl ok r'(4,1-3)] by blast
  with k(1) fm show ?thesis by simp
qed

theorem size_monotone_in_equity_witness:
  "10 \<le> sr_qty (compute_size (sample_inputs\<lparr>si_equity := 200000\<rparr>) sample_profile)"
proof -
  have "0 < sizing_stop_dist sample_inputs sample_profile * sizing_mult sample_inputs" "0 < sizing_mult sample_inputs"
    by (simp_all add: sizing_stop_dist_def sizing_mult_def or_zero_def)
  with size_monotone_in_equity [of sample_inputs 200000 sample_profile] show ?thesis by (simp add: sample_size(2))
qed

subsection \<open>Validated profiles\<close>

lemma fl_le_iff:
  "has_scale 4 x \<Longrightarrow> has_scale 4 y \<Longrightarrow> \<bar>x\<bar> \<le> 10 ^ 5 \<Longrightarrow> \<bar>y\<bar> \<le> 10 ^ 5 \<Longrightarrow> fl x \<le> fl y \<longleftrightarrow> x \<le> y"
  using fl_less_iff [of y x] by (simp add: not_less [symmetric])

text \<open>
  C7. The validators check what they document, floats notwithstanding: on values at the
  scale of the columns, risk per trade is in (0, 5], the position cap at most 50, the daily
  loss at most 25, and the soft stop is strictly below the hard stop.
\<close>

theorem validators_exact:
  assumes "has_scale 4 v" "\<bar>v\<bar> \<le> 10 ^ 5" "has_scale 4 w" "\<bar>w\<bar> \<le> 10 ^ 5"
  shows "(validate_risk_per_trade_pct v = Valid v \<longleftrightarrow> 0 < v \<and> v \<le> 5) \<and>
    (validate_max_position_pct v = Valid v \<longleftrightarrow> v \<le> 50) \<and>
    (validate_daily_loss_pct v = Valid v \<longleftrightarrow> v \<le> 25) \<and>
    (validate_stops (Some v) (Some w) inst \<longleftrightarrow> v < w)"
  using fl_less_iff [of 0 v] fl_le_iff [of v 5] fl_less_iff [of 50 v] fl_less_iff [of 25 v] fl_le_iff [of w v] assms
  by (auto simp: validate_risk_per_trade_pct_def validate_max_position_pct_def validate_daily_loss_pct_def
      validate_stops_def)

theorem validators_exact_witness:
  "validate_risk_per_trade_pct 5 = Valid 5 \<and> validate_max_position_pct 51 \<noteq> Valid 51 \<and>
   \<not> validate_stops (Some 5) (Some 5) None"
  using validators_exact [of 5 5 None] validators_exact [of 51 5 None] by simp

end
