(* ===== verification/Risk_Integration.thy ===== *)
theory Risk_Integration
  imports Killswitch Sizing
begin

text \<open>
  Sizing inside the order path (\<open>risk/integration.py\<close>): the trusted inputs (profile, open
  positions, broker equity, price, regime, sentiment, volatility) are gathered, every refusal
  is recorded, and a hard-stop drawdown trips the daily halt. The queries on the market-data
  tables are collected in the record \<open>market\<close>: each field is the latest row such a query
  returns. The lemmas show that the path fails closed and that an accepted order respects
  the account's own equity.
\<close>

record market =
  mk_regime :: "string option"
  mk_sentiment :: "string \<Rightarrow> rat option"
  mk_close :: "string \<Rightarrow> rat option"
  mk_daily :: "string \<Rightarrow> (rat \<times> rat \<times> rat) list"

subsection \<open>Trusted inputs\<close>

definition latest_regime_label :: "market \<Rightarrow> string" where
  "latest_regime_label mk = (case mk_regime mk of None \<Rightarrow> ''NEUTRAL'' | Some l \<Rightarrow> l)"

definition latest_sentiment :: "market \<Rightarrow> string \<Rightarrow> rat" where
  "latest_sentiment mk symb =
     (case mk_sentiment mk (''SYMBOL:'' @ symb) of
        Some p \<Rightarrow> fl p
      | None \<Rightarrow> (case mk_sentiment mk ''MARKET'' of Some p \<Rightarrow> fl p | None \<Rightarrow> 0))"

definition latest_price :: "market \<Rightarrow> string \<Rightarrow> rat option" where
  "latest_price mk symb = mk_close mk (py_upper symb)"

definition positive_price :: "rat option \<Rightarrow> rat option" where
  "positive_price x = (case x of Some v \<Rightarrow> if 0 < v then Some v else None | None \<Rightarrow> None)"

definition adapter_quote :: "adapter \<Rightarrow> string \<Rightarrow> rat option" where
  "adapter_quote ad symb =
     (case ad_quote ad of
        None \<Rightarrow> None
      | Some get \<Rightarrow> (case get symb of Inl _ \<Rightarrow> None | Inr q \<Rightarrow> q))"

definition resolve_price :: "market \<Rightarrow> adapter \<Rightarrow> string \<Rightarrow> rat option \<Rightarrow> rat option" where
  "resolve_price mk ad symb hint =
     (case positive_price hint of
        Some v \<Rightarrow> Some v
      | None \<Rightarrow>
          (case positive_price (adapter_quote ad symb) of
             Some v \<Rightarrow> Some v
           | None \<Rightarrow> positive_price (latest_price mk symb)))"

text \<open>Bars are newest first; the true range of a bar uses the close of the older one.\<close>

fun true_ranges :: "(rat \<times> rat \<times> rat) list \<Rightarrow> rat list" where
  "true_ranges ((h, l, c) # (h', l', prev) # bars) =
     max (max (h - l) \<bar>h - prev\<bar>) \<bar>l - prev\<bar> # true_ranges ((h', l', prev) # bars)"
| "true_ranges bars = []"

definition atr14 :: "market \<Rightarrow> string \<Rightarrow> rat option" where
  "atr14 mk symb =
     (let trs = true_ranges (take 15 (mk_daily mk (py_upper symb)))
      in if trs = [] then None else Some (dec_round (sum_list trs / of_nat (length trs))))"

definition intraday_dd_pct :: "rat \<Rightarrow> rat \<Rightarrow> rat" where
  "intraday_dd_pct last_equity equity =
     (if 0 < last_equity \<and> equity < last_equity
      then fl (dec_round (dec_round ((last_equity - equity) / last_equity) * 100)) else 0)"

subsection \<open>Decisions\<close>

definition create_sizing_decision ::
  "alert \<Rightarrow> order \<Rightarrow> string \<Rightarrow> rat \<Rightarrow> rat \<Rightarrow> bool \<Rightarrow> string \<Rightarrow> wire_dict \<Rightarrow> db \<Rightarrow> db" where
  "create_sizing_decision al od symb req computed ok reason inputs db =
     db\<lparr>d_sizings := d_sizings db @
       [\<lparr>sd_user = a_user al, sd_order = o_id od, sd_alert = a_id al, sd_strategy = o_strategy od,
         sd_symbol = symb, sd_requested = quantize 8 req, sd_computed = quantize 8 computed, sd_ok = ok,
         sd_reason = reason, sd_inputs = inputs\<rparr>]\<rparr>"

definition sizing_reject_event :: "alert \<Rightarrow> string \<Rightarrow> string \<Rightarrow> db \<Rightarrow> db" where
  "sizing_reject_event al reason symb db =
     create_risk_event (Some (a_user al)) SIZING_REJECT ''USER''
       [(''reason'', WStr reason), (''symbol'', WStr symb)] db"

definition persist_reject ::
  "alert \<Rightarrow> order \<Rightarrow> string \<Rightarrow> rat \<Rightarrow> string \<Rightarrow> wire_dict \<Rightarrow> rat option \<Rightarrow> db \<Rightarrow> db \<times> sizing_result" where
  "persist_reject al od symb req reason meta equity db =
     (let inputs = meta @ (case equity of None \<Rightarrow> [] | Some e \<Rightarrow> [(''equity'', WNum e)]);
          db1 = create_sizing_decision al od symb req 0 False reason inputs db
      in (sizing_reject_event al reason symb db1, sizing_reject reason inputs))"

definition class_blocked :: "risk_profile \<Rightarrow> order \<Rightarrow> bool" where
  "class_blocked p od \<longleftrightarrow> rp_permitted p \<noteq> [] \<and> o_class od \<notin> set (rp_permitted p)"

definition open_symbols :: "nat \<Rightarrow> db \<Rightarrow> string list" where
  "open_symbols uid db = map p_symbol (filter (\<lambda>p. p_user p = uid \<and> p_qty p \<noteq> 0) (d_positions db))"

definition max_concurrent_reached :: "risk_profile \<Rightarrow> nat \<Rightarrow> string \<Rightarrow> db \<Rightarrow> bool" where
  "max_concurrent_reached p uid symb db \<longleftrightarrow>
     0 < rp_max_concurrent p \<and>
     py_upper symb \<notin> set (map py_upper (open_symbols uid db)) \<and>
     rp_max_concurrent p \<le> length (open_symbols uid db)"

definition sizing_inputs_for ::
  "market \<Rightarrow> order \<Rightarrow> string \<Rightarrow> string \<Rightarrow> rat \<Rightarrow> rat \<Rightarrow> rat \<Rightarrow> rat \<Rightarrow> sizing_inputs" where
  "sizing_inputs_for mk od side symb req price equity last_equity =
     \<lparr>si_requested = req, si_side = side, si_symbol = symb, si_price = price, si_equity = equity,
      si_regime = latest_regime_label mk, si_sentiment = latest_sentiment mk symb,
      si_dd = intraday_dd_pct last_equity equity, si_atr14 = atr14 mk symb, si_stop = None,
      si_mult = contract_multiplier_for (Some (asset_class_str (o_class od))) (o_fut_root od), si_lot = 1\<rparr>"

text \<open>The part after the inputs are known: size, record, and react.\<close>

definition record_sizing ::
  "env \<Rightarrow> alert \<Rightarrow> order \<Rightarrow> string \<Rightarrow> rat \<Rightarrow> rat \<Rightarrow> rat \<Rightarrow> sizing_result \<Rightarrow> db \<Rightarrow> db" where
  "record_sizing env al od symb req equity price r db =
     (let inputs = sr_meta r @ [(''equity'', WNum equity), (''price'', WNum price)];
          db1 = create_sizing_decision al od symb req (sr_qty r) (sr_ok r) (sr_reason r) inputs db
      in if \<not> sr_ok r
         then
           let db2 = sizing_reject_event al (sr_reason r) symb db1
           in if sr_reason r = ''HARD_STOP''
              then fst (trigger_halt env (l2_request (a_user al) ''HARD_STOP'') db2) else db2
         else if map_of (sr_meta r) ''soft_stop_applied'' = Some (WBool True)
         then create_risk_event (Some (a_user al)) SOFT_STOP ''USER''
                [(''symbol'', WStr symb), (''intraday_dd_pct'', WBool True)] db1
         else db1)"

definition apply_sizing ::
  "env \<Rightarrow> market \<Rightarrow> bool \<Rightarrow> alert \<Rightarrow> order \<Rightarrow> account \<Rightarrow> adapter \<Rightarrow> rat \<Rightarrow> string \<Rightarrow> string \<Rightarrow> rat option \<Rightarrow> db \<Rightarrow>
   db \<times> sizing_result option" where
  "apply_sizing env mk enabled al od ac ad req side symb hint db =
     (if \<not> enabled then (db, None)
      else case first_where (\<lambda>p. rp_user p = a_user al) (d_profiles db) of
        None \<Rightarrow>
          if b_mode ac = LIVE
          then (let (db1, r) = persist_reject al od symb req ''NO_RISK_PROFILE'' [] None db in (db1, Some r))
          else (db, None)
      | Some p \<Rightarrow>
          if class_blocked p od
          then (let (db1, r) = persist_reject al od symb req ''SIZING_ASSET_CLASS_BLOCKED''
                  [(''asset_class'', WStr (asset_class_str (o_class od))),
                   (''permitted'', WStr (py_join '','' (map asset_class_str (rp_permitted p))))] None db
                in (db1, Some r))
          else if max_concurrent_reached p (a_user al) symb db
          then (let (db1, r) = persist_reject al od symb req ''SIZING_MAX_CONCURRENT''
                  [(''open'', WNum (of_nat (length (open_symbols (a_user al) db)))),
                   (''max_concurrent'', WNum (of_nat (rp_max_concurrent p)))] None db
                in (db1, Some r))
          else case ad_account ad of
            Inl _ \<Rightarrow> (let (db1, r) = persist_reject al od symb req ''SIZING_NO_EQUITY'' [] None db in (db1, Some r))
          | Inr acct \<Rightarrow>
              let equity = ai_equity acct
              in if equity \<le> 0
                 then (let (db1, r) = persist_reject al od symb req ''SIZING_NO_EQUITY'' [] None db in (db1, Some r))
                 else case resolve_price mk ad symb hint of
                   None \<Rightarrow>
                     (let (db1, r) = persist_reject al od symb req ''SIZING_NO_PRICE'' [] (Some equity) db
                      in (db1, Some r))
                 | Some price \<Rightarrow>
                     let r = compute_size
                           (sizing_inputs_for mk od side symb req price equity (ai_last_equity acct)) p
                     in (record_sizing env al od symb req equity price r db, Some r))"

subsection \<open>What the path touches\<close>

lemma sizing_frame [simp]:
  "d_halts (create_sizing_decision al od s q c k r i db) = d_halts db"
  "d_next (create_sizing_decision al od s q c k r i db) = d_next db"
  "d_orders (create_sizing_decision al od s q c k r i db) = d_orders db"
  "d_fills (create_sizing_decision al od s q c k r i db) = d_fills db"
  "d_positions (create_sizing_decision al od s q c k r i db) = d_positions db"
  "d_alerts (create_sizing_decision al od s q c k r i db) = d_alerts db"
  "d_placed (create_sizing_decision al od s q c k r i db) = d_placed db"
  "d_halts (sizing_reject_event al r s db) = d_halts db" "d_next (sizing_reject_event al r s db) = d_next db"
  "d_orders (sizing_reject_event al r s db) = d_orders db" "d_sizings (sizing_reject_event al r s db) = d_sizings db"
  "d_fills (sizing_reject_event al r s db) = d_fills db" "d_positions (sizing_reject_event al r s db) = d_positions db"
  "d_alerts (sizing_reject_event al r s db) = d_alerts db" "d_placed (sizing_reject_event al r s db) = d_placed db"
  by (simp_all add: create_sizing_decision_def sizing_reject_event_def create_risk_event_def)

lemma risk_event_frame [simp]:
  "d_sizings (create_risk_event u t s d db) = d_sizings db" "d_fills (create_risk_event u t s d db) = d_fills db"
  "d_positions (create_risk_event u t s d db) = d_positions db" "d_alerts (create_risk_event u t s d db) = d_alerts db"
  "d_placed (create_risk_event u t s d db) = d_placed db"
  by (simp_all add: create_risk_event_def)

lemma trigger_halt_frame [simp]:
  "d_sizings (fst (trigger_halt env q db)) = d_sizings db" "d_orders (fst (trigger_halt env q db)) = d_orders db"
  "d_fills (fst (trigger_halt env q db)) = d_fills db" "d_positions (fst (trigger_halt env q db)) = d_positions db"
  "d_alerts (fst (trigger_halt env q db)) = d_alerts db" "d_placed (fst (trigger_halt env q db)) = d_placed db"
  by (simp_all add: trigger_halt_def Let_def audit_emit_def split: option.splits)

lemma record_sizing_frame [simp]:
  "d_orders (record_sizing env al od s q e p r db) = d_orders db"
  "d_fills (record_sizing env al od s q e p r db) = d_fills db"
  "d_positions (record_sizing env al od s q e p r db) = d_positions db"
  "d_alerts (record_sizing env al od s q e p r db) = d_alerts db"
  "d_placed (record_sizing env al od s q e p r db) = d_placed db"
  by (simp_all add: record_sizing_def Let_def)

lemma persist_reject_frame [simp]:
  "d_orders (fst (persist_reject al od s q r m e db)) = d_orders db"
  "d_fills (fst (persist_reject al od s q r m e db)) = d_fills db"
  "d_positions (fst (persist_reject al od s q r m e db)) = d_positions db"
  "d_alerts (fst (persist_reject al od s q r m e db)) = d_alerts db"
  "d_placed (fst (persist_reject al od s q r m e db)) = d_placed db"
  "d_halts (fst (persist_reject al od s q r m e db)) = d_halts db"
  by (simp_all add: persist_reject_def Let_def)

lemma persist_reject_snd [simp]: "\<not> sr_ok (snd (persist_reject al od s q r m e db))"
  by (simp add: persist_reject_def Let_def sizing_reject_def)

text \<open>The three ways the path ends.\<close>

lemma apply_sizing_cases:
  obtains (off) "apply_sizing env mk enabled al od ac ad req side symb hint db = (db, None)"
      "\<not> enabled \<or> (\<forall>p\<in>set (d_profiles db). rp_user p \<noteq> a_user al) \<and> b_mode ac \<noteq> LIVE"
  | (refused) reason meta equity
      where "apply_sizing env mk enabled al od ac ad req side symb hint db =
          (fst (persist_reject al od symb req reason meta equity db),
           Some (snd (persist_reject al od symb req reason meta equity db)))" "enabled"
        "reason \<noteq> ''HARD_STOP''" "reason \<noteq> []"
  | (sized) p acct price
      where "enabled" "p \<in> set (d_profiles db)" "rp_user p = a_user al" "\<not> class_blocked p od"
        "\<not> max_concurrent_reached p (a_user al) symb db" "ad_account ad = Inr acct" "0 < ai_equity acct"
        "resolve_price mk ad symb hint = Some price"
        "apply_sizing env mk enabled al od ac ad req side symb hint db =
          (record_sizing env al od symb req (ai_equity acct) price
             (compute_size (sizing_inputs_for mk od side symb req price (ai_equity acct) (ai_last_equity acct)) p) db,
           Some (compute_size (sizing_inputs_for mk od side symb req price (ai_equity acct) (ai_last_equity acct)) p))"
proof (cases enabled)
  case False
  then show thesis by (intro off) (simp_all add: apply_sizing_def)
next
  case en: True
  show thesis
  proof (cases "first_where (\<lambda>p. rp_user p = a_user al) (d_profiles db)")
    case None
    then have np: "\<forall>p\<in>set (d_profiles db). rp_user p \<noteq> a_user al" by (simp add: first_where_None)
    show thesis
    proof (cases "b_mode ac = LIVE")
      case True
      with None en show thesis
        by (intro refused [of "''NO_RISK_PROFILE''" "[]" None]) (simp_all add: apply_sizing_def case_prod_beta Let_def)
    next
      case False
      with None np en show thesis by (intro off) (simp_all add: apply_sizing_def)
    qed
  next
    case (Some p)
    then have p: "p \<in> set (d_profiles db)" "rp_user p = a_user al" by (auto dest: first_where_Some)
    show thesis
    proof (cases "class_blocked p od \<or> max_concurrent_reached p (a_user al) symb db")
      case True
      with Some en show thesis
        by (cases "class_blocked p od") (rule refused, simp add: apply_sizing_def case_prod_beta Let_def, simp_all)+
    next
      case ok: False
      show thesis
      proof (cases "\<exists>acct price. ad_account ad = Inr acct \<and> 0 < ai_equity acct \<and> resolve_price mk ad symb hint = Some price")
        case True
        then obtain acct price where "ad_account ad = Inr acct" "0 < ai_equity acct" "resolve_price mk ad symb hint = Some price"
          by blast
        with Some en ok p show thesis by (intro sized) (simp_all add: apply_sizing_def Let_def)
      next
        case False
        then consider e where "ad_account ad = Inl e"
          | acct where "ad_account ad = Inr acct" "ai_equity acct \<le> 0"
          | acct where "ad_account ad = Inr acct" "0 < ai_equity acct" "resolve_price mk ad symb hint = None"
          by (cases "ad_account ad") (force simp: not_le)+
        then show thesis
          using Some en ok
          by cases (rule refused, simp add: apply_sizing_def case_prod_beta Let_def, simp_all)+
      qed
    qed
  qed
qed

subsection \<open>Properties of the sizing path\<close>

definition sample_alert :: alert where
  "sample_alert = \<lparr>a_id = 21, a_user = 7, a_strategy = 3, a_body = [], a_idem = ''k1'', a_status = RECEIVED,
     a_reason = [], a_received = 900, a_processed = None\<rparr>"

definition sample_market :: market where
  "sample_market = \<lparr>mk_regime = Some ''BULL'', mk_sentiment = (\<lambda>s. None), mk_close = (\<lambda>s. None), mk_daily = (\<lambda>s. [])\<rparr>"

definition live_account :: account where
  "live_account = sample_account\<lparr>b_mode := LIVE\<rparr>"



text \<open>
  Every decision is recorded, once. When sizing decides, exactly one decision row is
  appended, with the verdict, the reason and the size of the result (at the column scale);
  a refusal has size 0. No order, fill, position or alert changes.
\<close>

theorem sizing_decision_recorded:
  assumes "apply_sizing env mk enabled al od ac ad req side symb hint db = (db', Some r)"
  shows "(\<exists>d. d_sizings db' = d_sizings db @ [d] \<and> sd_ok d = sr_ok r \<and> sd_reason d = sr_reason r \<and>
      sd_computed d = quantize 8 (sr_qty r) \<and> sd_order d = o_id od \<and> sd_alert d = a_id al) \<and>
    d_orders db' = d_orders db \<and> d_fills db' = d_fills db \<and> d_positions db' = d_positions db \<and>
    d_alerts db' = d_alerts db \<and> d_placed db' = d_placed db"
proof (cases rule: apply_sizing_cases [of env mk enabled al od ac ad req side symb hint db])
  case (refused reason meta equity)
  with assms show ?thesis
    by (auto simp: persist_reject_def Let_def sizing_reject_def create_sizing_decision_def)
next
  case (sized p acct price)
  have "d_sizings (record_sizing env al od symb req e pr res db) =
      d_sizings db @ [\<lparr>sd_user = a_user al, sd_order = o_id od, sd_alert = a_id al, sd_strategy = o_strategy od,
         sd_symbol = symb, sd_requested = quantize 8 req, sd_computed = quantize 8 (sr_qty res), sd_ok = sr_ok res,
         sd_reason = sr_reason res, sd_inputs = sr_meta res @ [(''equity'', WNum e), (''price'', WNum pr)]\<rparr>]"
    for e pr res by (simp add: record_sizing_def Let_def create_sizing_decision_def)
  with assms sized(9) show ?thesis by auto
qed (use assms in simp)

theorem sizing_decision_recorded_witness:
  "length (d_sizings (fst (apply_sizing sample_env sample_market True sample_alert sample_order live_account
     sample_adapter 10 ''BUY'' ''AAPL'' None sample_db))) = 1"
proof -
  obtain db' r where a: "apply_sizing sample_env sample_market True sample_alert sample_order live_account
      sample_adapter 10 ''BUY'' ''AAPL'' None sample_db = (db', Some r)"
    by (simp add: apply_sizing_def sample_defs live_account_def case_prod_beta Let_def)
  from sizing_decision_recorded [OF this] a show ?thesis by (auto simp: sample_defs)
qed

text \<open>
  A hard stop stops the day. When an order is refused for the hard-stop drawdown, an
  automatic daily-loss halt is in force afterwards: every further alert of the user is
  blocked, whatever the strategy.
\<close>

theorem hard_stop_halts_user:
  assumes wf: "halts_wf db"
    and run: "apply_sizing env mk enabled al od ac ad req side symb hint db = (db', Some r)"
    and hs: "sr_reason r = ''HARD_STOP''"
  shows "is_blocked db' (a_user al) st \<noteq> None \<and>
    (\<exists>h\<in>set (d_halts db'). active_halt h \<and> h_level h = L2 \<and> h_user h = Some (a_user al))"
proof (cases rule: apply_sizing_cases [of env mk enabled al od ac ad req side symb hint db])
  case (refused reason meta equity)
  with run hs show ?thesis by (auto simp: persist_reject_def Let_def sizing_reject_def)
next
  case (sized p acct price)
  let ?q = "l2_request (a_user al) ''HARD_STOP''"
  let ?db1 = "sizing_reject_event al ''HARD_STOP'' symb (create_sizing_decision al od symb req (sr_qty r) (sr_ok r)
    (sr_reason r) (sr_meta r @ [(''equity'', WNum (ai_equity acct)), (''price'', WNum price)]) db)"
  have r: "r = compute_size (sizing_inputs_for mk od side symb req price (ai_equity acct) (ai_last_equity acct)) p"
    using run sized(9) by simp
  then have "\<not> sr_ok r" using hs
    by (auto simp: compute_size_def Let_def sizing_accept_def sizing_reject_def split: if_splits)
  then have db': "db' = fst (trigger_halt env ?q ?db1)"
    using run sized(9) r hs by (simp add: record_sizing_def Let_def)
  have "halts_wf ?db1" using wf by (simp add: halts_wf_def)
  from trigger_in_force [OF _ this, of ?q env]
  obtain h where h: "h \<in> set (d_halts db')" "active_halt h" "halt_scope_query (Some (a_user al)) L2 None h"
    by (auto simp: request_ok_def l2_request_def db')
  then have "is_blocked db' (a_user al) st \<noteq> None"
    unfolding is_blocked_None by (auto simp: halt_scope_query_def intro!: bexI [of _ h])
  with h show ?thesis by (auto simp: halt_scope_query_def)
qed (use run in simp)

definition crash_adapter :: adapter where
  "crash_adapter = sample_adapter\<lparr>ad_account := Inr \<lparr>ai_number = ''PA1'', ai_buying_power = 0, ai_cash = 0, ai_currency = ''USD'', ai_status = ''ACTIVE'',
     ai_is_paper = True, ai_equity = 50000, ai_last_equity = 100000\<rparr>\<rparr>"

lemma crash_drawdown: "intraday_dd_pct 100000 50000 = 50"
proof -
  have d: "dec_round (1 / 2) = 1 / 2" by (rule dec_pct_fixed) (simp_all add: has_scale_def quantize_def round_half_even_def)
  have "dec_round 50 = 50" using decimal28.rnd_small_int [of 50] by simp
  then show ?thesis by (simp add: intraday_dd_pct_def d)
qed

theorem hard_stop_halts_user_witness:
  "is_blocked (fst (apply_sizing sample_env sample_market True sample_alert sample_order sample_account crash_adapter
     10 ''BUY'' ''AAPL'' None (sample_db\<lparr>d_profiles := [sample_profile]\<rparr>))) 7 None \<noteq> None"
proof -
  let ?db = "sample_db\<lparr>d_profiles := [sample_profile]\<rparr>"
  let ?run = "apply_sizing sample_env sample_market True sample_alert sample_order sample_account crash_adapter
     10 ''BUY'' ''AAPL'' None ?db"
  have label: "sizing_label (sizing_inputs_for sample_market sample_order ''BUY'' ''AAPL'' 10 100 50000 100000) = ''BULL''"
    by (simp add: sizing_label_def sizing_inputs_for_def latest_regime_label_def sample_market_def) code_simp
  have dd: "si_dd (sizing_inputs_for sample_market sample_order ''BUY'' ''AAPL'' 10 100 50000 100000) = 50"
    by (simp add: sizing_inputs_for_def crash_drawdown)
  have "sr_reason (compute_size (sizing_inputs_for sample_market sample_order ''BUY'' ''AAPL'' 10 100 50000 100000)
      sample_profile) = ''HARD_STOP''"
    by (simp add: compute_size_def Let_def label dd regime_scale_def sizing_reject_def)
  then obtain db' r where "?run = (db', Some r)" "sr_reason r = ''HARD_STOP''"
    by (simp add: apply_sizing_def sample_defs sample_profile_def crash_adapter_def sample_adapter_def
        first_where_Cons class_blocked_def max_concurrent_reached_def open_symbols_def resolve_price_def
        positive_price_def adapter_quote_def Let_def sample_alert_def)
  moreover have "halts_wf ?db" by (simp add: halts_wf_def sample_defs)
  ultimately show ?thesis using hard_stop_halts_user by (fastforce simp: sample_alert_def)
qed

text \<open>
  The ceiling is the account's own. The notional of an accepted order, with the contract
  multiplier of its asset class, stays within the profile's percentage of the equity the
  broker reported (up to one part in 10^14), and the size within the request.
\<close>

theorem accepted_order_within_equity:
  assumes run: "apply_sizing env mk enabled al od ac ad req side symb hint db = (db', Some r)" "sr_ok r"
    and req: "0 < req" "req \<le> 2 ^ 24" "has_scale 8 req"
    and one: "\<And>p. p \<in> set (d_profiles db) \<Longrightarrow> rp_user p = a_user al \<Longrightarrow> p = prof" and pct: "0 \<le> rp_max_position_pct prof"
  shows "\<exists>acct price. ad_account ad = Inr acct \<and> resolve_price mk ad symb hint = Some price \<and> sr_qty r \<le> req \<and>
    sr_qty r * (price * contract_multiplier_for (Some (asset_class_str (o_class od))) (o_fut_root od)) \<le>
      ai_equity acct * rp_max_position_pct prof / 100 * (1 + 1 / 10 ^ 14)"
proof (cases rule: apply_sizing_cases [of env mk enabled al od ac ad req side symb hint db])
  case (refused reason meta equity)
  then show ?thesis using run by auto
next
  case (sized p acct price)
  have p: "p = prof" using one sized(2,3) by blast
  let ?inp = "sizing_inputs_for mk od side symb req price (ai_equity acct) (ai_last_equity acct)"
  have r: "r = compute_size ?inp prof" using run(1) sized(9) p by simp
  have "0 < price"
    using sized(8) by (auto simp: resolve_price_def positive_price_def split: option.splits if_splits)
  moreover have "0 < contract_multiplier_for ac root" for ac root
    by (simp add: contract_multiplier_for_def future_multiplier_def Let_def split: option.split)
  ultimately have "sr_qty r * (si_price ?inp * si_mult ?inp) \<le> si_equity ?inp * rp_max_position_pct prof / 100 * (1 + 1 / 10 ^ 14)"
    using run(2) req sized(7) pct unfolding r
    by (intro notional_position) (simp_all add: sizing_inputs_for_def)
  moreover have "sr_qty r \<le> req"
    using accepted_whole [OF r [symmetric] run(2)] req by (force simp: sizing_inputs_for_def)
  ultimately show ?thesis using sized(6,8) by (auto simp: sizing_inputs_for_def)
qed (use run in simp)

definition daily_market :: market where
  "daily_market = sample_market\<lparr>mk_daily := (\<lambda>s. [(101, 99, 100), (101, 99, 100)])\<rparr>"

lemma daily_inputs:
  "sizing_inputs_for daily_market sample_order ''BUY'' ''AAPL'' 10 100 100000 100000 =
     sample_inputs\<lparr>si_atr14 := Some 2, si_stop := None\<rparr>"
proof -
  have "dec_round 2 = 2" using decimal28.rnd_small_int [of 2] by simp
  moreover have "contract_multiplier_for (Some (asset_class_str STOCK)) [] = 1" by code_simp
  ultimately show ?thesis
    by (simp add: sizing_inputs_for_def daily_market_def sample_market_def latest_regime_label_def latest_sentiment_def
        intraday_dd_pct_def atr14_def Let_def sample_inputs_def sample_order_def)
qed

lemma daily_accepted:
  "sr_ok (compute_size (sizing_inputs_for daily_market sample_order ''BUY'' ''AAPL'' 10 100 100000 100000) sample_profile)"
proof -
  let ?i = "sample_inputs\<lparr>si_atr14 := Some 2, si_stop := None\<rparr>"
  have "fl (1 / 100) \<le> fl 100" by (rule binary64.rnd_mono) simp
  then have price: "sizing_price ?i = 100" by (simp add: sizing_price_def max_def)
  have mult: "sizing_mult ?i = 1" by (simp add: sizing_mult_def)
  have label: "sizing_label ?i = ''BULL''" using sample_label by (simp add: sizing_label_def)
  have d: "fl (25 / 8) = 25 / 8" "fl (1 / 32) = 1 / 32" "fl (3 / 2) = 3 / 2"
    using fl_dyadic [of 25 3] fl_dyadic [of 1 5] fl_dyadic [of 3 1] by simp_all
  have "sizing_raw_qty ?i sample_profile = fl (3125 / 3)"
    by (simp add: sizing_raw_qty_def sizing_risk_pct_def label regime_scale_def sizing_stop_dist_def or_zero_def mult d)
  moreover have "fl 1000 \<le> fl (3125 / 3)" by (rule binary64.rnd_mono) simp
  ultimately have raw: "1000 \<le> sizing_raw_qty ?i sample_profile" by simp
  have one: "fl 1 = 1" "- fl (1 / 2) < 0" "0 < fl (7 / 10)" using binary64.rnd_pos [of "1 / 2"] binary64.rnd_pos [of "7 / 10"] by simp_all
  then have "sized_before_lot ?i sample_profile = 10"
    using raw by (simp add: sized_before_lot_def max_qty_by_pos_def max_qty_by_leverage_def price mult
        sentiment_adjusted_def soft_stop_applied_def Let_def min_def)
  moreover have "round_to_lot 10 1 = 10" using whole_lot [of 10] by simp
  ultimately show ?thesis
    unfolding daily_inputs by (simp add: compute_size_def Let_def label regime_scale_def sizing_accept_def)
qed

theorem accepted_order_within_equity_witness:
  "\<exists>r. snd (apply_sizing sample_env daily_market True sample_alert sample_order sample_account sample_adapter
      10 ''BUY'' ''AAPL'' None (sample_db\<lparr>d_profiles := [sample_profile]\<rparr>)) = Some r \<and> sr_qty r \<le> 10"
proof -
  let ?db = "sample_db\<lparr>d_profiles := [sample_profile]\<rparr>"
  let ?run = "apply_sizing sample_env daily_market True sample_alert sample_order sample_account sample_adapter
     10 ''BUY'' ''AAPL'' None ?db"
  obtain db' r where run: "?run = (db', Some r)" "sr_ok r"
    using daily_accepted
    by (simp add: apply_sizing_def sample_defs sample_profile_def sample_adapter_def
        first_where_Cons class_blocked_def max_concurrent_reached_def open_symbols_def resolve_price_def
        positive_price_def adapter_quote_def Let_def sample_alert_def)
  have "has_scale 8 (10::rat)" by simp
  from accepted_order_within_equity [OF run _ _ this, of sample_profile] run show ?thesis
    by auto
qed

end
