(* ===== verification/Process_Alert.thy ===== *)
theory Process_Alert
  imports Risk_Integration
begin

text \<open>
  Processing one accepted alert (\<open>webhooks/tasks.py\<close>): the gates, the order row, the
  parsing of the alert into an order intent, sizing, and the submit with its error
  taxonomy. \<open>platform\<close> collects what the task calls and does not define: the SHA-256 hex
  digest, Django's \<open>parse_date\<close>, the adapter factory, the sizing switch and the market data.
  While \<open>place_order\<close> is in flight the fill ingestor may apply events of the new order; they
  are the adapter's \<open>ad_events\<close>. The task runs in autocommit mode, so an exception leaves the
  state written so far (\<open>ProcessRaised\<close>).

  The lemmas show that no client order id is ever placed twice, that nothing is placed past a
  gate, how each way the submit can end is recorded, and which alerts stay unprocessed.
\<close>

record platform =
  pl_sha :: "string \<Rightarrow> string"
  pl_date_ok :: "string \<Rightarrow> bool"
  pl_build :: "account \<Rightarrow> broker_exn + adapter"
  pl_sizing :: bool
  pl_market :: market

datatype process_result =
    AlertMissing
  | AlreadyProcessed
  | AlertRejected string
  | DuplicateOrder nat
  | OrderRejected nat string
  | OrderAmbiguous nat string
  | OrderPlaced nat order_status string
  | ProcessRaised

type_synonym body = "(string \<times> json) list"

subsection \<open>Rows\<close>

definition update_order :: "nat \<Rightarrow> (order \<Rightarrow> order) \<Rightarrow> db \<Rightarrow> db" where
  "update_order i f db = db\<lparr>d_orders := update_where (\<lambda>od. o_id od = i) f (d_orders db)\<rparr>"

definition finish_alert :: "env \<Rightarrow> nat \<Rightarrow> alert_status \<Rightarrow> string option \<Rightarrow> db \<Rightarrow> db" where
  "finish_alert env i st reason db =
     db\<lparr>d_alerts := update_where (\<lambda>a. a_id a = i)
       (\<lambda>a. (case reason of None \<Rightarrow> a | Some r \<Rightarrow> a\<lparr>a_reason := r\<rparr>)\<lparr>a_status := st, a_processed := Some (e_now env)\<rparr>)
       (d_alerts db)\<rparr>"

definition push_order :: "nat \<Rightarrow> push_type \<Rightarrow> nat \<Rightarrow> db \<Rightarrow> db" where
  "push_order uid ty i db =
     (case first_where (\<lambda>od. o_id od = i) (d_orders db) of
        None \<Rightarrow> db
      | Some od \<Rightarrow> push_to_user uid ty (order_to_wire od) db)"

definition reject_order :: "env \<Rightarrow> nat \<Rightarrow> alert \<Rightarrow> string \<Rightarrow> db \<Rightarrow> db \<times> process_result" where
  "reject_order env i al reason db =
     (let db1 = update_order i (\<lambda>od. od\<lparr>o_status := REJECTED, o_reason := take 64 reason\<rparr>) db;
          db2 = push_order (a_user al) ORDER_UPDATED i db1
      in (finish_alert env (a_id al) ALERT_REJECTED (Some (take 48 reason)) db2, OrderRejected i reason))"

definition needs_reconcile_order :: "env \<Rightarrow> nat \<Rightarrow> alert \<Rightarrow> string \<Rightarrow> db \<Rightarrow> db \<times> process_result" where
  "needs_reconcile_order env i al reason db =
     (let db1 = update_order i (\<lambda>od. od\<lparr>o_status := NEEDS_RECONCILE, o_reason := take 64 reason\<rparr>) db;
          db2 = push_order (a_user al) ORDER_UPDATED i db1
      in (finish_alert env (a_id al) ACCEPTED None db2, OrderAmbiguous i reason))"

subsection \<open>Gates\<close>

definition body_str :: "string \<Rightarrow> string \<Rightarrow> body \<Rightarrow> string" where
  "body_str k dflt b = py_str (dict_get_or k (JStr dflt) b)"

definition strategy_off :: "nat \<Rightarrow> db \<Rightarrow> bool" where
  "strategy_off sid db =
     (case first_where (\<lambda>s. s_id s = sid) (d_strategies db) of
        None \<Rightarrow> True
      | Some s \<Rightarrow> s_deleted s \<noteq> None \<or> \<not> s_enabled s)"

definition default_account :: "nat \<Rightarrow> db \<Rightarrow> account option" where
  "default_account uid db =
     (case first_where (\<lambda>b. b_user b = uid \<and> b_default b) (d_accounts db) of
        Some b \<Rightarrow> Some b
      | None \<Rightarrow> first_where (\<lambda>b. b_user b = uid) (sort_key b_created (d_accounts db)))"

definition named_account :: "nat \<Rightarrow> string \<Rightarrow> db \<Rightarrow> account option" where
  "named_account uid pref db =
     first_where (\<lambda>b. b_user b = uid \<and> broker_name_str (b_broker b) = pref)
       (sort_key (\<lambda>b. if b_default b then 0 else 1 :: nat) (sort_key b_created (d_accounts db)))"

definition gate_alert :: "alert \<Rightarrow> db \<Rightarrow> string + account" where
  "gate_alert al db =
     (if strategy_off (a_strategy al) db then Inl ''STRATEGY_DISABLED''
      else
        let pref = py_strip (py_upper (body_str ''broker'' [] (a_body al)));
            account = (if pref \<noteq> [] then named_account (a_user al) pref db else default_account (a_user al) db)
        in case account of
             None \<Rightarrow> Inl (if pref \<noteq> [] then ''BROKER_NOT_CONNECTED'' else ''NO_BROKER_CONNECTED'')
           | Some ac \<Rightarrow>
               (case is_blocked db (a_user al) (Some (a_strategy al)) of
                  Some reason \<Rightarrow> Inl reason
                | None \<Rightarrow> Inr ac))"

subsection \<open>From the alert to an order intent\<close>

definition alert_side :: "string \<Rightarrow> broker_side option" where
  "alert_side action =
     map_of [(''buy'', Buy), (''sell'', Sell), (''exit'', Sell), (''buy_to_open'', Buy), (''sell_to_open'', Sell),
             (''buy_to_close'', Buy), (''sell_to_close'', Sell)] action"

definition alert_order_side :: "string \<Rightarrow> order_side" where
  "alert_order_side action =
     (case map_of [(''buy'', BUY), (''sell'', SELL), (''exit'', SELL), (''buy_to_open'', BUY_TO_OPEN),
             (''sell_to_open'', SELL_TO_OPEN), (''buy_to_close'', BUY_TO_CLOSE), (''sell_to_close'', SELL_TO_CLOSE)] action
      of None \<Rightarrow> BUY | Some s \<Rightarrow> s)"

definition alert_action :: "body \<Rightarrow> string" where
  "alert_action b = py_lower (body_str ''action'' [] b)"

definition alert_symbol :: "body \<Rightarrow> string" where
  "alert_symbol b = py_strip (py_upper (body_str ''symbol'' [] b))"

definition alert_asset :: "body \<Rightarrow> string" where
  "alert_asset b =
     (let a = py_strip (py_upper (body_str ''asset_class'' ''STOCK'' b)) in if a = [] then ''STOCK'' else a)"

definition alert_tif :: "body \<Rightarrow> time_in_force" where
  "alert_tif b =
     (let t = py_strip (py_upper (py_str (dict_get_or ''tif'' (dict_get_or ''time_in_force'' (JStr ''DAY'') b) b)))
      in if t = ''GTC'' then GTC else if t = ''IOC'' then IOC else DAY)"

definition alert_qty :: "body \<Rightarrow> rat" where
  "alert_qty b =
     (case dec_parse (py_str (dict_get_or ''qty'' JNull b)) of
        None \<Rightarrow> 0
      | Some d \<Rightarrow> if dec_is_finite d then dec_value d else 0)"

definition client_order_id :: "platform \<Rightarrow> alert \<Rightarrow> string" where
  "client_order_id p al =
     (let idem = py_strip (body_str ''idempotency_key'' [] (a_body al))
      in if idem \<noteq> [] then ''stp-'' @ take 32 (pl_sha p (nat_str (a_user al) @ '':'' @ idem))
         else ''stp-'' @ nat_str (a_id al))"

definition new_order :: "env \<Rightarrow> platform \<Rightarrow> alert \<Rightarrow> account \<Rightarrow> nat \<Rightarrow> order" where
  "new_order env p al ac i =
     \<lparr>o_id = i, o_user = a_user al, o_strategy = Some (a_strategy al), o_account = Some (b_id ac),
      o_alert = Some (a_id al), o_coid = client_order_id p al, o_boid = [],
      o_symbol = alert_symbol (a_body al), o_side = alert_order_side (alert_action (a_body al)),
      o_qty = (if 0 < alert_qty (a_body al) then alert_qty (a_body al) else 0), o_type = MKT,
      o_limit = None, o_stop = None, o_tif = DAY, o_class = STOCK, o_opt_expiry = None, o_opt_strike = None,
      o_opt_right = [], o_fut_root = [], o_fut_expiry = [], o_status = PENDING_SUBMIT, o_reason = [],
      o_filled = 0, o_created = e_now env\<rparr>"

record intent =
  it_side :: broker_side
  it_type :: order_type
  it_limit :: "rat option"
  it_stop :: "rat option"
  it_tif :: time_in_force
  it_class :: asset_class
  it_option :: "option_contract option"
  it_future :: "future_contract option"

definition parse_asset_class :: "string \<Rightarrow> asset_class option" where
  "parse_asset_class s = map_of [(''STOCK'', STOCK), (''ETF'', ETF), (''OPTION'', OPTION), (''FUTURE'', FUTURE)] s"

definition parse_order_type :: "string \<Rightarrow> order_type option" where
  "parse_order_type s = map_of [(''MKT'', MKT), (''LMT'', LMT), (''STP'', STP), (''STP_LMT'', STP_LMT)] s"

definition positive_decimal :: "json \<Rightarrow> rat option" where
  "positive_decimal v =
     (case dec_parse (py_str v) of
        None \<Rightarrow> None
      | Some d \<Rightarrow> if dec_is_finite d \<and> 0 < dec_value d then Some (dec_value d) else None)"

definition alert_limit :: "order_type \<Rightarrow> body \<Rightarrow> string + rat option" where
  "alert_limit ot b =
     (if ot = LMT \<or> ot = STP_LMT
      then (case positive_decimal (dict_get_or ''limit_price'' (dict_get_or ''price'' JNull b) b) of
              None \<Rightarrow> Inl ''ORDER_INVALID_LIMIT'' | Some v \<Rightarrow> Inr (Some v))
      else Inr None)"

definition alert_stop :: "order_type \<Rightarrow> body \<Rightarrow> string + rat option" where
  "alert_stop ot b =
     (if ot = STP \<or> ot = STP_LMT
      then (case positive_decimal (dict_get_or ''stop_price'' JNull b) of
              None \<Rightarrow> Inl ''ORDER_INVALID_STOP'' | Some v \<Rightarrow> Inr (Some v))
      else Inr None)"

definition alert_option :: "platform \<Rightarrow> asset_class \<Rightarrow> body \<Rightarrow> string + option_contract option" where
  "alert_option p cls b =
     (let expiry = dict_get_or ''option_expiry'' JNull b; strike = dict_get_or ''option_strike'' JNull b
      in if cls = OPTION \<and> py_truthy expiry \<and> py_truthy strike
         then if \<not> pl_date_ok p (py_str expiry) then Inl ''ORDER_INVALID_OPTION''
              else (case positive_decimal strike of
                      None \<Rightarrow> Inl ''ORDER_INVALID_OPTION''
                    | Some v \<Rightarrow> Inr (Some \<lparr>oc_expiry = py_str expiry, oc_strike = v,
                                          oc_right = py_upper (body_str ''option_right'' ''CALL'' b)\<rparr>))
         else Inr None)"

definition alert_future :: "asset_class \<Rightarrow> body \<Rightarrow> future_contract option" where
  "alert_future cls b =
     (if cls = FUTURE
      then Some \<lparr>fc_root = py_upper (body_str ''future_root'' (alert_symbol b) b),
                 fc_expiry = body_str ''future_expiry'' [] b\<rparr>
      else None)"

definition check_intent :: "platform \<Rightarrow> body \<Rightarrow> string + intent" where
  "check_intent p b =
     (case alert_side (alert_action b) of
        None \<Rightarrow> Inl ''INVALID_ACTION''
      | Some side \<Rightarrow>
          if alert_qty b \<le> 0 then Inl ''INVALID_QTY''
          else if alert_symbol b = [] then Inl ''ORDER_UNSUPPORTED_ASSET''
          else case parse_asset_class (alert_asset b) of
            None \<Rightarrow> Inl ''ORDER_UNSUPPORTED_ASSET''
          | Some cls \<Rightarrow>
              if CHR ''/'' \<in> set (alert_symbol b) \<and> cls \<noteq> FUTURE then Inl ''ORDER_UNSUPPORTED_ASSET''
              else case parse_order_type (py_strip (py_upper (body_str ''order_type'' ''MKT'' b))) of
                None \<Rightarrow> Inl ''ORDER_UNSUPPORTED_TYPE''
              | Some ot \<Rightarrow>
                  (case alert_limit ot b of
                     Inl e \<Rightarrow> Inl e
                   | Inr limp \<Rightarrow>
                       (case alert_stop ot b of
                          Inl e \<Rightarrow> Inl e
                        | Inr stp \<Rightarrow>
                            (case alert_option p cls b of
                               Inl e \<Rightarrow> Inl e
                             | Inr opt \<Rightarrow>
                                 Inr \<lparr>it_side = side, it_type = ot, it_limit = limp, it_stop = stp,
                                      it_tif = alert_tif b, it_class = cls, it_option = opt,
                                      it_future = alert_future cls b\<rparr>))))"

definition persist_intent :: "intent \<Rightarrow> order \<Rightarrow> order" where
  "persist_intent it od =
     od\<lparr>o_type := it_type it, o_limit := map_option (quantize 4) (it_limit it),
        o_stop := map_option (quantize 4) (it_stop it), o_tif := it_tif it, o_class := it_class it,
        o_opt_expiry := map_option oc_expiry (it_option it),
        o_opt_strike := map_option (\<lambda>c. quantize 4 (oc_strike c)) (it_option it),
        o_opt_right := (case it_option it of None \<Rightarrow> [] | Some c \<Rightarrow> oc_right c),
        o_fut_root := (case it_future it of None \<Rightarrow> [] | Some c \<Rightarrow> fc_root c),
        o_fut_expiry := (case it_future it of None \<Rightarrow> [] | Some c \<Rightarrow> fc_expiry c)\<rparr>"

definition build_req :: "body \<Rightarrow> intent \<Rightarrow> rat \<Rightarrow> order_request" where
  "build_req b it q =
     \<lparr>rq_symbol = alert_symbol b, rq_side = it_side it, rq_qty = q, rq_type = it_type it, rq_limit = it_limit it,
      rq_stop = it_stop it, rq_tif = it_tif it, rq_class = asset_class_str (it_class it),
      rq_option = it_option it, rq_future = it_future it\<rparr>"

subsection \<open>Submitting\<close>

definition submitted_call :: "alert \<Rightarrow> account \<Rightarrow> order \<Rightarrow> audit_call" where
  "submitted_call al ac od =
     \<lparr>ac_event = ''order.submitted'', ac_user = Some (a_user al), ac_actor = None, ac_entity = ''order'',
      ac_entity_id = nat_str (o_id od),
      ac_after = [(''alert_id'', WId (a_id al)), (''broker_order_id'', WStr (o_boid od)),
        (''symbol'', WStr (o_symbol od)), (''side'', WStr (order_side_str (o_side od))),
        (''qty'', WNum (o_qty od)), (''status'', WStr (order_status_str (o_status od))),
        (''broker'', WStr (broker_name_str (b_broker ac)))]\<rparr>"

definition acknowledged :: "alert \<Rightarrow> nat \<Rightarrow> order_ack \<Rightarrow> db \<Rightarrow> db" where
  "acknowledged al i ack db =
     (let db1 = (if ak_boid ack \<noteq> [] then update_order i (\<lambda>od. od\<lparr>o_boid := ak_boid ack\<rparr>) db else db);
          db2 = update_order i (\<lambda>od. if o_status od = PENDING_SUBMIT then od\<lparr>o_status := SUBMITTED\<rparr> else od) db1
      in push_order (a_user al) ORDER_UPDATED i db2)"

definition acknowledge :: "env \<Rightarrow> alert \<Rightarrow> account \<Rightarrow> nat \<Rightarrow> order_ack \<Rightarrow> db \<Rightarrow> db \<times> process_result" where
  "acknowledge env al ac i ack db =
     (let db3 = acknowledged al i ack db
      in case first_where (\<lambda>od. o_id od = i) (d_orders db3) of
           None \<Rightarrow> (db3, ProcessRaised)
         | Some od \<Rightarrow>
             (finish_alert env (a_id al) ACCEPTED None (audit_emit (submitted_call al ac od) db3),
              OrderPlaced i (o_status od) (o_boid od)))"

definition submit_order ::
  "env \<Rightarrow> alert \<Rightarrow> account \<Rightarrow> adapter \<Rightarrow> nat \<Rightarrow> string \<Rightarrow> order_request \<Rightarrow> db \<Rightarrow> db \<times> process_result" where
  "submit_order env al ac ad i coid req db =
     (let db1 = ingest_all env (ad_events ad req coid) (a_user al) (db\<lparr>d_placed := d_placed db @ [(coid, req)]\<rparr>)
      in case ad_place ad req coid of
           Inl (BrokerError code retryable) \<Rightarrow>
             if retryable then needs_reconcile_order env i al code db1 else reject_order env i al code db1
         | Inl OtherExn \<Rightarrow> needs_reconcile_order env i al ''BROKER_UNKNOWN_ERROR'' db1
         | Inr ack \<Rightarrow> acknowledge env al ac i ack db1)"

definition size_and_submit ::
  "env \<Rightarrow> platform \<Rightarrow> alert \<Rightarrow> account \<Rightarrow> order \<Rightarrow> intent \<Rightarrow> adapter \<Rightarrow> db \<Rightarrow> db \<times> process_result" where
  "size_and_submit env p al ac od it ad db =
     (let b = a_body al; coid = client_order_id p al;
          (db1, sized) = apply_sizing env (pl_market p) (pl_sizing p) al od ac ad (alert_qty b)
             (order_side_str (o_side od)) (alert_symbol b) (it_limit it) db
      in case sized of
           None \<Rightarrow> submit_order env al ac ad (o_id od) coid (build_req b it (alert_qty b)) db1
         | Some r \<Rightarrow>
             if \<not> sr_ok r then reject_order env (o_id od) al (sr_reason r) db1
             else submit_order env al ac ad (o_id od) coid (build_req b it (sr_qty r))
                    (update_order (o_id od) (\<lambda>x. x\<lparr>o_qty := quantize 8 (sr_qty r)\<rparr>) db1))"

text \<open>The order row exists; validate the alert, persist the intent, build the adapter.\<close>

definition process_order ::
  "env \<Rightarrow> platform \<Rightarrow> alert \<Rightarrow> account \<Rightarrow> order \<Rightarrow> db \<Rightarrow> db \<times> process_result" where
  "process_order env p al ac od db =
     (case check_intent p (a_body al) of
        Inl reason \<Rightarrow> reject_order env (o_id od) al reason db
      | Inr it \<Rightarrow>
          let db1 = update_order (o_id od) (persist_intent it) db;
              od1 = persist_intent it od
          in case pl_build p ac of
               Inl (BrokerError code retryable) \<Rightarrow> reject_order env (o_id od) al code db1
             | Inl OtherExn \<Rightarrow> (db1, ProcessRaised)
             | Inr ad \<Rightarrow> size_and_submit env p al ac od1 it ad db1)"

definition process_alert :: "env \<Rightarrow> platform \<Rightarrow> nat \<Rightarrow> db \<Rightarrow> db \<times> process_result" where
  "process_alert env p aid db =
     (case first_where (\<lambda>a. a_id a = aid) (d_alerts db) of
        None \<Rightarrow> (db, AlertMissing)
      | Some al \<Rightarrow>
          if a_status al \<noteq> RECEIVED then (db, AlreadyProcessed)
          else case gate_alert al db of
            Inl reason \<Rightarrow> (finish_alert env aid ALERT_REJECTED (Some reason) db, AlertRejected reason)
          | Inr ac \<Rightarrow>
              (case first_where (\<lambda>od. o_coid od = client_order_id p al) (d_orders db) of
                 Some od \<Rightarrow> (db, DuplicateOrder (o_id od))
               | None \<Rightarrow>
                   let mem = new_order env p al ac (d_next db);
                       row = mem\<lparr>o_qty := quantize 8 (o_qty mem)\<rparr>;
                       db1 = db\<lparr>d_orders := d_orders db @ [row], d_next := d_next db + 1\<rparr>;
                       db2 = push_to_user (a_user al) ORDER_CREATED (order_to_wire mem) db1
                   in process_order env p al ac row db2))"

definition redispatch_stranded_alerts :: "env \<Rightarrow> int \<Rightarrow> db \<Rightarrow> db \<times> nat" where
  "redispatch_stranded_alerts env older_than db =
     (let stranded = map a_id (filter (\<lambda>a. a_status a = RECEIVED \<and> a_received a < e_now env - seconds older_than)
            (d_alerts db))
      in (db\<lparr>d_tasks := d_tasks db @ stranded\<rparr>, length stranded))"

text \<open>A worker that takes alert ids one after another.\<close>

fun process_alerts :: "env \<Rightarrow> platform \<Rightarrow> nat list \<Rightarrow> db \<Rightarrow> db" where
  "process_alerts env p [] db = db"
| "process_alerts env p (i # ids) db = process_alerts env p ids (fst (process_alert env p i db))"

subsection \<open>Order keys and placed orders\<close>

definition order_keys :: "db \<Rightarrow> (nat \<times> string) list" where
  "order_keys db = map (\<lambda>od. (o_id od, o_coid od)) (d_orders db)"

text \<open>Ids are keys below the next one; every placed order has its row; no order was placed twice.\<close>

definition ids_ok :: "db \<Rightarrow> bool" where
  "ids_ok db \<longleftrightarrow> distinct (map o_id (d_orders db)) \<and> (\<forall>od\<in>set (d_orders db). o_id od < d_next db)"

definition placed_ok :: "db \<Rightarrow> bool" where
  "placed_ok db \<longleftrightarrow>
     ids_ok db \<and> distinct (map fst (d_placed db)) \<and>
     set (map fst (d_placed db)) \<subseteq> set (map o_coid (d_orders db))"

lemma ids_ok_keys: "ids_ok db \<longleftrightarrow> distinct (map fst (order_keys db)) \<and> (\<forall>k\<in>set (order_keys db). fst k < d_next db)"
  by (simp add: ids_ok_def order_keys_def comp_def)

lemma coids_keys: "map o_coid (d_orders db) = map snd (order_keys db)"
  by (simp add: order_keys_def)

text \<open>What a step of the order path may do to keys and counters.\<close>

definition keeps_keys :: "db \<Rightarrow> db \<Rightarrow> bool" where
  "keeps_keys db db' \<longleftrightarrow> order_keys db' = order_keys db \<and> d_next db \<le> d_next db'"

lemma keeps_keys_refl [simp]: "keeps_keys db db"
  by (simp add: keeps_keys_def)

lemma keeps_keys_trans: "keeps_keys a b \<Longrightarrow> keeps_keys b c \<Longrightarrow> keeps_keys a c"
  by (simp add: keeps_keys_def)

lemma keeps_keys_ids: "keeps_keys db db' \<Longrightarrow> ids_ok db \<Longrightarrow> ids_ok db'"
  by (auto simp: ids_ok_keys keeps_keys_def)

lemma update_order_keys:
  "(\<And>od. o_id (f od) = o_id od \<and> o_coid (f od) = o_coid od) \<Longrightarrow> keeps_keys db (update_order i f db)"
  by (simp add: keeps_keys_def order_keys_def update_order_def map_update_where)

lemma path_frame [simp]:
  "d_orders (finish_alert env i st r db) = d_orders db" "d_placed (finish_alert env i st r db) = d_placed db"
  "d_next (finish_alert env i st r db) = d_next db" "d_halts (finish_alert env i st r db) = d_halts db"
  "d_orders (push_order u t i db) = d_orders db" "d_placed (push_order u t i db) = d_placed db"
  "d_next (push_order u t i db) = d_next db" "d_alerts (push_order u t i db) = d_alerts db"
  "d_placed (update_order i f db) = d_placed db" "d_next (update_order i f db) = d_next db"
  "d_alerts (update_order i f db) = d_alerts db" "d_placed (audit_emit c db) = d_placed db"
  "d_alerts (audit_emit c db) = d_alerts db" "d_alerts (push_to_user u t dd db) = d_alerts db"
  by (simp_all add: finish_alert_def push_order_def update_order_def push_to_user_def audit_emit_def split: option.splits)

lemma keeps_keys_frame: "d_orders db' = d_orders db \<Longrightarrow> d_next db' = d_next db \<Longrightarrow> keeps_keys db db'"
  by (simp add: keeps_keys_def order_keys_def)

lemma record_fill_frame:
  assumes "record_fill env ev uid od db = Inr (db1, o1, row)"
  shows "d_orders db1 = d_orders db \<and> d_next db \<le> d_next db1 \<and> d_placed db1 = d_placed db \<and> d_alerts db1 = d_alerts db"
proof -
  have "d_placed (with_position u a s f db) = d_placed db" "d_alerts (with_position u a s f db) = d_alerts db" for u a s f db
    by (simp_all add: with_position_def split: option.splits)
  then show ?thesis
    using assms by (auto simp: record_fill_def Let_def apply_fill_to_position_def audit_emit_def
        split: if_splits option.splits bool.splits)
qed

lemma ingest_frame:
  assumes "ingest_fill_event env ev uid db = Inr (db', r)" and "ids_ok db"
  shows "keeps_keys db db' \<and> d_placed db' = d_placed db \<and> d_alerts db' = d_alerts db"
  using assms(1)
proof (cases rule: ingest_cases)
  case (applied od0 db1 o1 row o2 o3)
  note fr = record_fill_frame [OF applied(3)]
  have ip: "d_next (ingest_pushes uid o3 row d) = d_next d" "d_placed (ingest_pushes uid o3 row d) = d_placed d"
    "d_alerts (ingest_pushes uid o3 row d) = d_alerts d" for d
    by (simp_all add: ingest_pushes_def Let_def push_to_user_def split: option.splits)
  have "map (\<lambda>od. (o_id od, o_coid od)) (d_orders (save_order o3 db1)) = map (\<lambda>od. (o_id od, o_coid od)) (d_orders db)"
    unfolding save_order_def using fr
  proof (simp, intro map_update_where)
    fix x
    assume x: "x \<in> set (d_orders db)" "o_id x = o_id o3"
    then have "x = od0" using applied(2,9) assms(2)
      by (auto simp: ids_ok_def distinct_map inj_on_def order_core_def)
    then show "(o_id (o3\<lparr>o_filled := quantize 8 (o_filled o3)\<rparr>), o_coid (o3\<lparr>o_filled := quantize 8 (o_filled o3)\<rparr>)) =
        (o_id x, o_coid x)"
      using applied(9) by (simp add: order_core_def)
  qed
  then show ?thesis
    using fr unfolding applied(6) by (simp add: keeps_keys_def order_keys_def ip save_order_def)
qed simp

lemma ingest_all_frame:
  "ids_ok db \<Longrightarrow> keeps_keys db (ingest_all env evs uid db) \<and> d_placed (ingest_all env evs uid db) = d_placed db \<and>
   d_alerts (ingest_all env evs uid db) = d_alerts db"
proof (induction evs arbitrary: db)
  case (Cons ev evs)
  show ?case
  proof (cases "ingest_fill_event env ev uid db")
    case (Inl e)
    with Cons show ?thesis by simp
  next
    case (Inr dr)
    obtain db1 r where dr: "dr = (db1, r)" by (cases dr)
    note f = ingest_frame [OF Inr [unfolded dr] Cons.prems]
    have "ids_ok db1" using f Cons.prems keeps_keys_ids by blast
    from Cons.IH [OF this] f show ?thesis by (auto simp: Inr dr intro: keeps_keys_trans)
  qed
qed simp

lemma compute_size_pos: "sr_ok (compute_size inp p) \<Longrightarrow> 0 < sr_qty (compute_size inp p)"
  by (auto simp: compute_size_def Let_def sizing_reject_def sizing_accept_def float_str_value_sign split: if_splits)

lemma trigger_halt_next: "d_next d = d_next db \<Longrightarrow> d_next db \<le> d_next (fst (trigger_halt env q d))"
  by (simp add: trigger_halt_def Let_def audit_emit_def create_risk_event_def split: option.splits)

lemma record_sizing_next: "d_next db \<le> d_next (record_sizing env al od symb req e pr r db)"
  by (simp add: record_sizing_def Let_def trigger_halt_next)

lemma apply_sizing_run:
  assumes "apply_sizing env mk en al od ac ad req side symb hint db = (db1, r)"
  shows "keeps_keys db db1 \<and> d_orders db1 = d_orders db \<and> d_placed db1 = d_placed db \<and> d_alerts db1 = d_alerts db \<and>
    (\<forall>s. r = Some s \<and> sr_ok s \<longrightarrow> 0 < sr_qty s \<and> en)"
  using assms
  by (cases rule: apply_sizing_cases [of env mk en al od ac ad req side symb hint db])
    (auto simp: record_sizing_next persist_reject_def Let_def keeps_keys_def order_keys_def compute_size_pos sizing_reject_def)

lemma reject_frame:
  "keeps_keys db (fst (reject_order env i al s db))" "d_placed (fst (reject_order env i al s db)) = d_placed db"
  "keeps_keys db (fst (needs_reconcile_order env i al s db))" "d_placed (fst (needs_reconcile_order env i al s db)) = d_placed db"
  by (simp_all add: reject_order_def needs_reconcile_order_def Let_def keeps_keys_def order_keys_def update_order_def
      map_update_where)

lemma acknowledge_frame:
  "keeps_keys db (fst (acknowledge env al ac i ack db))" "d_placed (fst (acknowledge env al ac i ack db)) = d_placed db"
  by (simp_all add: acknowledge_def acknowledged_def Let_def keeps_keys_def order_keys_def update_order_def map_update_where
      split: option.splits)

lemma submit_frame:
  assumes "ids_ok db"
  shows "keeps_keys db (fst (submit_order env al ac ad i coid req db)) \<and>
    d_placed (fst (submit_order env al ac ad i coid req db)) = d_placed db @ [(coid, req)]"
proof -
  let ?db0 = "db\<lparr>d_placed := d_placed db @ [(coid, req)]\<rparr>"
  let ?db1 = "ingest_all env (ad_events ad req coid) (a_user al) ?db0"
  have "ids_ok ?db0" using assms by (simp add: ids_ok_def)
  from ingest_all_frame [OF this, of env "ad_events ad req coid" "a_user al"]
  have f: "keeps_keys db ?db1" "d_placed ?db1 = d_placed db @ [(coid, req)]"
    by (auto simp: keeps_keys_def order_keys_def)
  then show ?thesis
    using reject_frame [where db = ?db1] acknowledge_frame [where db = ?db1]
    by (auto simp: submit_order_def Let_def split: sum.splits broker_exn.splits intro: keeps_keys_trans)
qed

text \<open>One alert, seen from the broker: nothing is placed, or one order, past every gate.\<close>

definition past_gates :: "platform \<Rightarrow> alert \<Rightarrow> account \<Rightarrow> intent \<Rightarrow> order_request \<Rightarrow> db \<Rightarrow> bool" where
  "past_gates p al ac it req db \<longleftrightarrow>
     a_status al = RECEIVED \<and> gate_alert al db = Inr ac \<and> check_intent p (a_body al) = Inr it \<and>
     (\<exists>ad. pl_build p ac = Inr ad) \<and> (\<exists>q. req = build_req (a_body al) it q \<and> 0 < q \<and>
       (q = alert_qty (a_body al) \<or> pl_sizing p)) \<and>
     first_where (\<lambda>od. o_coid od = client_order_id p al) (d_orders db) = None"

lemma check_intent_qty: "check_intent p b = Inr it \<Longrightarrow> 0 < alert_qty b"
  by (auto simp: check_intent_def split: option.splits if_splits)

lemma size_and_submit_frame:
  assumes ids: "ids_ok db" and it: "check_intent p (a_body al) = Inr it"
  shows "keeps_keys db (fst (size_and_submit env p al ac od it ad db)) \<and>
    (d_placed (fst (size_and_submit env p al ac od it ad db)) = d_placed db \<or>
     (\<exists>q. d_placed (fst (size_and_submit env p al ac od it ad db)) =
        d_placed db @ [(client_order_id p al, build_req (a_body al) it q)] \<and> 0 < q \<and>
        (q = alert_qty (a_body al) \<or> pl_sizing p)))"
proof -
  let ?run = "apply_sizing env (pl_market p) (pl_sizing p) al od ac ad (alert_qty (a_body al))
    (order_side_str (o_side od)) (alert_symbol (a_body al)) (it_limit it) db"
  obtain db1 sized where run: "?run = (db1, sized)" by (cases ?run)
  have k1: "keeps_keys db db1" "d_placed db1 = d_placed db"
    using apply_sizing_run [OF run] by simp_all
  have ids1: "ids_ok db1" using keeps_keys_ids k1(1) ids by blast
  show ?thesis
  proof (cases sized)
    case None
    with submit_frame [OF ids1] k1 run check_intent_qty [OF it] show ?thesis
      by (auto simp: size_and_submit_def Let_def intro: keeps_keys_trans)
  next
    case (Some r)
    show ?thesis
    proof (cases "sr_ok r")
      case False
      with Some run k1 reject_frame [where db = db1] show ?thesis
        by (auto simp: size_and_submit_def Let_def intro: keeps_keys_trans)
    next
      case True
      let ?db2 = "update_order (o_id od) (\<lambda>x. x\<lparr>o_qty := quantize 8 (sr_qty r)\<rparr>) db1"
      have k2: "keeps_keys db1 ?db2" by (rule update_order_keys) simp
      have "ids_ok ?db2" using keeps_keys_ids k2 ids1 by blast
      from submit_frame [OF this] k1 k2 Some True run apply_sizing_run [OF run]
      show ?thesis
        by (auto simp: size_and_submit_def Let_def intro: keeps_keys_trans)
    qed
  qed
qed

lemma process_order_frame:
  assumes ids: "ids_ok db"
  shows "keeps_keys db (fst (process_order env p al ac od db)) \<and>
    (d_placed (fst (process_order env p al ac od db)) = d_placed db \<or>
     (\<exists>it q ad. check_intent p (a_body al) = Inr it \<and> pl_build p ac = Inr ad \<and> 0 < q \<and>
        (q = alert_qty (a_body al) \<or> pl_sizing p) \<and>
        d_placed (fst (process_order env p al ac od db)) =
          d_placed db @ [(client_order_id p al, build_req (a_body al) it q)]))"
proof (cases "check_intent p (a_body al)")
  case (Inl e)
  then show ?thesis using reject_frame [where db = db] by (simp add: process_order_def)
next
  case (Inr it)
  let ?db1 = "update_order (o_id od) (persist_intent it) db"
  have k1: "keeps_keys db ?db1" by (rule update_order_keys) (simp add: persist_intent_def)
  have ids1: "ids_ok ?db1" using keeps_keys_ids k1 ids by blast
  show ?thesis
  proof (cases "pl_build p ac")
    case (Inl e)
    with Inr k1 reject_frame [where db = ?db1] show ?thesis
      by (cases e) (auto simp: process_order_def Let_def intro: keeps_keys_trans)
  next
    case ad: (Inr ad)
    let ?run = "size_and_submit env p al ac (persist_intent it od) it ad ?db1"
    have eq: "process_order env p al ac od db = ?run" using Inr ad by (simp add: process_order_def Let_def)
    from size_and_submit_frame [OF ids1 Inr, of env ac "persist_intent it od" ad] k1 Inr ad show ?thesis
      unfolding eq by (auto intro: keeps_keys_trans)
  qed
qed

lemma new_order_key [simp]: "o_id (new_order env p al ac i) = i" "o_coid (new_order env p al ac i) = client_order_id p al"
  by (simp_all add: new_order_def)

lemma process_alert_cases:
  assumes run: "process_alert env p aid db = (db', r)" and ids: "ids_ok db"
  obtains (same) "keeps_keys db db'" "d_placed db' = d_placed db"
  | (created) al where "order_keys db' = order_keys db @ [(d_next db, client_order_id p al)]"
      "d_next db < d_next db'" "client_order_id p al \<notin> set (map o_coid (d_orders db))"
      "d_placed db' = d_placed db \<or>
       (\<exists>ac it req. d_placed db' = d_placed db @ [(client_order_id p al, req)] \<and> past_gates p al ac it req db)"
      "al \<in> set (d_alerts db)" "a_id al = aid"
proof (cases "\<exists>al ac. first_where (\<lambda>a. a_id a = aid) (d_alerts db) = Some al \<and> a_status al = RECEIVED \<and>
    gate_alert al db = Inr ac \<and> first_where (\<lambda>od. o_coid od = client_order_id p al) (d_orders db) = None")
  case False
  have "keeps_keys db db' \<and> d_placed db' = d_placed db"
    using False run
    by (auto simp: process_alert_def keeps_keys_def order_keys_def split: option.splits sum.splits if_splits)
  then show thesis using same by blast
next
  case True
  then obtain al ac where al: "first_where (\<lambda>a. a_id a = aid) (d_alerts db) = Some al" "a_status al = RECEIVED"
    "gate_alert al db = Inr ac" "first_where (\<lambda>od. o_coid od = client_order_id p al) (d_orders db) = None" by blast
  let ?mem = "new_order env p al ac (d_next db)"
  let ?row = "?mem\<lparr>o_qty := quantize 8 (o_qty ?mem)\<rparr>"
  let ?db2 = "push_to_user (a_user al) ORDER_CREATED (order_to_wire ?mem)
    (db\<lparr>d_orders := d_orders db @ [?row], d_next := d_next db + 1\<rparr>)"
  have eq: "db' = fst (process_order env p al ac ?row ?db2)"
    using al run by (simp add: process_alert_def Let_def)
  have keys: "order_keys ?db2 = order_keys db @ [(d_next db, client_order_id p al)]" "d_next ?db2 = d_next db + 1"
    "d_placed ?db2 = d_placed db"
    by (simp_all add: order_keys_def)
  have "ids_ok ?db2" using ids by (force simp: ids_ok_def)
  note f = process_order_frame [OF this, of env p al ac ?row, folded eq]
  have fresh: "client_order_id p al \<notin> set (map o_coid (d_orders db))"
    using al(4) by (auto simp: first_where_None)
  have mem: "al \<in> set (d_alerts db)" "a_id al = aid" using al(1) by (auto dest: first_where_Some)
  show thesis
  proof (rule created [OF _ _ fresh _ mem])
    show "order_keys db' = order_keys db @ [(d_next db, client_order_id p al)]" "d_next db < d_next db'"
      using f keys by (auto simp: keeps_keys_def)
    show "d_placed db' = d_placed db \<or>
       (\<exists>ac it req. d_placed db' = d_placed db @ [(client_order_id p al, req)] \<and> past_gates p al ac it req db)"
      using f al unfolding keys(3) past_gates_def by blast
  qed
qed

lemma process_alert_placed_ok:
  assumes ok: "placed_ok db"
  shows "placed_ok (fst (process_alert env p aid db))"
proof -
  obtain db' r where run: "process_alert env p aid db = (db', r)" by (cases "process_alert env p aid db")
  have ids: "ids_ok db" using ok by (simp add: placed_ok_def)
  have "placed_ok db'"
    using run ids
  proof (cases rule: process_alert_cases)
    case same
    have "ids_ok db'" by (rule keeps_keys_ids [OF same(1) ids])
    moreover have "order_keys db' = order_keys db" using same(1) by (simp add: keeps_keys_def)
    ultimately show ?thesis using ok same(2) by (simp add: placed_ok_def coids_keys)
  next
    case (created al)
    have "fst k < d_next db" if "k \<in> set (order_keys db)" for k using ids that by (simp add: ids_ok_keys)
    then have "ids_ok db'"
      using ids created(1,2) by (force simp: ids_ok_keys)
    moreover have "client_order_id p al \<notin> set (map fst (d_placed db))"
      using created(3) ok by (auto simp: placed_ok_def)
    moreover have "map fst (d_placed db') = map fst (d_placed db) \<or>
        map fst (d_placed db') = map fst (d_placed db) @ [client_order_id p al]"
      using created(4) by auto
    moreover have "set (map fst (d_placed db)) \<subseteq> set (map snd (order_keys db))"
      using ok by (simp add: placed_ok_def coids_keys)
    ultimately show ?thesis
      using created(1) ok unfolding placed_ok_def coids_keys by (elim disjE) auto
  qed
  then show ?thesis by (simp add: run)
qed

subsection \<open>Properties of alert processing\<close>

lemma process_alerts_placed_ok: "placed_ok db \<Longrightarrow> placed_ok (process_alerts env p ids db)"
  by (induction ids arbitrary: db) (simp_all add: process_alert_placed_ok)

text \<open>
  C9. No order is placed twice. However often and in whatever order alerts are processed
  (redelivered tasks, redispatched alerts, several alerts with one idempotency key, and even
  colliding digests), the client order ids of the orders placed at brokers are pairwise
  different, and each has its row.
\<close>

theorem never_placed_twice:
  assumes "placed_ok db"
  shows "distinct (map fst (d_placed (process_alerts env p ids db))) \<and>
    set (map fst (d_placed (process_alerts env p ids db))) \<subseteq>
      set (map o_coid (d_orders (process_alerts env p ids db)))"
  using process_alerts_placed_ok [OF assms] by (simp add: placed_ok_def)

definition sample_body :: body where
  "sample_body = [(''action'', JStr ''buy''), (''symbol'', JStr ''MSFT''), (''qty'', JInt 5)]"

definition sample_alert_row :: alert where
  "sample_alert_row = sample_alert\<lparr>a_body := sample_body\<rparr>"

definition sample_platform :: platform where
  "sample_platform = \<lparr>pl_sha = (\<lambda>s. s), pl_date_ok = (\<lambda>s. True), pl_build = (\<lambda>a. Inr sample_adapter),
     pl_sizing = False, pl_market = sample_market\<rparr>"

definition alert_db :: db where
  "alert_db = sample_db\<lparr>d_alerts := [sample_alert_row], d_orders := []\<rparr>"

lemma alert_db_ok: "placed_ok alert_db"
  by (simp add: alert_db_def sample_defs placed_ok_def ids_ok_def)

theorem never_placed_twice_witness:
  "distinct (map fst (d_placed (process_alerts sample_env sample_platform [21, 21, 21] alert_db)))"
  by (rule never_placed_twice [OF alert_db_ok, THEN conjunct1])

lemma gate_alert_Inr:
  assumes "gate_alert al db = Inr ac"
  shows "\<not> strategy_off (a_strategy al) db \<and> is_blocked db (a_user al) (Some (a_strategy al)) = None \<and>
    ac \<in> set (d_accounts db) \<and> b_user ac = a_user al"
  using assms
  by (auto simp: gate_alert_def Let_def default_account_def named_account_def split: if_splits option.splits
      dest!: first_where_Some)

text \<open>
  C10. Nothing is placed past a gate. If processing an alert places an order, the alert was
  waiting, its strategy enabled, its user and strategy not halted, the account one of the
  user's, no order had the client order id, and the order carries the alert's symbol and
  side and a positive quantity, which is the alert's own unless sizing is on.
\<close>

theorem placed_only_past_gates:
  assumes run: "process_alert env p aid db = (db', r)" and ids: "ids_ok db" and placed: "d_placed db' \<noteq> d_placed db"
  shows "\<exists>al ac req. al \<in> set (d_alerts db) \<and> a_id al = aid \<and> a_status al = RECEIVED \<and>
    \<not> strategy_off (a_strategy al) db \<and> is_blocked db (a_user al) (Some (a_strategy al)) = None \<and>
    ac \<in> set (d_accounts db) \<and> b_user ac = a_user al \<and>
    client_order_id p al \<notin> set (map o_coid (d_orders db)) \<and>
    d_placed db' = d_placed db @ [(client_order_id p al, req)] \<and>
    rq_symbol req = alert_symbol (a_body al) \<and> alert_side (alert_action (a_body al)) = Some (rq_side req) \<and>
    0 < rq_qty req \<and> (pl_sizing p \<or> rq_qty req = alert_qty (a_body al))"
  using run ids
proof (cases rule: process_alert_cases)
  case same
  with placed show ?thesis by simp
next
  case (created al)
  then obtain ac it req where pg: "past_gates p al ac it req db"
    "d_placed db' = d_placed db @ [(client_order_id p al, req)]"
    using placed by blast
  have it: "check_intent p (a_body al) = Inr it" using pg(1) by (simp add: past_gates_def)
  then have "alert_side (alert_action (a_body al)) = Some (it_side it)"
    by (auto simp: check_intent_def split: option.splits if_splits sum.splits)
  moreover have "ac \<in> set (d_accounts db) \<and> b_user ac = a_user al \<and> \<not> strategy_off (a_strategy al) db \<and>
      is_blocked db (a_user al) (Some (a_strategy al)) = None"
    using gate_alert_Inr [of al db ac] pg(1) by (simp add: past_gates_def)
  ultimately show ?thesis
    using created(3,5,6) pg by (auto simp: past_gates_def build_req_def intro!: exI [of _ al] exI [of _ ac] exI [of _ req])
qed

lemma sample_intent:
  "check_intent sample_platform sample_body = Inr \<lparr>it_side = Buy, it_type = MKT, it_limit = None, it_stop = None,
     it_tif = DAY, it_class = STOCK, it_option = None, it_future = None\<rparr>"
  by code_simp

lemma sample_gate: "gate_alert sample_alert_row alert_db = Inr sample_account"
  by code_simp

lemma sample_coid: "client_order_id sample_platform sample_alert_row = ''stp-21''"
  by code_simp

lemma sample_process:
  "d_placed (fst (process_alert sample_env sample_platform 21 alert_db)) \<noteq> d_placed alert_db \<and>
   (\<exists>b. snd (process_alert sample_env sample_platform 21 alert_db) = OrderPlaced 100 SUBMITTED b)"
proof -
  have row: "first_where (\<lambda>a. a_id a = 21) (d_alerts alert_db) = Some sample_alert_row" "a_status sample_alert_row = RECEIVED"
    "first_where (\<lambda>od. o_coid od = ''stp-21'') (d_orders alert_db) = None" "a_body sample_alert_row = sample_body"
    "a_user sample_alert_row = 7" "a_id sample_alert_row = 21"
    by (simp_all add: alert_db_def sample_alert_row_def sample_alert_def first_where_Cons)
  have pl: "pl_sizing sample_platform = False" "pl_build sample_platform sample_account = Inr sample_adapter"
    "ad_events sample_adapter q c = []"
    "ad_place sample_adapter q c = Inr \<lparr>ak_coid = c, ak_boid = ''b-1'', ak_status = SUBMITTED, ak_symbol = rq_symbol q,
       ak_qty = rq_qty q, ak_filled = 0, ak_submitted = None\<rparr>" for q c
    by (simp_all add: sample_platform_def sample_adapter_def)
  have "d_orders alert_db = []" "d_next alert_db = 100" "d_placed alert_db = []"
    by (simp_all add: alert_db_def sample_defs)
  note st = this
  show ?thesis
    by (simp add: process_alert_def row sample_gate sample_coid process_order_def sample_intent Let_def
        pl st size_and_submit_def apply_sizing_def submit_order_def
        acknowledge_def acknowledged_def push_order_def update_order_def new_order_def
        persist_intent_def table_simps finish_alert_def push_to_user_def audit_emit_def)
qed

theorem placed_only_past_gates_witness:
  "\<exists>req. d_placed (fst (process_alert sample_env sample_platform 21 alert_db)) = [(''stp-21'', req)] \<and> rq_symbol req = ''MSFT''"
proof -
  obtain db' r where run: "process_alert sample_env sample_platform 21 alert_db = (db', r)"
    by (cases "process_alert sample_env sample_platform 21 alert_db")
  have ids: "ids_ok alert_db" using alert_db_ok by (simp add: placed_ok_def)
  have new: "d_placed db' \<noteq> d_placed alert_db" using sample_process run by simp
  obtain al req where al: "al \<in> set (d_alerts alert_db)"
    "d_placed db' = d_placed alert_db @ [(client_order_id sample_platform al, req)]"
    "rq_symbol req = alert_symbol (a_body al)"
    using placed_only_past_gates [OF run ids new] by blast
  then have "al = sample_alert_row" by (simp add: alert_db_def)
  moreover have "alert_symbol (a_body sample_alert_row) = ''MSFT''" by code_simp
  moreover have "d_placed alert_db = []" by (simp add: alert_db_def sample_defs)
  ultimately show ?thesis using al run by (simp add: sample_coid)
qed

definition order_state :: "nat \<Rightarrow> db \<Rightarrow> order_status option" where
  "order_state i db = map_option o_status (first_where (\<lambda>od. o_id od = i) (d_orders db))"

definition alert_state :: "nat \<Rightarrow> db \<Rightarrow> alert_status option" where
  "alert_state i db = map_option a_status (first_where (\<lambda>a. a_id a = i) (d_alerts db))"

lemma order_state_update:
  assumes "\<And>od. o_id (f od) = o_id od"
  shows "order_state i (update_order i f db) =
    map_option (\<lambda>od. o_status (f od)) (first_where (\<lambda>od. o_id od = i) (d_orders db))"
proof -
  have "first_where (\<lambda>od. o_id od = i) (update_where (\<lambda>od. o_id od = i) f (d_orders db)) =
      map_option (\<lambda>x. if o_id x = i then f x else x) (first_where (\<lambda>od. o_id od = i) (d_orders db))"
    by (rule first_where_update_where) (simp add: assms)
  then show ?thesis
    by (cases "first_where (\<lambda>od. o_id od = i) (d_orders db)")
      (auto simp: order_state_def update_order_def dest: first_where_Some)
qed

lemma order_state_frame: "d_orders db' = d_orders db \<Longrightarrow> order_state i db' = order_state i db"
  by (simp add: order_state_def)

lemma alert_state_frame: "d_alerts db' = d_alerts db \<Longrightarrow> alert_state i db' = alert_state i db"
  by (simp add: alert_state_def)

lemma order_state_push: "order_state i (push_order u ty j db) = order_state i db"
  by (simp add: order_state_def)

lemma order_state_advance:
  assumes "order_state i db = Some st"
  shows "order_state i (update_order i (\<lambda>od. if o_status od = PENDING_SUBMIT then od\<lparr>o_status := SUBMITTED\<rparr> else od) db) =
    Some (if st = PENDING_SUBMIT then SUBMITTED else st)"
proof -
  obtain od where od: "first_where (\<lambda>od. o_id od = i) (d_orders db) = Some od" "o_status od = st"
    using assms by (auto simp: order_state_def)
  have "order_state i (update_order i (\<lambda>od. if o_status od = PENDING_SUBMIT then od\<lparr>o_status := SUBMITTED\<rparr> else od) db) =
    map_option (\<lambda>od. o_status (if o_status od = PENDING_SUBMIT then od\<lparr>o_status := SUBMITTED\<rparr> else od))
      (first_where (\<lambda>od. o_id od = i) (d_orders db))"
    by (rule order_state_update) simp
  with od show ?thesis by simp
qed

lemma alert_state_finish: "alert_state i (finish_alert env i st r db) = map_option (\<lambda>_. st) (alert_state i db)"
proof -
  let ?f = "\<lambda>a. (case r of None \<Rightarrow> a | Some s \<Rightarrow> a\<lparr>a_reason := s\<rparr>)\<lparr>a_status := st, a_processed := Some (e_now env)\<rparr>"
  have "first_where (\<lambda>a. a_id a = i) (update_where (\<lambda>a. a_id a = i) ?f (d_alerts db)) =
      map_option (\<lambda>x. if a_id x = i then ?f x else x) (first_where (\<lambda>a. a_id a = i) (d_alerts db))"
    by (rule first_where_update_where) (simp split: option.splits)
  then show ?thesis
    by (cases "first_where (\<lambda>a. a_id a = i) (d_alerts db)")
      (auto simp: alert_state_def finish_alert_def dest: first_where_Some)
qed

lemma reject_states:
  "order_state i (fst (reject_order env i al s db)) = map_option (\<lambda>_. REJECTED) (order_state i db)"
  "alert_state (a_id al) (fst (reject_order env i al s db)) = map_option (\<lambda>_. ALERT_REJECTED) (alert_state (a_id al) db)"
  "order_state i (fst (needs_reconcile_order env i al s db)) = map_option (\<lambda>_. NEEDS_RECONCILE) (order_state i db)"
  "alert_state (a_id al) (fst (needs_reconcile_order env i al s db)) = map_option (\<lambda>_. ACCEPTED) (alert_state (a_id al) db)"
proof -
  let ?r = "update_order i (\<lambda>od. od\<lparr>o_status := REJECTED, o_reason := take 64 s\<rparr>) db"
  let ?n = "update_order i (\<lambda>od. od\<lparr>o_status := NEEDS_RECONCILE, o_reason := take 64 s\<rparr>) db"
  have "order_state i ?r = map_option (\<lambda>_. REJECTED) (order_state i db)"
    "order_state i ?n = map_option (\<lambda>_. NEEDS_RECONCILE) (order_state i db)"
    by (simp_all add: order_state_update) (simp_all add: order_state_def option.map_comp comp_def)
  then show
    "order_state i (fst (reject_order env i al s db)) = map_option (\<lambda>_. REJECTED) (order_state i db)"
    "order_state i (fst (needs_reconcile_order env i al s db)) = map_option (\<lambda>_. NEEDS_RECONCILE) (order_state i db)"
    by (simp_all add: reject_order_def needs_reconcile_order_def Let_def order_state_def)
  show "alert_state (a_id al) (fst (reject_order env i al s db)) = map_option (\<lambda>_. ALERT_REJECTED) (alert_state (a_id al) db)"
    "alert_state (a_id al) (fst (needs_reconcile_order env i al s db)) = map_option (\<lambda>_. ACCEPTED) (alert_state (a_id al) db)"
    by (simp_all add: reject_order_def needs_reconcile_order_def Let_def alert_state_finish)
      (simp_all add: alert_state_def)
qed

lemma acknowledge_states:
  assumes "order_state i db = Some st"
  shows "order_state i (fst (acknowledge env al ac i ack db)) = Some (if st = PENDING_SUBMIT then SUBMITTED else st)"
    and "alert_state (a_id al) (fst (acknowledge env al ac i ack db)) = map_option (\<lambda>_. ACCEPTED) (alert_state (a_id al) db)"
    and "\<exists>b. snd (acknowledge env al ac i ack db) = OrderPlaced i (if st = PENDING_SUBMIT then SUBMITTED else st) b"
proof -
  let ?db1 = "if ak_boid ack \<noteq> [] then update_order i (\<lambda>od. od\<lparr>o_boid := ak_boid ack\<rparr>) db else db"
  let ?st = "if st = PENDING_SUBMIT then SUBMITTED else st"
  have "order_state i ?db1 = Some st"
    using assms by (simp add: order_state_update) (simp add: order_state_def)
  then have st3: "order_state i (acknowledged al i ack db) = Some ?st"
    unfolding acknowledged_def Let_def order_state_push
    by (rule order_state_advance)
  then obtain od where od: "first_where (\<lambda>od. o_id od = i) (d_orders (acknowledged al i ack db)) = Some od"
    "o_status od = ?st"
    by (auto simp: order_state_def)
  have al: "d_alerts (acknowledged al i ack db) = d_alerts db"
    by (simp add: acknowledged_def Let_def)
  have ack: "acknowledge env al ac i ack db =
      (finish_alert env (a_id al) ACCEPTED None (audit_emit (submitted_call al ac od) (acknowledged al i ack db)),
       OrderPlaced i (o_status od) (o_boid od))"
    by (simp add: acknowledge_def od(1) del: if_split)
  show "order_state i (fst (acknowledge env al ac i ack db)) = Some ?st"
    unfolding ack using st3 by (simp add: order_state_def del: if_split)
  show "alert_state (a_id al) (fst (acknowledge env al ac i ack db)) = map_option (\<lambda>_. ACCEPTED) (alert_state (a_id al) db)"
    unfolding ack using al by (simp add: alert_state_finish) (simp add: alert_state_def)
  show "\<exists>b. snd (acknowledge env al ac i ack db) = OrderPlaced i ?st b"
    unfolding ack using od(2) by simp
qed

lemma keeps_keys_order_state: "keeps_keys db db' \<Longrightarrow> order_state i db \<noteq> None \<Longrightarrow> order_state i db' \<noteq> None"
proof -
  assume k: "keeps_keys db db'" and s: "order_state i db \<noteq> None"
  have "order_state i d \<noteq> None \<longleftrightarrow> i \<in> fst ` set (order_keys d)" for d
    by (force simp: order_state_def order_keys_def first_where_None)
  with k s show ?thesis by (simp add: keeps_keys_def)
qed

text \<open>
  C11. How a submit is recorded. A refusal by the broker rejects the order; a failure that may
  have reached the broker (retryable, or not understood) never does, it waits for
  reconciliation with the alert accepted; an acknowledgement advances a pending order to
  SUBMITTED and never moves one that fills have already advanced while the call was in
  flight. In every case the alert is settled.
\<close>

theorem submit_outcomes:
  assumes run: "submit_order env al ac ad i coid req db = (db', r)" and ids: "ids_ok db"
    and st: "order_state i (ingest_all env (ad_events ad req coid) (a_user al)
      (db\<lparr>d_placed := d_placed db @ [(coid, req)]\<rparr>)) = Some st"
  shows "(case ad_place ad req coid of
      Inl (BrokerError code retryable) \<Rightarrow> order_state i db' = Some (if retryable then NEEDS_RECONCILE else REJECTED)
    | Inl OtherExn \<Rightarrow> order_state i db' = Some NEEDS_RECONCILE
    | Inr ack \<Rightarrow> order_state i db' = Some (if st = PENDING_SUBMIT then SUBMITTED else st)) \<and>
    alert_state (a_id al) db' \<noteq> Some RECEIVED"
proof -
  let ?db0 = "db\<lparr>d_placed := d_placed db @ [(coid, req)]\<rparr>"
  let ?db1 = "ingest_all env (ad_events ad req coid) (a_user al) ?db0"
  have ne: "map_option (\<lambda>_. x) y \<noteq> Some RECEIVED" if "x \<noteq> RECEIVED" for x :: alert_status and y :: "alert_status option"
    using that by (cases y) auto
  have eq: "submit_order env al ac ad i coid req db = (case ad_place ad req coid of
      Inl (BrokerError code retryable) \<Rightarrow>
        if retryable then needs_reconcile_order env i al code ?db1 else reject_order env i al code ?db1
    | Inl OtherExn \<Rightarrow> needs_reconcile_order env i al ''BROKER_UNKNOWN_ERROR'' ?db1
    | Inr ack \<Rightarrow> acknowledge env al ac i ack ?db1)"
    by (simp add: submit_order_def Let_def)
  show ?thesis
  proof (cases "ad_place ad req coid")
    case (Inl e)
    show ?thesis
    proof (cases e)
      case (BrokerError code ret)
      have "db' = fst (if ret then needs_reconcile_order env i al code ?db1 else reject_order env i al code ?db1)"
        using run unfolding eq Inl BrokerError by simp
      then show ?thesis using Inl BrokerError st ne reject_states [where i = i and db = ?db1] by simp
    next
      case OtherExn
      have "db' = fst (needs_reconcile_order env i al ''BROKER_UNKNOWN_ERROR'' ?db1)"
        using run unfolding eq Inl OtherExn by simp
      then show ?thesis using Inl OtherExn st ne reject_states [where i = i and db = ?db1] by simp
    qed
  next
    case (Inr ack)
    have "db' = fst (acknowledge env al ac i ack ?db1)" using run unfolding eq Inr by simp
    then show ?thesis using Inr ne acknowledge_states [OF st] by simp
  qed
qed

theorem submit_outcomes_witness:
  "order_state 11 (fst (submit_order sample_env sample_alert sample_account
     (sample_adapter\<lparr>ad_place := (\<lambda>r c. Inl (BrokerError ''BROKER_UNAVAILABLE'' True))\<rparr>) 11 ''stp-21''
     (build_req sample_body \<lparr>it_side = Buy, it_type = MKT, it_limit = None, it_stop = None,
     it_tif = DAY, it_class = STOCK, it_option = None, it_future = None\<rparr> 5) sample_db)) = Some NEEDS_RECONCILE"
proof -
  let ?ad = "sample_adapter\<lparr>ad_place := (\<lambda>r c. Inl (BrokerError ''BROKER_UNAVAILABLE'' True))\<rparr>"
  let ?req = "build_req sample_body \<lparr>it_side = Buy, it_type = MKT, it_limit = None, it_stop = None,
     it_tif = DAY, it_class = STOCK, it_option = None, it_future = None\<rparr> 5"
  obtain db' r where run: "submit_order sample_env sample_alert sample_account ?ad 11 ''stp-21'' ?req sample_db = (db', r)"
    by (cases "submit_order sample_env sample_alert sample_account ?ad 11 ''stp-21'' ?req sample_db")
  have ids: "ids_ok sample_db" by (simp add: ids_ok_def sample_defs)
  have st: "order_state 11 (ingest_all sample_env (ad_events ?ad ?req ''stp-21'') (a_user sample_alert)
      (sample_db\<lparr>d_placed := d_placed sample_db @ [(''stp-21'', ?req)]\<rparr>)) = Some SUBMITTED"
    by (simp add: sample_adapter_def order_state_def sample_defs first_where_Cons)
  from submit_outcomes [OF run ids st] show ?thesis by (simp add: run)
qed

text \<open>
  A duplicate alert stays waiting. An alert whose client order id already has an order
  (a crash after the row was written, before the submit) is left as it is by every
  processing, so the redispatch task hands it out again on every run and its order, if it
  was still pending, is never submitted.
\<close>

theorem duplicate_alert_never_settles:
  assumes al: "first_where (\<lambda>a. a_id a = aid) (d_alerts db) = Some al" "a_status al = RECEIVED"
    and gate: "gate_alert al db = Inr ac"
    and dup: "first_where (\<lambda>od. o_coid od = client_order_id p al) (d_orders db) = Some od"
    and old: "a_received al < e_now env - seconds 120"
  shows "process_alerts env p (replicate n aid) db = db \<and>
    aid \<in> set (drop (length (d_tasks db)) (d_tasks (fst (redispatch_stranded_alerts env 120 (process_alerts env p (replicate n aid) db)))))"
proof -
  have "fst (process_alert env p aid db) = db" using al gate dup by (simp add: process_alert_def)
  then have same: "process_alerts env p (replicate n aid) db = db" by (induction n) simp_all
  have "al \<in> set (d_alerts db)" "a_id al = aid" using al(1) by (auto dest: first_where_Some)
  with al(2) old show ?thesis
    by (auto simp: same redispatch_stranded_alerts_def Let_def image_iff intro!: bexI [of _ al])
qed

theorem duplicate_alert_never_settles_witness:
  "21 \<in> set (d_tasks (fst (redispatch_stranded_alerts (sample_env\<lparr>e_now := 200000000\<rparr>) 120
      (process_alerts (sample_env\<lparr>e_now := 200000000\<rparr>) sample_platform (replicate 3 21)
        (alert_db\<lparr>d_orders := [sample_order\<lparr>o_status := PENDING_SUBMIT\<rparr>]\<rparr>)))))"
proof -
  let ?db = "alert_db\<lparr>d_orders := [sample_order\<lparr>o_status := PENDING_SUBMIT\<rparr>]\<rparr>"
  have al: "first_where (\<lambda>a. a_id a = 21) (d_alerts ?db) = Some sample_alert_row" "a_status sample_alert_row = RECEIVED"
    by (simp_all add: alert_db_def sample_alert_row_def sample_alert_def first_where_Cons)
  have gate: "gate_alert sample_alert_row ?db = Inr sample_account" by code_simp
  have dup: "first_where (\<lambda>od. o_coid od = client_order_id sample_platform sample_alert_row) (d_orders ?db) =
      Some (sample_order\<lparr>o_status := PENDING_SUBMIT\<rparr>)"
    by (simp add: sample_coid first_where_Cons sample_order_def)
  have old: "a_received sample_alert_row < e_now (sample_env\<lparr>e_now := 200000000\<rparr>) - seconds 120"
    by (simp add: sample_alert_row_def sample_alert_def seconds_def)
  have "d_tasks ?db = []" by (simp add: alert_db_def sample_defs)
  with duplicate_alert_never_settles [OF al gate dup old, of 3, THEN conjunct2] show ?thesis
    by (simp only: list.size drop_0)
qed

end
