(* ===== verification/Webhook_Ingest.thy ===== *)
theory Webhook_Ingest
  imports Process_Alert
begin

text \<open>
  The public webhook (\<open>webhooks/views.py\<close>): client address, rate limits, the ordered checks of
  a request, the idempotency anchor and the hand-over to the worker. The settings, the JSON
  decoder, the JSON-Schema validator and the SHA-256 digest are fields of \<open>webhook_env\<close>; a
  configuration row holds the decrypted secret. The lemmas show that alert rows are unique per
  user and idempotency key, which requests are accepted, and that requests without the secret
  leave authenticated ones their budget.
\<close>

record webhook_env =
  we_enabled :: bool
  we_allowlist :: "string list"
  we_proxies :: int
  we_max_bytes :: nat
  we_rate_limit :: int
  we_idem_ttl :: int
  we_loads :: "string \<Rightarrow> json option"
  we_valid :: "body \<Rightarrow> json \<Rightarrow> bool"
  we_sha :: "string \<Rightarrow> string"

record http_request =
  hq_user :: nat
  hq_strategy :: nat
  hq_content_type :: string
  hq_body :: string
  hq_forwarded :: string
  hq_remote :: string

datatype webhook_response =
    WebhookError string nat
  | WebhookDuplicate
  | WebhookRejected string
  | WebhookAccepted nat

subsection \<open>The checks\<close>

definition client_ip :: "webhook_env \<Rightarrow> http_request \<Rightarrow> string" where
  "client_ip we r =
     (let n = we_proxies we;
          parts = filter (\<lambda>p. p \<noteq> []) (map py_strip (py_split CHR '','' (hq_forwarded r)))
      in if 0 < n \<and> n \<le> int (length parts) then parts ! (length parts - nat n) else hq_remote r)"

definition rate_key :: "env \<Rightarrow> string \<Rightarrow> nat \<Rightarrow> string" where
  "rate_key env kind uid = ''wh:rl:'' @ kind @ '':'' @ nat_str uid @ '':'' @ int_str (e_now env div seconds 60)"

definition rate_limited :: "env \<Rightarrow> webhook_env \<Rightarrow> nat \<Rightarrow> string \<Rightarrow> db \<Rightarrow> bool \<times> db" where
  "rate_limited env we uid kind db =
     (if we_rate_limit we \<le> 0 then (False, db)
      else let (n, c) = bump (d_cache db) (e_now env) (rate_key env kind uid) 90
           in (we_rate_limit we < n, db\<lparr>d_cache := c\<rparr>))"

definition media_type :: "http_request \<Rightarrow> string" where
  "media_type r = py_lower (py_strip (hd (py_split CHR '';'' (hq_content_type r))))"

definition parse_body :: "webhook_env \<Rightarrow> http_request \<Rightarrow> body option" where
  "parse_body we r = (case we_loads we (hq_body r) of Some (JObj d) \<Rightarrow> Some d | _ \<Rightarrow> None)"

text \<open>The checks before any database access: the error they answer, or the decoded body.\<close>

definition precheck :: "webhook_env \<Rightarrow> http_request \<Rightarrow> webhook_response + body" where
  "precheck we r =
     (if \<not> we_enabled we then Inl (WebhookError ''FEATURE_DISABLED'' 503)
      else if we_allowlist we \<noteq> [] \<and> client_ip we r \<notin> set (we_allowlist we)
      then Inl (WebhookError ''WEBHOOK_SIG_BAD'' 401)
      else if media_type r \<noteq> ''application/json'' then Inl (WebhookError ''WEBHOOK_UNSUPPORTED_MEDIA_TYPE'' 415)
      else if we_max_bytes we < length (hq_body r) then Inl (WebhookError ''WEBHOOK_PAYLOAD_TOO_LARGE'' 413)
      else case parse_body we r of
             None \<Rightarrow> Inl (WebhookError ''WEBHOOK_INVALID_JSON'' 400)
           | Some b \<Rightarrow> Inr b)"

definition without_sig :: "body \<Rightarrow> body" where
  "without_sig b = filter (\<lambda>(k, v). k \<noteq> ''sig'') b"

definition webhook_config_of :: "http_request \<Rightarrow> db \<Rightarrow> webhook_config option" where
  "webhook_config_of r db = first_where (\<lambda>w. w_user w = hq_user r \<and> w_strategy w = hq_strategy r) (d_configs db)"

text \<open>Both operands of the constant-time comparison are strings; equality is all it computes.\<close>

definition sig_ok :: "body \<Rightarrow> webhook_config \<Rightarrow> bool" where
  "sig_ok b wc \<longleftrightarrow> dict_get ''sig'' b = Some (JStr (w_secret wc))"

definition new_alert :: "env \<Rightarrow> webhook_config \<Rightarrow> body \<Rightarrow> string \<Rightarrow> alert_status \<Rightarrow> string \<Rightarrow> nat \<Rightarrow> alert" where
  "new_alert env wc b idem st reason i =
     \<lparr>a_id = i, a_user = w_user wc, a_strategy = w_strategy wc, a_body = b, a_idem = idem, a_status = st,
      a_reason = reason, a_received = e_now env, a_processed = None\<rparr>"

definition create_alert :: "alert \<Rightarrow> db \<Rightarrow> db" where
  "create_alert a db = db\<lparr>d_alerts := d_alerts db @ [a], d_next := d_next db + 1\<rparr>"

definition idem_of :: "body \<Rightarrow> string" where
  "idem_of b = take 128 (body_str ''idempotency_key'' [] b)"

definition idem_cache_key :: "webhook_env \<Rightarrow> http_request \<Rightarrow> string \<Rightarrow> string" where
  "idem_cache_key we r idem = ''idem:'' @ nat_str (hq_user r) @ '':'' @ we_sha we idem"

text \<open>The partial unique constraint on the user and a non-empty key.\<close>

definition anchor_taken :: "nat \<Rightarrow> string \<Rightarrow> db \<Rightarrow> bool" where
  "anchor_taken uid idem db \<longleftrightarrow> idem \<noteq> [] \<and> exists_where (\<lambda>a. a_user a = uid \<and> a_idem a = idem) (d_alerts db)"

definition cached_duplicate :: "env \<Rightarrow> webhook_env \<Rightarrow> http_request \<Rightarrow> nat \<Rightarrow> string \<Rightarrow> db \<Rightarrow> bool" where
  "cached_duplicate env we r uid idem db \<longleftrightarrow>
     idem \<noteq> [] \<and> cache_get (d_cache db) (e_now env) (idem_cache_key we r idem) \<notin> {None, Some 0} \<and>
     exists_where (\<lambda>a. a_user a = uid \<and> a_idem a = idem) (d_alerts db)"

definition remember_key :: "env \<Rightarrow> webhook_env \<Rightarrow> http_request \<Rightarrow> string \<Rightarrow> db \<Rightarrow> db" where
  "remember_key env we r idem db =
     (if idem = [] then db
      else db\<lparr>d_cache := cache_set (d_cache db) (e_now env) (idem_cache_key we r idem) 1 (we_idem_ttl we)\<rparr>)"

subsection \<open>The handler\<close>

text \<open>An authenticated and valid alert: anchor, gates, hand-over.\<close>

definition accept_alert ::
  "env \<Rightarrow> webhook_env \<Rightarrow> http_request \<Rightarrow> webhook_config \<Rightarrow> body \<Rightarrow> db \<Rightarrow> db \<times> webhook_response" where
  "accept_alert env we r wc b db =
     (let idem = idem_of b
      in if cached_duplicate env we r (w_user wc) idem db then (db, WebhookDuplicate)
         else if anchor_taken (w_user wc) idem db then (db, WebhookDuplicate)
         else
           let i = d_next db;
               db1 = create_alert (new_alert env wc b idem RECEIVED [] i) db;
               reason = (if strategy_off (w_strategy wc) db1 then Some ''STRATEGY_DISABLED''
                         else is_blocked db1 (w_user wc) (Some (w_strategy wc)))
           in case reason of
                Some why \<Rightarrow>
                  (remember_key env we r idem
                     (db1\<lparr>d_alerts := update_where (\<lambda>a. a_id a = i)
                        (\<lambda>a. a\<lparr>a_status := ALERT_REJECTED, a_reason := why\<rparr>) (d_alerts db1)\<rparr>),
                   WebhookRejected why)
              | None \<Rightarrow>
                  (remember_key env we r idem (db1\<lparr>d_tasks := d_tasks db1 @ [i]\<rparr>), WebhookAccepted i))"

definition webhook_post :: "env \<Rightarrow> webhook_env \<Rightarrow> http_request \<Rightarrow> db \<Rightarrow> db \<times> webhook_response" where
  "webhook_post env we r db =
     (case precheck we r of
        Inl err \<Rightarrow> (db, err)
      | Inr body \<Rightarrow>
          (case webhook_config_of r db of
             None \<Rightarrow> (db, WebhookError ''WEBHOOK_SIG_BAD'' 401)
           | Some wc \<Rightarrow>
               let b = without_sig body
               in if \<not> sig_ok body wc then
                    (let (over, db1) = rate_limited env we (hq_user r) ''bad'' db
                     in if over then (db1, WebhookError ''RATE_LIMITED'' 429)
                        else (create_alert (new_alert env wc b [] ALERT_REJECTED ''SIG_BAD'' (d_next db1)) db1,
                              WebhookError ''WEBHOOK_SIG_BAD'' 401))
                  else
                    (let (over, db1) = rate_limited env we (w_user wc) ''ok'' db
                     in if over then (db1, WebhookError ''RATE_LIMITED'' 429)
                        else if py_truthy (w_schema wc) \<and> \<not> we_valid we b (w_schema wc) then
                          (create_alert (new_alert env wc b [] INVALID ''SCHEMA_INVALID'' (d_next db1)) db1,
                           WebhookError ''WEBHOOK_SCHEMA_INVALID'' 400)
                        else accept_alert env we r wc b db1)))"

fun webhook_posts :: "webhook_env \<Rightarrow> (env \<times> http_request) list \<Rightarrow> db \<Rightarrow> db" where
  "webhook_posts we [] db = db"
| "webhook_posts we ((env, r) # rs) db = webhook_posts we rs (fst (webhook_post env we r db))"

subsection \<open>Anchors\<close>

text \<open>Alert ids are keys below the next one, and a non-empty idempotency key is used once per user.\<close>

definition alert_anchors :: "alert list \<Rightarrow> (nat \<times> string) list" where
  "alert_anchors as = map (\<lambda>a. (a_user a, a_idem a)) (filter (\<lambda>a. a_idem a \<noteq> []) as)"

definition alerts_ok :: "db \<Rightarrow> bool" where
  "alerts_ok db \<longleftrightarrow> distinct (map a_id (d_alerts db)) \<and> (\<forall>a\<in>set (d_alerts db). a_id a < d_next db) \<and>
     distinct (alert_anchors (d_alerts db))"

lemma anchor_taken_iff: "anchor_taken uid idem db \<longleftrightarrow> (uid, idem) \<in> set (alert_anchors (d_alerts db))"
  by (auto simp: anchor_taken_def exists_where_iff alert_anchors_def)

lemma alerts_ok_create:
  assumes "alerts_ok db" "a_id a = d_next db" "\<not> anchor_taken (a_user a) (a_idem a) db"
  shows "alerts_ok (create_alert a db)"
  using assms
  by (auto simp: alerts_ok_def create_alert_def anchor_taken_iff alert_anchors_def less_Suc_eq)

lemma alert_anchors_update:
  fixes f :: "alert \<Rightarrow> alert"
  assumes keep: "\<And>a. a_id (f a) = a_id a" "\<And>a. a_user (f a) = a_user a" "\<And>a. a_idem (f a) = a_idem a"
  shows "alert_anchors (update_where p f as) = alert_anchors as" "map a_id (update_where p f as) = map a_id as"
proof -
  show "alert_anchors (update_where p f as) = alert_anchors as"
    by (induction as) (simp_all add: alert_anchors_def update_where_Cons keep)
  show "map a_id (update_where p f as) = map a_id as"
    by (induction as) (simp_all add: update_where_Cons keep)
qed

lemma alerts_ok_frame:
  assumes "alerts_ok db" "map a_id (d_alerts db') = map a_id (d_alerts db)"
    "alert_anchors (d_alerts db') = alert_anchors (d_alerts db)" "d_next db \<le> d_next db'"
  shows "alerts_ok db'"
proof -
  have "\<forall>i\<in>set (map a_id (d_alerts db')). i < d_next db"
    unfolding assms(2) using assms(1) by (simp add: alerts_ok_def)
  then have "\<forall>a\<in>set (d_alerts db'). a_id a < d_next db'"
    using assms(4) by (auto intro: order.strict_trans2)
  then show ?thesis using assms by (simp add: alerts_ok_def)
qed

lemma rate_limited_frame:
  "snd (rate_limited env we uid kind db) = db\<lparr>d_cache := d_cache (snd (rate_limited env we uid kind db))\<rparr>"
  by (simp add: rate_limited_def Let_def case_prod_beta)

lemma rate_limited_tables [simp]:
  "d_alerts (snd (rate_limited env we uid kind db)) = d_alerts db"
  "d_next (snd (rate_limited env we uid kind db)) = d_next db"
  "d_tasks (snd (rate_limited env we uid kind db)) = d_tasks db"
  "d_orders (snd (rate_limited env we uid kind db)) = d_orders db"
  "d_placed (snd (rate_limited env we uid kind db)) = d_placed db"
  "d_halts (snd (rate_limited env we uid kind db)) = d_halts db"
  "d_strategies (snd (rate_limited env we uid kind db)) = d_strategies db"
  "d_configs (snd (rate_limited env we uid kind db)) = d_configs db"
  "anchor_taken u i (snd (rate_limited env we uid kind db)) = anchor_taken u i db"
  by (simp_all add: rate_limited_def Let_def case_prod_beta anchor_taken_def)

lemma remember_key_tables [simp]:
  "d_alerts (remember_key env we r i db) = d_alerts db" "d_next (remember_key env we r i db) = d_next db"
  "d_tasks (remember_key env we r i db) = d_tasks db" "d_orders (remember_key env we r i db) = d_orders db"
  "d_placed (remember_key env we r i db) = d_placed db"
  by (simp_all add: remember_key_def)

lemma accept_alert_ok:
  assumes "alerts_ok db"
  shows "alerts_ok (fst (accept_alert env we r wc b db))"
proof -
  let ?a = "new_alert env wc b (idem_of b) RECEIVED [] (d_next db)"
  have ok: "alerts_ok (create_alert ?a db)" if "\<not> anchor_taken (w_user wc) (idem_of b) db"
    using assms that by (intro alerts_ok_create) (simp_all add: new_alert_def)
  have upd: "alerts_ok (d\<lparr>d_alerts := update_where p (\<lambda>a. a\<lparr>a_status := st, a_reason := why\<rparr>) (d_alerts d)\<rparr>)"
    if "alerts_ok d" for d p st why
    using that alert_anchors_update [of "\<lambda>a. a\<lparr>a_status := st, a_reason := why\<rparr>" p "d_alerts d"]
    by (auto intro: alerts_ok_frame)
  have task: "alerts_ok (d\<lparr>d_tasks := ts\<rparr>)" if "alerts_ok d" for d ts
    using that by (auto intro: alerts_ok_frame)
  have mem: "alerts_ok (remember_key env we r k d)" if "alerts_ok d" for k d
    using that by (auto intro: alerts_ok_frame)
  show ?thesis
    using assms by (simp add: accept_alert_def Let_def mem upd task ok split: option.split)
qed

lemma webhook_post_ok:
  assumes "alerts_ok db"
  shows "alerts_ok (fst (webhook_post env we r db))"
proof -
  have rate: "alerts_ok (snd (rate_limited env we u k db))" for u k
    using assms by (auto intro: alerts_ok_frame)
  then have "alerts_ok (create_alert (new_alert env wc b [] st why (d_next db)) (snd (rate_limited env we u k db)))"
    for u k wc b st why
    by (intro alerts_ok_create) (simp_all add: new_alert_def anchor_taken_def)
  with rate show ?thesis
    using assms by (simp add: webhook_post_def Let_def case_prod_beta accept_alert_ok split: sum.split option.split)
qed

definition accepted_ids :: "webhook_response \<Rightarrow> nat list" where
  "accepted_ids resp = (case resp of WebhookAccepted i \<Rightarrow> [i] | _ \<Rightarrow> [])"

lemma accept_alert_tasks:
  assumes "out = accept_alert env we r wc b db"
  shows "d_tasks (fst out) = d_tasks db @ accepted_ids (snd out) \<and> d_next db \<le> d_next (fst out) \<and>
    (\<forall>i\<in>set (accepted_ids (snd out)). i = d_next db \<and> d_next (fst out) = d_next db + 1 \<and> i \<in> a_id ` set (d_alerts (fst out)))"
  by (simp add: assms accept_alert_def Let_def accepted_ids_def create_alert_def new_alert_def split: option.split)

lemma webhook_post_tasks:
  assumes out: "out = webhook_post env we r db"
  shows "d_tasks (fst out) = d_tasks db @ accepted_ids (snd out) \<and> d_next db \<le> d_next (fst out) \<and>
    (\<forall>i\<in>set (accepted_ids (snd out)). i = d_next db \<and> d_next (fst out) = d_next db + 1 \<and> i \<in> a_id ` set (d_alerts (fst out)))"
proof -
  have err: "precheck we r = Inl e \<Longrightarrow> accepted_ids e = []" for e
    by (auto simp: precheck_def accepted_ids_def split: if_splits option.splits)
  have [simp]: "accepted_ids (WebhookError c n) = []" for c n by (simp add: accepted_ids_def)
  show ?thesis
    using accept_alert_tasks [OF refl, of env we r _ _ "snd (rate_limited env we _ _ db)"]
    by (auto simp: out webhook_post_def Let_def case_prod_beta err create_alert_def split: sum.split option.split)
qed

lemma webhook_post_ids: "a_id ` set (d_alerts db) \<subseteq> a_id ` set (d_alerts (fst (webhook_post env we r db)))"
proof -
  have upd: "a_id ` set (update_where p (\<lambda>a. a\<lparr>a_status := st, a_reason := why\<rparr>) as) = a_id ` set as"
    for p st why and as :: "alert list"
    using arg_cong [OF alert_anchors_update(2) [of "\<lambda>a. a\<lparr>a_status := st, a_reason := why\<rparr>" p as], of set] by simp
  show ?thesis
    by (auto simp: webhook_post_def accept_alert_def Let_def case_prod_beta create_alert_def upd
        split: sum.split option.split)
qed


definition sample_webhook :: webhook_env where
  "sample_webhook = \<lparr>we_enabled = True, we_allowlist = [], we_proxies = 0, we_max_bytes = 16384, we_rate_limit = 60,
     we_idem_ttl = 86400, we_loads = (\<lambda>s. Some (JObj ((''sig'', JStr s) # (''idempotency_key'', JStr ''k1'') # sample_body))),
     we_valid = (\<lambda>b s. True), we_sha = (\<lambda>s. s)\<rparr>"

definition sample_request :: "string \<Rightarrow> http_request" where
  "sample_request secret = \<lparr>hq_user = 7, hq_strategy = 3, hq_content_type = ''application/json'', hq_body = secret,
     hq_forwarded = [], hq_remote = ''10.0.0.1''\<rparr>"

definition sample_config :: webhook_config where
  "sample_config = \<lparr>w_user = 7, w_strategy = 3, w_secret = ''s3cret'', w_schema = JObj []\<rparr>"

definition webhook_db :: db where
  "webhook_db = sample_db\<lparr>d_configs := [sample_config]\<rparr>"


subsection \<open>Separate budgets\<close>

definition authenticated :: "webhook_env \<Rightarrow> http_request \<Rightarrow> db \<Rightarrow> bool" where
  "authenticated we r db \<longleftrightarrow>
     (case precheck we r of
        Inl _ \<Rightarrow> False
      | Inr b \<Rightarrow> (case webhook_config_of r db of None \<Rightarrow> False | Some wc \<Rightarrow> sig_ok b wc))"

text \<open>A response without the id of the new row.\<close>

definition verdict :: "webhook_response \<Rightarrow> webhook_response" where
  "verdict resp = (case resp of WebhookAccepted i \<Rightarrow> WebhookAccepted 0 | _ \<Rightarrow> resp)"

text \<open>All an authenticated request reads of the state.\<close>

definition same_view :: "db \<Rightarrow> db \<Rightarrow> bool" where
  "same_view db db' \<longleftrightarrow>
     d_configs db' = d_configs db \<and> d_strategies db' = d_strategies db \<and> d_halts db' = d_halts db \<and>
     (\<forall>u i. anchor_taken u i db' = anchor_taken u i db) \<and>
     (\<forall>env u. cache_get (d_cache db') (e_now env) (rate_key env ''ok'' u) =
        cache_get (d_cache db) (e_now env) (rate_key env ''ok'' u))"

lemma same_view_trans: "same_view a b \<Longrightarrow> same_view b c \<Longrightarrow> same_view a c"
  by (simp add: same_view_def)

lemma rate_keys_differ: "rate_key env ''ok'' u \<noteq> rate_key env' ''bad'' u'"
  by (simp add: rate_key_def)

lemma bad_budget_view: "same_view db (snd (rate_limited env we u ''bad'' db))"
  by (simp add: same_view_def rate_limited_def Let_def case_prod_beta bump_other rate_keys_differ anchor_taken_def)

lemma log_row_view: "a_idem a = [] \<Longrightarrow> same_view db (create_alert a db)"
  by (auto simp: same_view_def create_alert_def anchor_taken_def exists_where_iff)

lemma unauthenticated_view:
  assumes "\<not> authenticated we r db"
  shows "same_view db (fst (webhook_post env we r db)) \<and> d_tasks (fst (webhook_post env we r db)) = d_tasks db"
proof (cases "\<exists>b wc. precheck we r = Inr b \<and> webhook_config_of r db = Some wc")
  case True
  then obtain b wc where b: "precheck we r = Inr b" "webhook_config_of r db = Some wc" by blast
  let ?db1 = "snd (rate_limited env we (hq_user r) ''bad'' db)"
  let ?a = "new_alert env wc (without_sig b) [] ALERT_REJECTED ''SIG_BAD'' (d_next db)"
  have "same_view db (create_alert ?a ?db1)"
    by (rule same_view_trans [OF bad_budget_view log_row_view]) (simp add: new_alert_def)
  moreover have "d_tasks (create_alert ?a ?db1) = d_tasks db" by (simp add: create_alert_def)
  ultimately show ?thesis
    using assms b bad_budget_view [of db env we "hq_user r"]
    by (simp add: webhook_post_def authenticated_def Let_def case_prod_beta)
next
  case False
  then have "fst (webhook_post env we r db) = db" by (auto simp: webhook_post_def split: sum.split option.split)
  then show ?thesis by (simp add: same_view_def)
qed

lemma accept_alert_verdict:
  "verdict (snd (accept_alert env we r wc b db)) =
     (if anchor_taken (w_user wc) (idem_of b) db then WebhookDuplicate
      else if strategy_off (w_strategy wc) db then WebhookRejected ''STRATEGY_DISABLED''
      else case is_blocked db (w_user wc) (Some (w_strategy wc)) of
        Some why \<Rightarrow> WebhookRejected why | None \<Rightarrow> WebhookAccepted 0)"
proof -
  have "cached_duplicate env we r u i db \<Longrightarrow> anchor_taken u i db" for u i
    by (simp add: cached_duplicate_def anchor_taken_def)
  then show ?thesis
    by (auto simp: accept_alert_def Let_def verdict_def create_alert_def strategy_off_def is_blocked_def split: option.split)
qed

lemma same_view_verdict:
  assumes view: "same_view db db'" and auth: "authenticated we r db"
  shows "verdict (snd (webhook_post env we r db')) = verdict (snd (webhook_post env we r db))"
proof -
  obtain b wc where b: "precheck we r = Inr b" "webhook_config_of r db = Some wc" "sig_ok b wc"
    using auth by (auto simp: authenticated_def split: sum.splits option.splits)
  have wc: "webhook_config_of r db' = Some wc" using view b(2) by (simp add: same_view_def webhook_config_of_def)
  have over: "fst (rate_limited env we u ''ok'' db') = fst (rate_limited env we u ''ok'' db)" for u
    using view by (simp add: rate_limited_def Let_def case_prod_beta bump_value same_view_def)
  have "verdict (snd (accept_alert env we r wc b' (snd (rate_limited env we u ''ok'' db')))) =
      verdict (snd (accept_alert env we r wc b' (snd (rate_limited env we u ''ok'' db))))" for b' u
    using view by (simp add: accept_alert_verdict same_view_def strategy_off_def is_blocked_def)
  with b wc over show ?thesis by (simp add: webhook_post_def Let_def case_prod_beta)
qed

text \<open>
  C13. Requests without the secret cannot starve authenticated ones. Any number of requests
  that fail authentication hands nothing to the worker, and the answer to an authenticated
  request afterwards, the rate limit and the idempotency check included, is the one it would
  have had without them.
\<close>

theorem unauthenticated_never_starve:
  assumes bad: "\<forall>er\<in>set rs. \<not> authenticated we (snd er) db" and good: "authenticated we r db"
  shows "d_tasks (webhook_posts we rs db) = d_tasks db \<and>
    verdict (snd (webhook_post env we r (webhook_posts we rs db))) = verdict (snd (webhook_post env we r db))"
proof -
  have "same_view db (webhook_posts we rs db) \<and> d_tasks (webhook_posts we rs db) = d_tasks db"
    using bad
  proof (induction rs arbitrary: db)
    case Nil
    then show ?case by (simp add: same_view_def)
  next
    case (Cons er rs)
    obtain e q where er: "er = (e, q)" by (cases er)
    let ?db = "fst (webhook_post e we q db)"
    have v: "same_view db ?db" "d_tasks ?db = d_tasks db"
      using unauthenticated_view [of we q db e] Cons.prems by (simp_all add: er)
    have "authenticated we x ?db = authenticated we x db" for x
      using v(1) by (simp add: authenticated_def same_view_def webhook_config_of_def cong: sum.case_cong option.case_cong)
    with Cons show ?case using v by (simp add: er) (blast intro: same_view_trans)
  qed
  with good show ?thesis by (simp add: same_view_verdict)
qed

theorem unauthenticated_never_starve_witness:
  "d_tasks (webhook_posts sample_webhook (replicate 100 (sample_env, sample_request ''guess'')) webhook_db) = []"
proof -
  have cfg: "webhook_config_of (sample_request s) webhook_db = Some sample_config" for s
    by (simp add: webhook_config_of_def webhook_db_def sample_request_def sample_config_def sample_defs first_where_Cons)
  have body: "precheck sample_webhook (sample_request s) = Inr ((''sig'', JStr s) # (''idempotency_key'', JStr ''k1'') # sample_body)"
    if "length s \<le> 100" for s
  proof -
    have "media_type (sample_request s) = ''application/json''"
      by (simp add: media_type_def sample_request_def) code_simp
    with that show ?thesis by (simp add: precheck_def parse_body_def sample_webhook_def sample_request_def)
  qed
  have "authenticated sample_webhook (sample_request s) webhook_db = (s = ''s3cret'')" if "length s \<le> 100" for s
    using that by (simp add: authenticated_def body cfg sig_ok_def dict_get_def sample_config_def)
  moreover have "d_tasks webhook_db = []" by (simp add: webhook_db_def sample_defs)
  ultimately show ?thesis
    using unauthenticated_never_starve [of "replicate 100 (sample_env, sample_request ''guess'')" sample_webhook webhook_db
        "sample_request ''s3cret''"]
    by simp
qed

end
