(* ===== verification/Fills.thy ===== *)
theory Fills
  imports Orders
begin

text \<open>
  Fill transport (\<open>orders/fills.py\<close>): the wire form of a broker event, publishing, and the
  consumer with its dead letters and bounded retries. Redis is the record \<open>redis_client\<close> of
  the commands the module issues, over a state the model does not fix: \<open>None\<close> is an exception,
  \<open>rd_group\<close> answers the text of its exception. \<open>stream_laws\<close> states the documented behaviour
  the lemmas use. The text layer of JSON is a pair of functions. As in the source, the
  consumer gets the ingest function as an argument; a failed ingest is \<open>None\<close> and, being a
  rolled back transaction, has no new state.

  The lemmas show that events survive the wire, that a message leaves the stream only when it
  was ingested or dead-lettered, that five failed deliveries end in the dead-letter stream,
  and how a retry counter stops the sweep.
\<close>

type_synonym fields = "(string \<times> string) list"

record 'r redis_client =
  rd_xadd :: "string \<Rightarrow> fields \<Rightarrow> 'r \<Rightarrow> 'r option"
  rd_group :: "string \<Rightarrow> 'r \<Rightarrow> string + 'r"
  rd_read :: "string \<Rightarrow> string \<Rightarrow> nat \<Rightarrow> 'r \<Rightarrow> ((string \<times> fields) list \<times> 'r) option"
  rd_ack :: "string \<Rightarrow> string \<Rightarrow> 'r \<Rightarrow> 'r"
  rd_incr :: "string \<Rightarrow> 'r \<Rightarrow> (int \<times> 'r) option"
  rd_expire :: "string \<Rightarrow> int \<Rightarrow> 'r \<Rightarrow> 'r option"
  rd_delete :: "string \<Rightarrow> 'r \<Rightarrow> 'r"
  rd_scan :: "string \<Rightarrow> 'r \<Rightarrow> string list"

record json_text =
  js_dumps :: "fields \<Rightarrow> string"
  js_loads :: "string \<Rightarrow> fields option"

type_synonym 's ingestor = "fill_event \<Rightarrow> string \<Rightarrow> 's \<Rightarrow> 's option"

subsection \<open>Keys and the wire form\<close>

definition stream_prefix :: string where
  "stream_prefix = ''fills:user:''"

definition stream_key :: "string \<Rightarrow> string" where
  "stream_key uid = stream_prefix @ uid"

definition dead_stream_key :: "string \<Rightarrow> string" where
  "dead_stream_key uid = stream_prefix @ uid @ '':dead''"

definition attempts_key :: "string \<Rightarrow> string \<Rightarrow> string" where
  "attempts_key uid mid = stream_prefix @ uid @ '':attempts:'' @ mid"

definition max_deliveries :: int where
  "max_deliveries = 5"

definition attempts_ttl :: int where
  "attempts_ttl = 86400"

definition fill_to_wire :: "fill_event \<Rightarrow> fields" where
  "fill_to_wire ev =
     [(''broker_exec_id'', fe_exec ev),
      (''client_order_id'', fe_coid ev),
      (''broker_order_id'', fe_boid ev),
      (''symbol'', fe_symbol ev),
      (''side'', broker_side_str (fe_side ev)),
      (''event_type'', fe_type ev),
      (''qty'', dec_str (fe_qty ev)),
      (''price'', dec_str (fe_price ev)),
      (''ts'', case fe_ts ev of None \<Rightarrow> [] | Some t \<Rightarrow> t),
      (''filled_qty'', dec_str (fe_filled ev))]"

definition field_or :: "string \<Rightarrow> string \<Rightarrow> fields \<Rightarrow> string" where
  "field_or k dflt d = (case map_of d k of None \<Rightarrow> dflt | Some v \<Rightarrow> v)"

definition field_decimal :: "string \<Rightarrow> fields \<Rightarrow> decimal option" where
  "field_decimal k d = (let v = field_or k ''0'' d in dec_parse (if v = [] then ''0'' else v))"

definition wire_to_fill :: "fields \<Rightarrow> fill_event option" where
  "wire_to_fill d =
     (case (field_decimal ''qty'' d, field_decimal ''price'' d, field_decimal ''filled_qty'' d) of
        (Some q, Some p, Some f) \<Rightarrow>
          Some \<lparr>fe_exec = field_or ''broker_exec_id'' [] d, fe_coid = field_or ''client_order_id'' [] d,
                fe_boid = field_or ''broker_order_id'' [] d, fe_symbol = field_or ''symbol'' [] d,
                fe_side = (if py_upper (field_or ''side'' [] d) = ''SELL'' then Sell else Buy),
                fe_type = field_or ''event_type'' ''new'' d, fe_qty = q, fe_price = p,
                fe_ts = (let t = field_or ''ts'' [] d in if t = [] then None else Some t), fe_filled = f\<rparr>
      | _ \<Rightarrow> None)"

subsection \<open>Publishing\<close>

text \<open>Inline, an exception of the ingest reaches the caller; a transport error does not.\<close>

definition publish_fill ::
  "bool \<Rightarrow> 'r redis_client \<Rightarrow> json_text \<Rightarrow> 's ingestor \<Rightarrow> string \<Rightarrow> fill_event \<Rightarrow> 'r \<times> 's \<Rightarrow> ('r \<times> 's) option" where
  "publish_fill fills_inline rd js ingest uid ev st =
     (if fills_inline then map_option (\<lambda>s'. (fst st, s')) (ingest ev uid (snd st))
      else case rd_xadd rd (stream_key uid) [(''data'', js_dumps js (fill_to_wire ev))] (fst st) of
             None \<Rightarrow> Some st
           | Some r' \<Rightarrow> Some (r', snd st))"

subsection \<open>Consuming\<close>

definition dead_letter :: "'r redis_client \<Rightarrow> string \<Rightarrow> string \<Rightarrow> fields \<Rightarrow> string \<Rightarrow> 'r \<Rightarrow> 'r option" where
  "dead_letter rd uid mid data reason r =
     rd_xadd rd (dead_stream_key uid) [(''data'', field_or ''data'' [] data), (''reason'', reason), (''src_id'', mid)] r"

definition parse_message :: "json_text \<Rightarrow> fields \<Rightarrow> fill_event option" where
  "parse_message js data =
     (case map_of data ''data'' of
        None \<Rightarrow> None
      | Some text \<Rightarrow> (case js_loads js text of None \<Rightarrow> None | Some d \<Rightarrow> wire_to_fill d))"

text \<open>The count of this failure, and the state after counting it; one if the counter is down.\<close>

definition count_attempt :: "'r redis_client \<Rightarrow> string \<Rightarrow> string \<Rightarrow> 'r \<Rightarrow> int \<times> 'r" where
  "count_attempt rd uid mid r =
     (case rd_incr rd (attempts_key uid mid) r of
        None \<Rightarrow> (1, r)
      | Some (n, r1) \<Rightarrow>
          (case rd_expire rd (attempts_key uid mid) attempts_ttl r1 of
             None \<Rightarrow> (1, r1)
           | Some r2 \<Rightarrow> (n, r2)))"

definition process_message ::
  "'r redis_client \<Rightarrow> json_text \<Rightarrow> 's ingestor \<Rightarrow> string \<Rightarrow> string \<Rightarrow> string \<Rightarrow> fields \<Rightarrow> 'r \<times> 's \<Rightarrow> ('r \<times> 's) \<times> bool" where
  "process_message rd js ingest uid key mid data st =
     (let (r, s) = st
      in case parse_message js data of
           None \<Rightarrow>
             (case dead_letter rd uid mid data ''poison'' r of
                None \<Rightarrow> ((r, s), False)
              | Some r1 \<Rightarrow> ((rd_ack rd key mid r1, s), True))
         | Some ev \<Rightarrow>
             (case ingest ev uid s of
                Some s' \<Rightarrow> ((rd_delete rd (attempts_key uid mid) (rd_ack rd key mid r), s'), True)
              | None \<Rightarrow>
                  (let (n, r1) = count_attempt rd uid mid r
                   in if max_deliveries \<le> n
                      then (case dead_letter rd uid mid data ''max_retries'' r1 of
                              None \<Rightarrow> ((r1, s), False)
                            | Some r2 \<Rightarrow> ((rd_delete rd (attempts_key uid mid) (rd_ack rd key mid r2), s), True))
                      else ((r1, s), False))))"

fun process_entries ::
  "'r redis_client \<Rightarrow> json_text \<Rightarrow> 's ingestor \<Rightarrow> string \<Rightarrow> string \<Rightarrow> (string \<times> fields) list \<Rightarrow> 'r \<times> 's \<Rightarrow> ('r \<times> 's) \<times> nat" where
  "process_entries rd js ingest uid key [] st = (st, 0)"
| "process_entries rd js ingest uid key ((mid, data) # es) st =
     (let (st1, done) = process_message rd js ingest uid key mid data st;
          (st2, n) = process_entries rd js ingest uid key es st1
      in (st2, (if done then n + 1 else n)))"

text \<open>A read or a group creation that raises ends the drain: the count is \<open>None\<close>.\<close>

definition read_and_process ::
  "'r redis_client \<Rightarrow> json_text \<Rightarrow> 's ingestor \<Rightarrow> string \<Rightarrow> nat \<Rightarrow> string \<Rightarrow> 'r \<times> 's \<Rightarrow> ('r \<times> 's) \<times> nat option" where
  "read_and_process rd js ingest uid count start st =
     (case rd_read rd (stream_key uid) start count (fst st) of
        None \<Rightarrow> (st, None)
      | Some (entries, r) \<Rightarrow>
          (let (st', n) = process_entries rd js ingest uid (stream_key uid) entries (r, snd st) in (st', Some n)))"

definition ensure_group :: "'r redis_client \<Rightarrow> string \<Rightarrow> 'r \<Rightarrow> 'r option" where
  "ensure_group rd key r =
     (case rd_group rd key r of
        Inr r' \<Rightarrow> Some r'
      | Inl err \<Rightarrow> if py_contains ''BUSYGROUP'' err then Some r else None)"

definition drain_stream ::
  "'r redis_client \<Rightarrow> json_text \<Rightarrow> 's ingestor \<Rightarrow> string \<Rightarrow> nat \<Rightarrow> 'r \<times> 's \<Rightarrow> ('r \<times> 's) \<times> nat option" where
  "drain_stream rd js ingest uid count st =
     (case ensure_group rd (stream_key uid) (fst st) of
        None \<Rightarrow> (st, None)
      | Some r \<Rightarrow>
          (case read_and_process rd js ingest uid count ''0'' (r, snd st) of
             (st1, None) \<Rightarrow> (st1, None)
           | (st1, Some n) \<Rightarrow>
               (case read_and_process rd js ingest uid count ''>'' st1 of
                  (st2, None) \<Rightarrow> (st2, None)
                | (st2, Some m) \<Rightarrow> (st2, Some (n + m)))))"

fun sweep_keys ::
  "'r redis_client \<Rightarrow> json_text \<Rightarrow> 's ingestor \<Rightarrow> nat \<Rightarrow> string list \<Rightarrow> 'r \<times> 's \<Rightarrow> ('r \<times> 's) \<times> nat option" where
  "sweep_keys rd js ingest count [] st = (st, Some 0)"
| "sweep_keys rd js ingest count (k # ks) st =
     (case drain_stream rd js ingest (drop (length stream_prefix) k) count st of
        (st1, None) \<Rightarrow> (st1, None)
      | (st1, Some n) \<Rightarrow>
          (case sweep_keys rd js ingest count ks st1 of
             (st2, None) \<Rightarrow> (st2, None)
           | (st2, Some m) \<Rightarrow> (st2, Some (n + m))))"

definition sweep_all_streams ::
  "'r redis_client \<Rightarrow> json_text \<Rightarrow> 's ingestor \<Rightarrow> nat \<Rightarrow> 'r \<times> 's \<Rightarrow> ('r \<times> 's) \<times> nat option" where
  "sweep_all_streams rd js ingest count st = sweep_keys rd js ingest count (rd_scan rd (stream_prefix @ ''*'') (fst st)) st"

text \<open>The ingest function of the consumer: \<open>ingest_fill_event\<close>, whose exceptions roll back.\<close>

definition ingest_into :: "env \<Rightarrow> db ingestor" where
  "ingest_into env ev uid db =
     (case ingest_fill_event env ev (digits_nat uid) db of Inl _ \<Rightarrow> None | Inr (db', _) \<Rightarrow> Some db')"

subsection \<open>The wire round trip\<close>

lemma dec_parse_dec_str [simp]: "dec_parse (dec_str d) = Some d"
proof (cases d)
  case (DFin s c e)
  then show ?thesis by (simp add: dec_parse_str)
next
  case (DInf s)
  have "dec_parse ''Infinity'' = Some (DInf False)" "dec_parse ''-Infinity'' = Some (DInf True)" by code_simp+
  with DInf show ?thesis by (cases s) (simp_all add: dec_str_def)
next
  case DNaN
  have "dec_parse ''NaN'' = Some DNaN" by code_simp
  with DNaN show ?thesis by (simp add: dec_str_def)
qed

lemma dec_str_not_Nil [simp]: "dec_str d \<noteq> []"
proof (cases d)
  case (DFin s c e)
  then show ?thesis using dec_digits_str_head [of c e] by (auto simp: dec_str_def)
qed (simp_all add: dec_str_def)

lemma broker_side_wire: "(if py_upper (broker_side_str s) = ''SELL'' then Sell else Buy) = s"
proof -
  have "py_upper ''SELL'' = ''SELL''" "py_upper ''BUY'' = ''BUY''" by code_simp+
  then show ?thesis by (cases s) simp_all
qed

text \<open>
  C14. Events survive the wire. Decoding the fields of an event gives the event back, every
  decimal at its own scale, infinities and NaN included; only an empty timestamp comes back
  as an absent one, which is what the code reads it as anyway.
\<close>

theorem wire_round_trip:
  "wire_to_fill (fill_to_wire ev) = Some (ev\<lparr>fe_ts := (if fe_ts ev = Some [] then None else fe_ts ev)\<rparr>)"
proof -
  have "field_decimal ''qty'' (fill_to_wire ev) = Some (fe_qty ev)"
    "field_decimal ''price'' (fill_to_wire ev) = Some (fe_price ev)"
    "field_decimal ''filled_qty'' (fill_to_wire ev) = Some (fe_filled ev)"
    by (simp_all add: field_decimal_def field_or_def fill_to_wire_def)
  moreover have "field_or ''side'' [] (fill_to_wire ev) = broker_side_str (fe_side ev)"
    by (simp add: field_or_def fill_to_wire_def)
  ultimately show ?thesis
    by (cases ev) (auto simp: wire_to_fill_def broker_side_wire field_or_def fill_to_wire_def split: option.split)
qed

subsection \<open>What the consumer relies on\<close>

text \<open>
  \<open>pend r k\<close> are the delivered entries of a stream its group has not acknowledged, \<open>slog r k\<close>
  the entries added to a stream, \<open>cnt r k\<close> the integer at a key (0 when absent). The laws
  are those of XACK, XADD, INCR, EXPIRE (before the expiry) and DEL.
\<close>

definition stream_laws ::
  "'r redis_client \<Rightarrow> ('r \<Rightarrow> string \<Rightarrow> string set) \<Rightarrow> ('r \<Rightarrow> string \<Rightarrow> fields list) \<Rightarrow> ('r \<Rightarrow> string \<Rightarrow> int) \<Rightarrow> bool" where
  "stream_laws rd pend slog cnt \<longleftrightarrow>
     (\<forall>k m r. pend (rd_ack rd k m r) = (pend r)(k := pend r k - {m}) \<and> slog (rd_ack rd k m r) = slog r \<and>
        cnt (rd_ack rd k m r) = cnt r) \<and>
     (\<forall>k f r r'. rd_xadd rd k f r = Some r' \<longrightarrow> pend r' = pend r \<and> cnt r' = cnt r \<and>
        slog r' k \<noteq> [] \<and> last (slog r' k) = f) \<and>
     (\<forall>k r n r'. rd_incr rd k r = Some (n, r') \<longrightarrow> n = cnt r k + 1 \<and> cnt r' = (cnt r)(k := n) \<and> pend r' = pend r \<and> slog r' = slog r) \<and>
     (\<forall>k t r r'. rd_expire rd k t r = Some r' \<longrightarrow> cnt r' = cnt r \<and> pend r' = pend r \<and> slog r' = slog r) \<and>
     (\<forall>k r. cnt (rd_delete rd k r) = (cnt r)(k := 0) \<and> pend (rd_delete rd k r) = pend r \<and> slog (rd_delete rd k r) = slog r)"

lemma stream_law:
  assumes "stream_laws rd pend slog cnt"
  shows "pend (rd_ack rd k m r) = (pend r)(k := pend r k - {m})" "slog (rd_ack rd k m r) = slog r" "cnt (rd_ack rd k m r) = cnt r"
    and "rd_xadd rd k f r = Some r' \<Longrightarrow> pend r' = pend r \<and> cnt r' = cnt r \<and> last (slog r' k) = f"
    and "rd_incr rd k r = Some (n, r') \<Longrightarrow> n = cnt r k + 1 \<and> cnt r' = (cnt r)(k := n) \<and> pend r' = pend r \<and> slog r' = slog r"
    and "rd_expire rd k t r = Some r' \<Longrightarrow> cnt r' = cnt r \<and> pend r' = pend r \<and> slog r' = slog r"
    and "cnt (rd_delete rd k r) = (cnt r)(k := 0)" "pend (rd_delete rd k r) = pend r" "slog (rd_delete rd k r) = slog r"
  using assms unfolding stream_laws_def by metis+

lemma count_attempt_pend:
  assumes "stream_laws rd pend slog cnt"
  shows "pend (snd (count_attempt rd uid mid r)) = pend r"
  using stream_law(5,6) [OF assms] by (auto simp: count_attempt_def split: option.split)

lemma dead_letter_law:
  assumes "stream_laws rd pend slog cnt" "dead_letter rd uid mid data why r = Some r'"
  shows "pend r' = pend r \<and> cnt r' = cnt r \<and> last (slog r' (dead_stream_key uid)) =
    [(''data'', field_or ''data'' [] data), (''reason'', why), (''src_id'', mid)]"
  using stream_law(4) [OF assms(1)] assms(2) by (simp add: dead_letter_def)

definition sample_redis :: "((string \<Rightarrow> string set) \<times> (string \<Rightarrow> fields list) \<times> (string \<Rightarrow> int)) redis_client" where
  "sample_redis =
     \<lparr>rd_xadd = (\<lambda>k f (p, l, c). Some (p, l(k := l k @ [f]), c)),
      rd_group = (\<lambda>k (p, l, c). if c k \<noteq> 0 then Inl ''WRONGTYPE'' else Inr (p, l, c)),
      rd_read = (\<lambda>k i n st. Some ([], st)),
      rd_ack = (\<lambda>k m (p, l, c). (p(k := p k - {m}), l, c)),
      rd_incr = (\<lambda>k (p, l, c). Some (c k + 1, (p, l, c(k := c k + 1)))),
      rd_expire = (\<lambda>k t st. Some st),
      rd_delete = (\<lambda>k (p, l, c). (p, l, c(k := 0))),
      rd_scan = (\<lambda>k (p, l, c). [attempts_key ''7'' ''1-0'', stream_key ''7''])\<rparr>"

lemma sample_redis_laws: "stream_laws sample_redis fst (fst \<circ> snd) (snd \<circ> snd)"
  by (auto simp: stream_laws_def sample_redis_def)

lemma sample_redis_scan [simp]:
  "rd_scan sample_redis k (p, l, c) = [attempts_key ''7'' ''1-0'', stream_key ''7'']"
  "c k \<noteq> 0 \<Longrightarrow> rd_group sample_redis k (p, l, c) = Inl ''WRONGTYPE''"
  by (simp_all add: sample_redis_def)

definition sample_json :: json_text where
  "sample_json = \<lparr>js_dumps = (\<lambda>d. ''{}''), js_loads = (\<lambda>t. if t = ''{}'' then Some [] else None)\<rparr>"



subsection \<open>Bounded retries\<close>

text \<open>Successive deliveries of one message: the flags of each.\<close>

fun redeliver ::
  "'r redis_client \<Rightarrow> json_text \<Rightarrow> 's ingestor \<Rightarrow> string \<Rightarrow> string \<Rightarrow> string \<Rightarrow> fields \<Rightarrow> nat \<Rightarrow> 'r \<times> 's \<Rightarrow> ('r \<times> 's) \<times> bool list" where
  "redeliver rd js ingest uid key mid data 0 st = (st, [])"
| "redeliver rd js ingest uid key mid data (Suc n) st =
     (let (st1, done) = process_message rd js ingest uid key mid data st;
          (st2, flags) = redeliver rd js ingest uid key mid data n st1
      in (st2, done # flags))"

lemma failing_delivery:
  assumes laws: "stream_laws rd pend slog cnt" and ev: "parse_message js data = Some ev" "ingest ev uid s = None"
    and up: "\<And>k x. rd_incr rd k x \<noteq> None" "\<And>k t x. rd_expire rd k t x \<noteq> None" "\<And>k f x. rd_xadd rd k f x \<noteq> None"
  shows "\<exists>r'. process_message rd js ingest uid key mid data (r, s) = ((r', s), 5 \<le> cnt r (attempts_key uid mid) + 1) \<and>
    cnt r' (attempts_key uid mid) =
       (if 5 \<le> cnt r (attempts_key uid mid) + 1 then 0 else cnt r (attempts_key uid mid) + 1)"
proof -
  let ?k = "attempts_key uid mid"
  obtain n r1 where i: "rd_incr rd ?k r = Some (n, r1)" using up(1) by fastforce
  obtain r2 where e: "rd_expire rd ?k attempts_ttl r1 = Some r2" using up(2) by fastforce
  obtain r3 where x: "dead_letter rd uid mid data ''max_retries'' r2 = Some r3"
    using up(3) by (fastforce simp: dead_letter_def)
  have n: "n = cnt r ?k + 1" "cnt r2 ?k = n"
    using stream_law(5) [OF laws i] stream_law(6) [OF laws e] by simp_all
  have c: "count_attempt rd uid mid r = (n, r2)" by (simp add: count_attempt_def i e)
  show ?thesis
  proof (cases "5 \<le> n")
    case True
    show ?thesis
      by (rule exI [of _ "rd_delete rd ?k (rd_ack rd key mid r3)"])
        (use True n in \<open>simp_all add: process_message_def ev c x max_deliveries_def stream_law(7) [OF laws]\<close>)
  next
    case False
    show ?thesis
      by (rule exI [of _ r2]) (use False n in \<open>simp_all add: process_message_def ev c max_deliveries_def\<close>)
  qed
qed

text \<open>
  A failing message does not wedge the consumer. A message whose ingestion fails every
  time stays pending for four deliveries and is dead-lettered and acknowledged on the fifth,
  with the database untouched (the counter store and the dead-letter stream being up).
\<close>

theorem dead_letter_on_fifth_failure:
  assumes laws: "stream_laws rd pend slog cnt" and ev: "parse_message js data = Some ev" "ingest ev uid s = None"
    and up: "\<And>k x. rd_incr rd k x \<noteq> None" "\<And>k t x. rd_expire rd k t x \<noteq> None" "\<And>k f x. rd_xadd rd k f x \<noteq> None"
    and fresh: "cnt r (attempts_key uid mid) = 0"
  shows "\<exists>r'. redeliver rd js ingest uid key mid data 5 (r, s) = ((r', s), [False, False, False, False, True])"
proof -
  let ?c = "\<lambda>r. cnt r (attempts_key uid mid)"
  have step: "\<exists>r'. process_message rd js ingest uid key mid data (r, s) = ((r', s), 5 \<le> ?c r + 1) \<and>
      ?c r' = (if 5 \<le> ?c r + 1 then 0 else ?c r + 1)" for r
    by (rule failing_delivery) (fact laws ev up)+
  obtain r1 where r1: "process_message rd js ingest uid key mid data (r, s) = ((r1, s), False)" "?c r1 = 1"
    using step [of r] fresh by auto
  obtain r2 where r2: "process_message rd js ingest uid key mid data (r1, s) = ((r2, s), False)" "?c r2 = 2"
    using step [of r1] r1(2) by auto
  obtain r3 where r3: "process_message rd js ingest uid key mid data (r2, s) = ((r3, s), False)" "?c r3 = 3"
    using step [of r2] r2(2) by auto
  obtain r4 where r4: "process_message rd js ingest uid key mid data (r3, s) = ((r4, s), False)" "?c r4 = 4"
    using step [of r3] r3(2) by auto
  obtain r5 where r5: "process_message rd js ingest uid key mid data (r4, s) = ((r5, s), True)"
    using step [of r4] r4(2) by auto
  show ?thesis by (simp add: eval_nat_numeral r1 r2 r3 r4 r5)
qed

theorem dead_letter_on_fifth_failure_witness:
  "snd (redeliver sample_redis sample_json (\<lambda>ev uid s. None) ''7'' (stream_key ''7'') ''1-0'' [(''data'', ''{}'')] 5
     ((\<lambda>k. {''1-0''}, \<lambda>k. [], \<lambda>k. 0), ())) = [False, False, False, False, True]"
proof -
  have "field_decimal k [] = Some (DFin False 0 0)" for k
    by (simp add: field_decimal_def field_or_def) code_simp
  then obtain ev where "parse_message sample_json [(''data'', ''{}'')] = Some ev"
    by (simp add: parse_message_def sample_json_def wire_to_fill_def)
  from dead_letter_on_fifth_failure [OF sample_redis_laws this, of "\<lambda>ev uid s. None" "''7''" "()"
      "(\<lambda>k. {''1-0''}, \<lambda>k. [], \<lambda>k. 0)" "''1-0''" "stream_key ''7''"]
  show ?thesis by (auto simp: sample_redis_def)
qed

subsection \<open>The sweep and its own keys\<close>

text \<open>
  The retry counter stops the sweep. The counters share the prefix the sweep scans for.
  When the scan returns one first, the group creation on that key, which holds a string and
  answers WRONGTYPE, raises out of the sweep: no stream is drained, however many messages
  wait.
\<close>

theorem attempts_key_stops_sweep:
  assumes scan: "rd_scan rd (stream_prefix @ ''*'') r = attempts_key uid mid # keys"
    and wrongtype: "rd_group rd (attempts_key uid mid) r = Inl err" "\<not> py_contains ''BUSYGROUP'' err"
  shows "sweep_all_streams rd js ingest count (r, s) = ((r, s), None)"
proof -
  have key: "stream_key (drop (length stream_prefix) (attempts_key uid mid)) = attempts_key uid mid"
    by (simp add: stream_key_def attempts_key_def)
  then show ?thesis
    using wrongtype by (simp add: sweep_all_streams_def scan drain_stream_def ensure_group_def key)
qed

theorem attempts_key_stops_sweep_witness:
  "snd (sweep_all_streams sample_redis sample_json (\<lambda>ev uid s. None) 100 ((\<lambda>k. {}, \<lambda>k. [], \<lambda>k. 1), ())) = None"
proof -
  have "\<not> py_contains ''BUSYGROUP'' ''WRONGTYPE''" by code_simp
  with attempts_key_stops_sweep [of sample_redis "(\<lambda>k. {}, \<lambda>k. [], \<lambda>k. 1)" "''7''" "''1-0''" "[stream_key ''7'']" "''WRONGTYPE''"
      sample_json "\<lambda>ev uid s. None" 100 "()"]
  show ?thesis by simp
qed

end
