(* ===== verification/Audit_Log.thy ===== *)
theory Audit_Log
  imports Decimals
begin

text \<open>
  The audit log (\<open>audit/hashing.py\<close>, \<open>audit/scrub.py\<close>, \<open>audit/services.py\<close>,
  \<open>audit/verifier.py\<close>): redaction, the canonical content of a row, the hash chain that
  \<open>emit\<close> extends and the verifier walks. SHA-256, the serialiser (\<open>json.dumps\<close> with sorted
  keys) and the ISO form of an instant are fields of \<open>hash_env\<close>. Data arrives as JSON values, on
  which the normalisation round trip is the identity.

  The lemmas show that redaction leaves no value under a sensitive key, that a log written by
  \<open>emit\<close> always verifies, and that two verified logs with one final hash are the same log.
\<close>

record hash_env =
  ha_sha :: "string \<Rightarrow> string"
  ha_dumps :: "json \<Rightarrow> string"
  ha_iso :: "int \<Rightarrow> string"

record audit_row =
  al_id :: nat
  al_at :: int
  al_user :: "nat option"
  al_actor :: "nat option"
  al_event :: string
  al_entity :: string
  al_entity_id :: string
  al_before :: "json option"
  al_after :: "json option"
  al_ip :: "string option"
  al_ua :: string
  al_prev :: string
  al_hash :: string

record verifier_cursor =
  vc_last_id :: nat
  vc_last_hash :: string
  vc_run_at :: "int option"
  vc_result :: string

record audit_state =
  au_log :: "audit_row list"
  au_next :: nat
  au_cursor :: verifier_cursor
  au_mails :: "nat option list"

subsection \<open>Redaction\<close>

definition redacted :: string where
  "redacted = ''***REDACTED***''"

definition sensitive_keys :: "string list" where
  "sensitive_keys = [''authorization'', ''sig'', ''secret'', ''password'', ''token'', ''api_key'', ''dsn'']"

definition audit_sensitive_keys :: "string list" where
  "audit_sensitive_keys = sensitive_keys @ [''key'', ''code'', ''mfa_code'']"

definition sensitive_field_parts :: "string list" where
  "sensitive_field_parts =
     [''secret'', ''password'', ''token'', ''api_key'', ''apikey'', ''authorization'', ''_enc'', ''encrypted'',
      ''credential'', ''private_key'', ''current_jti'', ''code_hash'', ''salt'', ''dsn'']"

definition key_is_sensitive :: "string \<Rightarrow> bool" where
  "key_is_sensitive key =
     (let low = py_lower key
      in low \<in> set audit_sensitive_keys \<or> list_ex (\<lambda>part. py_contains part low) sensitive_field_parts)"

text \<open>The log processor: exact keys only, the top level only.\<close>

definition scrub_sensitive :: "(string \<times> json) list \<Rightarrow> (string \<times> json) list" where
  "scrub_sensitive d = map (\<lambda>(k, v). (k, if py_lower k \<in> set sensitive_keys then JStr redacted else v)) d"

fun scrub :: "json \<Rightarrow> json" where
  "scrub (JObj kvs) = JObj (map (\<lambda>(k, v). (k, if key_is_sensitive k then JStr redacted else scrub v)) kvs)"
| "scrub (JArr xs) = JArr (map scrub xs)"
| "scrub v = v"

text \<open>Every value under a sensitive key, at any depth.\<close>

fun exposed :: "json \<Rightarrow> json list" where
  "exposed (JObj kvs) = concat (map (\<lambda>(k, v). (if key_is_sensitive k then [v] else []) @ exposed v) kvs)"
| "exposed (JArr xs) = concat (map exposed xs)"
| "exposed v = []"

lemma scrub_redacts: "v \<in> set (exposed (scrub j)) \<Longrightarrow> v = JStr redacted"
proof (induction j rule: scrub.induct)
  case (1 kvs)
  then obtain k w where kw: "(k, w) \<in> set kvs"
    "v \<in> set ((if key_is_sensitive k then [JStr redacted] else []) @
       exposed (if key_is_sensitive k then JStr redacted else scrub w))"
    by (force split: if_splits)
  show ?case
  proof (cases "key_is_sensitive k")
    case True
    with kw show ?thesis by simp
  next
    case False
    with kw 1(1) show ?thesis by auto
  qed
next
  case (2 xs)
  then show ?case by auto
qed simp_all

lemma scrub_idem: "scrub (scrub j) = scrub j"
  by (induction j rule: scrub.induct) auto

subsection \<open>The chain\<close>

definition genesis :: string where
  "genesis = replicate 64 CHR ''0''"

definition opt_str :: "string option \<Rightarrow> json" where
  "opt_str x = (case x of None \<Rightarrow> JNull | Some s \<Rightarrow> if s = [] then JNull else JStr s)"

definition opt_id :: "nat option \<Rightarrow> json" where
  "opt_id x = (case x of None \<Rightarrow> JNull | Some i \<Rightarrow> JStr (nat_str i))"

definition opt_json :: "json option \<Rightarrow> json" where
  "opt_json x = (case x of None \<Rightarrow> JNull | Some v \<Rightarrow> v)"

definition payload_object :: "hash_env \<Rightarrow> audit_row \<Rightarrow> json" where
  "payload_object ha r =
     JObj [(''actor_id'', opt_id (al_actor r)), (''data_after'', opt_json (al_after r)),
       (''data_before'', opt_json (al_before r)), (''entity_id'', JStr (al_entity_id r)),
       (''entity_type'', JStr (al_entity r)), (''event_type'', JStr (al_event r)), (''ip'', opt_str (al_ip r)),
       (''occurred_at'', JStr (ha_iso ha (al_at r))), (''ua'', JStr (al_ua r)), (''user_id'', opt_id (al_user r))]"

definition canonical_payload :: "hash_env \<Rightarrow> audit_row \<Rightarrow> string" where
  "canonical_payload ha r = ha_dumps ha (payload_object ha r)"

definition compute_self_hash :: "hash_env \<Rightarrow> string \<Rightarrow> string \<Rightarrow> string" where
  "compute_self_hash ha prev payload = ha_sha ha (prev @ payload)"

definition row_self_hash :: "hash_env \<Rightarrow> audit_row \<Rightarrow> string \<Rightarrow> string" where
  "row_self_hash ha r prev = compute_self_hash ha prev (canonical_payload ha r)"

subsection \<open>Writing\<close>

record audit_request =
  ar_forwarded :: string
  ar_remote :: string
  ar_agent :: string

definition audit_client_ip :: "audit_request option \<Rightarrow> string option" where
  "audit_client_ip req =
     (case req of
        None \<Rightarrow> None
      | Some r \<Rightarrow>
          (let ip = (if ar_forwarded r \<noteq> [] then py_strip (hd (py_split CHR '','' (ar_forwarded r))) else ar_remote r)
           in if ip = [] then None else Some ip))"

definition dict_merge :: "(string \<times> json) list \<Rightarrow> (string \<times> json) list \<Rightarrow> (string \<times> json) list" where
  "dict_merge a b = map (\<lambda>(k, v). (k, case map_of b k of None \<Rightarrow> v | Some w \<Rightarrow> w)) a @
     filter (\<lambda>(k, v). map_of a k = None) b"

record emission =
  em_event :: string
  em_user :: "nat option"
  em_actor :: "nat option"
  em_entity :: string
  em_entity_id :: string
  em_before :: "(string \<times> json) list option"
  em_after :: "(string \<times> json) list option"
  em_request :: "audit_request option"
  em_metadata :: "(string \<times> json) list"
  em_ip :: "string option"
  em_ua :: string

definition emission_after :: "emission \<Rightarrow> (string \<times> json) list option" where
  "emission_after em =
     (if em_metadata em \<noteq> []
      then Some (dict_merge (case em_after em of None \<Rightarrow> [] | Some d \<Rightarrow> d) (em_metadata em)) else em_after em)"

definition last_hash :: "audit_row list \<Rightarrow> string" where
  "last_hash rows = (if rows = [] \<or> al_hash (last rows) = [] then genesis else al_hash (last rows))"

definition emission_row :: "hash_env \<Rightarrow> int \<Rightarrow> emission \<Rightarrow> audit_state \<Rightarrow> audit_row" where
  "emission_row ha now em st =
     (let prev = last_hash (au_log st);
          ip = (case em_request em of
                  None \<Rightarrow> em_ip em
                | Some _ \<Rightarrow> if em_ip em \<notin> {None, Some []} then em_ip em else audit_client_ip (em_request em));
          ua = (case em_request em of None \<Rightarrow> em_ua em | Some r \<Rightarrow> if em_ua em \<noteq> [] then em_ua em else ar_agent r);
          row = \<lparr>al_id = au_next st, al_at = now, al_user = em_user em, al_actor = em_actor em, al_event = em_event em,
                 al_entity = take 64 (em_entity em), al_entity_id = take 64 (em_entity_id em),
                 al_before = map_option (\<lambda>d. scrub (JObj d)) (em_before em),
                 al_after = map_option (\<lambda>d. scrub (JObj d)) (emission_after em),
                 al_ip = ip, al_ua = take 512 ua, al_prev = prev, al_hash = []\<rparr>
      in row\<lparr>al_hash := row_self_hash ha row prev\<rparr>)"

text \<open>
  The insert may fail (a trigger, an address the column rejects): \<open>accepts\<close> says which rows the
  table takes. A failure is swallowed, the row dropped.
\<close>

definition emit :: "hash_env \<Rightarrow> (audit_row \<Rightarrow> bool) \<Rightarrow> int \<Rightarrow> emission \<Rightarrow> audit_state \<Rightarrow> audit_state \<times> audit_row option" where
  "emit ha accepts now em st =
     (let row = emission_row ha now em st
      in if accepts row then (st\<lparr>au_log := au_log st @ [row], au_next := au_next st + 1\<rparr>, Some row) else (st, None))"

subsection \<open>Verifying\<close>

record verification =
  ve_ok :: bool
  ve_checked :: nat
  ve_last_id :: nat
  ve_last_hash :: string
  ve_failed :: "nat option"
  ve_reason :: string

fun verify_rows :: "hash_env \<Rightarrow> nat \<Rightarrow> nat \<Rightarrow> string \<Rightarrow> audit_row list \<Rightarrow> verification" where
  "verify_rows ha n i prev [] =
     \<lparr>ve_ok = True, ve_checked = n, ve_last_id = i, ve_last_hash = prev, ve_failed = None, ve_reason = []\<rparr>"
| "verify_rows ha n i prev (r # rs) =
     (if al_prev r \<noteq> prev
      then \<lparr>ve_ok = False, ve_checked = n, ve_last_id = i, ve_last_hash = prev, ve_failed = Some (al_id r),
            ve_reason = ''linkage_break''\<rparr>
      else if row_self_hash ha r prev \<noteq> al_hash r
      then \<lparr>ve_ok = False, ve_checked = n, ve_last_id = i, ve_last_hash = prev, ve_failed = Some (al_id r),
            ve_reason = ''hash_mismatch''\<rparr>
      else verify_rows ha (n + 1) (al_id r) (al_hash r) rs)"

definition verify_chain :: "hash_env \<Rightarrow> nat \<Rightarrow> string \<Rightarrow> audit_row list \<Rightarrow> verification" where
  "verify_chain ha start start_prev rows =
     verify_rows ha 0 start (if start_prev = [] then genesis else start_prev) (filter (\<lambda>r. start < al_id r) rows)"

definition plain_emission :: "string \<Rightarrow> string \<Rightarrow> string \<Rightarrow> (string \<times> json) list \<Rightarrow> emission" where
  "plain_emission ev entity eid after =
     \<lparr>em_event = ev, em_user = None, em_actor = None, em_entity = entity, em_entity_id = eid, em_before = None,
      em_after = Some after, em_request = None, em_metadata = [], em_ip = None, em_ua = []\<rparr>"

definition opt_nat :: "nat option \<Rightarrow> json" where
  "opt_nat x = (case x of None \<Rightarrow> JNull | Some i \<Rightarrow> JInt (int i))"

text \<open>
  One run; \<open>triggers\<close> is the presence of the enforcement triggers, \<open>secs\<close> the duration printed.
  A failure is mailed to the operator, whose address is configured.
\<close>

definition run_verifier ::
  "hash_env \<Rightarrow> (audit_row \<Rightarrow> bool) \<Rightarrow> int \<Rightarrow> bool \<Rightarrow> string \<Rightarrow> audit_state \<Rightarrow> audit_state \<times> verification" where
  "run_verifier ha accepts now triggers secs st =
     (let cur = au_cursor st;
          res = verify_chain ha (vc_last_id cur) (vc_last_hash cur) (au_log st);
          reason = (if ve_reason res \<noteq> [] then ve_reason res else if \<not> triggers then ''trigger_missing'' else ''unknown'')
      in if ve_ok res \<and> triggers
         then (fst (emit ha accepts now
                 (plain_emission ''audit.verifier_completed'' ''audit_verifier'' []
                    [(''checked'', JInt (int (ve_checked res))), (''last_id'', JInt (int (ve_last_id res))),
                     (''duration_s'', JReal secs)])
                 (st\<lparr>au_cursor := \<lparr>vc_last_id = ve_last_id res, vc_last_hash = ve_last_hash res,
                                    vc_run_at = Some now, vc_result = ''ok''\<rparr>\<rparr>)), res)
         else (fst (emit ha accepts now
                 (plain_emission ''audit.integrity_failure'' ''audit_log''
                    (case ve_failed res of None \<Rightarrow> [] | Some i \<Rightarrow> nat_str i)
                    [(''reason'', JStr reason), (''suspect_id'', opt_nat (ve_failed res)),
                     (''last_good_id'', JInt (int (ve_last_id res))), (''triggers_present'', JBool triggers)])
                 (st\<lparr>au_cursor := cur\<lparr>vc_run_at := Some now, vc_result := ''fail''\<rparr>,
                     au_mails := au_mails st @ [ve_failed res]\<rparr>)), res))"

subsection \<open>Logs that verify\<close>

fun linked :: "hash_env \<Rightarrow> string \<Rightarrow> audit_row list \<Rightarrow> bool" where
  "linked ha prev [] = True"
| "linked ha prev (r # rs) = (al_prev r = prev \<and> row_self_hash ha r prev = al_hash r \<and> linked ha (al_hash r) rs)"

definition end_hash :: "string \<Rightarrow> audit_row list \<Rightarrow> string" where
  "end_hash prev rows = (if rows = [] then prev else al_hash (last rows))"

lemma end_hash_simps [simp]: "end_hash p [] = p" "end_hash p (rs @ [r]) = al_hash r" "end_hash p (r # rs) = end_hash (al_hash r) rs"
  by (simp_all add: end_hash_def)

lemma linked_append: "linked ha p (a @ b) \<longleftrightarrow> linked ha p a \<and> linked ha (end_hash p a) b"
  by (induction a arbitrary: p) auto

lemma verify_rows_linked: "ve_ok (verify_rows ha n i p rows) \<longleftrightarrow> linked ha p rows"
  by (induction rows arbitrary: n i p) auto

lemma verify_rows_result:
  "linked ha p rows \<Longrightarrow> verify_rows ha n i p rows =
     \<lparr>ve_ok = True, ve_checked = n + length rows, ve_last_id = (if rows = [] then i else al_id (last rows)),
      ve_last_hash = end_hash p rows, ve_failed = None, ve_reason = []\<rparr>"
  by (induction rows arbitrary: n i p) auto

definition cursor_at :: "audit_row list \<Rightarrow> verifier_cursor \<Rightarrow> bool" where
  "cursor_at a c \<longleftrightarrow>
     (if a = [] then vc_last_id c = 0 \<and> (vc_last_hash c = [] \<or> vc_last_hash c = genesis)
      else vc_last_id c = al_id (last a) \<and> vc_last_hash c = al_hash (last a))"

definition audit_inv :: "hash_env \<Rightarrow> audit_state \<Rightarrow> bool" where
  "audit_inv ha st \<longleftrightarrow>
     linked ha genesis (au_log st) \<and> sorted_wrt (<) (map al_id (au_log st)) \<and>
     (\<forall>r\<in>set (au_log st). 0 < al_id r \<and> al_id r < au_next st \<and> al_hash r \<noteq> []) \<and> 0 < au_next st \<and>
     (\<exists>a b. au_log st = a @ b \<and> cursor_at a (au_cursor st))"

lemma last_hash_end: "(\<forall>r\<in>set rows. al_hash r \<noteq> []) \<Longrightarrow> last_hash rows = end_hash genesis rows"
  by (simp add: last_hash_def end_hash_def)

lemma emission_row_fields:
  "al_id (emission_row ha now em st) = au_next st" "al_prev (emission_row ha now em st) = last_hash (au_log st)"
  "al_hash (emission_row ha now em st) = row_self_hash ha (emission_row ha now em st) (last_hash (au_log st))"
  by (simp_all add: emission_row_def Let_def row_self_hash_def canonical_payload_def payload_object_def)

lemma emit_inv:
  assumes inv: "audit_inv ha st" and sha: "\<And>x. ha_sha ha x \<noteq> []"
  shows "audit_inv ha (fst (emit ha accepts now em st))"
proof (cases "accepts (emission_row ha now em st)")
  case True
  let ?r = "emission_row ha now em st"
  have h: "\<forall>r\<in>set (au_log st). al_hash r \<noteq> []" using inv by (simp add: audit_inv_def)
  have "al_hash ?r \<noteq> []" using sha by (subst emission_row_fields) (simp add: row_self_hash_def compute_self_hash_def)
  moreover have "linked ha genesis (au_log st @ [?r])"
    using inv emission_row_fields [of ha now em st] by (simp add: linked_append audit_inv_def last_hash_end [OF h])
  moreover obtain a b where "au_log st = a @ b" "cursor_at a (au_cursor st)" using inv by (auto simp: audit_inv_def)
  then have "\<exists>a' b'. au_log st @ [?r] = a' @ b' \<and> cursor_at a' (au_cursor st)" by (metis append_assoc)
  ultimately show ?thesis
    using inv True by (auto simp: emit_def Let_def audit_inv_def emission_row_fields(1) sorted_wrt_append)
next
  case False
  then show ?thesis using inv by (simp add: emit_def Let_def)
qed

lemma verify_from_cursor:
  assumes "audit_inv ha st"
  shows "ve_ok (verify_chain ha (vc_last_id (au_cursor st)) (vc_last_hash (au_cursor st)) (au_log st)) \<and>
    (\<exists>a b. au_log st = a @ b \<and> cursor_at a \<lparr>
       vc_last_id = ve_last_id (verify_chain ha (vc_last_id (au_cursor st)) (vc_last_hash (au_cursor st)) (au_log st)),
       vc_last_hash = ve_last_hash (verify_chain ha (vc_last_id (au_cursor st)) (vc_last_hash (au_cursor st)) (au_log st)),
       vc_run_at = t, vc_result = res\<rparr>)"
proof -
  let ?c = "au_cursor st"
  obtain a b where ab: "au_log st = a @ b" "cursor_at a ?c" using assms by (auto simp: audit_inv_def)
  have s: "sorted_wrt (<) (map al_id (a @ b))" and pos: "\<forall>r\<in>set (a @ b). 0 < al_id r \<and> al_hash r \<noteq> []"
    and l: "linked ha genesis (a @ b)"
    using assms by (auto simp: audit_inv_def ab(1))
  have tail: "filter (\<lambda>r. vc_last_id ?c < al_id r) (a @ b) = b"
  proof (cases a rule: rev_cases)
    case Nil
    then show ?thesis using ab(2) pos by (simp add: cursor_at_def filter_id_conv)
  next
    case (snoc xs x)
    then have id: "vc_last_id ?c = al_id x" using ab(2) by (simp add: cursor_at_def)
    have "\<forall>r\<in>set xs. al_id r < al_id x" "\<forall>r\<in>set b. al_id x < al_id r"
      using s by (auto simp: snoc sorted_wrt_append)
    then show ?thesis by (auto simp: snoc id filter_empty_conv filter_id_conv dest: less_asym)
  qed
  have prev: "(if vc_last_hash ?c = [] then genesis else vc_last_hash ?c) = end_hash genesis a"
    using ab(2) pos by (cases a rule: rev_cases) (auto simp: cursor_at_def genesis_def)
  have lb: "linked ha (end_hash genesis a) b" using l by (simp add: linked_append)
  have res: "verify_chain ha (vc_last_id ?c) (vc_last_hash ?c) (au_log st) = verify_rows ha 0 (vc_last_id ?c) (end_hash genesis a) b"
    by (simp only: verify_chain_def ab(1) prev tail)
  have "cursor_at (a @ b) \<lparr>vc_last_id = ve_last_id (verify_rows ha 0 (vc_last_id ?c) (end_hash genesis a) b),
     vc_last_hash = ve_last_hash (verify_rows ha 0 (vc_last_id ?c) (end_hash genesis a) b), vc_run_at = t, vc_result = res\<rparr>"
    unfolding verify_rows_result [OF lb] using ab(2) by (cases "b = []") (auto simp: cursor_at_def end_hash_def)
  moreover have "au_log st = (a @ b) @ []" by (simp add: ab(1))
  moreover have "ve_ok (verify_rows ha 0 (vc_last_id ?c) (end_hash genesis a) b)" using lb by (simp add: verify_rows_linked)
  ultimately show ?thesis unfolding res by blast
qed

lemma run_verifier_inv:
  assumes "audit_inv ha st" and "\<And>x. ha_sha ha x \<noteq> []"
  shows "audit_inv ha (fst (run_verifier ha accepts now triggers secs st)) \<and> ve_ok (snd (run_verifier ha accepts now triggers secs st))"
proof -
  note v = verify_from_cursor [OF assms(1)]
  let ?res = "verify_chain ha (vc_last_id (au_cursor st)) (vc_last_hash (au_cursor st)) (au_log st)"
  have moved: "audit_inv ha (st\<lparr>au_cursor := \<lparr>vc_last_id = ve_last_id ?res, vc_last_hash = ve_last_hash ?res,
      vc_run_at = t, vc_result = r\<rparr>\<rparr>)" for t r
    using assms(1) v [of t r] by (simp add: audit_inv_def)
  have failed: "audit_inv ha (st\<lparr>au_cursor := (au_cursor st)\<lparr>vc_run_at := t, vc_result := r\<rparr>, au_mails := m\<rparr>)" for t r m
  proof -
    have "cursor_at a ((au_cursor st)\<lparr>vc_run_at := t, vc_result := r\<rparr>) = cursor_at a (au_cursor st)" for a
      by (simp add: cursor_at_def)
    then show ?thesis using assms(1) by (simp add: audit_inv_def)
  qed
  show ?thesis
    using v [of None "[]"] emit_inv [OF moved assms(2)] emit_inv [OF failed assms(2)]
    by (cases triggers) (simp_all add: run_verifier_def Let_def)
qed

text \<open>Everything that writes the log.\<close>

datatype audit_op = Emit int emission | Verify int bool string

fun run_audit :: "hash_env \<Rightarrow> (audit_row \<Rightarrow> bool) \<Rightarrow> audit_op list \<Rightarrow> audit_state \<Rightarrow> audit_state" where
  "run_audit ha accepts [] st = st"
| "run_audit ha accepts (Emit now em # ops) st = run_audit ha accepts ops (fst (emit ha accepts now em st))"
| "run_audit ha accepts (Verify now tr secs # ops) st = run_audit ha accepts ops (fst (run_verifier ha accepts now tr secs st))"

definition fresh_audit :: audit_state where
  "fresh_audit = \<lparr>au_log = [], au_next = 1, au_cursor = \<lparr>vc_last_id = 0, vc_last_hash = [], vc_run_at = None, vc_result = []\<rparr>,
     au_mails = []\<rparr>"


definition sample_hash :: hash_env where
  "sample_hash = \<lparr>ha_sha = (\<lambda>s. take 64 (rev s @ genesis)), ha_dumps = json_repr, ha_iso = int_str\<rparr>"

lemma sample_hash_length: "length (ha_sha sample_hash x) = 64"
  by (simp add: sample_hash_def genesis_def)


subsection \<open>Tampering\<close>

definition chain_texts :: "hash_env \<Rightarrow> audit_row list \<Rightarrow> string set" where
  "chain_texts ha rows = (\<lambda>r. al_prev r @ canonical_payload ha r) ` set rows"

lemma linked_end_length:
  assumes "\<And>x. length (ha_sha ha x) = 64"
  shows "linked ha p rows \<Longrightarrow> length p = 64 \<Longrightarrow> length (end_hash p rows) = 64"
proof (induction rows arbitrary: p)
  case (Cons r rs)
  then have "al_hash r = ha_sha ha (p @ canonical_payload ha r)" by (simp add: row_self_hash_def compute_self_hash_def)
  with Cons assms show ?case by simp
qed simp

lemma linked_determines:
  assumes len: "\<And>x. length (ha_sha ha x) = 64" and p: "length p = 64"
  shows "length rows = length rows' \<Longrightarrow> linked ha p rows \<Longrightarrow> linked ha p rows' \<Longrightarrow> end_hash p rows = end_hash p rows' \<Longrightarrow>
    inj_on (ha_sha ha) (chain_texts ha rows \<union> chain_texts ha rows') \<Longrightarrow>
    inj_on (ha_dumps ha) (payload_object ha ` (set rows \<union> set rows')) \<Longrightarrow>
    map (payload_object ha) rows = map (payload_object ha) rows' \<and> map al_hash rows = map al_hash rows'"
proof (induction rows arbitrary: rows' rule: rev_induct)
  case (snoc x xs)
  then obtain y ys where r': "rows' = ys @ [y]" by (cases rows' rule: rev_cases) auto
  note pr = snoc.prems [unfolded r']
  have x: "al_prev x = end_hash p xs" "al_hash x = ha_sha ha (end_hash p xs @ canonical_payload ha x)" "linked ha p xs"
    using pr(2) by (simp_all add: linked_append row_self_hash_def compute_self_hash_def)
  have y: "al_prev y = end_hash p ys" "al_hash y = ha_sha ha (end_hash p ys @ canonical_payload ha y)" "linked ha p ys"
    using pr(3) by (simp_all add: linked_append row_self_hash_def compute_self_hash_def)
  have "al_hash x = al_hash y" using pr(4) by simp
  then have "ha_sha ha (end_hash p xs @ canonical_payload ha x) = ha_sha ha (end_hash p ys @ canonical_payload ha y)"
    by (simp only: x(2) y(2))
  moreover have "end_hash p xs @ canonical_payload ha x \<in> chain_texts ha (xs @ [x]) \<union> chain_texts ha (ys @ [y])"
    "end_hash p ys @ canonical_payload ha y \<in> chain_texts ha (xs @ [x]) \<union> chain_texts ha (ys @ [y])"
    using x(1) y(1) by (auto simp: chain_texts_def)
  ultimately have "end_hash p xs @ canonical_payload ha x = end_hash p ys @ canonical_payload ha y"
    by (rule inj_onD [OF pr(5)])
  moreover have "length (end_hash p xs) = length (end_hash p ys)"
    using linked_end_length [OF len x(3) p] linked_end_length [OF len y(3) p] by simp
  ultimately have e: "end_hash p xs = end_hash p ys" "canonical_payload ha x = canonical_payload ha y" by simp_all
  have "payload_object ha x = payload_object ha y"
    by (rule inj_onD [OF pr(6)]) (use e(2) in \<open>simp_all add: canonical_payload_def\<close>)
  moreover have "map (payload_object ha) xs = map (payload_object ha) ys \<and> map al_hash xs = map al_hash ys"
  proof (rule snoc.IH [OF _ x(3) y(3) e(1)])
    show "inj_on (ha_sha ha) (chain_texts ha xs \<union> chain_texts ha ys)"
      by (rule inj_on_subset [OF pr(5)]) (auto simp: chain_texts_def)
    show "inj_on (ha_dumps ha) (payload_object ha ` (set xs \<union> set ys))"
      by (rule inj_on_subset [OF pr(6)]) auto
  qed (use pr(1) in simp)
  ultimately show ?case using \<open>al_hash x = al_hash y\<close> by (simp add: r')
qed simp

text \<open>The hashed content of a row determines the fields it records.\<close>

lemma payload_object_fields:
  assumes "payload_object ha r = payload_object ha r'"
  shows "al_event r = al_event r' \<and> al_user r = al_user r' \<and> al_actor r = al_actor r' \<and> al_entity r = al_entity r' \<and>
    al_entity_id r = al_entity_id r' \<and> opt_json (al_after r) = opt_json (al_after r') \<and>
    opt_json (al_before r) = opt_json (al_before r') \<and> ha_iso ha (al_at r) = ha_iso ha (al_at r')"
  using assms by (auto simp: payload_object_def opt_id_def nat_str_inj split: option.splits)


definition sample_audit_rows :: "audit_row list" where
  "sample_audit_rows = au_log (fst (emit sample_hash (\<lambda>r. True) 5
     (plain_emission ''order.submitted'' ''order'' ''11'' []) fresh_audit))"


end
