(* ===== verification/Flags.thy ===== *)
theory Flags
  imports Cache "HOL-Library.AList"
begin

text \<open>
  Feature flags and the live-trading gate (\<open>admin_portal/flags.py\<close>, \<open>brokers/live_gate.py\<close>).
  The state is what one process sees: its local cache, the shared cache (an entry is the
  override, \<open>None\<close> the sentinel for no override), the table of overrides and the audited
  flips. \<open>flag_env\<close> has the registry, the settings, both clocks and which stores answer. The
  lemmas show that the gate is closed whenever the settings say so, how long a revocation
  takes to reach every process, and that it is neither immediate nor safe from an outage.
\<close>

record flag_entry =
  fr_default :: bool
  fr_mutable :: bool
  fr_dangerous :: bool
  fr_description :: string

datatype table_status = TableUp | TableMissing | TableDown

record flag_env =
  fl_registry :: "(string \<times> flag_entry) list"
  fl_settings :: "string \<Rightarrow> bool option"
  fl_mono :: int
  fl_now :: int
  fl_redis_reads :: bool
  fl_redis_writes :: bool
  fl_table :: table_status

record flags =
  fs_local :: "string \<rightharpoonup> (bool option \<times> int)"
  fs_redis :: "bool option cache"
  fs_rows :: "(string \<times> bool) list"
  fs_audits :: "(string \<times> bool \<times> bool \<times> string) list"

datatype flag_error = FlagUnknown | FlagImmutable | FlagTableError

subsection \<open>Reading\<close>

definition local_cache_ttl :: int where
  "local_cache_ttl = seconds 30"

definition redis_ttl :: int where
  "redis_ttl = 60"

definition redis_key :: "string \<Rightarrow> string" where
  "redis_key name = ''flag:'' @ name"

definition env_default :: "flag_env \<Rightarrow> string \<Rightarrow> bool" where
  "env_default env name =
     (case fl_settings env name of
        Some v \<Rightarrow> v
      | None \<Rightarrow> (case map_of (fl_registry env) name of Some r \<Rightarrow> fr_default r | None \<Rightarrow> False))"

definition cache_local :: "flag_env \<Rightarrow> string \<Rightarrow> bool option \<Rightarrow> flags \<Rightarrow> flags" where
  "cache_local env name override st =
     st\<lparr>fs_local := (fs_local st)(name \<mapsto> (override, fl_mono env + local_cache_ttl))\<rparr>"

definition bust_local :: "string \<Rightarrow> flags \<Rightarrow> flags" where
  "bust_local name st = st\<lparr>fs_local := (fs_local st)(name := None)\<rparr>"

definition local_hit :: "flag_env \<Rightarrow> string \<Rightarrow> flags \<Rightarrow> bool option option" where
  "local_hit env name st =
     (case fs_local st name of None \<Rightarrow> None | Some (v, e) \<Rightarrow> if fl_mono env < e then Some v else None)"

definition redis_hit :: "flag_env \<Rightarrow> string \<Rightarrow> flags \<Rightarrow> bool option option" where
  "redis_hit env name st = (if fl_redis_reads env then cache_get (fs_redis st) (fl_now env) (redis_key name) else None)"

definition write_redis :: "flag_env \<Rightarrow> string \<Rightarrow> bool option \<Rightarrow> flags \<Rightarrow> flags" where
  "write_redis env name override st =
     (if fl_redis_writes env
      then st\<lparr>fs_redis := cache_set (fs_redis st) (fl_now env) (redis_key name) override redis_ttl\<rparr> else st)"

definition resolve_override :: "flag_env \<Rightarrow> string \<Rightarrow> flags \<Rightarrow> flags \<times> bool option" where
  "resolve_override env name st =
     (case local_hit env name st of
        Some v \<Rightarrow> (st, v)
      | None \<Rightarrow>
          (case redis_hit env name st of
             Some v \<Rightarrow> (cache_local env name v st, v)
           | None \<Rightarrow>
               (case fl_table env of
                  TableMissing \<Rightarrow> (st, None)
                | TableDown \<Rightarrow> (cache_local env name None st, None)
                | TableUp \<Rightarrow>
                    (let override = map_of (fs_rows st) name
                     in (cache_local env name override (write_redis env name override st), override)))))"

definition is_enabled :: "flag_env \<Rightarrow> string \<Rightarrow> flags \<Rightarrow> flags \<times> bool" where
  "is_enabled env name st =
     (case map_of (fl_registry env) name of
        Some r \<Rightarrow>
          if \<not> fr_mutable r then (st, case fl_settings env name of Some v \<Rightarrow> v | None \<Rightarrow> fr_default r)
          else (let (st', override) = resolve_override env name st
                in (st', case override of Some v \<Rightarrow> v | None \<Rightarrow> env_default env name))
      | None \<Rightarrow>
          (let (st', override) = resolve_override env name st
           in (st', case override of Some v \<Rightarrow> v | None \<Rightarrow> env_default env name)))"

text \<open>\<open>None\<close> is an exception other than a missing table, which reaches the caller.\<close>

definition flag_source :: "flag_env \<Rightarrow> string \<Rightarrow> flags \<Rightarrow> string option" where
  "flag_source env name st =
     (if (case map_of (fl_registry env) name of Some r \<Rightarrow> \<not> fr_mutable r | None \<Rightarrow> False) then Some ''env-default''
      else case fl_table env of
             TableMissing \<Rightarrow> Some ''env-default''
           | TableDown \<Rightarrow> None
           | TableUp \<Rightarrow> Some (if map_of (fs_rows st) name = None then ''env-default'' else ''db''))"

subsection \<open>Flipping\<close>

definition set_flag :: "flag_env \<Rightarrow> string \<Rightarrow> bool \<Rightarrow> string \<Rightarrow> flags \<Rightarrow> flags \<times> flag_error option" where
  "set_flag env name enabled note st =
     (case map_of (fl_registry env) name of
        None \<Rightarrow> (st, Some FlagUnknown)
      | Some r \<Rightarrow>
          if \<not> fr_mutable r then (st, Some FlagImmutable)
          else
            let (st1, before) = is_enabled env name st
            in if fl_table env \<noteq> TableUp then (st1, Some FlagTableError)
               else
                 let st2 = st1\<lparr>fs_rows := AList.update name enabled (fs_rows st1)\<rparr>;
                     st3 = bust_local name (write_redis env name (Some enabled) st2)
                 in (st3\<lparr>fs_audits := fs_audits st3 @ [(name, before, enabled, note)]\<rparr>, None))"

record flag_view =
  fv_name :: string
  fv_enabled :: bool
  fv_source :: string
  fv_mutable :: bool
  fv_dangerous :: bool
  fv_description :: string
  fv_default :: bool

definition flag_state :: "flag_env \<Rightarrow> string \<Rightarrow> flags \<Rightarrow> flags \<times> flag_view option" where
  "flag_state env name st =
     (let (st', en) = is_enabled env name st; r = map_of (fl_registry env) name
      in (st', map_option (\<lambda>src.
            \<lparr>fv_name = name, fv_enabled = en, fv_source = src,
             fv_mutable = (case r of None \<Rightarrow> False | Some x \<Rightarrow> fr_mutable x),
             fv_dangerous = (case r of None \<Rightarrow> False | Some x \<Rightarrow> fr_dangerous x),
             fv_description = (case r of None \<Rightarrow> [] | Some x \<Rightarrow> fr_description x),
             fv_default = (case r of None \<Rightarrow> False | Some x \<Rightarrow> fr_default x)\<rparr>) (flag_source env name st')))"

subsection \<open>The live-trading gate\<close>

definition live_flag :: string where
  "live_flag = ''ENABLE_LIVE_TRADING''"

definition live_trading_permitted :: "flag_env \<Rightarrow> flags \<Rightarrow> flags \<times> bool" where
  "live_trading_permitted env st =
     (if fl_settings env live_flag \<noteq> Some True then (st, False) else is_enabled env live_flag st)"

lemma resolve_override_value:
  "snd (resolve_override env name st) =
     (case local_hit env name st of
        Some v \<Rightarrow> v
      | None \<Rightarrow> (case redis_hit env name st of
                  Some v \<Rightarrow> v
                | None \<Rightarrow> if fl_table env = TableUp then map_of (fs_rows st) name else None))"
  by (simp add: resolve_override_def Let_def split: option.split table_status.split)

lemma is_enabled_mutable:
  assumes "map_of (fl_registry env) name = Some r" "fr_mutable r"
  shows "snd (is_enabled env name st) =
    (case snd (resolve_override env name st) of Some v \<Rightarrow> v | None \<Rightarrow> env_default env name)"
  using assms by (simp add: is_enabled_def case_prod_beta Let_def)

lemma set_flag_result:
  assumes "set_flag env name enabled note st = (st', None)"
  shows "map_of (fs_rows st') name = Some enabled \<and>
    (fl_redis_writes env \<longrightarrow> fs_redis st' (redis_key name) = Some (Some enabled, fl_now env + seconds redis_ttl))"
  using assms
  by (auto simp: set_flag_def Let_def case_prod_beta bust_local_def write_redis_def cache_set_def
      update_Some_unfold map_of_eq_None_iff AList.update_conv' split: option.splits if_splits)

text \<open>
  A revocation reaches every process within the lifetime of its local cache. After the
  flag was switched off at one process, any process, whatever its local cache held (no entry
  of it outlives 30 seconds from that moment), refuses live trading from 30 seconds on, as
  long as the table answers; and no process ever permits it while the settings forbid it.
\<close>

theorem live_revocation_bounded:
  assumes flip: "set_flag envA live_flag False note stA = (stA', None)" and written: "fl_redis_writes envA"
    and other: "stB = stA'\<lparr>fs_local := locals\<rparr>"
    and young: "\<And>n v e. locals n = Some (v, e) \<Longrightarrow> e \<le> clock + local_cache_ttl"
    and since: "fl_now envB = fl_now envA + d" "fl_mono envB = clock + d" "local_cache_ttl \<le> d" "fl_table envB = TableUp"
    and reg: "map_of (fl_registry envB) live_flag = Some r" "fr_mutable r"
  shows "\<not> snd (live_trading_permitted envB stB) \<and>
    (fl_settings envC live_flag \<noteq> Some True \<longrightarrow> \<not> snd (live_trading_permitted envC stB))"
proof -
  have rows: "map_of (fs_rows stB) live_flag = Some False"
    and redis: "fs_redis stB (redis_key live_flag) = Some (Some False, fl_now envA + seconds redis_ttl)"
    using set_flag_result [OF flip] written other by simp_all
  have "local_hit envB live_flag stB = None"
    using young since(2,3) other by (force simp: local_hit_def split: option.split)
  moreover have "redis_hit envB live_flag stB \<in> {None, Some (Some False)}"
    using redis by (simp add: redis_hit_def cache_get_def)
  ultimately have "snd (resolve_override envB live_flag stB) = Some False"
    using rows since(4) by (auto simp: resolve_override_value)
  then have "\<not> snd (live_trading_permitted envB stB)"
    using is_enabled_mutable [OF reg] by (simp add: live_trading_permitted_def)
  then show ?thesis by (simp add: live_trading_permitted_def)
qed

definition sample_flags_env :: flag_env where
  "sample_flags_env = \<lparr>fl_registry = [(live_flag, \<lparr>fr_default = True, fr_mutable = True, fr_dangerous = True, fr_description = []\<rparr>)],
     fl_settings = (\<lambda>n. Some True), fl_mono = 0, fl_now = 0, fl_redis_reads = True, fl_redis_writes = True, fl_table = TableUp\<rparr>"

definition sample_flags :: flags where
  "sample_flags = \<lparr>fs_local = Map.empty, fs_redis = Map.empty, fs_rows = [], fs_audits = []\<rparr>"

definition revoked_flags :: flags where
  "revoked_flags = \<lparr>fs_local = Map.empty, fs_redis = [redis_key live_flag \<mapsto> (Some False, seconds redis_ttl)],
     fs_rows = [(live_flag, False)], fs_audits = [(live_flag, True, False, [])]\<rparr>"

lemma sample_revocation: "set_flag sample_flags_env live_flag False [] sample_flags = (revoked_flags, None)"
  by (simp add: set_flag_def sample_flags_env_def sample_flags_def revoked_flags_def Let_def is_enabled_def
      resolve_override_def local_hit_def redis_hit_def cache_get_def cache_local_def write_redis_def bust_local_def
      cache_set_def env_default_def redis_ttl_def seconds_def)

theorem live_revocation_bounded_witness:
  "\<not> snd (live_trading_permitted (sample_flags_env\<lparr>fl_now := seconds 30, fl_mono := seconds 30\<rparr>)
     (revoked_flags\<lparr>fs_local := [live_flag \<mapsto> (Some True, seconds 30)]\<rparr>))"
proof -
  let ?envB = "sample_flags_env\<lparr>fl_now := seconds 30, fl_mono := seconds 30\<rparr>"
  have env: "fl_redis_writes sample_flags_env" "fl_now ?envB = fl_now sample_flags_env + seconds 30" "fl_mono ?envB = 0 + seconds 30"
    "fl_table ?envB = TableUp" "map_of (fl_registry ?envB) live_flag = Some \<lparr>fr_default = True, fr_mutable = True, fr_dangerous = True, fr_description = []\<rparr>"
    by (simp_all add: sample_flags_env_def)
  have ttl: "local_cache_ttl \<le> seconds 30" by (simp add: local_cache_ttl_def)
  have "e \<le> 0 + local_cache_ttl" if "[live_flag \<mapsto> (Some True, seconds 30)] n = Some (v, e)" for n v e
    using that by (simp add: local_cache_ttl_def split: if_splits)
  from live_revocation_bounded [where locals = "[live_flag \<mapsto> (Some True, seconds 30)]",
      OF sample_revocation env(1) refl this env(2,3) ttl env(4,5)]
  show ?thesis by simp
qed

text \<open>
  The revocation is not immediate, and an outage undoes it: a process that read the flag just
  before keeps permitting live trading for up to 30 seconds, and once the shared entry has
  expired and the table is unreachable the gate fails open to the settings.
\<close>

theorem live_revocation_not_instant:
  "snd (live_trading_permitted (sample_flags_env\<lparr>fl_now := seconds 29, fl_mono := seconds 29\<rparr>)
     (revoked_flags\<lparr>fs_local := [live_flag \<mapsto> (Some True, seconds 30)]\<rparr>)) \<and>
   snd (live_trading_permitted (sample_flags_env\<lparr>fl_now := seconds 61, fl_mono := seconds 61, fl_table := TableDown\<rparr>)
     revoked_flags)"
  by (simp add: live_trading_permitted_def is_enabled_def resolve_override_def local_hit_def redis_hit_def cache_get_def
      sample_flags_env_def revoked_flags_def env_default_def redis_ttl_def seconds_def)

end
