(* ===== verification/Broker_Calls.thy ===== *)
theory Broker_Calls
  imports Flags Reconcile
begin

text \<open>
  What every broker adapter is built from: the error taxonomy (\<open>brokers/errors.py\<close>), the
  context an adapter is constructed with (\<open>brokers/base.py\<close>), the audit row of a call
  (\<open>brokers/audit.py\<close>), the translation of SDK exceptions (\<open>brokers/alpaca/errors.py\<close>) and
  the defensive reads of payloads. An SDK object or a JSON object is the list of its
  attributes; an enum member stands for its value. The locale \<open>acking_adapter\<close> is the
  contract of an adapter whose acknowledgements the order path can store.
\<close>

type_synonym attrs = "(string \<times> json) list"

subsection \<open>Errors\<close>

datatype error_code =
    AUTH_FAILED | LIVE_KEYS_FORBIDDEN | PAPER_KEYS_ON_LIVE | LIVE_TRADING_DISABLED | LIVE_REQUIRES_RISK_PROFILE
  | RATE_LIMITED | UNSUPPORTED_ASSET | UNSUPPORTED_ORDER_TYPE | UNAVAILABLE | NOT_CONNECTED | DISABLED
  | ORDER_REJECTED | UNKNOWN

primrec error_code_str :: "error_code \<Rightarrow> string" where
  "error_code_str AUTH_FAILED = ''BROKER_AUTH_FAILED''"
| "error_code_str LIVE_KEYS_FORBIDDEN = ''BROKER_LIVE_KEYS_FORBIDDEN''"
| "error_code_str PAPER_KEYS_ON_LIVE = ''BROKER_PAPER_KEYS_ON_LIVE''"
| "error_code_str LIVE_TRADING_DISABLED = ''BROKER_LIVE_TRADING_DISABLED''"
| "error_code_str LIVE_REQUIRES_RISK_PROFILE = ''BROKER_LIVE_REQUIRES_RISK_PROFILE''"
| "error_code_str RATE_LIMITED = ''BROKER_RATE_LIMITED''"
| "error_code_str UNSUPPORTED_ASSET = ''ORDER_UNSUPPORTED_ASSET''"
| "error_code_str UNSUPPORTED_ORDER_TYPE = ''ORDER_UNSUPPORTED_TYPE''"
| "error_code_str UNAVAILABLE = ''BROKER_UNAVAILABLE''"
| "error_code_str NOT_CONNECTED = ''NO_BROKER_CONNECTED''"
| "error_code_str DISABLED = ''BROKER_DISABLED''"
| "error_code_str ORDER_REJECTED = ''BROKER_ORDER_REJECTED''"
| "error_code_str UNKNOWN = ''BROKER_UNKNOWN_ERROR''"

record call_error =
  ce_code :: string
  ce_message :: string
  ce_retryable :: bool
  ce_status :: "int option"

definition broker_error :: "string \<Rightarrow> string \<Rightarrow> bool \<Rightarrow> int option \<Rightarrow> call_error" where
  "broker_error code message retryable status =
     \<lparr>ce_code = code, ce_message = (if message = [] then code else message), ce_retryable = retryable,
      ce_status = status\<rparr>"

text \<open>An operation fails with a \<open>BrokerError\<close> or lets another exception through.\<close>

datatype fault = Fault call_error | Crash

definition error_exn :: "call_error \<Rightarrow> broker_exn" where
  "error_exn e = BrokerError (ce_code e) (ce_retryable e)"

primrec fault_exn :: "fault \<Rightarrow> broker_exn" where
  "fault_exn (Fault e) = error_exn e"
| "fault_exn Crash = OtherExn"

text \<open>An exception of an SDK: its attributes, its text and the name of its class.\<close>

record sdk_exn =
  se_attrs :: attrs
  se_text :: string
  se_class :: string

datatype raised = RaisedBroker call_error | RaisedSdk sdk_exn

definition retryable_status :: "int list" where
  "retryable_status = [429, 500, 502, 503, 504]"

definition live_key_prefixes :: "string list" where
  "live_key_prefixes = [''AK'', ''BK'']"

definition paper_key_prefixes :: "string list" where
  "paper_key_prefixes = [''PK'']"

definition looks_like_live_key :: "string \<Rightarrow> bool" where
  "looks_like_live_key key \<longleftrightarrow> key \<noteq> [] \<and> list_ex (py_startswith (py_upper key)) live_key_prefixes"

definition looks_like_paper_key :: "string \<Rightarrow> bool" where
  "looks_like_paper_key key \<longleftrightarrow> key \<noteq> [] \<and> list_ex (py_startswith (py_upper key)) paper_key_prefixes"

definition http_status :: "json \<Rightarrow> int option" where
  "http_status v = (case v of JInt n \<Rightarrow> if 100 \<le> n \<and> n \<le> 599 then Some n else None | _ \<Rightarrow> None)"

definition status_of :: "sdk_exn \<Rightarrow> int option" where
  "status_of x =
     (case http_status (dict_get_or ''status_code'' JNull (se_attrs x)) of
        Some n \<Rightarrow> Some n
      | None \<Rightarrow> http_status (dict_get_or ''code'' JNull (se_attrs x)))"

definition map_sdk_error :: "sdk_exn \<Rightarrow> call_error" where
  "map_sdk_error x =
     (let status = status_of x;
          msg = (if take 200 (se_text x) = [] then se_class x else take 200 (se_text x))
      in if status \<in> {Some 401, Some 403}
         then broker_error (error_code_str AUTH_FAILED) ''Broker authentication failed.'' False status
         else if status = Some 429
         then broker_error (error_code_str RATE_LIMITED) ''Broker rate limit exceeded.'' True status
         else if (case status of None \<Rightarrow> False | Some n \<Rightarrow> 500 \<le> n \<and> n < 600)
         then broker_error (error_code_str UNAVAILABLE) ''Broker temporarily unavailable.'' True status
         else if status \<in> {Some 400, Some 422}
         then broker_error (error_code_str ORDER_REJECTED) ''Broker rejected the order.'' False status
         else broker_error (error_code_str UNKNOWN) msg False status)"

primrec map_api_error :: "raised \<Rightarrow> call_error" where
  "map_api_error (RaisedBroker e) = e"
| "map_api_error (RaisedSdk x) = map_sdk_error x"

text \<open>
  The translation is what the order path decides on: an error is retryable exactly for a rate
  limit and for the server's own failures, whatever attribute carries the status.
\<close>

lemma map_sdk_error_retryable:
  "ce_retryable (map_sdk_error x) \<longleftrightarrow> (\<exists>n. status_of x = Some n \<and> (n = 429 \<or> 500 \<le> n))"
proof (cases "status_of x")
  case None
  then show ?thesis by (simp add: map_sdk_error_def Let_def broker_error_def)
next
  case (Some n)
  then have "n \<le> 599"
    by (auto simp: status_of_def http_status_def split: option.splits json.splits if_splits)
  with Some show ?thesis by (simp add: map_sdk_error_def Let_def broker_error_def)
qed

lemma map_sdk_error_status [simp]: "ce_status (map_sdk_error x) = status_of x"
  by (simp add: map_sdk_error_def Let_def broker_error_def)

subsection \<open>Context and audit rows\<close>

record broker_context =
  bc_account :: string
  bc_user :: string
  bc_key :: string
  bc_secret :: string
  bc_number :: string
  bc_mode :: string

definition is_paper :: "broker_context \<Rightarrow> bool" where
  "is_paper ctx \<longleftrightarrow> bc_mode ctx \<noteq> ''LIVE''"

record call_row =
  cr_account :: "string option"
  cr_user :: "string option"
  cr_broker :: string
  cr_endpoint :: string
  cr_method :: string
  cr_status :: "int option"
  cr_ok :: bool
  cr_code :: string

text \<open>What a call leaves behind: the rows of its audit and the pauses between its attempts.\<close>

datatype call_event = CallRow call_row | Slept nat

definition record_broker_call :: "call_row \<Rightarrow> call_event list \<Rightarrow> call_event list" where
  "record_broker_call r tr =
     tr @ [CallRow (r\<lparr>cr_endpoint := take 64 (cr_endpoint r), cr_method := take 8 (cr_method r),
                     cr_code := take 48 (cr_code r)\<rparr>)]"

subsection \<open>What an adapter answers\<close>

datatype conn_state = CONNECTED | DEGRADED | DOWN

record broker_health =
  hl_state :: conn_state
  hl_detail :: string

record connection_info =
  ci_number :: string
  ci_buying_power :: rat
  ci_currency :: string
  ci_is_paper :: bool

subsection \<open>Credentials\<close>

text \<open>The platform's cipher; decryption fails on a foreign token.\<close>

record fernet =
  fn_encrypt :: "string \<Rightarrow> string"
  fn_decrypt :: "string \<Rightarrow> string option"

definition encrypt_key :: "fernet \<Rightarrow> string \<Rightarrow> string" where
  "encrypt_key fn raw = fn_encrypt fn raw"

definition decrypt_key :: "fernet \<Rightarrow> string \<Rightarrow> string option" where
  "decrypt_key fn blob = (if blob = [] then Some [] else fn_decrypt fn blob)"

subsection \<open>Reading payloads\<close>

definition text_or_empty :: "json \<Rightarrow> string" where
  "text_or_empty v = (if py_truthy v then py_str v else [])"

definition dec_or_zero :: "json \<Rightarrow> decimal" where
  "dec_or_zero v =
     (if v = JNull then DFin False 0 0
      else case dec_parse (py_str v) of Some d \<Rightarrow> d | None \<Rightarrow> DFin False 0 0)"

definition enum_value :: "json \<Rightarrow> string" where
  "enum_value v = py_lower (text_or_empty v)"

text \<open>The attributes of a nested object; anything else has none of those that are read.\<close>

definition object_attrs :: "json \<Rightarrow> attrs" where
  "object_attrs v = (case v of JObj d \<Rightarrow> d | _ \<Rightarrow> [])"

text \<open>The amounts of accounts, positions and acknowledgements are finite numbers.\<close>

definition num_or_zero :: "json \<Rightarrow> rat" where
  "num_or_zero v = dec_value (dec_or_zero v)"

definition buy_side_names :: "string list" where
  "buy_side_names = [''BUY'', ''BUY_TO_OPEN'', ''BUY_TO_CLOSE'']"

lemma map_sum_Inr_iff: "map_sum f g x = Inr y \<longleftrightarrow> (\<exists>z. x = Inr z \<and> y = g z)"
  by (cases x) auto

subsection \<open>The contract of an adapter's acknowledgements\<close>

text \<open>
  An acknowledgement carries one of the broker's own statuses, never the local
  \<open>NEEDS_RECONCILE\<close>, so storing it always leaves the ambiguous state; and a resolver that is
  offered answers every probe.
\<close>

locale acking_adapter =
  fixes view :: "'c \<Rightarrow> adapter"
  assumes place_status: "ad_place (view c) rq coid = Inr ack \<Longrightarrow> ak_status ack \<noteq> NEEDS_RECONCILE"
    and flatten_status: "ad_flatten (view c) reason = Inr acks \<Longrightarrow> ack \<in> set acks \<Longrightarrow> ak_status ack \<noteq> NEEDS_RECONCILE"
    and resolve_total: "ad_resolve (view c) = Some f \<Longrightarrow> \<exists>r. f coid = Inr r"
    and resolve_status: "ad_resolve (view c) = Some f \<Longrightarrow> f coid = Inr (Some ack) \<Longrightarrow> ak_status ack \<noteq> NEEDS_RECONCILE"
begin

lemma reconcile_settles:
  assumes "ad_resolve (view c) = Some f"
    and "od \<in> set (d_orders (fst (resolve_needs_reconcile ac (view c) db)))"
  shows "\<not> needs_reconcile (b_id ac) od"
proof
  let ?ods = "filter (needs_reconcile (b_id ac)) (d_orders db)"
  assume n: "needs_reconcile (b_id ac) od"
  have m: "od \<in> set (d_orders (fst (resolve_orders f ?ods db)))"
    using assms by (simp add: resolve_needs_reconcile_def)
  have "od \<in> set (d_orders db) \<and> (\<forall>y\<in>set ?ods. o_id y \<noteq> o_id od)"
    by (rule resolve_orders_done [OF _ _ m])
      (rule resolve_total [OF assms(1)], erule resolve_status [OF assms(1)], use n in \<open>simp add: needs_reconcile_def\<close>)
  then show False using n by (auto dest!: bspec [of _ _ od])
qed

end

text \<open>A market order the witnesses place.\<close>

definition sample_request :: order_request where
  "sample_request = \<lparr>rq_symbol = ''AAPL'', rq_side = Buy, rq_qty = 10, rq_type = MKT, rq_limit = None, rq_stop = None,
     rq_tif = DAY, rq_class = ''STOCK'', rq_option = None, rq_future = None\<rparr>"

end
