(* ===== verification/Alpaca.thy ===== *)
theory Alpaca
  imports Broker_Calls
begin

text \<open>
  The Alpaca adapter (\<open>brokers/alpaca/mapping.py\<close>, \<open>brokers/alpaca/adapter.py\<close>). The SDK's
  clients are the parameter \<open>alpaca_sdk\<close>: what each call does to the world and what it returns
  or raises. An adapter operation runs in the world and the trace of audited calls. The
  random jitter of the pauses and the HTTP timeout are not modelled. The lemmas show that
  a call is tried at most three times and a submit once, that the mode of the account and the
  shape of the key decide whether a connection is opened at all, and what the probe after an
  ambiguous submit concludes.
\<close>

subsection \<open>Requests\<close>

record alpaca_common =
  am_symbol :: string
  am_qty :: rat
  am_side :: broker_side
  am_tif :: time_in_force
  am_coid :: string

datatype alpaca_request =
    MarketOrderRequest alpaca_common
  | LimitOrderRequest rat alpaca_common
  | StopOrderRequest rat alpaca_common
  | StopLimitOrderRequest rat rat alpaca_common

primrec tif_to_alpaca :: "time_in_force \<Rightarrow> time_in_force" where
  "tif_to_alpaca DAY = DAY"
| "tif_to_alpaca GTC = GTC"
| "tif_to_alpaca IOC = IOC"

definition alpaca_side :: "broker_side \<Rightarrow> broker_side" where
  "alpaca_side side = (if broker_side_str side \<in> set buy_side_names then Buy else Sell)"

text \<open>\<open>None\<close> is the \<open>TypeError\<close> of \<open>float(None)\<close>.\<close>

definition build_order_request :: "order_request \<Rightarrow> string \<Rightarrow> alpaca_request option" where
  "build_order_request rq coid =
     (let common = \<lparr>am_symbol = rq_symbol rq, am_qty = fl (rq_qty rq), am_side = alpaca_side (rq_side rq),
                    am_tif = tif_to_alpaca (rq_tif rq), am_coid = coid\<rparr>
      in case rq_type rq of
           LMT \<Rightarrow> map_option (\<lambda>l. LimitOrderRequest (fl l) common) (rq_limit rq)
         | STP \<Rightarrow> map_option (\<lambda>s. StopOrderRequest (fl s) common) (rq_stop rq)
         | STP_LMT \<Rightarrow>
             (case (rq_stop rq, rq_limit rq) of
                (Some s, Some l) \<Rightarrow> Some (StopLimitOrderRequest (fl s) (fl l) common)
              | _ \<Rightarrow> None)
         | MKT \<Rightarrow> Some (MarketOrderRequest common))"

subsection \<open>Responses\<close>

definition alpaca_status_map :: "(string \<times> order_status) list" where
  "alpaca_status_map =
     [(''new'', SUBMITTED), (''accepted'', SUBMITTED), (''accepted_for_bidding'', SUBMITTED),
      (''pending_new'', PENDING_SUBMIT), (''pending_cancel'', SUBMITTED), (''pending_replace'', SUBMITTED),
      (''held'', SUBMITTED), (''partially_filled'', PARTIAL), (''filled'', FILLED), (''done_for_day'', SUBMITTED),
      (''canceled'', CANCELLED), (''cancelled'', CANCELLED), (''expired'', CANCELLED), (''replaced'', CANCELLED),
      (''stopped'', SUBMITTED), (''rejected'', REJECTED), (''suspended'', SUBMITTED), (''calculated'', SUBMITTED)]"

definition alpaca_event_map :: "(string \<times> string) list" where
  "alpaca_event_map =
     [(''new'', ''new''), (''fill'', ''fill''), (''partial_fill'', ''partial_fill''), (''canceled'', ''canceled''),
      (''cancelled'', ''canceled''), (''rejected'', ''rejected''), (''expired'', ''canceled''),
      (''done_for_day'', ''new''), (''replaced'', ''canceled''), (''accepted'', ''new''), (''pending_new'', ''new'')]"

definition map_account :: "attrs \<Rightarrow> bool \<Rightarrow> account_info" where
  "map_account acct paper =
     \<lparr>ai_number = text_or_empty (dict_get_or ''account_number'' (JStr []) acct),
      ai_buying_power = num_or_zero (dict_get_or ''buying_power'' JNull acct),
      ai_cash = num_or_zero (dict_get_or ''cash'' JNull acct),
      ai_currency = (let c = dict_get_or ''currency'' (JStr ''USD'') acct in if py_truthy c then py_str c else ''USD''),
      ai_status = (let s = py_upper (enum_value (dict_get_or ''status'' (JStr ''ACTIVE'') acct))
                   in if s = [] then ''ACTIVE'' else s),
      ai_is_paper = paper,
      ai_equity = num_or_zero (dict_get_or ''equity'' JNull acct),
      ai_last_equity = num_or_zero (dict_get_or ''last_equity'' JNull acct)\<rparr>"

definition map_position :: "attrs \<Rightarrow> position_dto" where
  "map_position pos =
     (let qty = num_or_zero (dict_get_or ''qty'' JNull pos);
          side_raw = enum_value (dict_get_or ''side'' (JStr ''long'') pos);
          price = dict_get_or ''current_price'' JNull pos
      in \<lparr>pd_symbol = py_str (dict_get_or ''symbol'' (JStr []) pos), pd_qty = qty,
          pd_avg_cost = num_or_zero (dict_get_or ''avg_entry_price'' JNull pos),
          pd_market_price = (if py_truthy price then Some (num_or_zero price) else None),
          pd_side = (if side_raw = ''short'' \<or> qty < 0 then Sell else Buy)\<rparr>)"

definition map_order_ack :: "attrs \<Rightarrow> order_ack" where
  "map_order_ack od =
     (let status_str = enum_value (dict_get_or ''status'' (JStr ''new'') od);
          sub = dict_get_or ''submitted_at'' JNull od;
          submitted = (if py_truthy sub then sub else dict_get_or ''created_at'' JNull od)
      in \<lparr>ak_coid = text_or_empty (dict_get_or ''client_order_id'' (JStr []) od),
          ak_boid = text_or_empty (dict_get_or ''id'' (JStr []) od),
          ak_status = (case map_of alpaca_status_map status_str of Some s \<Rightarrow> s | None \<Rightarrow> SUBMITTED),
          ak_symbol = py_str (dict_get_or ''symbol'' (JStr []) od),
          ak_qty = num_or_zero (dict_get_or ''qty'' JNull od),
          ak_filled = num_or_zero (dict_get_or ''filled_qty'' JNull od),
          ak_submitted = (if py_truthy submitted then Some (py_str submitted) else None)\<rparr>)"

text \<open>
  A \<open>trade_updates\<close> message, an SDK object or a dict: the two branches of the code read the
  same fields.
\<close>

definition map_trade_update :: "attrs \<Rightarrow> fill_event" where
  "map_trade_update upd =
     (let event = enum_value (dict_get_or ''event'' (JStr []) upd);
          od = object_attrs (dict_get_or ''order'' JNull upd);
          side_raw = enum_value (dict_get_or ''side'' JNull od);
          filled = dec_or_zero (dict_get_or ''filled_qty'' JNull od);
          oid = text_or_empty (dict_get_or ''id'' JNull od);
          exec_id = dict_get_or ''execution_id'' JNull upd;
          ts = dict_get_or ''timestamp'' JNull upd
      in \<lparr>fe_exec = (if py_truthy exec_id then py_str exec_id else oid @ '':'' @ event @ '':'' @ dec_str filled),
          fe_coid = text_or_empty (dict_get_or ''client_order_id'' JNull od),
          fe_boid = oid,
          fe_symbol = text_or_empty (dict_get_or ''symbol'' JNull od),
          fe_side = (if side_raw = ''sell'' then Sell else Buy),
          fe_type = (case map_of alpaca_event_map event of
                       Some t \<Rightarrow> t
                     | None \<Rightarrow> if event = [] then ''new'' else event),
          fe_qty = dec_or_zero (dict_get_or ''qty'' JNull upd),
          fe_price = dec_or_zero (dict_get_or ''price'' JNull upd),
          fe_ts = (if py_truthy ts then Some (py_str ts) else None),
          fe_filled = filled\<rparr>)"

lemma map_order_ack_status: "ak_status (map_order_ack od) \<noteq> NEEDS_RECONCILE"
proof -
  have "s \<noteq> NEEDS_RECONCILE" if "map_of alpaca_status_map x = Some s" for x s
    using map_of_SomeD [OF that] by (auto simp: alpaca_status_map_def)
  then show ?thesis by (auto simp: map_order_ack_def Let_def split: option.split)
qed

subsection \<open>The SDK and the audited call\<close>

text \<open>An SDK call: its effect on the world, and the exception it raises or the value it returns.\<close>

type_synonym ('w, 'a) sdk_call = "'w \<Rightarrow> 'w \<times> (raised + 'a)"

datatype quote_response = QuoteBySymbol "(string \<times> attrs) list" | QuoteTrade attrs

record 'w trading_client =
  tc_account :: "('w, attrs) sdk_call"
  tc_positions :: "('w, attrs list) sdk_call"
  tc_open_orders :: "('w, attrs list) sdk_call"
  tc_submit :: "alpaca_request \<Rightarrow> ('w, attrs) sdk_call"
  tc_by_client_id :: "string \<Rightarrow> ('w, attrs) sdk_call"
  tc_by_id :: "string \<Rightarrow> ('w, attrs) sdk_call"
  tc_cancel :: "string \<Rightarrow> ('w, unit) sdk_call"
  tc_close_all :: "('w, attrs list) sdk_call"

text \<open>Clients are made from a key, a secret and, for trading, the paper flag.\<close>

record 'w alpaca_sdk =
  sk_trading :: "string \<Rightarrow> string \<Rightarrow> bool \<Rightarrow> 'w trading_client"
  sk_latest_trade :: "string \<Rightarrow> string \<Rightarrow> string \<Rightarrow> ('w, quote_response) sdk_call"

definition trading :: "'w alpaca_sdk \<Rightarrow> broker_context \<Rightarrow> 'w trading_client" where
  "trading sdk ctx = sk_trading sdk (bc_key ctx) (bc_secret ctx) (is_paper ctx)"

definition max_retries :: nat where
  "max_retries = 3"

definition placeholder_ids :: "string list" where
  "placeholder_ids = [''pending'', ''fake'']"

definition alpaca_audit ::
  "broker_context \<Rightarrow> string \<Rightarrow> string \<Rightarrow> int option \<Rightarrow> bool \<Rightarrow> string \<Rightarrow> call_event list \<Rightarrow> call_event list" where
  "alpaca_audit ctx endpoint meth status ok code =
     record_broker_call
       \<lparr>cr_account = (if bc_account ctx \<in> set placeholder_ids then None else Some (bc_account ctx)),
        cr_user = (if bc_user ctx \<in> set placeholder_ids then None else Some (bc_user ctx)),
        cr_broker = ''ALPACA'', cr_endpoint = endpoint, cr_method = meth, cr_status = status,
        cr_ok = ok, cr_code = code\<rparr>"

function call_from ::
  "broker_context \<Rightarrow> string \<Rightarrow> string \<Rightarrow> bool \<Rightarrow> ('w, 'a) sdk_call \<Rightarrow> nat \<Rightarrow> 'w \<times> call_event list \<Rightarrow>
   ('w \<times> call_event list) \<times> (call_error + 'a)" where
  "call_from ctx endpoint meth retry fn done (w, tr) =
     (let attempt = done + 1
      in case fn w of
           (w', Inl (RaisedBroker e)) \<Rightarrow> ((w', tr), Inl e)
         | (w', Inl (RaisedSdk x)) \<Rightarrow>
             (let err = map_sdk_error x;
                  tr' = alpaca_audit ctx endpoint meth (ce_status err) False (ce_code err) tr
              in if retry \<and> ce_retryable err \<and> ce_status err \<in> Some ` set retryable_status \<and> attempt < max_retries
                 then call_from ctx endpoint meth retry fn attempt (w', tr' @ [Slept attempt])
                 else ((w', tr'), Inl err))
         | (w', Inr result) \<Rightarrow> ((w', alpaca_audit ctx endpoint meth (Some 200) True [] tr), Inr result))"
  by pat_completeness auto
termination by (relation "measure (\<lambda>(ctx, endpoint, meth, retry, fn, done, st). max_retries - done)") auto

declare call_from.simps [simp del]

definition alpaca_call ::
  "broker_context \<Rightarrow> string \<Rightarrow> string \<Rightarrow> bool \<Rightarrow> ('w, 'a) sdk_call \<Rightarrow> 'w \<times> call_event list \<Rightarrow>
   ('w \<times> call_event list) \<times> (call_error + 'a)" where
  "alpaca_call ctx endpoint meth retry fn = call_from ctx endpoint meth retry fn 0"

text \<open>The pause before the next attempt, for a random number \<open>u\<close> between 0 and 1.\<close>

definition backoff :: "rat \<Rightarrow> nat \<Rightarrow> rat" where
  "backoff u attempt = of_nat (min (2 ^ (attempt - 1)) 8) * (1 / 2 + u * (1 / 2))"

subsection \<open>The adapter\<close>

type_synonym 'w alpaca_state = "'w \<times> call_event list"

definition alpaca_get_account ::
  "'w alpaca_sdk \<Rightarrow> broker_context \<Rightarrow> 'w alpaca_state \<Rightarrow> 'w alpaca_state \<times> (call_error + account_info)" where
  "alpaca_get_account sdk ctx st =
     (let (st', r) = alpaca_call ctx ''get_account'' ''GET'' True (tc_account (trading sdk ctx)) st
      in (st', map_sum id (\<lambda>raw. map_account raw (is_paper ctx)) r))"

text \<open>
  The last part of \<open>connect\<close>, and \<open>connect\<close>: the key shape must agree with the mode of the
  account before any call is made.
\<close>

definition alpaca_connect_account ::
  "'w alpaca_sdk \<Rightarrow> broker_context \<Rightarrow> 'w alpaca_state \<Rightarrow> 'w alpaca_state \<times> (call_error + connection_info)" where
  "alpaca_connect_account sdk ctx st =
     (let (st', r) = alpaca_get_account sdk ctx st
      in (st', map_sum id (\<lambda>a. \<lparr>ci_number = ai_number a, ci_buying_power = ai_buying_power a,
                               ci_currency = ai_currency a, ci_is_paper = is_paper ctx\<rparr>) r))"

definition refusal :: "error_code \<Rightarrow> string \<Rightarrow> call_error" where
  "refusal code message = broker_error (error_code_str code) message False None"

definition alpaca_connect ::
  "'w alpaca_sdk \<Rightarrow> broker_context \<Rightarrow> flag_env \<Rightarrow> flags \<times> 'w alpaca_state \<Rightarrow>
   (flags \<times> 'w alpaca_state) \<times> (call_error + connection_info)" where
  "alpaca_connect sdk ctx fenv fst_st =
     (let (fs, st) = fst_st
      in if is_paper ctx
         then if looks_like_live_key (bc_key ctx)
              then ((fs, st), Inl (refusal LIVE_KEYS_FORBIDDEN ''These look like LIVE trading keys, but this account is PAPER. Connect a new account in live mode instead - an account's mode cannot be changed after it is created.''))
              else apfst (Pair fs) (alpaca_connect_account sdk ctx st)
         else let (fs', permitted) = live_trading_permitted fenv fs
              in if \<not> permitted
                 then ((fs', st), Inl (refusal LIVE_TRADING_DISABLED ''Live trading is disabled on this deployment.''))
                 else if looks_like_paper_key (bc_key ctx)
                 then ((fs', st), Inl (refusal PAPER_KEYS_ON_LIVE ''These look like PAPER keys, but this account is LIVE. A live account trading on the paper endpoint would misreport every order it places.''))
                 else apfst (Pair fs') (alpaca_connect_account sdk ctx st))"

text \<open>Best effort: any failure of the quote is no quote.\<close>

definition alpaca_get_quote ::
  "'w alpaca_sdk \<Rightarrow> broker_context \<Rightarrow> string \<Rightarrow> 'w alpaca_state \<Rightarrow> 'w alpaca_state \<times> rat option" where
  "alpaca_get_quote sdk ctx symb st =
     (case sk_latest_trade sdk (bc_key ctx) (bc_secret ctx) symb (fst st) of
        (w, Inl _) \<Rightarrow> ((w, snd st), None)
      | (w, Inr resp) \<Rightarrow>
          let trade = (case resp of
                         QuoteBySymbol d \<Rightarrow> (case map_of d symb of None \<Rightarrow> [] | Some t \<Rightarrow> t)
                       | QuoteTrade t \<Rightarrow> t);
              price = dict_get_or ''price'' JNull trade
          in ((w, snd st), if price = JNull then None else Some (num_or_zero price)))"

definition alpaca_list_positions ::
  "'w alpaca_sdk \<Rightarrow> broker_context \<Rightarrow> 'w alpaca_state \<Rightarrow> 'w alpaca_state \<times> (call_error + position_dto list)" where
  "alpaca_list_positions sdk ctx st =
     (let (st', r) = alpaca_call ctx ''get_all_positions'' ''GET'' True (tc_positions (trading sdk ctx)) st
      in (st', map_sum id (map map_position) r))"

definition alpaca_list_open_orders ::
  "'w alpaca_sdk \<Rightarrow> broker_context \<Rightarrow> 'w alpaca_state \<Rightarrow> 'w alpaca_state \<times> (call_error + order_ack list)" where
  "alpaca_list_open_orders sdk ctx st =
     (let (st', r) = alpaca_call ctx ''get_orders'' ''GET'' True (tc_open_orders (trading sdk ctx)) st
      in (st', map_sum id (map map_order_ack) r))"

definition lookup_by_client_id ::
  "'w alpaca_sdk \<Rightarrow> broker_context \<Rightarrow> string \<Rightarrow> 'w alpaca_state \<Rightarrow> 'w alpaca_state \<times> attrs option" where
  "lookup_by_client_id sdk ctx coid st =
     (case alpaca_call ctx ''get_order_by_client_id'' ''GET'' True (tc_by_client_id (trading sdk ctx) coid) st of
        (st', Inl _) \<Rightarrow> (st', None)
      | (st', Inr raw) \<Rightarrow> (st', Some raw))"

definition supported_asset_classes :: "string list" where
  "supported_asset_classes = [''STOCK'', ''ETF'', ''OPTION'', ''us_equity'']"

definition supported_order_types :: "order_type list" where
  "supported_order_types = [MKT, LMT, STP, STP_LMT]"

definition alpaca_place_order ::
  "'w alpaca_sdk \<Rightarrow> broker_context \<Rightarrow> order_request \<Rightarrow> string \<Rightarrow> 'w alpaca_state \<Rightarrow>
   'w alpaca_state \<times> (fault + order_ack)" where
  "alpaca_place_order sdk ctx rq coid st =
     (if rq_class rq \<notin> set supported_asset_classes
      then (st, Inl (Fault (refusal UNSUPPORTED_ASSET ''Only US stocks and ETFs are supported in this milestone.'')))
      else if rq_type rq \<notin> set supported_order_types
      then (st, Inl (Fault (refusal UNSUPPORTED_ORDER_TYPE (''Order type '' @ order_type_str (rq_type rq) @ '' is not supported.''))))
      else case build_order_request rq coid of
             None \<Rightarrow> (st, Inl Crash)
           | Some order_data \<Rightarrow>
               (case alpaca_call ctx ''submit_order'' ''POST'' False (tc_submit (trading sdk ctx) order_data) st of
                  (st1, Inr raw) \<Rightarrow> (st1, Inr (map_order_ack raw))
                | (st1, Inl err) \<Rightarrow>
                    (case lookup_by_client_id sdk ctx coid st1 of
                       (st2, Some existing) \<Rightarrow> (st2, Inr (map_order_ack existing))
                     | (st2, None) \<Rightarrow> (st2, Inl (Fault err)))))"

definition resolve_by_client_id ::
  "'w alpaca_sdk \<Rightarrow> broker_context \<Rightarrow> string \<Rightarrow> 'w alpaca_state \<Rightarrow> 'w alpaca_state \<times> order_ack option" where
  "resolve_by_client_id sdk ctx coid st =
     (let (st', raw) = lookup_by_client_id sdk ctx coid st in (st', map_option map_order_ack raw))"

definition alpaca_order_status ::
  "'w alpaca_sdk \<Rightarrow> broker_context \<Rightarrow> string \<Rightarrow> 'w alpaca_state \<Rightarrow> 'w alpaca_state \<times> order_status option" where
  "alpaca_order_status sdk ctx boid st =
     (case alpaca_call ctx ''get_order_by_id'' ''GET'' True (tc_by_id (trading sdk ctx) boid) st of
        (st', Inl _) \<Rightarrow> (st', None)
      | (st', Inr raw) \<Rightarrow> (st', Some (ak_status (map_order_ack raw))))"

definition alpaca_cancel_order ::
  "'w alpaca_sdk \<Rightarrow> broker_context \<Rightarrow> string \<Rightarrow> 'w alpaca_state \<Rightarrow> 'w alpaca_state \<times> (call_error + unit)" where
  "alpaca_cancel_order sdk ctx boid =
     alpaca_call ctx ''cancel_order_by_id'' ''DELETE'' True (tc_cancel (trading sdk ctx) boid)"

definition closing_ack :: "attrs \<Rightarrow> order_ack" where
  "closing_ack item =
     (let body = dict_get_or ''body'' JNull item
      in if body \<noteq> JNull then map_order_ack (object_attrs body)
         else \<lparr>ak_coid = [], ak_boid = text_or_empty (dict_get_or ''order_id'' (JStr []) item),
               ak_status = SUBMITTED, ak_symbol = text_or_empty (dict_get_or ''symbol'' (JStr []) item),
               ak_qty = num_or_zero (dict_get_or ''qty'' JNull item), ak_filled = 0, ak_submitted = None\<rparr>)"

definition alpaca_flatten_all ::
  "'w alpaca_sdk \<Rightarrow> broker_context \<Rightarrow> string \<Rightarrow> 'w alpaca_state \<Rightarrow> 'w alpaca_state \<times> (call_error + order_ack list)" where
  "alpaca_flatten_all sdk ctx reason st =
     (let (st', r) = alpaca_call ctx ''close_all_positions'' ''DELETE'' True (tc_close_all (trading sdk ctx)) st
      in (st', map_sum id (map closing_ack) r))"

definition alpaca_health :: "'w alpaca_sdk \<Rightarrow> broker_context \<Rightarrow> 'w alpaca_state \<Rightarrow> 'w alpaca_state \<times> broker_health" where
  "alpaca_health sdk ctx st =
     (case alpaca_get_account sdk ctx st of
        (st', Inr _) \<Rightarrow> (st', \<lparr>hl_state = CONNECTED, hl_detail = ''ok''\<rparr>)
      | (st', Inl e) \<Rightarrow> (st', \<lparr>hl_state = DOWN, hl_detail = ce_code e\<rparr>))"

text \<open>The adapter as the rest of the model calls it: what each operation answers in a world.\<close>

definition alpaca_adapter :: "'w alpaca_sdk \<Rightarrow> broker_context \<Rightarrow> 'w alpaca_state \<Rightarrow> adapter" where
  "alpaca_adapter sdk ctx st =
     \<lparr>ad_account = map_sum error_exn id (snd (alpaca_get_account sdk ctx st)),
      ad_positions = map_sum error_exn id (snd (alpaca_list_positions sdk ctx st)),
      ad_flatten = (\<lambda>reason. map_sum error_exn id (snd (alpaca_flatten_all sdk ctx reason st))),
      ad_quote = Some (\<lambda>symb. Inr (snd (alpaca_get_quote sdk ctx symb st))),
      ad_place = (\<lambda>rq coid. map_sum fault_exn id (snd (alpaca_place_order sdk ctx rq coid st))),
      ad_events = (\<lambda>rq coid. []),
      ad_resolve = Some (\<lambda>coid. Inr (snd (resolve_by_client_id sdk ctx coid st)))\<rparr>"

subsection \<open>Calls\<close>

lemma call_from_invariant:
  "(\<And>w. P w \<Longrightarrow> P (fst (fn w))) \<Longrightarrow> P (fst st) \<Longrightarrow> P (fst (fst (call_from ctx endpoint meth retry fn n st)))"
proof (induction ctx endpoint meth retry fn n st rule: call_from.induct)
  case (1 ctx endpoint meth retry fn n w tr)
  obtain w' r where fnw: "fn w = (w', r)" by (cases "fn w")
  with 1(2) [of w] 1(3) have "P w'" by simp
  with 1(1,2) fnw show ?case
    by (subst call_from.simps) (auto simp: Let_def split: sum.splits raised.splits)
qed

lemma call_once:
  "alpaca_call ctx endpoint meth False fn (w, tr) =
     (case fn w of
        (w', Inl (RaisedBroker e)) \<Rightarrow> ((w', tr), Inl e)
      | (w', Inl (RaisedSdk x)) \<Rightarrow>
          ((w', alpaca_audit ctx endpoint meth (status_of x) False (ce_code (map_sdk_error x)) tr), Inl (map_sdk_error x))
      | (w', Inr result) \<Rightarrow> ((w', alpaca_audit ctx endpoint meth (Some 200) True [] tr), Inr result))"
  by (simp add: alpaca_call_def call_from.simps [of ctx endpoint meth False] Let_def
      split: prod.split sum.split raised.split)

text \<open>Every attempt but one that raises a \<open>BrokerError\<close> itself leaves one audit row, and there are at most three.\<close>

definition call_rows :: "call_event list \<Rightarrow> call_row list" where
  "call_rows tr = List.map_filter (\<lambda>e. case e of CallRow r \<Rightarrow> Some r | Slept n \<Rightarrow> None) tr"

lemma call_rows_simps [simp]:
  "call_rows [] = []" "call_rows (tr @ tr') = call_rows tr @ call_rows tr'"
  "call_rows [CallRow r] = [r]" "call_rows [Slept n] = []"
  by (simp_all add: call_rows_def List.map_filter_def)

lemma call_rows_audit [simp]:
  "length (call_rows (alpaca_audit ctx endpoint meth status ok code tr)) = Suc (length (call_rows tr))"
  by (simp add: alpaca_audit_def record_broker_call_def)

lemma call_from_rows:
  "n < max_retries \<Longrightarrow>
   length (call_rows (snd (fst (call_from ctx endpoint meth retry fn n st)))) \<le> length (call_rows (snd st)) + (max_retries - n)"
proof (induction ctx endpoint meth retry fn n st rule: call_from.induct)
  case (1 ctx endpoint meth retry fn n w tr)
  then show ?case
    by (subst call_from.simps) (fastforce simp: Let_def split: sum.splits prod.splits raised.splits)
qed

lemma alpaca_call_bounded:
  "length (call_rows (snd (fst (alpaca_call ctx endpoint meth retry fn st)))) \<le> length (call_rows (snd st)) + 3"
  using call_from_rows [of 0 ctx endpoint meth retry fn st] by (simp add: alpaca_call_def max_retries_def)

lemma call_from_fails:
  "(\<And>w. \<exists>e. snd (fn w) = Inl e) \<Longrightarrow> \<exists>e. snd (call_from ctx endpoint meth retry fn n st) = Inl e"
proof (induction ctx endpoint meth retry fn n st rule: call_from.induct)
  case (1 ctx endpoint meth retry fn n w tr)
  obtain w' e where fnw: "fn w = (w', Inl e)" using 1(2) [of w] by (cases "fn w") auto
  with 1 show ?case by (subst call_from.simps) (auto simp: Let_def split: raised.splits)
qed

lemma lookup_none:
  assumes "\<And>w. \<exists>e. snd (tc_by_client_id (trading sdk ctx) coid w) = Inl e"
  shows "snd (lookup_by_client_id sdk ctx coid st) = None"
  using call_from_fails [of "tc_by_client_id (trading sdk ctx) coid" ctx "''get_order_by_client_id''" "''GET''" True 0 st]
    assms
  by (auto simp: lookup_by_client_id_def alpaca_call_def split: prod.splits sum.splits)

lemma closing_ack_status: "ak_status (closing_ack item) \<noteq> NEEDS_RECONCILE"
  by (simp add: closing_ack_def Let_def map_order_ack_status)

lemma place_order_status:
  "snd (alpaca_place_order sdk ctx rq coid st) = Inr ack \<Longrightarrow> ak_status ack \<noteq> NEEDS_RECONCILE"
  by (auto simp: alpaca_place_order_def map_order_ack_status split: if_splits option.splits prod.splits sum.splits)

interpretation alpaca: acking_adapter "\<lambda>(sdk, ctx, st). alpaca_adapter sdk ctx st"
proof (unfold_locales, goal_cases)
  case (1 c rq coid ack)
  then show ?case by (auto simp: alpaca_adapter_def map_sum_Inr_iff dest: place_order_status split: prod.splits)
next
  case (2 c reason acks ack)
  then show ?case
    by (auto simp: alpaca_adapter_def map_sum_Inr_iff alpaca_flatten_all_def Let_def closing_ack_status split: prod.splits)
next
  case (3 c f coid)
  then show ?case by (auto simp: alpaca_adapter_def split: prod.splits)
next
  case (4 c f coid ack)
  then show ?case
    by (auto simp: alpaca_adapter_def resolve_by_client_id_def Let_def map_order_ack_status split: prod.splits)
qed

subsection \<open>Properties\<close>

definition sample_ack :: attrs where
  "sample_ack = [(''id'', JStr ''b-9''), (''status'', JStr ''filled''), (''qty'', JStr ''10'')]"

definition sample_outage :: raised where
  "sample_outage = RaisedSdk \<lparr>se_attrs = [(''status_code'', JInt 503)], se_text = [], se_class = ''APIError''\<rparr>"

text \<open>A broker that takes the order but answers the submit with an outage; the world counts submits.\<close>

definition sample_trading :: "(raised + attrs) \<Rightarrow> nat trading_client" where
  "sample_trading probe = \<lparr>tc_account = (\<lambda>w. (w, Inr [(''account_number'', JStr ''PA1'')])),
     tc_positions = (\<lambda>w. (w, Inr [])), tc_open_orders = (\<lambda>w. (w, Inr [])),
     tc_submit = (\<lambda>rq w. (w + 1, Inl sample_outage)), tc_by_client_id = (\<lambda>c w. (w, probe)),
     tc_by_id = (\<lambda>c w. (w, Inr sample_ack)), tc_cancel = (\<lambda>c w. (w, Inr ())), tc_close_all = (\<lambda>w. (w, Inr []))\<rparr>"

definition sample_sdk :: "(raised + attrs) \<Rightarrow> nat alpaca_sdk" where
  "sample_sdk probe = \<lparr>sk_trading = (\<lambda>k s paper. sample_trading probe),
     sk_latest_trade = (\<lambda>k s symb w. (w, Inr (QuoteTrade [(''price'', JReal ''100.5'')])))\<rparr>"

definition sample_ctx :: broker_context where
  "sample_ctx = \<lparr>bc_account = ''2'', bc_user = ''7'', bc_key = ''PK1'', bc_secret = ''s'', bc_number = ''PA1'',
     bc_mode = ''PAPER''\<rparr>"

lemma sample_trading_simps [simp]:
  "trading (sample_sdk probe) ctx = sample_trading probe"
  "tc_submit (sample_trading probe) od w = (w + 1, Inl sample_outage)"
  "tc_by_client_id (sample_trading probe) c w = (w, probe)"
  by (simp_all add: trading_def sample_sdk_def sample_trading_def)

text \<open>
  An order is submitted at most once. Whatever the broker answers, one call of
  \<open>place_order\<close> hands the order to the broker at most once (a failed submit is never
  repeated, only probed for), an acknowledgement means it was handed over exactly once,
  and nothing was sent when the asset class is refused or a price is missing.
\<close>

theorem submitted_at_most_once:
  assumes submit: "\<And>od w. subs (fst (tc_submit (trading sdk ctx) od w)) = subs w + 1"
    and probe: "\<And>w. subs (fst (tc_by_client_id (trading sdk ctx) coid w)) = (subs w :: nat)"
  shows "subs (fst (fst (alpaca_place_order sdk ctx rq coid st))) =
      subs (fst st) + (if rq_class rq \<in> set supported_asset_classes \<and> build_order_request rq coid \<noteq> None then 1 else 0) \<and>
    (\<forall>ack. snd (alpaca_place_order sdk ctx rq coid st) = Inr ack \<longrightarrow>
       subs (fst (fst (alpaca_place_order sdk ctx rq coid st))) = subs (fst st) + 1)"
proof -
  have look: "subs (fst (fst (lookup_by_client_id sdk ctx coid st'))) = subs (fst st')" for st'
  proof -
    have "subs (fst (fst (alpaca_call ctx ''get_order_by_client_id'' ''GET'' True (tc_by_client_id (trading sdk ctx) coid) st')))
        = subs (fst st')"
      unfolding alpaca_call_def by (rule call_from_invariant) (simp_all add: probe)
    then show ?thesis by (auto simp: lookup_by_client_id_def split: prod.split sum.split)
  qed
  have once: "subs (fst (fst (alpaca_call ctx ''submit_order'' ''POST'' False (tc_submit (trading sdk ctx) od) st))) =
      subs (fst st) + 1" for od
    using submit [of od "fst st"] by (cases st) (auto simp: call_once split: prod.split sum.split raised.split)
  have sup: "rq_type rq \<in> set supported_order_types"
    by (cases "rq_type rq") (simp_all add: supported_order_types_def)
  have final: "subs (fst (fst (case alpaca_call ctx ''submit_order'' ''POST'' False (tc_submit (trading sdk ctx) od) st of
        (st1, Inr raw) \<Rightarrow> (st1, Inr (map_order_ack raw))
      | (st1, Inl err) \<Rightarrow> (case lookup_by_client_id sdk ctx coid st1 of
           (st2, Some existing) \<Rightarrow> (st2, Inr (map_order_ack existing)) | (st2, None) \<Rightarrow> (st2, Inl (Fault err)))))) =
      subs (fst st) + 1" for od
    using once [of od] look by (auto split: prod.split sum.split option.split) (metis fst_conv)+
  show ?thesis using final sup by (auto simp: alpaca_place_order_def split: option.split)
qed

theorem submitted_at_most_once_witness:
  "fst (fst (alpaca_place_order (sample_sdk (Inr sample_ack)) sample_ctx sample_request ''stp-21'' (0, []))) = 1"
proof -
  have "rq_class sample_request \<in> set supported_asset_classes \<and> build_order_request sample_request ''stp-21'' \<noteq> None"
    by (simp add: sample_request_def supported_asset_classes_def build_order_request_def)
  with submitted_at_most_once [of "\<lambda>w. w" "sample_sdk (Inr sample_ack)" sample_ctx "''stp-21''" sample_request "(0, [])"]
  show ?thesis by simp
qed

text \<open>
  The mode of the account and the shape of the key decide before any call. With a key of
  the other mode, or a live account while live trading is not permitted, \<open>connect\<close> fails and
  no request leaves the process; when it succeeds the mode it reports is the account's, and
  for a live account the settings permit live trading.
\<close>

definition mode_mismatch :: "broker_context \<Rightarrow> flag_env \<Rightarrow> flags \<Rightarrow> bool" where
  "mode_mismatch ctx fenv fs \<longleftrightarrow>
     (if is_paper ctx then looks_like_live_key (bc_key ctx)
      else \<not> snd (live_trading_permitted fenv fs) \<or> looks_like_paper_key (bc_key ctx))"

theorem connect_respects_mode:
  assumes run: "alpaca_connect sdk ctx fenv (fs, st) = ((fs', st'), r)"
  shows "(mode_mismatch ctx fenv fs \<longrightarrow> st' = st \<and> (\<exists>e. r = Inl e)) \<and>
    (\<forall>info. r = Inr info \<longrightarrow> \<not> mode_mismatch ctx fenv fs \<and> ci_is_paper info = is_paper ctx \<and>
       (\<not> ci_is_paper info \<longrightarrow> fl_settings fenv live_flag = Some True))"
proof -
  have info: "ci_is_paper info = is_paper ctx" if "alpaca_connect_account sdk ctx st = (st', Inr info)" for st' info
    using that by (auto simp: alpaca_connect_account_def Let_def map_sum_Inr_iff split: prod.splits)
  have armed: "fl_settings fenv live_flag = Some True" if "snd (live_trading_permitted fenv fs)"
    using that by (auto simp: live_trading_permitted_def split: if_splits)
  show ?thesis
  proof (cases "mode_mismatch ctx fenv fs")
    case True
    with run show ?thesis
      by (auto simp: alpaca_connect_def mode_mismatch_def Let_def case_prod_beta split: if_splits)
  next
    case False
    then have "alpaca_connect_account sdk ctx st = (st', r)"
      using run by (auto simp: alpaca_connect_def mode_mismatch_def Let_def case_prod_beta apfst_def map_prod_def split: if_splits)
    with False info armed show ?thesis by (auto simp: mode_mismatch_def)
  qed
qed

theorem connect_respects_mode_witness:
  "fst (snd (fst (alpaca_connect (sample_sdk (Inr sample_ack)) (sample_ctx\<lparr>bc_key := ''ak9''\<rparr>) sample_flags_env
     (sample_flags, (5, []))))) = 5"
proof -
  let ?ctx = "sample_ctx\<lparr>bc_key := ''ak9''\<rparr>"
  have "mode_mismatch ?ctx sample_flags_env sample_flags" by code_simp
  with connect_respects_mode [of "sample_sdk (Inr sample_ack)" ?ctx sample_flags_env sample_flags "(5, [])"]
  show ?thesis by (metis fst_conv snd_conv surj_pair)
qed

text \<open>
  An unanswered probe is read as an absent order. When the broker does not answer the lookup
  by client order id, the resolution of an ambiguous order marks it rejected, although the
  broker may hold it: the adapter swallows the error of the probe.
\<close>

lemma unanswered_orders_rejected:
  assumes "\<And>c. f c = Inr None" and "od \<in> set (d_orders db)" "o_status od = NEEDS_RECONCILE" "od \<in> set ods" "set ods \<subseteq> set (d_orders db)"
    and "distinct (map o_id ods)"
  shows "od\<lparr>o_status := REJECTED, o_reason := ''RECONCILE_NOT_FOUND''\<rparr> \<in> set (d_orders (fst (resolve_orders f ods db)))"
  using assms(2-6)
proof (induction ods arbitrary: db)
  case (Cons x ods)
  let ?rej = "od\<lparr>o_status := REJECTED, o_reason := ''RECONCILE_NOT_FOUND''\<rparr>"
  let ?db1 = "fst (resolve_order f x db)"
  have orders: "d_orders ?db1 = update_where (\<lambda>y. o_id y = o_id x \<and> o_status y = NEEDS_RECONCILE)
      (\<lambda>y. y\<lparr>o_status := REJECTED, o_reason := ''RECONCILE_NOT_FOUND''\<rparr>) (d_orders db)"
    by (simp add: resolve_order_def assms(1))
  show ?case
  proof (cases "x = od")
    case True
    then have "?rej \<in> set (d_orders ?db1)"
      using Cons.prems(1,2) by (auto simp: orders [unfolded True] set_update_where image_iff intro!: bexI [of _ od])
    moreover have "o_id y \<noteq> o_id ?rej" if "y \<in> set ods" for y
      using Cons.prems(5) True that by (auto simp: image_iff)
    ultimately show ?thesis by (simp add: case_prod_beta Let_def resolve_orders_keeps)
  next
    case False
    have ne: "o_id y \<noteq> o_id x" if "y \<in> set ods" for y
      using Cons.prems(5) that by (metis distinct.simps(2) image_eqI list.set_map list.simps(9))
    have same: "y \<in> set (d_orders ?db1)" if "y \<in> set (d_orders db)" "o_id y \<noteq> o_id x" for y
      using that by (auto simp: orders set_update_where image_iff intro!: bexI [of _ y])
    have ods: "od \<in> set ods" "set ods \<subseteq> set (d_orders db)" using Cons.prems(3,4) False by auto
    then have sub: "set ods \<subseteq> set (d_orders ?db1)" using same ne by blast
    then have "od \<in> set (d_orders ?db1)" using ods(1) by blast
    from Cons.IH [OF this Cons.prems(2) ods(1) sub] Cons.prems(5)
    have "?rej \<in> set (d_orders (fst (resolve_orders f ods ?db1)))" by simp
    then show ?thesis by (simp add: case_prod_beta Let_def)
  qed
qed simp

theorem failed_probe_rejects:
  assumes probe: "\<And>c w. \<exists>e. snd (tc_by_client_id (trading sdk ctx) c w) = Inl e"
    and ids: "distinct (map o_id (d_orders db))" and od: "od \<in> set (d_orders db)" "needs_reconcile (b_id ac) od"
  shows "od\<lparr>o_status := REJECTED, o_reason := ''RECONCILE_NOT_FOUND''\<rparr> \<in>
    set (d_orders (fst (resolve_needs_reconcile ac (alpaca_adapter sdk ctx st) db)))"
proof -
  let ?f = "\<lambda>coid. Inr (snd (resolve_by_client_id sdk ctx coid st))"
  let ?ods = "filter (needs_reconcile (b_id ac)) (d_orders db)"
  have "?f c = Inr None" for c
    using lookup_none [OF probe, of c st] by (simp add: resolve_by_client_id_def case_prod_beta Let_def)
  moreover have "distinct (map o_id ?ods)" using ids by (rule distinct_map_filter)
  ultimately have "od\<lparr>o_status := REJECTED, o_reason := ''RECONCILE_NOT_FOUND''\<rparr> \<in>
      set (d_orders (fst (resolve_orders ?f ?ods db)))"
    using od by (intro unanswered_orders_rejected) (auto simp: needs_reconcile_def)
  then show ?thesis by (simp add: resolve_needs_reconcile_def alpaca_adapter_def)
qed

end
