(* ===== verification/Trade_Station.thy ===== *)
theory Trade_Station
  imports Broker_Calls
begin

text \<open>
  The TradeStation adapter: symbols and payloads (\<open>brokers/tradestation/mapping.py\<close>), the API
  client with its one token refresh (\<open>client.py\<close>) and the adapter (\<open>adapter.py\<close>). The HTTP
  session, the settings and the cipher are parameters; a payload that does not have the shape
  the code indexes is an exception, \<open>Crash\<close>. The lemmas show how many requests a call can
  make, which statuses reach the order path, and what the fallbacks of an order update do.
\<close>

subsection \<open>Symbols\<close>

definition fut_month :: "(string \<times> string) list" where
  "fut_month = [(''01'', ''F''), (''02'', ''G''), (''03'', ''H''), (''04'', ''J''), (''05'', ''K''), (''06'', ''M''),
     (''07'', ''N''), (''08'', ''Q''), (''09'', ''U''), (''10'', ''V''), (''11'', ''X''), (''12'', ''Z'')]"

definition zfill2 :: "string \<Rightarrow> string" where
  "zfill2 s = replicate (2 - length s) CHR ''0'' @ s"

definition last_chars :: "nat \<Rightarrow> string \<Rightarrow> string" where
  "last_chars n s = drop (length s - n) s"

definition but_last_chars :: "nat \<Rightarrow> string \<Rightarrow> string" where
  "but_last_chars n s = take (length s - n) s"

text \<open>
  \<open>f"{strike:g}"\<close> for a strike below a million: six significant digits, no trailing zeros.
\<close>

definition frac_digits :: "rat \<Rightarrow> string" where
  "frac_digits x =
     (let ds = nat_str (nat \<lfloor>x * 10 ^ 8\<rfloor>); padded = replicate (8 - length ds) CHR ''0'' @ ds
      in rev (dropWhile (\<lambda>c. c = CHR ''0'') (rev padded)))"

definition format_g :: "rat \<Rightarrow> string" where
  "format_g x =
     (let r = round_sig 10 6 x; whole = nat \<lfloor>r\<rfloor>; rest = frac_digits (r - of_nat whole)
      in nat_str whole @ (if rest = [] then [] else ''.'' @ rest))"

definition to_ts_symbol :: "order_request \<Rightarrow> string" where
  "to_ts_symbol rq =
     (case (if rq_class rq = ''FUTURE'' then rq_future rq else None) of
        Some fut \<Rightarrow>
          let base = dropWhile (\<lambda>c. c = CHR ''@'') (py_upper (fc_root fut))
          in (case py_split (CHR ''-'') (fc_expiry fut) of
                yyyy # mm # _ \<Rightarrow>
                  base @ (case map_of fut_month (zfill2 mm) of None \<Rightarrow> [] | Some c \<Rightarrow> c) @ last_chars 2 yyyy
              | _ \<Rightarrow> ''@'' @ base)
      | None \<Rightarrow>
          if rq_class rq = ''OPTION'' \<and> 15 \<le> length (rq_symbol rq) \<and> py_isdigit (last_chars 8 (rq_symbol rq))
          then let occ = rq_symbol rq;
                   underlying = py_strip (but_last_chars 15 occ);
                   rest = last_chars 15 occ;
                   strike = fl (of_nat (digits_nat (drop 7 rest)) / 1000)
               in underlying @ '' '' @ take 7 rest @ format_g strike
          else rq_symbol rq)"

subsection \<open>Payloads\<close>

primrec ts_order_type :: "order_type \<Rightarrow> string" where
  "ts_order_type MKT = ''Market''"
| "ts_order_type LMT = ''Limit''"
| "ts_order_type STP = ''StopMarket''"
| "ts_order_type STP_LMT = ''StopLimit''"

definition ts_status_map :: "(string \<times> order_status) list" where
  "ts_status_map =
     [(''ACK'', SUBMITTED), (''OPN'', SUBMITTED), (''RECEIVED'', SUBMITTED), (''FLL'', FILLED), (''FILLED'', FILLED),
      (''FPR'', PARTIAL), (''PARTIALLYFILLED'', PARTIAL), (''CAN'', CANCELLED), (''CANCELED'', CANCELLED),
      (''EXP'', CANCELLED), (''REJ'', REJECTED), (''REJECTED'', REJECTED), (''TSC'', CANCELLED)]"

definition ts_status :: "string \<Rightarrow> order_status" where
  "ts_status s = (case map_of ts_status_map s of Some st \<Rightarrow> st | None \<Rightarrow> SUBMITTED)"

text \<open>The order payload; numbers stand for their \<open>str()\<close>, an absent price leaves its key out.\<close>

record ts_payload =
  tp_account :: string
  tp_symbol :: string
  tp_qty :: rat
  tp_type :: string
  tp_action :: string
  tp_duration :: string
  tp_coid :: string
  tp_limit :: "rat option"
  tp_stop :: "rat option"

definition to_ts_order_payload :: "order_request \<Rightarrow> string \<Rightarrow> string \<Rightarrow> ts_payload" where
  "to_ts_order_payload rq coid number =
     \<lparr>tp_account = number, tp_symbol = to_ts_symbol rq, tp_qty = rq_qty rq, tp_type = ts_order_type (rq_type rq),
      tp_action = (if broker_side_str (rq_side rq) \<in> set buy_side_names then ''BUY'' else ''SELL''),
      tp_duration = tif_str (rq_tif rq), tp_coid = coid, tp_limit = rq_limit rq, tp_stop = rq_stop rq\<rparr>"

text \<open>A JSON value where the code calls \<open>.get\<close>: \<open>None\<close> is the \<open>AttributeError\<close> of any other type.\<close>

definition as_dict :: "json \<Rightarrow> attrs option" where
  "as_dict v = (case v of JObj d \<Rightarrow> Some d | _ \<Rightarrow> None)"

definition from_ts_account :: "attrs \<Rightarrow> account_info option" where
  "from_ts_account d =
     (let bal = dict_get_or ''Balances'' (JObj d) d
      in map_option (\<lambda>b.
           let equity = num_or_zero (dict_get_or ''Equity'' JNull b);
               todays_pl = num_or_zero (dict_get_or ''TodaysProfitLoss'' JNull b)
           in \<lparr>ai_number = text_or_empty (dict_get_or ''AccountID'' (JStr []) d),
               ai_buying_power = num_or_zero (dict_get_or ''BuyingPower'' JNull b),
               ai_cash = num_or_zero (dict_get_or ''CashBalance'' JNull b),
               ai_currency = ''USD'', ai_status = py_str (dict_get_or ''Status'' (JStr ''ACTIVE'') d),
               ai_is_paper = True, ai_equity = equity, ai_last_equity = equity - todays_pl\<rparr>)
         (if py_truthy bal then as_dict bal else Some []))"

definition from_ts_position :: "attrs \<Rightarrow> position_dto" where
  "from_ts_position d =
     (let raw = num_or_zero (dict_get_or ''Quantity'' JNull d);
          long_short = py_lower (py_str (dict_get_or ''LongShort'' (JStr ''Long'') d));
          qty = (if long_short = ''short'' then - \<bar>raw\<bar> else raw);
          last_price = dict_get_or ''Last'' JNull d
      in \<lparr>pd_symbol = py_str (dict_get_or ''Symbol'' (JStr []) d), pd_qty = qty,
          pd_avg_cost = num_or_zero (dict_get_or ''AveragePrice'' JNull d),
          pd_market_price = (if py_truthy last_price then Some (num_or_zero last_price) else None),
          pd_side = (if qty < 0 then Sell else Buy)\<rparr>)"

definition from_ts_order :: "attrs \<Rightarrow> order_ack" where
  "from_ts_order d =
     (let status = py_upper (py_str (dict_get_or ''Status'' (dict_get_or ''StatusDescription'' (JStr ''OPN'') d) d));
          quantity = dict_get_or ''Quantity'' JNull d
      in \<lparr>ak_coid = text_or_empty (dict_get_or ''ClientOrderID'' (JStr []) d),
          ak_boid = text_or_empty (dict_get_or ''OrderID'' (JStr []) d),
          ak_status = ts_status status,
          ak_symbol = py_str (dict_get_or ''Symbol'' (JStr []) d),
          ak_qty = num_or_zero (if py_truthy quantity then quantity else dict_get_or ''QuantityOrdered'' JNull d),
          ak_filled = num_or_zero (dict_get_or ''FilledQuantity'' JNull d), ak_submitted = None\<rparr>)"

definition ts_event_type :: "order_status \<Rightarrow> string" where
  "ts_event_type st =
     (if st = FILLED then ''fill'' else if st = PARTIAL then ''partial_fill''
      else if st = CANCELLED then ''canceled'' else if st = REJECTED then ''rejected'' else ''new'')"

definition from_ts_order_event :: "attrs \<Rightarrow> fill_event" where
  "from_ts_order_event d =
     (let status = py_upper (py_str (dict_get_or ''Status'' (JStr []) d));
          oid = text_or_empty (dict_get_or ''OrderID'' (JStr []) d);
          filled = dec_or_zero (dict_get_or ''FilledQuantity'' JNull d);
          exec_id = dict_get_or ''ExecutionID'' JNull d;
          exec_qty = dict_get_or ''ExecutionQuantity'' JNull d;
          exec_price = dict_get_or ''ExecutionPrice'' JNull d
      in \<lparr>fe_exec = (if py_truthy exec_id then py_str exec_id else oid @ '':'' @ status @ '':'' @ dec_str filled),
          fe_coid = text_or_empty (dict_get_or ''ClientOrderID'' (JStr []) d), fe_boid = oid,
          fe_symbol = py_str (dict_get_or ''Symbol'' (JStr []) d),
          fe_side = (if py_upper (py_str (dict_get_or ''TradeAction'' (JStr ''BUY'') d)) \<in> set buy_side_names
                     then Buy else Sell),
          fe_type = ts_event_type (ts_status status),
          fe_qty = (if py_truthy exec_qty then dec_or_zero exec_qty else filled),
          fe_price = dec_or_zero (if py_truthy exec_price then exec_price else dict_get_or ''FilledPrice'' JNull d),
          fe_ts = None, fe_filled = filled\<rparr>)"

subsection \<open>The client\<close>

record http_response =
  hr_status :: int
  hr_content :: bool
  hr_json :: "json option"

text \<open>A request that gets no response raises in the HTTP library.\<close>

record 'w ts_env =
  te_oauth_base :: string
  te_api_base :: string
  te_client_id :: string
  te_client_secret :: string
  te_post :: "string \<Rightarrow> (string \<times> json) list \<Rightarrow> 'w \<Rightarrow> 'w \<times> http_response option"
  te_request :: "string \<Rightarrow> string \<Rightarrow> json \<Rightarrow> ts_payload option \<Rightarrow> 'w \<Rightarrow> 'w \<times> http_response option"
  te_fernet :: fernet
  te_now :: int

record 'w ts_state =
  tw_world :: 'w
  tw_access :: json
  tw_refresh :: json
  tw_stored_access :: string
  tw_stored_refresh :: string
  tw_expires :: "int option"
  tw_trace :: "call_event list"

definition ts_auth_error :: call_error where
  "ts_auth_error =
     broker_error ''BROKER_REAUTH_REQUIRED'' ''TradeStation re-authentication required.'' False (Some 401)"

text \<open>\<open>int(v)\<close> of a JSON value.\<close>

definition py_int :: "json \<Rightarrow> int option" where
  "py_int v =
     (case v of
        JBool b \<Rightarrow> Some (if b then 1 else 0)
      | JInt n \<Rightarrow> Some n
      | JReal t \<Rightarrow>
          (case dec_parse t of
             Some d \<Rightarrow> if dec_is_finite d
               then Some (if dec_value d < 0 then \<lceil>dec_value d\<rceil> else \<lfloor>dec_value d\<rfloor>) else None
           | None \<Rightarrow> None)
      | JStr s \<Rightarrow>
          (let (neg, ds) = take_sign (py_strip s)
           in if py_isdigit ds then Some (if neg then - int (digits_nat ds) else int (digits_nat ds)) else None)
      | _ \<Rightarrow> None)"

text \<open>The adapter's \<open>_persist_tokens\<close>: the callback that stores refreshed tokens; \<open>None\<close> is an exception.\<close>

definition persist_tokens :: "'w ts_env \<Rightarrow> json \<Rightarrow> json \<Rightarrow> json \<Rightarrow> 'w ts_state \<Rightarrow> 'w ts_state option" where
  "persist_tokens env access refresh expires_in st =
     (case (access, refresh) of
        (JStr a, JStr r) \<Rightarrow>
          let st1 = st\<lparr>tw_stored_access := encrypt_key (te_fernet env) a,
                       tw_stored_refresh := encrypt_key (te_fernet env) r\<rparr>
          in if py_truthy expires_in
             then map_option (\<lambda>n. st1\<lparr>tw_expires := Some (te_now env + seconds n)\<rparr>) (py_int expires_in)
             else Some st1
      | _ \<Rightarrow> None)"

definition ts_refresh :: "'w ts_env \<Rightarrow> 'w ts_state \<Rightarrow> 'w ts_state \<times> fault option" where
  "ts_refresh env st =
     (case te_post env (te_oauth_base env @ ''/oauth/token'')
             [(''grant_type'', JStr ''refresh_token''), (''client_id'', JStr (te_client_id env)),
              (''client_secret'', JStr (te_client_secret env)), (''refresh_token'', tw_refresh st)] (tw_world st) of
        (w, None) \<Rightarrow> (st\<lparr>tw_world := w\<rparr>, Some Crash)
      | (w, Some resp) \<Rightarrow>
          let st1 = st\<lparr>tw_world := w\<rparr>
          in if 400 \<le> hr_status resp then (st1, Some (Fault ts_auth_error))
             else
               (case hr_json resp of
                  Some (JObj data) \<Rightarrow>
                    (case dict_get ''access_token'' data of
                       None \<Rightarrow> (st1, Some Crash)
                     | Some access \<Rightarrow>
                         let refresh = dict_get_or ''refresh_token'' (tw_refresh st) data;
                             st2 = st1\<lparr>tw_access := access, tw_refresh := refresh\<rparr>
                         in (case persist_tokens env access refresh (dict_get_or ''expires_in'' JNull data) st2 of
                               None \<Rightarrow> (st2, Some Crash)
                             | Some st3 \<Rightarrow> (st3, None)))
                | _ \<Rightarrow> (st1, Some Crash)))"

text \<open>What a response means; an empty body is an empty object.\<close>

definition ts_response :: "http_response \<Rightarrow> fault + json" where
  "ts_response resp =
     (if hr_status resp = 429
      then Inl (Fault (broker_error (error_code_str RATE_LIMITED) ''TradeStation rate limit.'' True (Some 429)))
      else if 500 \<le> hr_status resp
      then Inl (Fault (broker_error (error_code_str UNAVAILABLE) ''TradeStation unavailable.'' True (Some (hr_status resp))))
      else if 400 \<le> hr_status resp
      then Inl (Fault (broker_error (error_code_str ORDER_REJECTED) ''TradeStation rejected the request.'' False
             (Some (hr_status resp))))
      else if hr_content resp then (case hr_json resp of None \<Rightarrow> Inl Crash | Some v \<Rightarrow> Inr v)
      else Inr (JObj []))"

function ts_request ::
  "'w ts_env \<Rightarrow> string \<Rightarrow> string \<Rightarrow> ts_payload option \<Rightarrow> bool \<Rightarrow> 'w ts_state \<Rightarrow> 'w ts_state \<times> (fault + json)" where
  "ts_request env meth path body retry st =
     (case te_request env meth (te_api_base env @ path) (tw_access st) body (tw_world st) of
        (w, None) \<Rightarrow> (st\<lparr>tw_world := w\<rparr>, Inl Crash)
      | (w, Some resp) \<Rightarrow>
          if hr_status resp = 401 \<and> retry
          then (case ts_refresh env (st\<lparr>tw_world := w\<rparr>) of
                  (st1, Some f) \<Rightarrow> (st1, Inl f)
                | (st1, None) \<Rightarrow> ts_request env meth path body False st1)
          else (st\<lparr>tw_world := w\<rparr>, ts_response resp))"
  by pat_completeness auto
termination
  by (relation "measure (\<lambda>(env, meth, path, body, retry, st). if retry then 1 else 0)") auto

declare ts_request.simps [simp del]

text \<open>Continue with the value of a request, and the defaults of the endpoints.\<close>

definition ts_then :: "'w ts_state \<times> (fault + 'a) \<Rightarrow> ('a \<Rightarrow> fault + 'b) \<Rightarrow> 'w ts_state \<times> (fault + 'b)" where
  "ts_then r f = (case r of (st, Inl e) \<Rightarrow> (st, Inl e) | (st, Inr v) \<Rightarrow> (st, f v))"

definition field_if_dict :: "string \<Rightarrow> json \<Rightarrow> json \<Rightarrow> json" where
  "field_if_dict k dflt v = (case v of JObj d \<Rightarrow> dict_get_or k dflt d | _ \<Rightarrow> v)"

definition ts_get_accounts :: "'w ts_env \<Rightarrow> 'w ts_state \<Rightarrow> 'w ts_state \<times> (fault + json)" where
  "ts_get_accounts env st =
     ts_then (ts_request env ''GET'' ''/brokerage/accounts'' None True st) (\<lambda>v. Inr (field_if_dict ''Accounts'' v v))"

definition ts_get_positions :: "'w ts_env \<Rightarrow> string \<Rightarrow> 'w ts_state \<Rightarrow> 'w ts_state \<times> (fault + json)" where
  "ts_get_positions env number st =
     ts_then (ts_request env ''GET'' (''/brokerage/accounts/'' @ number @ ''/positions'') None True st)
       (\<lambda>v. Inr (field_if_dict ''Positions'' (JArr []) v))"

definition ts_get_orders :: "'w ts_env \<Rightarrow> string \<Rightarrow> 'w ts_state \<Rightarrow> 'w ts_state \<times> (fault + json)" where
  "ts_get_orders env number st =
     ts_then (ts_request env ''GET'' (''/brokerage/accounts/'' @ number @ ''/orders'') None True st)
       (\<lambda>v. Inr (field_if_dict ''Orders'' (JArr []) v))"

text \<open>\<open>(orders or [data])[0]\<close>: only a list or a string has an element at index 0.\<close>

definition first_order :: "json \<Rightarrow> fault + json" where
  "first_order data =
     (let orders = (case data of JObj d \<Rightarrow> dict_get_or ''Orders'' JNull d | _ \<Rightarrow> JNull)
      in if orders = JNull \<or> \<not> py_truthy orders then Inr data
         else case orders of
                JArr (x # xs) \<Rightarrow> Inr x
              | JStr (c # cs) \<Rightarrow> Inr (JStr [c])
              | _ \<Rightarrow> Inl Crash)"

definition ts_client_place_order :: "'w ts_env \<Rightarrow> ts_payload \<Rightarrow> 'w ts_state \<Rightarrow> 'w ts_state \<times> (fault + json)" where
  "ts_client_place_order env payload st =
     ts_then (ts_request env ''POST'' ''/orderexecution/orders'' (Some payload) True st) first_order"

definition ts_get_order :: "'w ts_env \<Rightarrow> string \<Rightarrow> string \<Rightarrow> 'w ts_state \<Rightarrow> 'w ts_state \<times> (fault + json)" where
  "ts_get_order env number oid st =
     ts_request env ''GET'' (''/brokerage/accounts/'' @ number @ ''/orders/'' @ oid) None True st"

definition ts_cancel_order :: "'w ts_env \<Rightarrow> string \<Rightarrow> 'w ts_state \<Rightarrow> 'w ts_state \<times> (fault + unit)" where
  "ts_cancel_order env oid st =
     ts_then (ts_request env ''DELETE'' (''/orderexecution/orders/'' @ oid) None True st) (\<lambda>v. Inr ())"

subsection \<open>The adapter\<close>

definition ts_audit :: "account \<Rightarrow> string \<Rightarrow> bool \<Rightarrow> string \<Rightarrow> 'w ts_state \<Rightarrow> 'w ts_state" where
  "ts_audit ac endpoint ok code st =
     st\<lparr>tw_trace := record_broker_call
          \<lparr>cr_account = Some (nat_str (b_id ac)), cr_user = Some (nat_str (b_user ac)), cr_broker = ''TRADESTATION'',
           cr_endpoint = endpoint, cr_method = ''GET'', cr_status = None, cr_ok = ok, cr_code = code\<rparr> (tw_trace st)\<rparr>"

text \<open>A call audited by its outcome; an exception other than a \<open>BrokerError\<close> is not.\<close>

definition ts_audited :: "account \<Rightarrow> string \<Rightarrow> 'w ts_state \<times> (fault + 'a) \<Rightarrow> 'w ts_state \<times> (fault + 'a)" where
  "ts_audited ac endpoint r =
     (case r of
        (st, Inr v) \<Rightarrow> (ts_audit ac endpoint True [] st, Inr v)
      | (st, Inl (Fault e)) \<Rightarrow> (ts_audit ac endpoint False (ce_code e) st, Inl (Fault e))
      | (st, Inl Crash) \<Rightarrow> (st, Inl Crash))"

fun find_account :: "string \<Rightarrow> attrs \<Rightarrow> json list \<Rightarrow> attrs option" where
  "find_account number dflt [] = Some dflt"
| "find_account number dflt (x # xs) =
     (case as_dict x of
        None \<Rightarrow> None
      | Some d \<Rightarrow> if py_str (dict_get_or ''AccountID'' JNull d) = number then Some d else find_account number dflt xs)"

text \<open>
  \<open>next((a for a in accounts if ...), accounts[0] if accounts else {})\<close>: the default is
  evaluated first, so a non-empty object fails on index 0.
\<close>

definition match_account :: "string \<Rightarrow> json \<Rightarrow> attrs option" where
  "match_account number accounts =
     (case accounts of
        JArr [] \<Rightarrow> Some []
      | JArr (x # xs) \<Rightarrow> find_account number (object_attrs x) (x # xs)
      | JObj [] \<Rightarrow> Some []
      | JStr [] \<Rightarrow> Some []
      | _ \<Rightarrow> None)"

definition ts_adapter_account :: "'w ts_env \<Rightarrow> account \<Rightarrow> 'w ts_state \<Rightarrow> 'w ts_state \<times> (fault + account_info)" where
  "ts_adapter_account env ac st =
     ts_then (ts_audited ac ''get_accounts'' (ts_get_accounts env st))
       (\<lambda>accounts. case Option.bind (match_account (b_number ac) accounts) from_ts_account of
          None \<Rightarrow> Inl Crash | Some a \<Rightarrow> Inr a)"

definition ts_connect :: "'w ts_env \<Rightarrow> account \<Rightarrow> 'w ts_state \<Rightarrow> 'w ts_state \<times> (fault + connection_info)" where
  "ts_connect env ac st =
     ts_then (ts_adapter_account env ac st)
       (\<lambda>a. Inr \<lparr>ci_number = ai_number a, ci_buying_power = ai_buying_power a, ci_currency = ''USD'', ci_is_paper = True\<rparr>)"

text \<open>\<open>[f(r) for r in rows]\<close>: the rows are a list of objects, or nothing.\<close>

definition map_rows :: "(attrs \<Rightarrow> 'a) \<Rightarrow> json \<Rightarrow> fault + 'a list" where
  "map_rows f rows =
     (case rows of
        JArr xs \<Rightarrow>
          (if list_all (\<lambda>x. as_dict x \<noteq> None) xs then Inr (map (\<lambda>x. f (object_attrs x)) xs) else Inl Crash)
      | JObj [] \<Rightarrow> Inr []
      | JStr [] \<Rightarrow> Inr []
      | _ \<Rightarrow> Inl Crash)"

definition ts_list_positions :: "'w ts_env \<Rightarrow> account \<Rightarrow> 'w ts_state \<Rightarrow> 'w ts_state \<times> (fault + position_dto list)" where
  "ts_list_positions env ac st = ts_then (ts_get_positions env (b_number ac) st) (map_rows from_ts_position)"

definition ts_list_open_orders :: "'w ts_env \<Rightarrow> account \<Rightarrow> 'w ts_state \<Rightarrow> 'w ts_state \<times> (fault + order_ack list)" where
  "ts_list_open_orders env ac st =
     ts_then (ts_get_orders env (b_number ac) st)
       (\<lambda>rows. map_sum id (filter (\<lambda>a. ak_status a \<in> {SUBMITTED, PARTIAL})) (map_rows from_ts_order rows))"

definition ts_place_order ::
  "'w ts_env \<Rightarrow> account \<Rightarrow> order_request \<Rightarrow> string \<Rightarrow> 'w ts_state \<Rightarrow> 'w ts_state \<times> (fault + order_ack)" where
  "ts_place_order env ac rq coid st =
     ts_then (ts_audited ac ''place_order'' (ts_client_place_order env (to_ts_order_payload rq coid (b_number ac)) st))
       (\<lambda>resp. case as_dict resp of None \<Rightarrow> Inl Crash | Some d \<Rightarrow> Inr (from_ts_order d))"

definition ts_order_status ::
  "'w ts_env \<Rightarrow> account \<Rightarrow> string \<Rightarrow> 'w ts_state \<Rightarrow> 'w ts_state \<times> (fault + order_status option)" where
  "ts_order_status env ac boid st =
     (case ts_get_order env (b_number ac) boid st of
        (st1, Inl (Fault e)) \<Rightarrow> (st1, Inr None)
      | (st1, Inl Crash) \<Rightarrow> (st1, Inl Crash)
      | (st1, Inr v) \<Rightarrow> (st1, case as_dict v of None \<Rightarrow> Inl Crash | Some d \<Rightarrow> Inr (Some (ak_status (from_ts_order d)))))"

text \<open>One opposing market order per open position; a refused one is skipped.\<close>

definition ts_flat_request :: "position_dto \<Rightarrow> order_request" where
  "ts_flat_request pos =
     \<lparr>rq_symbol = pd_symbol pos, rq_side = (if 0 < pd_qty pos then Sell else Buy), rq_qty = \<bar>pd_qty pos\<bar>,
      rq_type = MKT, rq_limit = None, rq_stop = None, rq_tif = DAY, rq_class = ''STOCK'', rq_option = None,
      rq_future = None\<rparr>"

fun ts_flatten_positions ::
  "'w ts_env \<Rightarrow> account \<Rightarrow> position_dto list \<Rightarrow> 'w ts_state \<Rightarrow> 'w ts_state \<times> (fault + order_ack list)" where
  "ts_flatten_positions env ac [] st = (st, Inr [])"
| "ts_flatten_positions env ac (pos # ps) st =
     (if pd_qty pos = 0 then ts_flatten_positions env ac ps st
      else case ts_place_order env ac (ts_flat_request pos) (''tsflat-'' @ pd_symbol pos) st of
             (st1, Inr ack) \<Rightarrow> ts_then (ts_flatten_positions env ac ps st1) (\<lambda>acks. Inr (ack # acks))
           | (st1, Inl (Fault e)) \<Rightarrow> ts_flatten_positions env ac ps st1
           | (st1, Inl Crash) \<Rightarrow> (st1, Inl Crash))"

definition ts_flatten_all :: "'w ts_env \<Rightarrow> account \<Rightarrow> string \<Rightarrow> 'w ts_state \<Rightarrow> 'w ts_state \<times> (fault + order_ack list)" where
  "ts_flatten_all env ac reason st =
     (case ts_list_positions env ac st of
        (st1, Inl e) \<Rightarrow> (st1, Inl e)
      | (st1, Inr ps) \<Rightarrow> ts_flatten_positions env ac ps st1)"

text \<open>\<open>None\<close> is an exception that is not a \<open>BrokerError\<close>.\<close>

definition ts_health :: "'w ts_env \<Rightarrow> account \<Rightarrow> 'w ts_state \<Rightarrow> 'w ts_state \<times> broker_health option" where
  "ts_health env ac st =
     (case ts_adapter_account env ac st of
        (st1, Inr _) \<Rightarrow> (st1, Some \<lparr>hl_state = CONNECTED, hl_detail = ''ok''\<rparr>)
      | (st1, Inl (Fault e)) \<Rightarrow> (st1, Some \<lparr>hl_state = DOWN, hl_detail = ce_code e\<rparr>)
      | (st1, Inl Crash) \<Rightarrow> (st1, None))"

definition tradestation_adapter :: "'w ts_env \<Rightarrow> account \<Rightarrow> 'w ts_state \<Rightarrow> adapter" where
  "tradestation_adapter env ac st =
     \<lparr>ad_account = map_sum fault_exn id (snd (ts_adapter_account env ac st)),
      ad_positions = map_sum fault_exn id (snd (ts_list_positions env ac st)),
      ad_flatten = (\<lambda>reason. map_sum fault_exn id (snd (ts_flatten_all env ac reason st))),
      ad_quote = None,
      ad_place = (\<lambda>rq coid. map_sum fault_exn id (snd (ts_place_order env ac rq coid st))),
      ad_events = (\<lambda>rq coid. []),
      ad_resolve = None\<rparr>"

subsection \<open>What the adapter keeps\<close>

lemma ts_status_known: "ts_status s \<noteq> NEEDS_RECONCILE"
proof -
  have "st \<noteq> NEEDS_RECONCILE" if "map_of ts_status_map s = Some st" for st
    using map_of_SomeD [OF that] by (auto simp: ts_status_map_def)
  then show ?thesis by (simp add: ts_status_def split: option.split)
qed

lemma from_ts_order_status: "ak_status (from_ts_order d) \<noteq> NEEDS_RECONCILE"
  by (simp add: from_ts_order_def Let_def ts_status_known)

lemma ts_then_Inr: "snd (ts_then r f) = Inr y \<longleftrightarrow> (\<exists>v. snd r = Inr v \<and> f v = Inr y)"
  by (auto simp: ts_then_def split: prod.split sum.split)

lemma ts_place_order_status: "snd (ts_place_order env ac rq coid st) = Inr ack \<Longrightarrow> ak_status ack \<noteq> NEEDS_RECONCILE"
  by (auto simp: ts_place_order_def ts_then_Inr from_ts_order_status split: option.splits)

lemma ts_flatten_status:
  "snd (ts_flatten_positions env ac ps st) = Inr acks \<Longrightarrow> ack \<in> set acks \<Longrightarrow> ak_status ack \<noteq> NEEDS_RECONCILE"
proof (induction ps arbitrary: st acks)
  case (Cons pos ps)
  show ?case
  proof (cases "pd_qty pos = 0")
    case False
    obtain st1 r where r: "ts_place_order env ac (ts_flat_request pos) (''tsflat-'' @ pd_symbol pos) st = (st1, r)"
      by (cases "ts_place_order env ac (ts_flat_request pos) (''tsflat-'' @ pd_symbol pos) st")
    then have "ak_status a \<noteq> NEEDS_RECONCILE" if "r = Inr a" for a
      using that ts_place_order_status [of env ac "ts_flat_request pos" "''tsflat-'' @ pd_symbol pos" st a] by simp
    with r False Cons show ?thesis by (auto simp: ts_then_Inr split: sum.splits fault.splits)
  qed (use Cons in simp)
qed simp

interpretation tradestation: acking_adapter "\<lambda>(env, ac, st). tradestation_adapter env ac st"
proof (unfold_locales, goal_cases)
  case (1 c rq coid ack)
  then show ?case by (auto simp: tradestation_adapter_def map_sum_Inr_iff dest: ts_place_order_status split: prod.splits)
next
  case (2 c reason acks ack)
  then show ?case
    by (auto simp: tradestation_adapter_def map_sum_Inr_iff ts_flatten_all_def dest: ts_flatten_status split: prod.splits sum.splits)
next
  case (3 c f coid)
  then show ?case by (auto simp: tradestation_adapter_def split: prod.splits)
next
  case (4 c f coid ack)
  then show ?case by (auto simp: tradestation_adapter_def split: prod.splits)
qed

text \<open>The adapter offers no lookup by client order id, so an ambiguous TradeStation order stays ambiguous.\<close>

lemma ts_ambiguous_stays: "resolve_needs_reconcile ac (tradestation_adapter env ac st) db = (db, 0)"
  by (simp add: resolve_needs_reconcile_def tradestation_adapter_def)

text \<open>The account's two equities differ by the profit and loss TradeStation reports for the day.\<close>

lemma from_ts_account_pnl:
  "from_ts_account d = Some a \<Longrightarrow> dict_get ''Balances'' d = Some (JObj b) \<Longrightarrow> b \<noteq> [] \<Longrightarrow>
   ai_equity a - ai_last_equity a = num_or_zero (dict_get_or ''TodaysProfitLoss'' JNull b)"
  by (auto simp: from_ts_account_def dict_get_def dict_get_or_def Let_def as_dict_def)

text \<open>A request goes out at most twice, the second time with a token refreshed in between.\<close>

lemma ts_refresh_world:
  assumes "\<And>u d w. sent (fst (te_post env u d w)) = sent w"
  shows "sent (tw_world (fst (ts_refresh env st))) = sent (tw_world st)"
proof -
  obtain w r where p: "te_post env (te_oauth_base env @ ''/oauth/token'')
      [(''grant_type'', JStr ''refresh_token''), (''client_id'', JStr (te_client_id env)),
       (''client_secret'', JStr (te_client_secret env)), (''refresh_token'', tw_refresh st)] (tw_world st) = (w, r)"
    by (rule prod.exhaust)
  have w: "sent w = sent (tw_world st)" using assms p by (metis fst_conv)
  have keep: "tw_world st' = tw_world s" if "persist_tokens env a f x s = Some st'" for a f x s st'
    using that by (auto simp: persist_tokens_def Let_def split: json.splits if_splits)
  show ?thesis
    by (auto simp: ts_refresh_def p w Let_def dest!: keep split: option.split json.split)
qed

lemma ts_request_world:
  assumes "\<And>m u t b w. sent (fst (te_request env m u t b w)) = sent w + 1"
    and "\<And>u d w. sent (fst (te_post env u d w)) = (sent w :: nat)"
  shows "sent (tw_world (fst (ts_request env meth path body retry st))) \<le> sent (tw_world st) + (if retry then 2 else 1)"
proof -
  have once: "sent (tw_world (fst (ts_request env meth path body False st))) = sent (tw_world st) + 1" for st
  proof -
    obtain w r where p: "te_request env meth (te_api_base env @ path) (tw_access st) body (tw_world st) = (w, r)"
      by (rule prod.exhaust)
    with assms(1) [of meth "te_api_base env @ path" "tw_access st" body "tw_world st"]
    show ?thesis by (subst ts_request.simps) (simp split: option.split)
  qed
  show ?thesis
  proof (cases retry)
    case True
    obtain w r where p: "te_request env meth (te_api_base env @ path) (tw_access st) body (tw_world st) = (w, r)"
      by (rule prod.exhaust)
    then have w: "sent w = sent (tw_world st) + 1"
      using assms(1) [of meth "te_api_base env @ path" "tw_access st" body "tw_world st"] by simp
    obtain st1 f where f: "ts_refresh env (st\<lparr>tw_world := w\<rparr>) = (st1, f)" by (rule prod.exhaust)
    have "sent (tw_world st1) = sent w"
      using ts_refresh_world [of sent env "st\<lparr>tw_world := w\<rparr>"] assms(2) f by simp
    with True w once [of st1] show ?thesis
      by (subst ts_request.simps) (auto simp: p f split: option.split)
  qed (use once [of st] in simp)
qed

end
