(* ===== verification/One_Time.thy ===== *)
theory One_Time
  imports Main
begin

text \<open>
  The contract of secrets that may be used once: the e-mail, reset and exchange tokens of the
  users, their MFA backup codes, and the state tokens of the broker's OAuth handshake.
\<close>

text \<open>
  What the clients of one-time secrets rely on: presenting one that is accepted spends it, a spent
  one is refused, and whatever is presented nothing becomes unspent. The secrets of the
  attempts are compared by their keys (their hashes).
\<close>

locale one_time =
  fixes key :: "'e \<Rightarrow> string \<Rightarrow> 'k"
    and present :: "'e \<Rightarrow> string \<Rightarrow> 's \<Rightarrow> 's \<times> 'r option"
    and spent :: "'k \<Rightarrow> 's \<Rightarrow> bool"
    and ok :: "'s \<Rightarrow> bool"
  assumes accepted_spends: "ok s \<Longrightarrow> snd (present e raw s) = Some r \<Longrightarrow> spent (key e raw) (fst (present e raw s))"
    and spent_refused: "spent (key e raw) s \<Longrightarrow> snd (present e raw s) = None"
    and spent_stays: "spent k s \<Longrightarrow> spent k (fst (present e raw s))"
    and ok_stays: "ok s \<Longrightarrow> ok (fst (present e raw s))"
begin

fun attempts :: "('e \<times> string) list \<Rightarrow> 's \<Rightarrow> ('k \<times> bool) list" where
  "attempts [] s = []"
| "attempts ((e, raw) # as) s = (key e raw, snd (present e raw s) \<noteq> None) # attempts as (fst (present e raw s))"

lemma spent_never_accepted: "spent k s \<Longrightarrow> (k, True) \<notin> set (attempts as s)"
proof (induction as arbitrary: s)
  case (Cons a as)
  obtain e raw where a: "a = (e, raw)" by (cases a)
  from Cons.IH [OF spent_stays [OF Cons.prems]] spent_refused [of e raw s] Cons.prems show ?case
    by (auto simp: a)
qed simp

lemma accepted_once:
  "ok s \<Longrightarrow> length (filter (\<lambda>a. a = (k, True)) (attempts as s)) \<le> 1"
proof (induction as arbitrary: s)
  case (Cons a as)
  obtain e raw where a: "a = (e, raw)" by (cases a)
  show ?case
  proof (cases "key e raw = k \<and> snd (present e raw s) \<noteq> None")
    case True
    then have "spent k (fst (present e raw s))" using accepted_spends [OF Cons.prems, of e raw] by auto
    then have "(k, True) \<notin> set (attempts as (fst (present e raw s)))" by (rule spent_never_accepted)
    then have "filter (\<lambda>a. a = (k, True)) (attempts as (fst (present e raw s))) = []" by (auto simp: filter_empty_conv)
    then show ?thesis by (simp add: a)
  next
    case False
    then show ?thesis using Cons.IH [OF ok_stays [OF Cons.prems]] by (auto simp: a)
  qed
qed simp

end

end
