(* ===== verification/Broker_Services.thy ===== *)
theory Broker_Services
  imports Alpaca Trade_Station Killswitch One_Time
begin

text \<open>
  The services and the API around the adapters: the default risk profile
  (\<open>risk/provisioning.py\<close>), the adapter factory, the halt gate and the stream heartbeat
  (\<open>brokers/services.py\<close>), the OAuth state (\<open>brokers/tradestation/oauth.py\<close>) and the handlers
  that connect, remove, switch, test and flatten an account (\<open>brokers/views.py\<close>,
  \<open>brokers/serializers.py\<close>). The lemmas show that an adapter always has the mode of its
  account, what a heartbeat of a given age means, that a state token is good once, and that
  a user with accounts always has exactly one default.
\<close>

subsection \<open>The default risk profile\<close>

definition default_permitted :: "asset_class list" where
  "default_permitted = [STOCK, ETF]"

definition default_profile :: "nat \<Rightarrow> risk_profile" where
  "default_profile uid =
     \<lparr>rp_user = uid, rp_risk_per_trade_pct = 1 / 2, rp_max_position_pct = 10, rp_max_concurrent = 3,
      rp_daily_loss_usd = 1000, rp_daily_loss_pct = 3, rp_leverage_cap = 1, rp_permitted = default_permitted,
      rp_soft_stop_pct = 5, rp_hard_stop_pct = 10, rp_strict_mode = True, rp_atr_factor = 3 / 2\<rparr>"

definition ensure_default_risk_profile :: "nat \<Rightarrow> db \<Rightarrow> db" where
  "ensure_default_risk_profile uid db =
     (if exists_where (\<lambda>p. rp_user p = uid) (d_profiles db) then db
      else db\<lparr>d_profiles := d_profiles db @ [default_profile uid]\<rparr>)"

subsection \<open>The adapter factory\<close>

primrec account_mode_str :: "account_mode \<Rightarrow> string" where
  "account_mode_str PAPER = ''PAPER''"
| "account_mode_str LIVE = ''LIVE''"

datatype built = BuiltAlpaca broker_context | BuiltTradeStation account

text \<open>The encrypted columns of an account, its key and its secret.\<close>

type_synonym key_columns = "nat \<Rightarrow> string \<times> string"

definition build_adapter ::
  "fernet \<Rightarrow> flag_env \<Rightarrow> key_columns \<Rightarrow> account \<Rightarrow> flags \<Rightarrow> flags \<times> (fault + built)" where
  "build_adapter fern fenv keys ac fs =
     (case (decrypt_key fern (fst (keys (b_id ac))), decrypt_key fern (snd (keys (b_id ac)))) of
        (Some key, Some secret) \<Rightarrow>
          let ctx = \<lparr>bc_account = nat_str (b_id ac), bc_user = nat_str (b_user ac), bc_key = key, bc_secret = secret,
                     bc_number = b_number ac, bc_mode = account_mode_str (b_mode ac)\<rparr>
          in (case b_broker ac of
                ALPACA \<Rightarrow>
                  (let (fs', enabled) = is_enabled fenv ''BROKER_ALPACA_ENABLED'' fs
                   in (fs', if enabled then Inr (BuiltAlpaca ctx)
                            else Inl (Fault (refusal DISABLED ''Alpaca is disabled by ops.''))))
              | TRADESTATION \<Rightarrow>
                  (let (fs', enabled) = is_enabled fenv ''BROKER_TRADESTATION_ENABLED'' fs
                   in (fs', if \<not> enabled then Inl (Fault (refusal DISABLED ''TradeStation is disabled by ops.''))
                            else if b_mode ac = LIVE
                            then Inl (Fault (refusal LIVE_TRADING_DISABLED ''TradeStation does not support live trading on this platform; the account is paper-only.''))
                            else Inr (BuiltTradeStation ac))))
      | _ \<Rightarrow> (fs, Inl Crash))"

text \<open>The throwaway adapter of a connection test, by the submitted broker and mode.\<close>

definition build_adapter_from_keys ::
  "flag_env \<Rightarrow> string \<Rightarrow> string \<Rightarrow> string \<Rightarrow> string \<Rightarrow> flags \<Rightarrow> flags \<times> (call_error + broker_context)" where
  "build_adapter_from_keys fenv key secret broker mode fs =
     (if broker = ''ALPACA''
      then let (fs', enabled) = is_enabled fenv ''BROKER_ALPACA_ENABLED'' fs
           in (fs', if enabled
                    then Inr \<lparr>bc_account = ''pending'', bc_user = ''pending'', bc_key = key, bc_secret = secret,
                              bc_number = [], bc_mode = mode\<rparr>
                    else Inl (refusal DISABLED ''Alpaca is disabled by ops.''))
      else (fs, Inl (refusal UNAVAILABLE (''Unknown broker '' @ str_repr broker @ ''.''))))"

text \<open>An adapter has the mode of its account: there is no fallback to the other endpoint.\<close>

lemma built_mode:
  "build_adapter fern fenv keys ac fs = (fs', Inr (BuiltAlpaca ctx)) \<Longrightarrow>
     is_paper ctx = (b_mode ac = PAPER) \<and> b_broker ac = ALPACA"
  "build_adapter fern fenv keys ac fs = (fs', Inr (BuiltTradeStation ac')) \<Longrightarrow>
     ac' = ac \<and> b_mode ac = PAPER \<and> b_broker ac = TRADESTATION"
  by (cases "b_mode ac"; auto simp: build_adapter_def is_paper_def Let_def case_prod_beta
      split: option.splits broker_name.splits if_splits)+

subsection \<open>The halt gate\<close>

definition active_halt_reason :: "db \<Rightarrow> nat \<Rightarrow> nat option \<Rightarrow> string option" where
  "active_halt_reason db uid strategy_id =
     (if exists_where (\<lambda>h. h_user h = Some uid \<and> h_strategy h = None \<and> h_released h = None) (d_halts db)
      then Some ''USER_HALTED''
      else if strategy_id \<noteq> None \<and>
        exists_where (\<lambda>h. h_user h = Some uid \<and> h_strategy h = strategy_id \<and> h_released h = None) (d_halts db)
      then Some ''STRATEGY_HALTED''
      else None)"

text \<open>It is the gate of the kill switch without the platform level.\<close>

lemma active_halt_reason_is_blocked:
  "is_blocked db uid strategy_id =
     (if exists_where (\<lambda>h. h_user h = None \<and> h_level h = L3 \<and> h_released h = None) (d_halts db)
      then Some ''PLATFORM_HALTED'' else active_halt_reason db uid strategy_id)"
  by (simp add: is_blocked_def active_halt_reason_def)

subsection \<open>Stream heartbeats\<close>

text \<open>A heartbeat is the state and the time of its last refresh; \<open>ttl\<close> is the setting, 45 seconds.\<close>

type_synonym heartbeats = "(conn_state \<times> int) cache"

definition heartbeat_key :: "nat \<Rightarrow> string" where
  "heartbeat_key acct = ''broker:hb:'' @ nat_str acct"

definition set_heartbeat :: "int \<Rightarrow> int \<Rightarrow> nat \<Rightarrow> conn_state \<Rightarrow> heartbeats \<Rightarrow> heartbeats" where
  "set_heartbeat ttl now acct st hb = cache_set hb now (heartbeat_key acct) (st, now) (ttl * 4)"

definition touch_heartbeat :: "int \<Rightarrow> int \<Rightarrow> nat \<Rightarrow> heartbeats \<Rightarrow> heartbeats" where
  "touch_heartbeat ttl now acct hb =
     (case cache_get hb now (heartbeat_key acct) of
        None \<Rightarrow> hb
      | Some (st, ts) \<Rightarrow> cache_set hb now (heartbeat_key acct) (st, now) (ttl * 4))"

definition get_stream_status :: "int \<Rightarrow> int \<Rightarrow> nat \<Rightarrow> heartbeats \<Rightarrow> conn_state" where
  "get_stream_status ttl now acct hb =
     (case cache_get hb now (heartbeat_key acct) of
        None \<Rightarrow> DOWN
      | Some (st, ts) \<Rightarrow> if seconds ttl < now - ts then DEGRADED else st)"

lemma stream_status_by_age:
  assumes "0 < ttl" "t0 \<le> t"
  shows "get_stream_status ttl t acct (set_heartbeat ttl t0 acct st hb) =
    (if t - t0 \<le> seconds ttl then st else if t - t0 < 4 * seconds ttl then DEGRADED else DOWN)"
  using assms by (simp add: get_stream_status_def set_heartbeat_def cache_get_def cache_set_def seconds_def)

text \<open>A touch keeps the state and never revives an account that has no heartbeat.\<close>

lemma touch_keeps_state:
  assumes "0 < ttl"
  shows "get_stream_status ttl now acct (touch_heartbeat ttl now acct hb) =
    (case cache_get hb now (heartbeat_key acct) of None \<Rightarrow> DOWN | Some (st, ts) \<Rightarrow> st)"
  using assms
  by (auto simp: get_stream_status_def touch_heartbeat_def cache_get_def cache_set_def seconds_def split: option.splits if_splits)

subsection \<open>OAuth state tokens\<close>

datatype oauth_entry = StateFor string | Verifier string

definition state_prefix :: string where
  "state_prefix = ''ts:oauth:state:''"

text \<open>The token itself comes from the system's random source.\<close>

definition issue_state :: "int \<Rightarrow> int \<Rightarrow> string \<Rightarrow> nat \<Rightarrow> oauth_entry cache \<Rightarrow> oauth_entry cache" where
  "issue_state ttl now token uid c = cache_set c now (state_prefix @ token) (StateFor (nat_str uid)) ttl"

definition consume_state :: "int \<Rightarrow> string \<Rightarrow> oauth_entry cache \<Rightarrow> oauth_entry cache \<times> oauth_entry option" where
  "consume_state now token c =
     (case cache_get c now (state_prefix @ token) of
        None \<Rightarrow> (c, None)
      | Some p \<Rightarrow> (cache_delete c (state_prefix @ token), Some p))"

definition store_verifier :: "int \<Rightarrow> int \<Rightarrow> string \<Rightarrow> string \<Rightarrow> oauth_entry cache \<Rightarrow> oauth_entry cache" where
  "store_verifier ttl now token verifier c =
     cache_set c now (state_prefix @ ''verifier:'' @ token) (Verifier verifier) ttl"

definition consume_verifier :: "int \<Rightarrow> string \<Rightarrow> oauth_entry cache \<Rightarrow> oauth_entry cache \<times> oauth_entry option" where
  "consume_verifier now token c =
     (case cache_get c now (state_prefix @ ''verifier:'' @ token) of
        None \<Rightarrow> (c, None)
      | Some v \<Rightarrow> (cache_delete c (state_prefix @ ''verifier:'' @ token), Some v))"

text \<open>A state token is accepted once, among any number of callbacks at any times.\<close>

interpretation oauth_states: one_time "\<lambda>now token. token" consume_state
  "\<lambda>token c. c (state_prefix @ token) = None" "\<lambda>c. True"
  by unfold_locales (auto simp: consume_state_def cache_delete_def cache_get_def split: option.splits if_splits)

interpretation oauth_verifiers: one_time "\<lambda>now token. token" consume_verifier
  "\<lambda>token c. c (state_prefix @ ''verifier:'' @ token) = None" "\<lambda>c. True"
  by unfold_locales (auto simp: consume_verifier_def cache_delete_def cache_get_def split: option.splits if_splits)

lemma state_issued:
  assumes "0 < ttl" "now \<le> t" "t < now + seconds ttl"
  shows "snd (consume_state t token (issue_state ttl now token uid c)) = Some (StateFor (nat_str uid))"
  using assms by (simp add: consume_state_def issue_state_def cache_set_def cache_get_def)

subsection \<open>The broker API\<close>

text \<open>
  What the handlers read and change: the tables, the flags, the key columns, the messages to
  the stream supervisor, and the world of the broker with the audited calls. A response is its
  status and its code, \<open>''ok''\<close> for success; \<open>Raised\<close> is an exception that reaches the framework.
\<close>

record 'w api =
  api_db :: db
  api_flags :: flags
  api_keys :: key_columns
  api_notified :: "(nat \<times> string) list"
  api_broker :: "'w alpaca_state"

datatype http_result = Response nat string | Raised

record 'w api_env =
  ae_env :: env
  ae_flags :: flag_env
  ae_fernet :: fernet
  ae_sdk :: "'w alpaca_sdk"
  ae_mfa :: "nat \<Rightarrow> string \<Rightarrow> bool"
  ae_live_opt_in :: "nat \<Rightarrow> bool option"

record connect_request =
  cn_broker :: string
  cn_mode :: string
  cn_key :: string
  cn_secret :: string
  cn_nickname :: string
  cn_default :: bool

text \<open>\<open>BrokerConnectSerializer\<close>: keys are stripped and must not be blank; only Alpaca and paper pass.\<close>

definition valid_connect :: "connect_request \<Rightarrow> connect_request option" where
  "valid_connect rq =
     (let key = py_strip (cn_key rq); secret = py_strip (cn_secret rq); nick = py_strip (cn_nickname rq)
      in if cn_broker rq = ''ALPACA'' \<and> cn_mode rq = ''PAPER'' \<and> key \<noteq> [] \<and> length key \<le> 128 \<and>
            secret \<noteq> [] \<and> length secret \<le> 256 \<and> length nick \<le> 64
         then Some (rq\<lparr>cn_key := key, cn_secret := secret, cn_nickname := nick\<rparr>) else None)"

definition user_accounts :: "nat \<Rightarrow> db \<Rightarrow> account list" where
  "user_accounts uid db = filter (\<lambda>a. b_user a = uid) (d_accounts db)"

definition alpaca_enabled :: "'w api_env \<Rightarrow> 'w api \<Rightarrow> 'w api \<times> bool" where
  "alpaca_enabled ae st =
     (let (fs, en) = is_enabled (ae_flags ae) ''BROKER_ALPACA_ENABLED'' (api_flags st) in (st\<lparr>api_flags := fs\<rparr>, en))"

text \<open>The adapter of the connection test and its \<open>connect\<close>.\<close>

definition test_keys :: "'w api_env \<Rightarrow> connect_request \<Rightarrow> 'w api \<Rightarrow> 'w api \<times> (call_error + connection_info)" where
  "test_keys ae rq st =
     (case build_adapter_from_keys (ae_flags ae) (cn_key rq) (cn_secret rq) (cn_broker rq) ''PAPER'' (api_flags st) of
        (fs, Inl e) \<Rightarrow> (st\<lparr>api_flags := fs\<rparr>, Inl e)
      | (fs, Inr ctx) \<Rightarrow>
          (let ((fs', br), r) = alpaca_connect (ae_sdk ae) ctx (ae_flags ae) (fs, api_broker st)
           in (st\<lparr>api_flags := fs', api_broker := br\<rparr>, r)))"

definition new_account :: "env \<Rightarrow> nat \<Rightarrow> nat \<Rightarrow> connection_info \<Rightarrow> bool \<Rightarrow> account" where
  "new_account env i uid info dflt =
     \<lparr>b_id = i, b_user = uid, b_broker = ALPACA, b_mode = PAPER, b_status = ACC_CONNECTED, b_default = dflt,
      b_number = ci_number info, b_created = e_now env\<rparr>"

definition insert_account :: "env \<Rightarrow> nat \<Rightarrow> connect_request \<Rightarrow> connection_info \<Rightarrow> db \<Rightarrow> db" where
  "insert_account env uid rq info db =
     (let make_default = cn_default rq \<or> user_accounts uid db = [];
          db1 = (if make_default
                 then db\<lparr>d_accounts := update_where (\<lambda>a. b_user a = uid \<and> b_default a) (\<lambda>a. a\<lparr>b_default := False\<rparr>) (d_accounts db)\<rparr>
                 else db);
          acct = new_account env (d_next db) uid info make_default
      in ensure_default_risk_profile uid (db1\<lparr>d_accounts := d_accounts db1 @ [acct], d_next := d_next db + 1\<rparr>))"

definition broker_audit :: "string \<Rightarrow> nat \<Rightarrow> nat \<Rightarrow> wire_dict \<Rightarrow> db \<Rightarrow> db" where
  "broker_audit event uid acct after =
     audit_emit \<lparr>ac_event = event, ac_user = Some uid, ac_actor = Some uid, ac_entity = ''broker_account'',
       ac_entity_id = nat_str acct, ac_after = after\<rparr>"

definition connect_broker :: "'w api_env \<Rightarrow> nat \<Rightarrow> connect_request \<Rightarrow> 'w api \<Rightarrow> 'w api \<times> http_result" where
  "connect_broker ae uid raw st =
     (let (st1, en) = alpaca_enabled ae st
      in if \<not> en then (st1, Response 503 ''BROKER_DISABLED'')
         else case valid_connect raw of
                None \<Rightarrow> (st1, Response 400 ''VALIDATION_ERROR'')
              | Some rq \<Rightarrow>
                  (case test_keys ae rq st1 of
                     (st2, Inl e) \<Rightarrow> (st2, Response 400 (ce_code e))
                   | (st2, Inr info) \<Rightarrow>
                       let db = api_db st2; i = d_next db
                       in if exists_where (\<lambda>a. b_user a = uid \<and> b_broker a = ALPACA \<and> b_number a = ci_number info) (d_accounts db)
                          then (st2, Response 409 ''BROKER_ALREADY_CONNECTED'')
                          else
                            let dflt = (cn_default rq \<or> user_accounts uid db = []);
                                db1 = insert_account (ae_env ae) uid rq info db;
                                db2 = broker_audit ''broker.connect'' uid i
                                  [(''broker'', WStr ''ALPACA''), (''mode'', WStr ''PAPER''),
                                   (''account_number'', WStr (ci_number info)), (''is_default'', WBool dflt)] db1
                            in (st2\<lparr>api_db := db2,
                                     api_keys := (api_keys st2)(i := (encrypt_key (ae_fernet ae) (cn_key rq),
                                                                     encrypt_key (ae_fernet ae) (cn_secret rq))),
                                     api_notified := api_notified st2 @ [(i, ''add'')]\<rparr>, Response 201 ''ok'')))"

text \<open>
  Deleting an account: its fills, positions and reconcile events go with it, its orders stay
  without an account.
\<close>

definition delete_account :: "nat \<Rightarrow> db \<Rightarrow> db" where
  "delete_account i db =
     db\<lparr>d_accounts := filter (\<lambda>a. b_id a \<noteq> i) (d_accounts db),
        d_orders := update_where (\<lambda>od. o_account od = Some i) (\<lambda>od. od\<lparr>o_account := None\<rparr>) (d_orders db),
        d_fills := filter (\<lambda>f. f_account f \<noteq> Some i) (d_fills db),
        d_positions := filter (\<lambda>p. p_account p \<noteq> i) (d_positions db),
        d_recons := filter (\<lambda>r. r_account r \<noteq> i) (d_recons db)\<rparr>"

text \<open>The oldest account, by creation time.\<close>

fun oldest_account :: "account list \<Rightarrow> account option" where
  "oldest_account [] = None"
| "oldest_account (a # as) =
     (case oldest_account as of None \<Rightarrow> Some a | Some b \<Rightarrow> if b_created b < b_created a then Some b else Some a)"

definition promote_oldest :: "nat \<Rightarrow> db \<Rightarrow> db" where
  "promote_oldest uid db =
     (case oldest_account (user_accounts uid db) of
        None \<Rightarrow> db
      | Some n \<Rightarrow> db\<lparr>d_accounts := update_where (\<lambda>a. b_id a = b_id n) (\<lambda>a. a\<lparr>b_default := True\<rparr>) (d_accounts db)\<rparr>)"

definition remove_broker :: "'w api_env \<Rightarrow> nat \<Rightarrow> nat \<Rightarrow> string \<Rightarrow> 'w api \<Rightarrow> 'w api \<times> http_result" where
  "remove_broker ae uid i mfa_code st =
     (case first_where (\<lambda>a. b_id a = i \<and> b_user a = uid) (d_accounts (api_db st)) of
        None \<Rightarrow> (st, Response 404 ''NOT_FOUND'')
      | Some ac \<Rightarrow>
          let code = py_strip mfa_code
          in if code = [] \<or> 16 < length code then (st, Response 400 ''VALIDATION_ERROR'')
             else if \<not> ae_mfa ae uid code then (st, Response 403 ''MFA_REQUIRED'')
             else
               let db1 = broker_audit ''broker.disconnect'' uid i [] (api_db st);
                   db2 = delete_account i db1;
                   db3 = (if b_default ac then promote_oldest uid db2 else db2)
               in (st\<lparr>api_db := db3, api_notified := api_notified st @ [(i, ''remove'')]\<rparr>, Response 200 ''ok''))"

definition set_account :: "nat \<Rightarrow> (account \<Rightarrow> account) \<Rightarrow> db \<Rightarrow> db" where
  "set_account i f db = db\<lparr>d_accounts := update_where (\<lambda>a. b_id a = i) f (d_accounts db)\<rparr>"

definition set_broker_mode :: "'w api_env \<Rightarrow> nat \<Rightarrow> nat \<Rightarrow> json \<Rightarrow> 'w api \<Rightarrow> 'w api \<times> http_result" where
  "set_broker_mode ae uid i raw st =
     (case first_where (\<lambda>a. b_id a = i \<and> b_user a = uid) (d_accounts (api_db st)) of
        None \<Rightarrow> (st, Response 404 ''NOT_FOUND'')
      | Some ac \<Rightarrow>
          let mode = py_strip (py_upper (py_str raw))
          in if mode \<noteq> ''PAPER'' \<and> mode \<noteq> ''LIVE'' then (st, Response 400 ''VALIDATION_ERROR'')
             else if mode = ''LIVE'' \<and>
               \<not> (fl_settings (ae_flags ae) live_flag = Some True \<and> ae_live_opt_in ae uid = Some True)
             then (st, Response 403 ''LIVE_TRADING_DISABLED'')
             else
               let db1 = set_account i (\<lambda>a. a\<lparr>b_mode := (if mode = ''LIVE'' then LIVE else PAPER)\<rparr>) (api_db st)
               in (st\<lparr>api_db := broker_audit ''broker.mode_change'' uid i [(''mode'', WStr mode)] db1\<rparr>, Response 200 ''ok''))"

text \<open>The tests and the staff's flatten run on the adapter the factory builds for the account.\<close>

definition test_connection ::
  "'w api_env \<Rightarrow> (account \<Rightarrow> broker_exn + adapter) \<Rightarrow> nat \<Rightarrow> nat \<Rightarrow> 'w api \<Rightarrow> 'w api \<times> http_result" where
  "test_connection ae build uid i st =
     (let (st1, en) = alpaca_enabled ae st
      in if \<not> en then (st1, Response 503 ''BROKER_DISABLED'')
         else case first_where (\<lambda>a. b_id a = i \<and> b_user a = uid) (d_accounts (api_db st1)) of
                None \<Rightarrow> (st1, Response 404 ''NOT_FOUND'')
              | Some ac \<Rightarrow>
                  (case (case build ac of Inl e \<Rightarrow> Inl e | Inr ad \<Rightarrow> ad_account ad) of
                     Inl (BrokerError code retryable) \<Rightarrow>
                       (st1\<lparr>api_db := set_account i (\<lambda>a. a\<lparr>b_status := ACC_ERROR\<rparr>) (api_db st1)\<rparr>, Response 400 code)
                   | Inr info \<Rightarrow>
                       (st1\<lparr>api_db := set_account i (\<lambda>a. a\<lparr>b_status := ACC_CONNECTED\<rparr>) (api_db st1)\<rparr>, Response 200 ''ok'')
                   | Inl OtherExn \<Rightarrow> (st1, Raised)))"

definition flatten_broker ::
  "'w api_env \<Rightarrow> (account \<Rightarrow> broker_exn + adapter) \<Rightarrow> nat \<Rightarrow> bool \<Rightarrow> nat \<Rightarrow> string \<Rightarrow> 'w api \<Rightarrow> 'w api \<times> http_result" where
  "flatten_broker ae build uid staff i reason st =
     (let (st1, en) = alpaca_enabled ae st
      in if \<not> en then (st1, Response 503 ''BROKER_DISABLED'')
         else if \<not> staff then (st1, Response 403 ''FORBIDDEN'')
         else case first_where (\<lambda>a. b_id a = i \<and> b_user a = uid) (d_accounts (api_db st1)) of
                None \<Rightarrow> (st1, Response 404 ''NOT_FOUND'')
              | Some ac \<Rightarrow>
                  (case (case build ac of
                           Inl e \<Rightarrow> Inl e
                         | Inr ad \<Rightarrow> (case ad_flatten ad (take 64 reason) of
                                      Inl e \<Rightarrow> Inl e
                                    | Inr acks \<Rightarrow> reconcile_positions ac ad (api_db st1))) of
                     Inl (BrokerError code retryable) \<Rightarrow> (st1, Response 400 code)
                   | Inl OtherExn \<Rightarrow> (st1, Raised)
                   | Inr (db1, changed) \<Rightarrow> (st1\<lparr>api_db := db1\<rparr>, Response 200 ''ok'')))"

subsection \<open>Exactly one default account\<close>

definition one_default :: "nat \<Rightarrow> account list \<Rightarrow> bool" where
  "one_default uid as \<longleftrightarrow>
     (let mine = filter (\<lambda>a. b_user a = uid) as in mine = [] \<or> length (filter b_default mine) = 1)"

definition accounts_ok :: "db \<Rightarrow> bool" where
  "accounts_ok db \<longleftrightarrow>
     (\<forall>uid. one_default uid (d_accounts db)) \<and> distinct (map b_id (d_accounts db)) \<and> (\<forall>a\<in>set (d_accounts db). b_id a < d_next db)"

lemma one_default_cong:
  "filter (\<lambda>a. b_user a = uid) as = filter (\<lambda>a. b_user a = uid) bs \<Longrightarrow> one_default uid as = one_default uid bs"
  by (simp add: one_default_def)

lemma accounts_ok_frame: "d_accounts db' = d_accounts db \<Longrightarrow> d_next db' = d_next db \<Longrightarrow> accounts_ok db' = accounts_ok db"
  by (simp add: accounts_ok_def)

lemma ensure_profile_accounts [simp]:
  "d_accounts (ensure_default_risk_profile uid db) = d_accounts db" "d_next (ensure_default_risk_profile uid db) = d_next db"
  by (simp_all add: ensure_default_risk_profile_def)

lemma broker_audit_accounts [simp]:
  "d_accounts (broker_audit ev uid i w db) = d_accounts db" "d_next (broker_audit ev uid i w db) = d_next db"
  by (simp_all add: broker_audit_def audit_emit_def)

lemma filter_update_commute:
  "(\<And>x. p (f x) = p x) \<Longrightarrow> filter p (update_where q f xs) = update_where q f (filter p xs)"
  by (induction xs) (auto simp: update_where_Cons)

lemma filter_update_keep:
  "(\<And>x. p (f x) = p x) \<Longrightarrow> length (filter p (update_where q f xs)) = length (filter p xs)"
  by (simp add: filter_update_commute)

lemma filter_update_untouched:
  "(\<And>x. q x \<Longrightarrow> \<not> p x \<and> \<not> p (f x)) \<Longrightarrow> filter p (update_where q f xs) = filter p xs"
  by (induction xs) (auto simp: update_where_Cons)

lemma update_where_Nil_iff [simp]: "update_where q f xs = [] \<longleftrightarrow> xs = []"
  by (cases xs) (simp_all add: update_where_Cons)

lemma ids_below:
  assumes "map b_id as = map b_id bs" "\<forall>a\<in>set bs. b_id a < n"
  shows "\<forall>a\<in>set as. b_id a < n"
proof
  fix a
  assume "a \<in> set as"
  then have "b_id a \<in> set (map b_id bs)" unfolding assms(1) [symmetric] by simp
  then show "b_id a < n" using assms(2) by auto
qed

lemma set_account_ok:
  assumes f: "\<And>a. b_user (f a) = b_user a" "\<And>a. b_default (f a) = b_default a" "\<And>a. b_id (f a) = b_id a"
    and ok: "accounts_ok db"
  shows "accounts_ok (set_account i f db)"
proof -
  let ?as = "update_where (\<lambda>a. b_id a = i) f (d_accounts db)"
  have "one_default uid ?as = one_default uid (d_accounts db)" for uid
    by (simp add: one_default_def f filter_update_commute filter_update_keep)
  moreover have "map b_id ?as = map b_id (d_accounts db)" by (rule map_update_where) (rule f)
  moreover have "\<forall>a\<in>set ?as. b_id a < d_next db"
    by (rule ids_below [OF calculation(2)]) (use ok in \<open>simp add: accounts_ok_def\<close>)
  ultimately show ?thesis using ok by (simp add: accounts_ok_def set_account_def)
qed

lemma cleared_defaults:
  "filter b_default (filter (\<lambda>a. b_user a = uid)
     (update_where (\<lambda>a. b_user a = uid \<and> b_default a) (\<lambda>a. a\<lparr>b_default := False\<rparr>) as)) = []"
  by (induction as) (auto simp: update_where_Cons)

lemma insert_account_ok:
  assumes ok: "accounts_ok db"
  shows "accounts_ok (insert_account env uid rq info db)"
proof -
  define dflt where "dflt = (cn_default rq \<or> user_accounts uid db = [])"
  define as where "as = (if dflt
    then update_where (\<lambda>a. b_user a = uid \<and> b_default a) (\<lambda>a. a\<lparr>b_default := False\<rparr>) (d_accounts db) else d_accounts db)"
  let ?new = "new_account env (d_next db) uid info dflt"
  have new: "b_user ?new = uid" "b_default ?new = dflt" "b_id ?new = d_next db" by (simp_all add: new_account_def)
  have one: "one_default u (d_accounts db)" for u using ok by (simp add: accounts_ok_def)
  have ids: "map b_id as = map b_id (d_accounts db)" by (simp add: as_def map_update_where)
  have "one_default u (as @ [?new])" for u
  proof (cases "u = uid")
    case True
    show ?thesis
    proof (cases dflt)
      case dflt: True
      have "filter b_default (filter (\<lambda>a. b_user a = uid) as) = []"
        unfolding as_def if_P [OF dflt] by (rule cleared_defaults)
      with dflt True new show ?thesis by (simp add: one_default_def)
    next
      case False
      with one [of uid] True new show ?thesis
        by (simp add: one_default_def as_def dflt_def user_accounts_def Let_def)
    qed
  next
    case False
    have "filter (\<lambda>a. b_user a = u) as = filter (\<lambda>a. b_user a = u) (d_accounts db)"
      unfolding as_def using False by (auto intro!: filter_update_untouched)
    then have "filter (\<lambda>a. b_user a = u) (as @ [?new]) = filter (\<lambda>a. b_user a = u) (d_accounts db)"
      using False new by simp
    then have "one_default u (as @ [?new]) = one_default u (d_accounts db)" by (rule one_default_cong)
    with one show ?thesis by simp
  qed
  moreover have "distinct (map b_id (as @ [?new]))"
    using ok new by (auto simp: ids accounts_ok_def)
  moreover have "\<forall>i\<in>set (map b_id (as @ [?new])). i < d_next db + 1"
    using ok new by (auto simp: ids accounts_ok_def less_Suc_eq)
  moreover have "d_accounts (insert_account env uid rq info db) = as @ [?new]"
    "d_next (insert_account env uid rq info db) = d_next db + 1"
    by (simp_all add: insert_account_def Let_def as_def dflt_def)
  ultimately show ?thesis by (simp add: accounts_ok_def)
qed

lemma oldest_account_in: "oldest_account as = Some a \<Longrightarrow> a \<in> set as"
  by (induction as arbitrary: a) (auto split: option.splits if_splits)

lemma oldest_account_None: "oldest_account as = None \<longleftrightarrow> as = []"
  by (cases as) (auto split: option.splits)

lemma promoted_count:
  "distinct (map b_id as) \<Longrightarrow> filter b_default as = [] \<Longrightarrow> n \<in> set as \<Longrightarrow>
   length (filter b_default (update_where (\<lambda>a. b_id a = b_id n) (\<lambda>a. a\<lparr>b_default := True\<rparr>) as)) = 1"
proof (induction as)
  case (Cons a as)
  show ?case
  proof (cases "b_id a = b_id n")
    case True
    with Cons.prems(1) have "\<forall>x\<in>set as. b_id x \<noteq> b_id n" by (auto simp: image_iff)
    then have "update_where (\<lambda>a. b_id a = b_id n) (\<lambda>a. a\<lparr>b_default := True\<rparr>) as = as"
      by (intro update_where_none) blast
    with True Cons.prems(2) show ?thesis by (simp add: update_where_Cons split: if_splits)
  next
    case False
    then have "n \<in> set as" using Cons.prems(3) by auto
    with False Cons show ?thesis by (simp add: update_where_Cons split: if_splits)
  qed
qed simp

text \<open>Promoting the oldest account of a user that is left without a default.\<close>

lemma promote_oldest_ok:
  assumes others: "\<And>u. u \<noteq> uid \<Longrightarrow> one_default u (d_accounts db)"
    and none: "filter b_default (user_accounts uid db) = []"
    and ids: "distinct (map b_id (d_accounts db))" "\<forall>a\<in>set (d_accounts db). b_id a < d_next db"
  shows "accounts_ok (promote_oldest uid db)"
proof (cases "oldest_account (user_accounts uid db)")
  case None
  then have "one_default uid (d_accounts db)" by (simp add: oldest_account_None one_default_def user_accounts_def)
  with others have "one_default u (d_accounts db)" for u by (cases "u = uid") simp_all
  with None ids show ?thesis by (simp add: promote_oldest_def accounts_ok_def)
next
  case (Some n)
  let ?up = "update_where (\<lambda>a. b_id a = b_id n) (\<lambda>a. a\<lparr>b_default := True\<rparr>)"
  have n: "n \<in> set (user_accounts uid db)" using oldest_account_in [OF Some] .
  have mids: "distinct (map b_id (user_accounts uid db))"
    unfolding user_accounts_def using ids(1) by (rule distinct_map_filter)
  have key: "a = n" if "a \<in> set (d_accounts db)" "b_id a = b_id n" for a
    using that n ids(1) by (auto simp: user_accounts_def distinct_map inj_on_def)
  have "one_default u (?up (d_accounts db))" for u
  proof (cases "u = uid")
    case True
    have "filter (\<lambda>a. b_user a = uid) (?up (d_accounts db)) = ?up (user_accounts uid db)"
      by (simp add: user_accounts_def filter_update_commute)
    then show ?thesis using promoted_count [OF mids none n] True by (simp add: one_default_def)
  next
    case False
    have "filter (\<lambda>a. b_user a = u) (?up (d_accounts db)) = ?up (filter (\<lambda>a. b_user a = u) (d_accounts db))"
      by (simp add: filter_update_commute)
    also have "\<dots> = filter (\<lambda>a. b_user a = u) (d_accounts db)"
      by (rule update_where_none) (use key n False in \<open>auto simp: user_accounts_def\<close>)
    finally have "one_default u (?up (d_accounts db)) = one_default u (d_accounts db)" by (rule one_default_cong)
    with others [OF False] show ?thesis by simp
  qed
  moreover have up: "map b_id (?up (d_accounts db)) = map b_id (d_accounts db)" by (simp add: map_update_where)
  moreover have "\<forall>a\<in>set (?up (d_accounts db)). b_id a < d_next db" by (rule ids_below [OF up ids(2)])
  ultimately show ?thesis using Some ids(1) by (simp add: promote_oldest_def accounts_ok_def)
qed

lemma delete_account_ok:
  assumes ok: "accounts_ok db" and ac: "ac \<in> set (d_accounts db)" "b_user ac = uid"
  shows "accounts_ok (if b_default ac then promote_oldest uid (delete_account (b_id ac) db) else delete_account (b_id ac) db)"
proof -
  let ?del = "delete_account (b_id ac) db" and ?rest = "filter (\<lambda>a. b_id a \<noteq> b_id ac) (d_accounts db)"
  have rest: "d_accounts ?del = ?rest" "d_next ?del = d_next db" by (simp_all add: delete_account_def)
  have ids: "distinct (map b_id (d_accounts db))" and one: "\<And>u. one_default u (d_accounts db)"
    and bound: "\<forall>a\<in>set (d_accounts db). b_id a < d_next db"
    using ok by (simp_all add: accounts_ok_def)
  have key: "a = ac" if "a \<in> set (d_accounts db)" "b_id a = b_id ac" for a
    using that ac ids by (auto simp: distinct_map inj_on_def)
  have rids: "distinct (map b_id ?rest)" using ids by (rule distinct_map_filter)
  have others: "one_default u ?rest" if "u \<noteq> uid" for u
  proof -
    have "filter (\<lambda>a. b_user a = u) ?rest = filter (\<lambda>a. b_user a = u) (d_accounts db)"
      using key that ac by (auto intro!: filter_cong)
    then have "one_default u ?rest = one_default u (d_accounts db)" by (rule one_default_cong)
    with one show ?thesis by simp
  qed
  have mine: "filter b_default (filter (\<lambda>a. b_user a = uid) ?rest) =
      filter (\<lambda>a. b_id a \<noteq> b_id ac) (filter b_default (filter (\<lambda>a. b_user a = uid) (d_accounts db)))"
    by (auto intro!: filter_cong)
  have some: "filter (\<lambda>a. b_user a = uid) (d_accounts db) \<noteq> []" using ac by (auto simp: filter_empty_conv)
  show ?thesis
  proof (cases "b_default ac")
    case True
    have "ac \<in> set (filter b_default (filter (\<lambda>a. b_user a = uid) (d_accounts db)))" using ac True by simp
    then have "filter b_default (filter (\<lambda>a. b_user a = uid) (d_accounts db)) = [ac]"
      using one [of uid] some
      by (cases "filter b_default (filter (\<lambda>a. b_user a = uid) (d_accounts db))")
        (auto simp: one_default_def simp del: filter_filter)
    then have "filter b_default (user_accounts uid ?del) = []"
      by (simp add: user_accounts_def rest mine del: filter_filter)
    then have "accounts_ok (promote_oldest uid ?del)"
      by (intro promote_oldest_ok) (use others rids bound in \<open>simp_all add: rest\<close>)
    with True show ?thesis by simp
  next
    case False
    have "filter (\<lambda>a. b_id a \<noteq> b_id ac) (filter b_default (filter (\<lambda>a. b_user a = uid) (d_accounts db))) =
        filter b_default (filter (\<lambda>a. b_user a = uid) (d_accounts db))"
      unfolding filter_filter using key False by (intro filter_cong refl) auto
    then have "one_default uid ?rest" using one [of uid] some mine
      by (simp add: one_default_def del: filter_filter)
    with others have "one_default u ?rest" for u by (cases "u = uid") simp_all
    with False rids bound show ?thesis by (simp add: accounts_ok_def rest)
  qed
qed

subsection \<open>The API keeps the accounts in order\<close>

lemma snap_position_accounts [simp]:
  "d_accounts (fst (snap_position ac bp db)) = d_accounts db" "d_next (fst (snap_position ac bp db)) = d_next db"
  by (simp_all add: snap_position_def Let_def with_position_def push_to_user_def split: option.split)

lemma snap_positions_accounts [simp]:
  "d_accounts (fst (snap_positions ac bps db)) = d_accounts db" "d_next (fst (snap_positions ac bps db)) = d_next db"
  by (induction bps arbitrary: db) (simp_all add: case_prod_beta Let_def)

lemma fold_push_accounts [simp]:
  "d_accounts (fold (\<lambda>p. push_to_user u t (g p)) ps db) = d_accounts db"
  "d_next (fold (\<lambda>p. push_to_user u t (g p)) ps db) = d_next db"
  by (induction ps arbitrary: db) (simp_all add: push_to_user_def)

lemma reconcile_positions_accounts:
  "reconcile_positions ac ad db = Inr (db', n) \<Longrightarrow> d_accounts db' = d_accounts db \<and> d_next db' = d_next db"
  by (auto simp: reconcile_positions_def Let_def case_prod_beta flatten_missing_def split: sum.splits)

datatype api_call =
    Connect nat connect_request
  | Remove nat nat string
  | SetMode nat nat json
  | TestConnection nat nat
  | FlattenAccount nat bool nat string

primrec api_step ::
  "'w api_env \<Rightarrow> (account \<Rightarrow> broker_exn + adapter) \<Rightarrow> 'w api \<Rightarrow> api_call \<Rightarrow> 'w api" where
  "api_step ae build st (Connect uid rq) = fst (connect_broker ae uid rq st)"
| "api_step ae build st (Remove uid i code) = fst (remove_broker ae uid i code st)"
| "api_step ae build st (SetMode uid i raw) = fst (set_broker_mode ae uid i raw st)"
| "api_step ae build st (TestConnection uid i) = fst (test_connection ae build uid i st)"
| "api_step ae build st (FlattenAccount uid staff i reason) = fst (flatten_broker ae build uid staff i reason st)"

fun run_api ::
  "('w api_env \<times> (account \<Rightarrow> broker_exn + adapter) \<times> api_call) list \<Rightarrow> 'w api \<Rightarrow> 'w api" where
  "run_api [] st = st"
| "run_api ((ae, build, c) # cs) st = run_api cs (api_step ae build st c)"

lemma alpaca_enabled_db [simp]: "api_db (fst (alpaca_enabled ae st)) = api_db st"
  by (simp add: alpaca_enabled_def Let_def case_prod_beta)

lemma test_keys_db [simp]: "api_db (fst (test_keys ae rq st)) = api_db st"
  by (simp add: test_keys_def Let_def case_prod_beta split: prod.split sum.split)

definition accounts_paper :: "db \<Rightarrow> bool" where
  "accounts_paper db \<longleftrightarrow> (\<forall>a\<in>set (d_accounts db). b_mode a = PAPER)"

text \<open>What each call does to the accounts.\<close>

lemma connect_cases:
  obtains "api_db (fst (connect_broker ae uid raw st)) = api_db st"
  | rq info where "api_db (fst (connect_broker ae uid raw st)) =
      broker_audit ''broker.connect'' uid (d_next (api_db st))
        [(''broker'', WStr ''ALPACA''), (''mode'', WStr ''PAPER''), (''account_number'', WStr (ci_number info)),
         (''is_default'', WBool (cn_default rq \<or> user_accounts uid (api_db st) = []))]
        (insert_account (ae_env ae) uid rq info (api_db st))"
proof -
  obtain st1 en where e: "alpaca_enabled ae st = (st1, en)" by (rule prod.exhaust)
  have db1: "api_db st1 = api_db st" using alpaca_enabled_db [of ae st] e by simp
  show thesis
  proof (cases "valid_connect raw")
    case None
    with e db1 show ?thesis by (intro that(1)) (simp add: connect_broker_def)
  next
    case (Some rq)
    obtain st2 r where t: "test_keys ae rq st1 = (st2, r)" by (rule prod.exhaust)
    have db2: "api_db st2 = api_db st" using test_keys_db [of ae rq st1] t db1 by simp
    show ?thesis
    proof (cases "en \<and> (\<exists>info. r = Inr info \<and>
        \<not> exists_where (\<lambda>a. b_user a = uid \<and> b_broker a = ALPACA \<and> b_number a = ci_number info) (d_accounts (api_db st)))")
      case True
      then obtain info where "r = Inr info" "en"
        "\<not> exists_where (\<lambda>a. b_user a = uid \<and> b_broker a = ALPACA \<and> b_number a = ci_number info) (d_accounts (api_db st))"
        by blast
      with e Some t db2 show ?thesis by (intro that(2) [of info rq]) (simp add: connect_broker_def Let_def)
    next
      case False
      with e Some t db1 db2 show ?thesis
        by (intro that(1)) (auto simp: connect_broker_def Let_def split: sum.split)
    qed
  qed
qed

lemma remove_cases:
  obtains "api_db (fst (remove_broker ae uid i code st)) = api_db st"
  | ac db1 where "ac \<in> set (d_accounts (api_db st))" "b_id ac = i" "b_user ac = uid"
      "d_accounts db1 = d_accounts (api_db st)" "d_next db1 = d_next (api_db st)"
      "api_db (fst (remove_broker ae uid i code st)) =
        (if b_default ac then promote_oldest uid (delete_account i db1) else delete_account i db1)"
proof (cases "first_where (\<lambda>a. b_id a = i \<and> b_user a = uid) (d_accounts (api_db st))")
  case None
  then show ?thesis by (intro that(1)) (simp add: remove_broker_def)
next
  case (Some ac)
  from first_where_Some [OF this] have ac: "ac \<in> set (d_accounts (api_db st))" "b_id ac = i" "b_user ac = uid" by auto
  show ?thesis
  proof (cases "py_strip code = [] \<or> 16 < length (py_strip code) \<or> \<not> ae_mfa ae uid (py_strip code)")
    case True
    with Some show ?thesis by (intro that(1)) (auto simp: remove_broker_def Let_def)
  next
    case False
    with Some ac show ?thesis
      by (intro that(2) [of ac "broker_audit ''broker.disconnect'' uid i [] (api_db st)"])
        (simp_all add: remove_broker_def Let_def)
  qed
qed

lemma broker_audit_ok [simp]:
  "accounts_ok (broker_audit ev uid i w db) = accounts_ok db" "accounts_paper (broker_audit ev uid i w db) = accounts_paper db"
  by (simp_all add: accounts_ok_def accounts_paper_def)

lemma insert_account_paper: "accounts_paper db \<Longrightarrow> accounts_paper (insert_account env uid rq info db)"
  by (auto simp: accounts_paper_def insert_account_def Let_def new_account_def set_update_where)

lemma promote_oldest_modes:
  "a \<in> set (d_accounts (promote_oldest uid db)) \<Longrightarrow> \<exists>a'\<in>set (d_accounts db). b_mode a' = b_mode a"
  by (auto simp: promote_oldest_def set_update_where split: option.splits if_splits)

lemma remove_modes:
  "a \<in> set (d_accounts (api_db (fst (remove_broker ae uid i code st)))) \<Longrightarrow> \<exists>a'\<in>set (d_accounts (api_db st)). b_mode a' = b_mode a"
  by (rule remove_cases [of ae uid i code st])
    (auto simp: delete_account_def dest!: promote_oldest_modes split: if_splits)

lemma status_step_accounts:
  "accounts_ok (api_db st) \<Longrightarrow> accounts_ok (api_db (fst (test_connection ae build uid i st)))"
  "accounts_paper (api_db st) \<Longrightarrow> accounts_paper (api_db (fst (test_connection ae build uid i st)))"
proof -
  obtain st1 en where e: "alpaca_enabled ae st = (st1, en)" by (rule prod.exhaust)
  then have [simp]: "api_db st1 = api_db st" using alpaca_enabled_db [of ae st] by simp
  have "accounts_paper (set_account i (\<lambda>a. a\<lparr>b_status := x\<rparr>) db)" if "accounts_paper db" for x db
    using that by (auto simp: accounts_paper_def set_account_def set_update_where)
  then show "accounts_paper (api_db st) \<Longrightarrow> accounts_paper (api_db (fst (test_connection ae build uid i st)))"
    by (auto simp: test_connection_def e Let_def split: option.split sum.split broker_exn.split)
  show "accounts_ok (api_db st) \<Longrightarrow> accounts_ok (api_db (fst (test_connection ae build uid i st)))"
    by (auto simp: test_connection_def e Let_def set_account_ok split: option.split sum.split broker_exn.split)
qed

lemma flatten_step_accounts:
  "d_accounts (api_db (fst (flatten_broker ae build uid staff i reason st))) = d_accounts (api_db st) \<and>
   d_next (api_db (fst (flatten_broker ae build uid staff i reason st))) = d_next (api_db st)"
proof -
  obtain st1 en where e: "alpaca_enabled ae st = (st1, en)" by (rule prod.exhaust)
  then have [simp]: "api_db st1 = api_db st" using alpaca_enabled_db [of ae st] by simp
  show ?thesis
    by (auto simp: flatten_broker_def e Let_def dest: reconcile_positions_accounts
        split: option.split sum.splits broker_exn.split)
qed

lemma mode_step_accounts:
  "accounts_ok (api_db st) \<Longrightarrow> accounts_ok (api_db (fst (set_broker_mode ae uid i raw st)))"
  "accounts_paper (api_db st) \<Longrightarrow> fl_settings (ae_flags ae) live_flag \<noteq> Some True \<or> ae_live_opt_in ae uid \<noteq> Some True \<Longrightarrow>
   accounts_paper (api_db (fst (set_broker_mode ae uid i raw st)))"
proof -
  have "accounts_paper (set_account i (\<lambda>a. a\<lparr>b_mode := PAPER\<rparr>) db)" if "accounts_paper db" for db
    using that by (auto simp: accounts_paper_def set_account_def set_update_where)
  then show "accounts_paper (api_db st) \<Longrightarrow> fl_settings (ae_flags ae) live_flag \<noteq> Some True \<or> ae_live_opt_in ae uid \<noteq> Some True \<Longrightarrow>
      accounts_paper (api_db (fst (set_broker_mode ae uid i raw st)))"
    by (auto simp: set_broker_mode_def Let_def split: option.split)
  have "accounts_ok (set_account i (\<lambda>a. a\<lparr>b_mode := m\<rparr>) db)" if "accounts_ok db" for m db
    using set_account_ok [of "\<lambda>a. a\<lparr>b_mode := m\<rparr>" db i] that by simp
  then show "accounts_ok (api_db st) \<Longrightarrow> accounts_ok (api_db (fst (set_broker_mode ae uid i raw st)))"
    by (auto simp: set_broker_mode_def Let_def split: option.split)
qed

lemma api_step_ok:
  assumes "accounts_ok (api_db st)"
  shows "accounts_ok (api_db (api_step ae build st c))"
proof (cases c)
  case (Connect uid rq)
  show ?thesis unfolding Connect api_step.simps
    by (rule connect_cases [of ae uid rq st])
      (simp_all add: assms insert_account_ok)
next
  case (Remove uid i code)
  show ?thesis unfolding Remove api_step.simps
  proof (rule remove_cases [of ae uid i code st])
    fix ac db1
    assume "ac \<in> set (d_accounts (api_db st))" "b_id ac = i" "b_user ac = uid"
      and fr: "d_accounts db1 = d_accounts (api_db st)" "d_next db1 = d_next (api_db st)"
      and eq: "api_db (fst (remove_broker ae uid i code st)) =
        (if b_default ac then promote_oldest uid (delete_account i db1) else delete_account i db1)"
    moreover have "accounts_ok db1" using accounts_ok_frame [OF fr] assms by simp
    ultimately show "accounts_ok (api_db (fst (remove_broker ae uid i code st)))"
      using delete_account_ok [of db1 ac uid] by (simp only: eq fr)
  qed (simp add: assms)
next
  case (FlattenAccount uid staff i reason)
  then show ?thesis
    using assms accounts_ok_frame [of "api_db (fst (flatten_broker ae build uid staff i reason st))" "api_db st"]
      flatten_step_accounts [of ae build uid staff i reason st] by simp
qed (simp_all add: assms mode_step_accounts status_step_accounts)

lemma api_step_paper:
  assumes "accounts_paper (api_db st)"
    and "fl_settings (ae_flags ae) live_flag \<noteq> Some True \<or> (\<forall>uid. ae_live_opt_in ae uid \<noteq> Some True)"
  shows "accounts_paper (api_db (api_step ae build st c))"
proof (cases c)
  case (Connect uid rq)
  show ?thesis unfolding Connect api_step.simps
    by (rule connect_cases [of ae uid rq st])
      (simp_all add: assms(1) insert_account_paper)
next
  case (Remove uid i code)
  show ?thesis unfolding Remove api_step.simps accounts_paper_def
  proof
    fix a
    assume "a \<in> set (d_accounts (api_db (fst (remove_broker ae uid i code st))))"
    from remove_modes [OF this] obtain a' where "a' \<in> set (d_accounts (api_db st))" "b_mode a' = b_mode a" by blast
    then show "b_mode a = PAPER" using assms(1) by (metis accounts_paper_def)
  qed
next
  case (SetMode uid i raw)
  then show ?thesis using assms mode_step_accounts(2) [of st ae uid i raw] by auto
next
  case (FlattenAccount uid staff i reason)
  then show ?thesis using assms(1) flatten_step_accounts [of ae build uid staff i reason st]
    by (simp add: accounts_paper_def)
qed (simp_all add: assms(1) status_step_accounts)


definition sample_api_env :: "nat api_env" where
  "sample_api_env = \<lparr>ae_env = sample_env, ae_flags = sample_flags_env,
     ae_fernet = \<lparr>fn_encrypt = rev, fn_decrypt = (\<lambda>c. Some (rev c))\<rparr>, ae_sdk = sample_sdk (Inr sample_ack),
     ae_mfa = (\<lambda>u c. c = ''123456''), ae_live_opt_in = (\<lambda>u. None)\<rparr>"

definition sample_api :: "nat api" where
  "sample_api = \<lparr>api_db = sample_db, api_flags = sample_flags, api_keys = (\<lambda>i. ([], [])), api_notified = [],
     api_broker = (0, [])\<rparr>"

definition sample_calls :: "(nat api_env \<times> (account \<Rightarrow> broker_exn + adapter) \<times> api_call) list" where
  "sample_calls =
     [(sample_api_env, \<lambda>a. Inl OtherExn,
       Connect 7 \<lparr>cn_broker = ''ALPACA'', cn_mode = ''PAPER'', cn_key = ''PK1'', cn_secret = ''s'', cn_nickname = [],
         cn_default = True\<rparr>),
      (sample_api_env, \<lambda>a. Inl OtherExn, Remove 7 2 ''123456''),
      (sample_api_env, \<lambda>a. Inl OtherExn, SetMode 7 100 (JStr ''live''))]"


text \<open>
  The heartbeat tells how long a stream has been silent: its own state up to the
  freshness window, degraded up to four windows, down after that.
\<close>

theorem heartbeat_by_age:
  assumes "0 < ttl" "t0 \<le> t"
  shows "get_stream_status ttl t acct (set_heartbeat ttl t0 acct st hb) =
    (if t - t0 \<le> seconds ttl then st else if t - t0 < 4 * seconds ttl then DEGRADED else DOWN)"
  using assms by (rule stream_status_by_age)

theorem heartbeat_by_age_witness:
  "get_stream_status 45 (seconds 60) 2 (set_heartbeat 45 0 2 CONNECTED Map.empty) = DEGRADED"
  using heartbeat_by_age [of 45 0 "seconds 60" 2 CONNECTED Map.empty] by (simp add: seconds_def)

text \<open>
  An adapter has the mode of its account. What the factory builds for an account trades
  on the paper endpoint exactly for a paper account, a TradeStation adapter is only ever
  built for a paper account, and nothing is built for a broker that is switched off.
\<close>

theorem adapter_has_account_mode:
  assumes "build_adapter fern fenv keys ac fs = (fs', Inr b)"
  shows "(case b of
      BuiltAlpaca ctx \<Rightarrow> b_broker ac = ALPACA \<and> is_paper ctx = (b_mode ac = PAPER) \<and>
        snd (is_enabled fenv ''BROKER_ALPACA_ENABLED'' fs)
    | BuiltTradeStation ac' \<Rightarrow> ac' = ac \<and> b_broker ac = TRADESTATION \<and> b_mode ac = PAPER \<and>
        snd (is_enabled fenv ''BROKER_TRADESTATION_ENABLED'' fs))"
proof (cases b)
  case (BuiltAlpaca ctx)
  moreover have "snd (is_enabled fenv ''BROKER_ALPACA_ENABLED'' fs)"
    using assms BuiltAlpaca
    by (auto simp: build_adapter_def Let_def case_prod_beta split: option.splits broker_name.splits if_splits)
  ultimately show ?thesis using built_mode(1) [of fern fenv keys ac fs fs' ctx] assms by simp
next
  case (BuiltTradeStation ac')
  moreover have "snd (is_enabled fenv ''BROKER_TRADESTATION_ENABLED'' fs)"
    using assms BuiltTradeStation
    by (auto simp: build_adapter_def Let_def case_prod_beta split: option.splits broker_name.splits if_splits)
  ultimately show ?thesis using built_mode(2) [of fern fenv keys ac fs fs' ac'] assms by simp
qed

theorem adapter_has_account_mode_witness:
  "is_paper \<lparr>bc_account = ''2'', bc_user = ''7'', bc_key = [], bc_secret = [], bc_number = ''PA1'', bc_mode = ''LIVE''\<rparr> =
     (b_mode (sample_account\<lparr>b_mode := LIVE\<rparr>) = PAPER)"
proof -
  let ?env = "sample_flags_env\<lparr>fl_registry := []\<rparr>"
  let ?st = "snd (is_enabled ?env ''BROKER_ALPACA_ENABLED'' sample_flags)"
  let ?ctx = "\<lparr>bc_account = ''2'', bc_user = ''7'', bc_key = [], bc_secret = [], bc_number = ''PA1'', bc_mode = ''LIVE''\<rparr>"
  have ids: "nat_str 2 = ''2''" "nat_str 7 = ''7''" by code_simp+
  have on: "?st" by (simp add: sample_flags_env_def sample_flags_def is_enabled_def resolve_override_def Let_def
        local_hit_def redis_hit_def cache_get_def env_default_def)
  obtain fs' where "is_enabled ?env ''BROKER_ALPACA_ENABLED'' sample_flags = (fs', True)"
    using on by (cases "is_enabled ?env ''BROKER_ALPACA_ENABLED'' sample_flags") simp
  then have "build_adapter \<lparr>fn_encrypt = rev, fn_decrypt = Some\<rparr> ?env (\<lambda>i. ([], [])) (sample_account\<lparr>b_mode := LIVE\<rparr>)
      sample_flags = (fs', Inr (BuiltAlpaca ?ctx))"
    by (simp add: build_adapter_def decrypt_key_def sample_account_def ids Let_def)
  from adapter_has_account_mode [OF this] show ?thesis by simp
qed

end
