(* ===== verification/Fake_Broker.thy ===== *)
theory Fake_Broker
  imports Broker_Calls "HOL-Library.AList"
begin

text \<open>
  The deterministic broker (\<open>brokers/fake.py\<close>): scripted fills, a position book of its own and
  the events it emits into the fill transport. Its decimals are exact (the 28 digit context
  of Python's decimals is not modelled here). The lemmas show that its book is the
  arithmetic of \<open>orders/services.py\<close> without the rounding of the columns, and that ingesting
  the events of an order brings our positions where its own are: the book is refined by the
  order tables.
\<close>

subsection \<open>Decimals in use\<close>

definition dec_abs :: "decimal \<Rightarrow> decimal" where
  "dec_abs d = (case d of DFin s c e \<Rightarrow> DFin False c e | DInf s \<Rightarrow> DInf False | DNaN \<Rightarrow> DNaN)"

definition dec_neg :: "decimal \<Rightarrow> decimal" where
  "dec_neg d = (case d of DFin s c e \<Rightarrow> DFin (\<not> s) c e | DInf s \<Rightarrow> DInf (\<not> s) | DNaN \<Rightarrow> DNaN)"

text \<open>The exact sum of finite decimals has the smaller exponent; other sums do not occur.\<close>

definition at_exponent :: "int \<Rightarrow> bool \<Rightarrow> nat \<Rightarrow> int \<Rightarrow> int" where
  "at_exponent m s c e = (if s then - int c else int c) * 10 ^ nat (e - m)"

fun dec_add :: "decimal \<Rightarrow> decimal \<Rightarrow> decimal" where
  "dec_add (DFin s c e) (DFin t d f) =
     (let m = min e f; x = at_exponent m s c e + at_exponent m t d f in DFin (x < 0) (nat \<bar>x\<bar>) m)"
| "dec_add a b = DNaN"

text \<open>The decimal of an amount of a request, at the scale of its column.\<close>

definition column_decimal :: "nat \<Rightarrow> rat \<Rightarrow> decimal" where
  "column_decimal n x = DFin (x < 0) (nat \<lfloor>\<bar>x\<bar> * 10 ^ n\<rfloor>) (- int n)"

lemma dec_value_abs [simp]: "dec_is_finite d \<Longrightarrow> dec_value (dec_abs d) = \<bar>dec_value d\<bar>"
  by (cases d) (simp_all add: dec_abs_def dec_value_def abs_mult)

lemma dec_value_neg [simp]: "dec_is_finite d \<Longrightarrow> dec_value (dec_neg d) = - dec_value d"
  by (cases d) (simp_all add: dec_neg_def dec_value_def)

lemma dec_finite_ops [simp]:
  "dec_is_finite (dec_abs d) = dec_is_finite d" "dec_is_finite (dec_neg d) = dec_is_finite d"
  "dec_is_finite (column_decimal n x)"
  by (cases d; simp add: dec_abs_def dec_neg_def column_decimal_def)+

lemma dec_finite_add [simp]: "dec_is_finite a \<Longrightarrow> dec_is_finite b \<Longrightarrow> dec_is_finite (dec_add a b)"
  by (cases a; cases b) (simp_all add: Let_def)

lemma at_exponent_value: "m \<le> e \<Longrightarrow> of_int (at_exponent m s c e) * 10 powi m = dec_value (DFin s c e)"
proof -
  assume "m \<le> e"
  then have "(10 :: rat) ^ nat (e - m) * 10 powi m = 10 powi e"
    by (metis add_diff_cancel_left' diff_add_cancel diff_ge_0_iff_ge nat_0_le power_int_add power_int_of_nat zero_neq_numeral)
  then show ?thesis by (simp add: at_exponent_def dec_value_def)
qed

lemma dec_value_add [simp]:
  assumes "dec_is_finite a" "dec_is_finite b"
  shows "dec_value (dec_add a b) = dec_value a + dec_value b"
proof -
  obtain s c e t d f where ab: "a = DFin s c e" "b = DFin t d f" using assms by (cases a; cases b) auto
  let ?m = "min e f"
  let ?x = "at_exponent ?m s c e + at_exponent ?m t d f"
  have "dec_value (dec_add a b) = of_int ?x * 10 powi ?m" by (simp add: ab dec_value_def Let_def)
  also have "\<dots> = dec_value a + dec_value b"
    by (simp only: of_int_add distrib_right ab) (simp add: at_exponent_value)
  finally show ?thesis .
qed

lemma dec_value_column: "has_scale n x \<Longrightarrow> dec_value (column_decimal n x) = x"
proof -
  assume "has_scale n x"
  then obtain k where x: "x = of_int k / 10 ^ n" by (auto simp: has_scale_iff)
  then have "\<bar>x\<bar> * 10 ^ n = of_int \<bar>k\<bar>" by (simp add: abs_divide)
  then have "\<lfloor>\<bar>x\<bar> * 10 ^ n\<rfloor> = \<bar>k\<bar>" by (simp only: floor_of_int)
  moreover have "(x < 0) = (k < 0)" by (simp add: x divide_less_0_iff)
  ultimately show ?thesis
    by (simp add: column_decimal_def dec_value_def x power_int_minus divide_inverse)
qed

subsection \<open>The adapter\<close>

record scripted_fill =
  sf_qty :: decimal
  sf_price :: decimal

record script_step =
  ss_reject :: bool
  ss_reason :: string
  ss_fills :: "scripted_fill list"
  ss_leave_working :: bool

record fake_position =
  kp_qty :: decimal
  kp_avg :: rat
  kp_price :: "decimal option"
  kp_side :: broker_side

text \<open>The position book is a dict: an association list in the order of first insertion.\<close>

record fake =
  fk_script :: "script_step list"
  fk_number :: string
  fk_buying_power :: rat
  fk_equity :: rat
  fk_last_equity :: rat
  fk_default_price :: decimal
  fk_quote :: "rat option"
  fk_book :: "(string \<times> fake_position) list"
  fk_open :: "order_ack list"
  fk_emitted :: "fill_event list"
  fk_seq :: nat

definition exec_name :: "string \<Rightarrow> nat \<Rightarrow> string" where
  "exec_name coid n = ''fakeexec-'' @ coid @ ''-'' @ nat_str n"

text \<open>\<open>_next_exec_id\<close> and \<open>_emit\<close>: the next id, and the event into the transport.\<close>

definition next_exec_id :: "string \<Rightarrow> fake \<Rightarrow> string \<times> fake" where
  "next_exec_id coid st = (let n = fk_seq st + 1 in (exec_name coid n, st\<lparr>fk_seq := n\<rparr>))"

definition fake_emit :: "string \<Rightarrow> (string \<Rightarrow> fill_event) \<Rightarrow> fake \<Rightarrow> fake" where
  "fake_emit coid mk st =
     (let (exec, st1) = next_exec_id coid st in st1\<lparr>fk_emitted := fk_emitted st1 @ [mk exec]\<rparr>)"

definition fake_avg_cost :: "rat \<Rightarrow> rat \<Rightarrow> rat \<Rightarrow> rat \<Rightarrow> rat \<Rightarrow> rat" where
  "fake_avg_cost old_qty old_avg signed qty price =
     (let new_qty = old_qty + signed
      in if new_qty = 0 then 0
         else if (0 < old_qty) = (0 < signed) then (old_avg * \<bar>old_qty\<bar> + price * qty) / \<bar>new_qty\<bar>
         else if (0 < old_qty) \<noteq> (0 < new_qty) then price
         else old_avg)"

definition fake_apply_position :: "string \<Rightarrow> broker_side \<Rightarrow> decimal \<Rightarrow> decimal \<Rightarrow> fake \<Rightarrow> fake" where
  "fake_apply_position symb side qty price st =
     (let signed = (if broker_side_str side \<in> set buy_side_names then qty else dec_neg qty)
      in case map_of (fk_book st) symb of
           None \<Rightarrow> st\<lparr>fk_book := AList.update symb
                      \<lparr>kp_qty = signed, kp_avg = dec_value price, kp_price = Some price, kp_side = side\<rparr> (fk_book st)\<rparr>
         | Some cur \<Rightarrow>
             if dec_value (kp_qty cur) = 0
             then st\<lparr>fk_book := AList.update symb
                      \<lparr>kp_qty = signed, kp_avg = dec_value price, kp_price = Some price, kp_side = side\<rparr> (fk_book st)\<rparr>
             else
               let new_qty = dec_add (kp_qty cur) signed
               in st\<lparr>fk_book := AList.update symb
                      \<lparr>kp_qty = new_qty,
                       kp_avg = fake_avg_cost (dec_value (kp_qty cur)) (kp_avg cur) (dec_value signed) (dec_value qty) (dec_value price),
                       kp_price = Some price, kp_side = (if 0 \<le> dec_value new_qty then Buy else Sell)\<rparr> (fk_book st)\<rparr>)"

definition fake_event :: "order_request \<Rightarrow> string \<Rightarrow> string \<Rightarrow> decimal \<Rightarrow> decimal \<Rightarrow> decimal \<Rightarrow> string \<Rightarrow> fill_event" where
  "fake_event rq coid ty qty price filled exec =
     \<lparr>fe_exec = exec, fe_coid = coid, fe_boid = ''fakeord-'' @ coid, fe_symbol = rq_symbol rq, fe_side = rq_side rq,
      fe_type = ty, fe_qty = qty, fe_price = price, fe_ts = None, fe_filled = filled\<rparr>"

definition dec_zero :: decimal where
  "dec_zero = DFin False 0 0"

text \<open>The fills of a step, in order: each is emitted and then booked.\<close>

fun fake_fills :: "order_request \<Rightarrow> string \<Rightarrow> scripted_fill list \<Rightarrow> decimal \<Rightarrow> fake \<Rightarrow> fake \<times> decimal" where
  "fake_fills rq coid [] filled st = (st, filled)"
| "fake_fills rq coid (f # fs) filled st =
     (let filled1 = dec_add filled (sf_qty f);
          is_last = (fs = [] \<and> rq_qty rq \<le> dec_value filled1);
          st1 = fake_emit coid (fake_event rq coid (if is_last then ''fill'' else ''partial_fill'')
                  (sf_qty f) (sf_price f) filled1) st
      in fake_fills rq coid fs filled1 (fake_apply_position (rq_symbol rq) (rq_side rq) (sf_qty f) (sf_price f) st1))"

definition fake_ack :: "order_request \<Rightarrow> string \<Rightarrow> order_status \<Rightarrow> rat \<Rightarrow> order_ack" where
  "fake_ack rq coid status filled =
     \<lparr>ak_coid = coid, ak_boid = ''fakeord-'' @ coid, ak_status = status, ak_symbol = rq_symbol rq,
      ak_qty = rq_qty rq, ak_filled = filled, ak_submitted = None\<rparr>"

definition default_fill :: "order_request \<Rightarrow> fake \<Rightarrow> scripted_fill" where
  "default_fill rq st =
     \<lparr>sf_qty = column_decimal 8 (rq_qty rq),
      sf_price = (case rq_limit rq of
                    Some l \<Rightarrow> column_decimal 4 l
                  | None \<Rightarrow> (case rq_stop rq of Some s \<Rightarrow> column_decimal 4 s | None \<Rightarrow> fk_default_price st))\<rparr>"

definition step_fills :: "order_request \<Rightarrow> script_step option \<Rightarrow> fake \<Rightarrow> scripted_fill list" where
  "step_fills rq step st =
     (case step of
        Some s \<Rightarrow> if ss_fills s \<noteq> [] \<or> ss_leave_working s then ss_fills s else [default_fill rq st]
      | None \<Rightarrow> [default_fill rq st])"

definition fake_place_order :: "order_request \<Rightarrow> string \<Rightarrow> fake \<Rightarrow> fake \<times> order_ack" where
  "fake_place_order rq coid st0 =
     (let (step, st) = (case fk_script st0 of [] \<Rightarrow> (None, st0) | s # ss \<Rightarrow> (Some s, st0\<lparr>fk_script := ss\<rparr>))
      in if (case step of Some s \<Rightarrow> ss_reject s | None \<Rightarrow> False)
         then (fake_emit coid (fake_event rq coid ''rejected'' dec_zero dec_zero dec_zero) st, fake_ack rq coid REJECTED 0)
         else
           let fills = step_fills rq step st;
               st1 = fake_emit coid (fake_event rq coid ''new'' dec_zero dec_zero dec_zero) st;
               (st2, filled) = fake_fills rq coid fills dec_zero st1;
               working = (dec_value filled < rq_qty rq \<and> \<not> (case step of Some s \<Rightarrow> ss_leave_working s | None \<Rightarrow> False));
               st3 = (if working then st2\<lparr>fk_open := fk_open st2 @ [fake_ack rq coid PARTIAL (dec_value filled)]\<rparr> else st2)
           in (st3, fake_ack rq coid SUBMITTED 0))"

definition fake_cancel_order :: "string \<Rightarrow> fake \<Rightarrow> fake" where
  "fake_cancel_order boid st = st\<lparr>fk_open := filter (\<lambda>a. ak_boid a \<noteq> boid) (fk_open st)\<rparr>"

definition fake_list_positions :: "fake \<Rightarrow> position_dto list" where
  "fake_list_positions st =
     map (\<lambda>(symb, p). \<lparr>pd_symbol = symb, pd_qty = dec_value (kp_qty p), pd_avg_cost = kp_avg p,
                       pd_market_price = map_option dec_value (kp_price p), pd_side = kp_side p\<rparr>)
       (filter (\<lambda>(symb, p). dec_value (kp_qty p) \<noteq> 0) (fk_book st))"

definition flat_ack :: "string \<Rightarrow> rat \<Rightarrow> order_ack" where
  "flat_ack symb qty =
     \<lparr>ak_coid = ''flatten-'' @ symb, ak_boid = ''fakeord-flatten-'' @ symb, ak_status = FILLED, ak_symbol = symb,
      ak_qty = qty, ak_filled = qty, ak_submitted = None\<rparr>"

text \<open>Every open position is closed by one fill at its last price, or at the default price.\<close>

definition fake_flatten_one :: "string \<Rightarrow> fake_position \<Rightarrow> fake \<Rightarrow> fake" where
  "fake_flatten_one symb p st =
     (let coid = ''flatten-'' @ symb;
          qty = dec_abs (kp_qty p);
          price = (case kp_price p of
                     Some pr \<Rightarrow> if dec_is_finite pr \<and> dec_value pr = 0 then fk_default_price st else pr
                   | None \<Rightarrow> fk_default_price st);
          st1 = fake_emit coid (\<lambda>exec.
            \<lparr>fe_exec = exec, fe_coid = coid, fe_boid = ''fakeord-'' @ coid, fe_symbol = symb,
             fe_side = (if 0 < dec_value (kp_qty p) then Sell else Buy), fe_type = ''fill'', fe_qty = qty,
             fe_price = price, fe_ts = None, fe_filled = qty\<rparr>) st
      in st1\<lparr>fk_book := AList.update symb
               \<lparr>kp_qty = dec_zero, kp_avg = 0, kp_price = None, kp_side = Buy\<rparr> (fk_book st1)\<rparr>)"

fun fake_flatten :: "(string \<times> fake_position) list \<Rightarrow> fake \<Rightarrow> fake \<times> order_ack list" where
  "fake_flatten [] st = (st, [])"
| "fake_flatten ((symb, p) # ps) st =
     (if dec_value (kp_qty p) = 0 then fake_flatten ps st
      else let (st1, acks) = fake_flatten ps (fake_flatten_one symb p st)
           in (st1, flat_ack symb \<bar>dec_value (kp_qty p)\<bar> # acks))"

definition fake_flatten_all :: "string \<Rightarrow> fake \<Rightarrow> fake \<times> order_ack list" where
  "fake_flatten_all reason st = (let (st1, acks) = fake_flatten (fk_book st) st in (st1\<lparr>fk_open := []\<rparr>, acks))"

definition fake_account :: "fake \<Rightarrow> account_info" where
  "fake_account st =
     \<lparr>ai_number = fk_number st, ai_buying_power = fk_buying_power st, ai_cash = fk_buying_power st,
      ai_currency = ''USD'', ai_status = ''ACTIVE'', ai_is_paper = True, ai_equity = fk_equity st,
      ai_last_equity = fk_last_equity st\<rparr>"

definition fake_connect :: "fake \<Rightarrow> connection_info" where
  "fake_connect st =
     \<lparr>ci_number = fk_number st, ci_buying_power = fk_buying_power st, ci_currency = ''USD'', ci_is_paper = True\<rparr>"

definition recent_fills :: "fake \<Rightarrow> fill_event list" where
  "recent_fills st = filter (\<lambda>e. fe_type e = ''fill'' \<or> fe_type e = ''partial_fill'') (fk_emitted st)"

text \<open>The events an operation published: what it appended to the emitted ones.\<close>

definition published :: "fake \<Rightarrow> fake \<Rightarrow> fill_event list" where
  "published st st' = drop (length (fk_emitted st)) (fk_emitted st')"

definition fake_adapter :: "fake \<Rightarrow> adapter" where
  "fake_adapter st =
     \<lparr>ad_account = Inr (fake_account st), ad_positions = Inr (fake_list_positions st),
      ad_flatten = (\<lambda>reason. Inr (snd (fake_flatten_all reason st))), ad_quote = Some (\<lambda>symb. Inr (fk_quote st)),
      ad_place = (\<lambda>rq coid. Inr (snd (fake_place_order rq coid st))),
      ad_events = (\<lambda>rq coid. published st (fst (fake_place_order rq coid st))),
      ad_resolve = None\<rparr>"

interpretation fake: acking_adapter fake_adapter
proof (unfold_locales, goal_cases)
  case (1 c rq coid ack)
  then show ?case
    by (auto simp: fake_adapter_def fake_place_order_def fake_ack_def Let_def case_prod_beta split: list.splits if_splits)
next
  case (2 c reason acks ack)
  have "ak_status a = FILLED" if "a \<in> set (snd (fake_flatten ps st))" for a ps st
    using that by (induction ps st rule: fake_flatten.induct) (auto simp: flat_ack_def Let_def case_prod_beta split: if_splits)
  with 2 show ?case by (fastforce simp: fake_adapter_def fake_flatten_all_def Let_def case_prod_beta)
qed (simp_all add: fake_adapter_def)

subsection \<open>The book\<close>

definition book_qty :: "fake \<Rightarrow> string \<Rightarrow> rat" where
  "book_qty st symb = (case map_of (fk_book st) symb of None \<Rightarrow> 0 | Some p \<Rightarrow> dec_value (kp_qty p))"

definition book_avg :: "fake \<Rightarrow> string \<Rightarrow> rat" where
  "book_avg st symb =
     (case map_of (fk_book st) symb of None \<Rightarrow> 0 | Some p \<Rightarrow> if dec_value (kp_qty p) = 0 then 0 else kp_avg p)"

definition book_finite :: "fake \<Rightarrow> bool" where
  "book_finite st \<longleftrightarrow> (\<forall>symb p. map_of (fk_book st) symb = Some p \<longrightarrow> dec_is_finite (kp_qty p))"

definition broker_sign :: "broker_side \<Rightarrow> rat" where
  "broker_sign side = (if side = Buy then 1 else - 1)"

lemma buy_sign: "broker_side_str side \<in> set buy_side_names \<longleftrightarrow> side = Buy"
  by (cases side) (simp_all add: buy_side_names_def)

lemma fake_avg_cost_same: "old \<noteq> 0 \<Longrightarrow> fake_avg_cost old avg signed qty price = fill_avg_cost old avg signed qty price"
  by (simp add: fake_avg_cost_def fill_avg_cost_def Let_def)

text \<open>One fill changes the book as the arithmetic of \<open>orders/services.py\<close> changes a position.\<close>

lemma apply_position_book:
  assumes fin: "book_finite st" "dec_is_finite q" and q: "dec_value q \<noteq> 0"
    and st'_def: "st' = fake_apply_position symb side q pr st"
  shows "book_finite st' \<and>
    book_qty st' s = book_qty st s + (if s = symb then broker_sign side * dec_value q else 0) \<and>
    book_avg st' symb = fill_avg_cost (book_qty st symb) (book_avg st symb) (broker_sign side * dec_value q) (dec_value q) (dec_value pr)"
proof -
  let ?signed = "if broker_side_str side \<in> set buy_side_names then q else dec_neg q"
  have signed: "dec_is_finite ?signed" "dec_value ?signed = broker_sign side * dec_value q"
    using fin by (simp_all add: buy_sign broker_sign_def)
  have nz: "broker_sign side * dec_value q \<noteq> 0" using q by (simp add: broker_sign_def)
  have put: "book_finite (st\<lparr>fk_book := AList.update symb x (fk_book st)\<rparr>)" if "dec_is_finite (kp_qty x)" for x
    using fin(1) that by (simp add: book_finite_def update_conv')
  show ?thesis
  proof (cases "\<exists>cur. map_of (fk_book st) symb = Some cur \<and> dec_value (kp_qty cur) \<noteq> 0")
    case False
    then have flat: "book_qty st symb = 0" by (auto simp: book_qty_def split: option.split)
    let ?x = "\<lparr>kp_qty = ?signed, kp_avg = dec_value pr, kp_price = Some pr, kp_side = side\<rparr>"
    have st': "st' = st\<lparr>fk_book := AList.update symb ?x (fk_book st)\<rparr>"
      using False unfolding st'_def fake_apply_position_def Let_def by (auto split: option.split)
    show ?thesis
      unfolding st' using put [of ?x] signed nz flat
      by (auto simp: book_qty_def book_avg_def update_conv' fill_avg_cost_def split: option.splits)
  next
    case True
    then obtain cur where cur: "map_of (fk_book st) symb = Some cur" "dec_value (kp_qty cur) \<noteq> 0" by blast
    have cfin: "dec_is_finite (kp_qty cur)" using cur(1) fin(1) by (simp add: book_finite_def)
    define x where "x = \<lparr>kp_qty = dec_add (kp_qty cur) ?signed,
      kp_avg = fake_avg_cost (dec_value (kp_qty cur)) (kp_avg cur) (dec_value ?signed) (dec_value q) (dec_value pr),
      kp_price = Some pr, kp_side = if 0 \<le> dec_value (dec_add (kp_qty cur) ?signed) then Buy else Sell\<rparr>"
    have st': "st' = st\<lparr>fk_book := AList.update symb x (fk_book st)\<rparr>"
      using cur by (simp add: st'_def fake_apply_position_def Let_def x_def)
    have x: "dec_is_finite (kp_qty x)" "dec_value (kp_qty x) = dec_value (kp_qty cur) + broker_sign side * dec_value q"
      "kp_avg x = fill_avg_cost (dec_value (kp_qty cur)) (kp_avg cur) (broker_sign side * dec_value q) (dec_value q) (dec_value pr)"
      using cfin signed by (simp_all add: x_def fake_avg_cost_same [OF cur(2)])
    have "fill_avg_cost a b c d e = 0" if "a + c = 0" for a b c d e using that by (simp add: fill_avg_cost_def)
    then show ?thesis
      unfolding st' using put [OF x(1)] x cur
      by (auto simp: book_qty_def book_avg_def update_conv' split: option.splits)
  qed
qed

subsection \<open>Ingesting what the broker emits\<close>

text \<open>The order our tables hold for a request.\<close>

definition mirrors :: "nat \<Rightarrow> order_request \<Rightarrow> string \<Rightarrow> order \<Rightarrow> bool" where
  "mirrors acct rq coid od \<longleftrightarrow>
     o_coid od = coid \<and> o_account od = Some acct \<and> o_symbol od = rq_symbol rq \<and> side_sign (o_side od) = broker_sign (rq_side rq)"

definition has_order :: "nat \<Rightarrow> order_request \<Rightarrow> string \<Rightarrow> db \<Rightarrow> bool" where
  "has_order acct rq coid db \<longleftrightarrow> (\<exists>od. first_where (\<lambda>x. o_coid x = coid) (d_orders db) = Some od \<and> mirrors acct rq coid od)"

definition exec_used :: "nat \<Rightarrow> string \<Rightarrow> db \<Rightarrow> bool" where
  "exec_used acct exec db \<longleftrightarrow> exists_where (fill_key (Some acct) exec) (d_fills db)"

definition event_qty :: "fill_event \<Rightarrow> rat" where
  "event_qty ev = (if is_fill_type (fe_type ev) then dec_value (fe_qty ev) else 0)"

text \<open>An event of the broker for the order: finite, of a positive quantity when it is a fill.\<close>

definition sound_event :: "string \<Rightarrow> fill_event \<Rightarrow> bool" where
  "sound_event coid ev \<longleftrightarrow>
     fe_coid ev = coid \<and> dec_is_finite (fe_qty ev) \<and> dec_is_finite (fe_price ev) \<and> dec_is_finite (fe_filled ev) \<and>
     has_scale 8 (dec_value (fe_qty ev)) \<and> (is_fill_type (fe_type ev) \<longrightarrow> 0 < dec_value (fe_qty ev))"

lemma save_order_coid:
  assumes wf: "distinct (map o_id (d_orders db))" and od: "od0 \<in> set (d_orders db)" and core: "order_core od = order_core od0"
    and look: "first_where (\<lambda>x. o_coid x = coid) (d_orders db) = Some od0"
  shows "first_where (\<lambda>x. o_coid x = coid) (d_orders (save_order od db)) = Some (od\<lparr>o_filled := quantize 8 (o_filled od)\<rparr>)"
proof -
  have same: "o_coid x = o_coid od" if "x \<in> set (d_orders db)" "o_id x = o_id od" for x
    using wf od core that by (auto simp: order_core_def distinct_map inj_on_def)
  have "first_where (\<lambda>x. o_coid x = coid) (d_orders (save_order od db)) =
      map_option (\<lambda>x. if o_id x = o_id od then od\<lparr>o_filled := quantize 8 (o_filled od)\<rparr> else x)
        (first_where (\<lambda>x. o_coid x = coid) (d_orders db))"
    unfolding save_order_def by (simp add: first_where_update_where same)
  then show ?thesis using look core by (simp add: order_core_def)
qed

lemma record_sound:
  assumes "sound_event coid ev" "o_account od = Some acct" "find_fill od ev db = None \<or> \<not> is_fill_type (fe_type ev)"
  obtains db1 o1 row where "record_fill env ev uid od db = Inr (db1, o1, row)" "row \<noteq> None \<longleftrightarrow> is_fill_type (fe_type ev)"
proof (cases "is_fill_type (fe_type ev)")
  case True
  then have "dec_positive (fe_qty ev) = Some True"
    using assms(1) by (cases "fe_qty ev") (auto simp: sound_event_def dec_positive_def)
  with True assms that show ?thesis by (fastforce simp: record_fill_def sound_event_def Let_def)
next
  case False
  with that show ?thesis by (simp add: record_fill_def)
qed

lemma apply_cumulative_sound: "dec_is_finite (fe_filled ev) \<Longrightarrow> \<exists>o2. apply_cumulative ev od = Inr o2"
  by (cases "fe_filled ev") (auto simp: apply_cumulative_def dec_positive_def split: bool.splits)

lemma ingest_sound:
  assumes ev: "sound_event coid ev" and wf: "orders_wf db" and ord: "has_order acct rq coid db"
    and fresh: "\<not> exec_used acct (fe_exec ev) db"
  obtains db' r where "ingest_fill_event env ev uid db = Inr (db', r)" "orders_wf db'" "has_order acct rq coid db'"
    "\<And>s. position_qty db' acct s = position_qty db acct s + (if s = rq_symbol rq then broker_sign (rq_side rq) * event_qty ev else 0)"
    "\<And>x. exec_used acct x db' \<Longrightarrow> exec_used acct x db \<or> x = fe_exec ev"
proof -
  obtain od where look: "first_where (\<lambda>x. o_coid x = coid) (d_orders db) = Some od" and m: "mirrors acct rq coid od"
    using ord by (auto simp: has_order_def)
  have find: "find_order ev db = Some od" using look ev by (simp add: find_order_def sound_event_def)
  let ?od = "adopt_broker_id ev od"
  have core: "order_core ?od = order_core od" by simp
  have acct: "o_account ?od = Some acct" using core m by (simp add: order_core_def mirrors_def)
  have none: "find_fill ?od ev db = None"
    using fresh acct by (simp add: find_fill_def exec_used_def first_where_None exists_where_iff)
  obtain db1 o1 row where rec: "record_fill env ev uid ?od db = Inr (db1, o1, row)" and row: "row \<noteq> None \<longleftrightarrow> is_fill_type (fe_type ev)"
    using record_sound [OF ev acct] none by blast
  obtain o2 where cum: "apply_cumulative ev o1 = Inr o2"
    using apply_cumulative_sound ev unfolding sound_event_def by blast
  let ?o3 = "o2\<lparr>o_status := resolve_status (fe_type ev) o2\<rparr>"
  let ?db = "ingest_pushes uid ?o3 row (save_order ?o3 db1)"
  have ing: "ingest_fill_event env ev uid db = Inr (?db, Applied (o_id ?o3) (o_status ?o3) (row \<noteq> None) (row \<noteq> None))"
    by (simp add: ingest_fill_event_def find rec cum Let_def)
  have scale: "has_scale 8 (dec_value (fe_qty ev))" using ev by (simp add: sound_event_def)
  have od_in: "od \<in> set (d_orders db)" using look first_where_Some by fastforce
  have step: "orders_wf db1" "d_orders db1 = d_orders db" using record_fill_step [OF rec wf od_in core scale] by auto
  have o1: "order_core o1 = order_core od" and
    fills: "\<And>x. exec_used acct x db1 \<Longrightarrow> exec_used acct x db \<or> x = fe_exec ev" and
    pos: "\<And>s. position_qty db1 acct s = position_qty db acct s + (if s = rq_symbol rq then broker_sign (rq_side rq) * event_qty ev else 0)"
  proof (atomize (full), cases rule: record_fill_cases [OF rec])
    case 1
    then show "order_core o1 = order_core od \<and> (\<forall>x. exec_used acct x db1 \<longrightarrow> exec_used acct x db \<or> x = fe_exec ev) \<and>
      (\<forall>s. position_qty db1 acct s = position_qty db acct s + (if s = rq_symbol rq then broker_sign (rq_side rq) * event_qty ev else 0))"
      using row by (simp add: event_qty_def)
  next
    case (2 a)
    have a: "a = acct" using 2(2) acct by simp
    have "position_qty db1 acct s = position_qty db acct s +
        (if acct = a \<and> s = o_symbol ?od then signed_qty (o_side ?od) (dec_value (fe_qty ev)) else 0)" for s
      unfolding position_qty_def [of db1] 2(10)
      by (rule position_qty_with_fill [OF _ scale]) (use wf in \<open>simp add: orders_wf_def\<close>)
    moreover have "o_symbol ?od = rq_symbol rq" "signed_qty (o_side ?od) q = broker_sign (rq_side rq) * q" for q
      using core m by (simp_all add: order_core_def mirrors_def signed_qty_sign)
    moreover have "order_core o1 = order_core od" using 2(6) core by (simp add: order_core_def)
    moreover have "exec_used acct x db1 \<longrightarrow> exec_used acct x db \<or> x = fe_exec ev" for x
      using 2(9) by (auto simp: exec_used_def exists_where_iff fill_key_def save_fill_def new_fill_def)
    ultimately show "order_core o1 = order_core od \<and> (\<forall>x. exec_used acct x db1 \<longrightarrow> exec_used acct x db \<or> x = fe_exec ev) \<and>
      (\<forall>s. position_qty db1 acct s = position_qty db acct s + (if s = rq_symbol rq then broker_sign (rq_side rq) * event_qty ev else 0))"
      using 2(3) a by (simp add: event_qty_def)
  qed
  have o3: "order_core ?o3 = order_core od" using apply_cumulative_core [OF cum] o1 by (simp add: order_core_def)
  have "orders_wf ?db" using ingest_step [OF ing wf scale] by simp
  moreover have "has_order acct rq coid ?db"
  proof -
    have "first_where (\<lambda>x. o_coid x = coid) (d_orders (save_order ?o3 db1)) = Some (?o3\<lparr>o_filled := quantize 8 (o_filled ?o3)\<rparr>)"
      using save_order_coid [of db1 od ?o3 coid] step od_in o3 look by (simp add: orders_wf_def)
    then show ?thesis using m o3 by (auto simp: has_order_def mirrors_def order_core_def)
  qed
  moreover have "exec_used acct x ?db \<Longrightarrow> exec_used acct x db \<or> x = fe_exec ev" for x
    using fills by (simp add: exec_used_def)
  ultimately show thesis using that [OF ing] pos by (simp add: position_qty_def)
qed

subsection \<open>The book is refined by our positions\<close>

definition follows :: "nat \<Rightarrow> fake \<Rightarrow> db \<Rightarrow> bool" where
  "follows acct st db \<longleftrightarrow> book_finite st \<and> (\<forall>s. book_qty st s = position_qty db acct s)"

definition sync :: "nat \<Rightarrow> order_request \<Rightarrow> string \<Rightarrow> fake \<Rightarrow> db \<Rightarrow> bool" where
  "sync acct rq coid st db \<longleftrightarrow>
     follows acct st db \<and> orders_wf db \<and> has_order acct rq coid db \<and>
     (\<forall>n>fk_seq st. \<not> exec_used acct (exec_name coid n) db)"

definition sound_fill :: "scripted_fill \<Rightarrow> bool" where
  "sound_fill f \<longleftrightarrow> dec_is_finite (sf_qty f) \<and> 0 < dec_value (sf_qty f) \<and> has_scale 8 (dec_value (sf_qty f)) \<and> dec_is_finite (sf_price f)"

lemma exec_name_inj [simp]: "exec_name coid n = exec_name coid m \<longleftrightarrow> n = m"
  by (auto simp: exec_name_def dest: arg_cong [where f = digits_nat])

lemma fake_emit_simps [simp]:
  "fk_emitted (fake_emit coid mk st) = fk_emitted st @ [mk (exec_name coid (fk_seq st + 1))]"
  "fk_seq (fake_emit coid mk st) = fk_seq st + 1" "fk_book (fake_emit coid mk st) = fk_book st"
  "fk_script (fake_emit coid mk st) = fk_script st" "fk_default_price (fake_emit coid mk st) = fk_default_price st"
  "book_qty (fake_emit coid mk st) = book_qty st" "book_finite (fake_emit coid mk st) = book_finite st"
  by (simp_all add: fake_emit_def next_exec_id_def Let_def book_qty_def book_finite_def fun_eq_iff)

lemma fake_apply_simps [simp]:
  "fk_emitted (fake_apply_position symb side q pr st) = fk_emitted st"
  "fk_seq (fake_apply_position symb side q pr st) = fk_seq st"
  by (simp_all add: fake_apply_position_def Let_def split: option.split)

text \<open>One emitted event, ingested: our position moves by its quantity and the ids stay fresh.\<close>

lemma emit_step:
  assumes sync: "sync acct rq coid st db" and mk: "\<And>x. fe_exec (mk x) = x"
    and ev: "sound_event coid (mk (exec_name coid (fk_seq st + 1)))"
  obtains db' where "ingest_all env [mk (exec_name coid (fk_seq st + 1))] uid db = db'"
    "orders_wf db'" "has_order acct rq coid db'" "\<forall>n>fk_seq st + 1. \<not> exec_used acct (exec_name coid n) db'"
    "\<And>s. position_qty db' acct s = book_qty st s +
       (if s = rq_symbol rq then broker_sign (rq_side rq) * event_qty (mk (exec_name coid (fk_seq st + 1))) else 0)"
proof -
  let ?ev = "mk (exec_name coid (fk_seq st + 1))"
  have "\<not> exec_used acct (fe_exec ?ev) db" using sync mk by (simp add: sync_def)
  moreover have "orders_wf db" "has_order acct rq coid db" using sync by (simp_all add: sync_def)
  ultimately obtain db' r where ing: "ingest_fill_event env ?ev uid db = Inr (db', r)" and ok: "orders_wf db'" "has_order acct rq coid db'"
    and pos: "\<And>s. position_qty db' acct s = position_qty db acct s + (if s = rq_symbol rq then broker_sign (rq_side rq) * event_qty ?ev else 0)"
    and used: "\<And>x. exec_used acct x db' \<Longrightarrow> exec_used acct x db \<or> x = fe_exec ?ev"
    using ingest_sound [OF ev] by metis
  have "\<forall>n>fk_seq st + 1. \<not> exec_used acct (exec_name coid n) db'"
    using used sync mk by (fastforce simp: sync_def)
  moreover have "ingest_all env [?ev] uid db = db'" by (simp only: ingest_all.simps ing sum.case prod.case)
  moreover have "position_qty db acct s = book_qty st s" for s using sync by (simp add: sync_def follows_def)
  ultimately show thesis using that ok pos by simp
qed

lemma ingest_all_append: "ingest_all env (xs @ ys) uid db = ingest_all env ys uid (ingest_all env xs uid db)"
  by (induction xs arbitrary: db) (simp_all split: sum.split prod.split)

lemma fills_sync:
  assumes "sync acct rq coid st db" "list_all sound_fill fs" "dec_is_finite filled"
  shows "\<exists>evs. fk_emitted (fst (fake_fills rq coid fs filled st)) = fk_emitted st @ evs \<and>
    sync acct rq coid (fst (fake_fills rq coid fs filled st)) (ingest_all env evs uid db)"
  using assms
proof (induction fs arbitrary: filled st db)
  case Nil
  then show ?case by simp
next
  case (Cons f fs)
  have f: "dec_is_finite (sf_qty f)" "0 < dec_value (sf_qty f)" "has_scale 8 (dec_value (sf_qty f))" "dec_is_finite (sf_price f)"
    using Cons.prems(2) by (simp_all add: sound_fill_def)
  define filled1 where "filled1 = dec_add filled (sf_qty f)"
  define ty where "ty = (if fs = [] \<and> rq_qty rq \<le> dec_value filled1 then ''fill'' else ''partial_fill'')"
  let ?mk = "fake_event rq coid ty (sf_qty f) (sf_price f) filled1"
  let ?st1 = "fake_emit coid ?mk st"
  define st2 where "st2 = fake_apply_position (rq_symbol rq) (rq_side rq) (sf_qty f) (sf_price f) ?st1"
  have fin1: "dec_is_finite filled1" using f Cons.prems(3) by (simp add: filled1_def)
  have ty: "is_fill_type ty" by (simp add: ty_def is_fill_type_def)
  let ?ev = "?mk (exec_name coid (fk_seq st + 1))"
  have "sound_event coid ?ev" using f fin1 by (simp add: sound_event_def fake_event_def)
  moreover have "fe_exec (?mk x) = x" for x by (simp add: fake_event_def)
  ultimately obtain db' where ing: "ingest_all env [?ev] uid db = db'" and ok: "orders_wf db'" "has_order acct rq coid db'"
      "\<forall>n>fk_seq st + 1. \<not> exec_used acct (exec_name coid n) db'"
    and pos: "\<And>s. position_qty db' acct s = book_qty st s +
       (if s = rq_symbol rq then broker_sign (rq_side rq) * event_qty ?ev else 0)"
    using emit_step [OF Cons.prems(1), of ?mk] by metis
  have q: "event_qty ?ev = dec_value (sf_qty f)" using ty by (simp add: event_qty_def fake_event_def)
  have "book_finite st" using Cons.prems(1) by (simp add: sync_def follows_def)
  then have book: "book_finite st2 \<and> book_qty st2 s = book_qty st s + (if s = rq_symbol rq then broker_sign (rq_side rq) * dec_value (sf_qty f) else 0)" for s
    using apply_position_book [of ?st1 "sf_qty f" st2 "rq_symbol rq" "rq_side rq" "sf_price f" s] f by (simp add: st2_def)
  have "sync acct rq coid st2 db'"
    using ok book pos q by (simp add: sync_def follows_def) (simp add: st2_def)
  from Cons.IH [OF this _ fin1] Cons.prems(2) obtain evs where
    evs: "fk_emitted (fst (fake_fills rq coid fs filled1 st2)) = fk_emitted st2 @ evs"
      "sync acct rq coid (fst (fake_fills rq coid fs filled1 st2)) (ingest_all env evs uid db')" by auto
  have "fake_fills rq coid (f # fs) filled st = fake_fills rq coid fs filled1 st2"
    by (simp add: Let_def filled1_def ty_def st2_def)
  moreover have "fk_emitted st2 = fk_emitted st @ [?ev]" by (simp add: st2_def)
  ultimately show ?case using evs ing ingest_all_append [of env "[?ev]" evs uid db] by (intro exI [of _ "?ev # evs"]) simp
qed

definition sound_script :: "fake \<Rightarrow> bool" where
  "sound_script st \<longleftrightarrow> dec_is_finite (fk_default_price st) \<and> (\<forall>s\<in>set (fk_script st). list_all sound_fill (ss_fills s))"

text \<open>
  C18. The book of the fake broker is refined by the position table. Let the positions of an
  account agree with the book, symbol by symbol, and let the tables hold the order of a
  request of positive quantity. Whatever the script does (rejects, partial fills, leaves
  working, fills at once), ingesting the events the broker published for the request brings
  the positions to agree with the book after it, and keeps the tables well formed.
\<close>

theorem fake_book_refined:
  assumes agree: "follows acct st db" and wf: "orders_wf db" and ord: "has_order acct rq coid db"
    and fresh: "\<And>n. fk_seq st < n \<Longrightarrow> \<not> exec_used acct (exec_name coid n) db"
    and script: "sound_script st" and qty: "0 < rq_qty rq" "has_scale 8 (rq_qty rq)"
  shows "follows acct (fst (fake_place_order rq coid st))
      (ingest_all env (published st (fst (fake_place_order rq coid st))) uid db) \<and>
    orders_wf (ingest_all env (published st (fst (fake_place_order rq coid st))) uid db)"
proof -
  obtain step st0 where step: "(case fk_script st of [] \<Rightarrow> (None, st) | s # ss \<Rightarrow> (Some s, st\<lparr>fk_script := ss\<rparr>)) = (step, st0)"
    by (rule prod.exhaust)
  have st0: "fk_emitted st0 = fk_emitted st" "fk_seq st0 = fk_seq st" "book_qty st0 = book_qty st" "book_finite st0 = book_finite st"
    "fk_default_price st0 = fk_default_price st"
    and stp: "step = None \<or> (\<exists>s\<in>set (fk_script st). step = Some s)"
    using step by (auto simp: book_qty_def book_finite_def fun_eq_iff split: list.splits)
  have sync0: "sync acct rq coid st0 db"
    using agree wf ord fresh by (simp add: sync_def follows_def st0)
  have quiet: "\<exists>db'. ingest_all env [fake_event rq coid ty dec_zero dec_zero dec_zero (exec_name coid (fk_seq st0 + 1))] uid db = db' \<and>
      sync acct rq coid (fake_emit coid (fake_event rq coid ty dec_zero dec_zero dec_zero) st0) db'" if "\<not> is_fill_type ty" for ty
  proof -
    let ?mk = "fake_event rq coid ty dec_zero dec_zero dec_zero"
    have "sound_event coid (?mk (exec_name coid (fk_seq st0 + 1)))"
      using that by (simp add: sound_event_def fake_event_def dec_zero_def dec_value_def)
    moreover have "fe_exec (?mk x) = x" for x by (simp add: fake_event_def)
    ultimately obtain db' where "ingest_all env [?mk (exec_name coid (fk_seq st0 + 1))] uid db = db'"
      "orders_wf db'" "has_order acct rq coid db'" "\<forall>n>fk_seq st0 + 1. \<not> exec_used acct (exec_name coid n) db'"
      "\<And>s. position_qty db' acct s = book_qty st0 s +
         (if s = rq_symbol rq then broker_sign (rq_side rq) * event_qty (?mk (exec_name coid (fk_seq st0 + 1))) else 0)"
      using emit_step [OF sync0, of ?mk] by metis
    moreover have "event_qty (?mk x) = 0" for x using that by (simp add: event_qty_def fake_event_def)
    moreover have "book_finite st0" using agree by (simp add: st0 follows_def)
    ultimately show ?thesis by (simp add: sync_def follows_def)
  qed
  show ?thesis
  proof (cases "case step of Some s \<Rightarrow> ss_reject s | None \<Rightarrow> False")
    case True
    have "\<not> is_fill_type ''rejected''" by (simp add: is_fill_type_def)
    from quiet [OF this] show ?thesis
      using True step by (simp add: fake_place_order_def Let_def published_def st0 sync_def)
  next
    case False
    let ?st1 = "fake_emit coid (fake_event rq coid ''new'' dec_zero dec_zero dec_zero) st0"
    let ?fs = "step_fills rq step st0"
    have "\<not> is_fill_type ''new''" by (simp add: is_fill_type_def)
    from quiet [OF this] obtain db1 where
      one: "ingest_all env [fake_event rq coid ''new'' dec_zero dec_zero dec_zero (exec_name coid (fk_seq st0 + 1))] uid db = db1"
        "sync acct rq coid ?st1 db1" by blast
    have "sound_fill (default_fill rq st0)"
      using qty script by (auto simp: sound_fill_def default_fill_def dec_value_column sound_script_def st0 split: option.split)
    then have fs: "list_all sound_fill ?fs"
      using script stp by (auto simp: step_fills_def sound_script_def split: option.splits)
    have "dec_is_finite dec_zero" by (simp add: dec_zero_def)
    from fills_sync [OF one(2) fs this, of env uid] obtain evs where
      evs: "fk_emitted (fst (fake_fills rq coid ?fs dec_zero ?st1)) = fk_emitted ?st1 @ evs"
        "sync acct rq coid (fst (fake_fills rq coid ?fs dec_zero ?st1)) (ingest_all env evs uid db1)" by blast
    let ?st2 = "fst (fake_fills rq coid ?fs dec_zero ?st1)"
    define fin where "fin = fst (fake_place_order rq coid st)"
    have fin: "fk_emitted fin = fk_emitted ?st2" "fk_book fin = fk_book ?st2"
      using False step by (simp_all add: fin_def fake_place_order_def Let_def case_prod_beta)
    have pub: "published st fin = fake_event rq coid ''new'' dec_zero dec_zero dec_zero (exec_name coid (fk_seq st0 + 1)) # evs"
      using evs(1) by (simp add: published_def fin st0)
    have "follows acct fin db' = follows acct ?st2 db'" for db'
      using fin(2) by (simp add: follows_def book_finite_def book_qty_def)
    then show ?thesis
      using evs(2) one(1) ingest_all_append [of env "[_]" evs uid db] pub
      unfolding fin_def [symmetric] by (simp add: sync_def) 
  qed
qed

definition sample_fake :: fake where
  "sample_fake = \<lparr>fk_script = [\<lparr>ss_reject = False, ss_reason = [],
       ss_fills = [\<lparr>sf_qty = DFin False 4 0, sf_price = DFin False 100 0\<rparr>, \<lparr>sf_qty = DFin False 6 0, sf_price = DFin False 1015 (- 1)\<rparr>],
       ss_leave_working = False\<rparr>],
     fk_number = ''DUFAKE0001'', fk_buying_power = 100000, fk_equity = 100000, fk_last_equity = 100000,
     fk_default_price = DFin False 10000 (- 2), fk_quote = Some 100, fk_book = [], fk_open = [], fk_emitted = [], fk_seq = 0\<rparr>"

lemma sample_fake_start:
  "follows 2 sample_fake sample_db" "orders_wf sample_db" "has_order 2 sample_request ''stp-21'' sample_db"
  "\<not> exec_used 2 x sample_db" "sound_script sample_fake" "0 < rq_qty sample_request" "has_scale 8 (rq_qty sample_request)"
proof -
  have [simp]: "has_scale 8 (4 :: rat)" "has_scale 8 (6 :: rat)" "has_scale 8 (10 :: rat)" by simp_all
  show "follows 2 sample_fake sample_db" "orders_wf sample_db" "has_order 2 sample_request ''stp-21'' sample_db"
    "\<not> exec_used 2 x sample_db" "sound_script sample_fake" "0 < rq_qty sample_request" "has_scale 8 (rq_qty sample_request)"
    by (simp_all add: follows_def book_finite_def book_qty_def sample_fake_def position_qty_def get_position_def sample_defs
        orders_wf_def has_order_def mirrors_def broker_sign_def sample_request_def exec_used_def table_simps
        sound_script_def sound_fill_def dec_value_def)
qed

theorem fake_book_refined_witness:
  "follows 2 (fst (fake_place_order sample_request ''stp-21'' sample_fake))
     (ingest_all sample_env (published sample_fake (fst (fake_place_order sample_request ''stp-21'' sample_fake))) 7 sample_db) \<and>
   book_qty (fst (fake_place_order sample_request ''stp-21'' sample_fake)) ''AAPL'' = 10"
proof -
  have "book_qty (fst (fake_place_order sample_request ''stp-21'' sample_fake)) ''AAPL'' = 10"
    by (simp add: fake_place_order_def sample_fake_def sample_request_def step_fills_def fake_emit_def next_exec_id_def Let_def
        fake_apply_position_def buy_side_names_def book_qty_def dec_value_def at_exponent_def dec_zero_def)
  then show ?thesis
    using fake_book_refined [OF sample_fake_start(1,2,3) sample_fake_start(4) sample_fake_start(5,6,7), of sample_env 7] by simp
qed

end
