(* ===== verification/Streams.thy ===== *)
theory Streams
  imports Broker_Services Fills
begin

text \<open>
  The fill-stream supervisor (\<open>brokers/streams.py\<close>) and the gate of a stream
  (\<open>brokers/alpaca/streams.py\<close>): which accounts get a stream, the catch-up after a gap, the
  pause before a reconnect, and the reconciliation of the running threads with the active
  accounts. The blocking loop of a stream and its threads are not modelled; a thread is its
  account and whether it is alive. The lemmas show that the catch-up settles only what the
  broker reports, and that a pass of the supervisor leaves one live thread per active account.
\<close>

subsection \<open>Accounts and pauses\<close>

definition stream_backoff :: "rat \<Rightarrow> nat \<Rightarrow> rat" where
  "stream_backoff u attempt = quantize 3 (min (2 ^ (attempt - 1)) 30 * (1 / 2 + u * (1 / 2)))"

definition load_active_accounts :: "db \<Rightarrow> account list" where
  "load_active_accounts db =
     filter (\<lambda>a. b_broker a = ALPACA \<and> b_mode a = PAPER \<and> b_status a \<noteq> ACC_ERROR) (d_accounts db)"

text \<open>For a random number between 0 and 1 a pause is between a half and thirty seconds.\<close>

lemma stream_backoff_bounds:
  assumes "0 \<le> u" "u \<le> 1"
  shows "1 / 2 \<le> stream_backoff u attempt \<and> stream_backoff u attempt \<le> 30"
proof -
  let ?b = "min (2 ^ (attempt - 1)) (30 :: rat)"
  have b: "1 \<le> ?b" "?b \<le> 30" by simp_all
  have f: "1 / 2 \<le> 1 / 2 + u * (1 / 2)" "1 / 2 + u * (1 / 2) \<le> 1" using assms by simp_all
  have "1 * (1 / 2) \<le> ?b * (1 / 2 + u * (1 / 2))" using b(1) f(1) by (rule mult_mono) (use b in simp_all)
  moreover have "?b * (1 / 2 + u * (1 / 2)) \<le> 30 * 1" using b(2) f(2) by (rule mult_mono) (use f in simp_all)
  ultimately have "quantize 3 (1 / 2) \<le> stream_backoff u attempt" "stream_backoff u attempt \<le> quantize 3 30"
    unfolding stream_backoff_def by (simp_all add: quantize_mono)
  moreover have "has_scale 3 (1 / 2 :: rat)" unfolding has_scale_iff by (rule exI [of _ 500]) simp
  ultimately show ?thesis by (simp add: quantize_id)
qed

subsection \<open>Catching up\<close>

text \<open>What the catch-up asks of an adapter, beyond what the rest of the model calls.\<close>

record stream_adapter = adapter +
  sa_recent :: "fill_event list option"
  sa_open :: "broker_exn + order_ack list"
  sa_status :: "(string \<Rightarrow> broker_exn + order_status option) option"

definition open_statuses :: "order_status list" where
  "open_statuses = [SUBMITTED, PARTIAL, PENDING_SUBMIT]"

text \<open>An order that is no longer open at the broker takes the status the broker reports, if it reports one.\<close>

definition refresh_order ::
  "(string \<Rightarrow> broker_exn + order_status option) option \<Rightarrow> string list \<Rightarrow> order \<Rightarrow> db \<Rightarrow> db \<times> nat" where
  "refresh_order getter opens od db =
     (if o_boid od \<noteq> [] \<and> o_boid od \<notin> set opens
      then case (case getter of None \<Rightarrow> None | Some g \<Rightarrow> (case g (o_boid od) of Inl _ \<Rightarrow> None | Inr s \<Rightarrow> s)) of
             None \<Rightarrow> (db, 0)
           | Some status \<Rightarrow>
               (db\<lparr>d_orders := update_where (\<lambda>x. o_id x = o_id od \<and> \<not> terminal_status (o_status x))
                      (\<lambda>x. x\<lparr>o_status := status\<rparr>) (d_orders db)\<rparr>, 1)
      else (db, 0))"

fun refresh_orders ::
  "(string \<Rightarrow> broker_exn + order_status option) option \<Rightarrow> string list \<Rightarrow> order list \<Rightarrow> db \<Rightarrow> db \<times> nat" where
  "refresh_orders getter opens [] db = (db, 0)"
| "refresh_orders getter opens (od # ods) db =
     (let (db1, n) = refresh_order getter opens od db; (db2, m) = refresh_orders getter opens ods db1 in (db2, n + m))"

datatype catch_up = Replayed "fill_event list" | Snapped nat nat

text \<open>The events a replay publishes are part of the result.\<close>

definition catch_up_account :: "account \<Rightarrow> stream_adapter \<Rightarrow> db \<Rightarrow> broker_exn + (db \<times> catch_up)" where
  "catch_up_account ac ad db =
     (case sa_recent ad of
        Some evs \<Rightarrow> Inr (db, Replayed evs)
      | None \<Rightarrow>
          (case reconcile_positions ac (adapter.truncate ad) db of
             Inl e \<Rightarrow> Inl e
           | Inr (db1, changed) \<Rightarrow>
               (case sa_open ad of
                  Inl e \<Rightarrow> Inl e
                | Inr acks \<Rightarrow>
                    let opens = filter (\<lambda>b. b \<noteq> []) (map ak_boid acks);
                        ours = filter (\<lambda>od. o_account od = Some (b_id ac) \<and> o_status od \<in> set open_statuses) (d_orders db1);
                        (db2, n) = refresh_orders (sa_status ad) opens ours db1;
                        (db3, m) = resolve_needs_reconcile ac (adapter.truncate ad) db2
                    in Inr (db3, Snapped changed (n + m)))))"

subsection \<open>The stream's gate\<close>

definition build_stream :: "broker_context \<Rightarrow> flag_env \<Rightarrow> flags \<Rightarrow> flags \<times> (call_error + string \<times> string \<times> bool)" where
  "build_stream ctx fenv fs =
     (if is_paper ctx then (fs, Inr (bc_key ctx, bc_secret ctx, True))
      else let (fs', permitted) = live_trading_permitted fenv fs
           in (fs', if permitted then Inr (bc_key ctx, bc_secret ctx, False)
                    else Inl (refusal LIVE_TRADING_DISABLED ''Live trading is disabled; refusing to open a LIVE trade-updates stream.'')))"

subsection \<open>The supervisor\<close>

text \<open>The running threads by account id, whether each is alive, and the stop signals that were set.\<close>

record supervisor =
  sv_threads :: "(nat \<times> bool) list"
  sv_stopped :: "nat list"

definition prune_threads :: "nat list \<Rightarrow> supervisor \<Rightarrow> supervisor" where
  "prune_threads active sv =
     sv\<lparr>sv_threads := filter (\<lambda>(i, alive). i \<in> set active \<and> alive) (sv_threads sv),
        sv_stopped := sv_stopped sv @ map fst (filter (\<lambda>(i, alive). \<not> (i \<in> set active \<and> alive)) (sv_threads sv))\<rparr>"

definition start_thread :: "nat \<Rightarrow> supervisor \<Rightarrow> supervisor" where
  "start_thread i sv = sv\<lparr>sv_threads := sv_threads sv @ [(i, True)]\<rparr>"

definition start_missing :: "nat \<Rightarrow> supervisor \<Rightarrow> supervisor" where
  "start_missing i sv = (if i \<in> fst ` set (sv_threads sv) then sv else start_thread i sv)"

text \<open>\<open>{str(a.id): a for a in accounts}\<close> has each id once.\<close>

definition reconcile_threads :: "account list \<Rightarrow> supervisor \<Rightarrow> supervisor" where
  "reconcile_threads accounts sv =
     (let active = remdups (map b_id accounts) in fold start_missing active (prune_threads active sv))"

lemma start_missing_threads:
  "fst ` set (sv_threads (fold start_missing ids sv)) = fst ` set (sv_threads sv) \<union> set ids \<and>
   (distinct (map fst (sv_threads sv)) \<longrightarrow> distinct (map fst (sv_threads (fold start_missing ids sv)))) \<and>
   (list_all snd (sv_threads sv) \<longrightarrow> list_all snd (sv_threads (fold start_missing ids sv)))"
proof (induction ids arbitrary: sv)
  case (Cons i ids)
  from Cons.IH [of "start_missing i sv"] show ?case
    by (auto simp: start_missing_def start_thread_def image_iff split: if_splits)
qed simp

text \<open>
  After a pass of the supervisor the threads are exactly one live thread for each active account,
  however many of them were dead, superfluous or missing before.
\<close>

lemma reconcile_threads_exact:
  assumes "distinct (map fst (sv_threads sv))"
  shows "fst ` set (sv_threads (reconcile_threads accounts sv)) = b_id ` set accounts \<and>
    distinct (map fst (sv_threads (reconcile_threads accounts sv))) \<and>
    list_all snd (sv_threads (reconcile_threads accounts sv))"
proof -
  let ?active = "remdups (map b_id accounts)"
  let ?sv = "prune_threads ?active sv"
  have "fst ` set (sv_threads ?sv) \<subseteq> set ?active" "distinct (map fst (sv_threads ?sv))" "list_all snd (sv_threads ?sv)"
    using assms by (auto simp: prune_threads_def list_all_iff distinct_map_filter)
  with start_missing_threads [of ?active ?sv] show ?thesis
    by (simp add: reconcile_threads_def Let_def) blast
qed

text \<open>
  The catch-up keeps a terminal order as it is, and another order changes only to the status the
  broker reports for its broker id, when it is not among the open ones.
\<close>

lemma refresh_orders_keeps:
  assumes "terminal_status (o_status od)"
  shows "od \<in> set (d_orders db) \<Longrightarrow> od \<in> set (d_orders (fst (refresh_orders getter opens ods db)))"
proof (induction ods arbitrary: db)
  case (Cons x ods)
  have "od \<in> set (d_orders (fst (refresh_order getter opens x db)))"
    using Cons.prems assms
    by (auto simp: refresh_order_def set_update_where image_iff intro!: bexI [of _ od] split: option.split sum.split)
  from Cons.IH [OF this] show ?case by (simp add: case_prod_beta Let_def)
qed simp

lemma refresh_orders_only_reported:
  assumes "od \<in> set (d_orders (fst (refresh_orders (Some g) opens ods db)))" "od \<notin> set (d_orders db)"
  shows "\<exists>x\<in>set ods. o_boid x \<notin> set opens \<and> o_id od = o_id x \<and> g (o_boid x) = Inr (Some (o_status od))"
  using assms
proof (induction ods arbitrary: db)
  case (Cons x ods)
  let ?db1 = "fst (refresh_order (Some g) opens x db)"
  from Cons.prems(1) have in2: "od \<in> set (d_orders (fst (refresh_orders (Some g) opens ods ?db1)))"
    by (simp add: case_prod_beta Let_def)
  show ?case
  proof (cases "od \<in> set (d_orders ?db1)")
    case True
    with Cons.prems(2) show ?thesis
      by (auto simp: refresh_order_def set_update_where image_iff split: if_splits option.splits sum.splits)
  next
    case False
    from Cons.IH [OF in2 this] show ?thesis by auto
  qed
qed simp

end
