(* ===== verification/Risk_Api.thy ===== *)
theory Risk_Api
  imports Broker_Services
begin

text \<open>
  The kill-switch endpoint (\<open>risk/views.py\<close>, the kill-switch serializer of
  \<open>risk/serializers.py\<close>): engaging and releasing the halts of a strategy, of the caller or of the
  platform. The verification of the MFA code is a parameter. The lemmas show that an engaged
  switch is in force, that a caller reaches only the halts of the requested scope, and that the
  daily-loss halts are out of reach of the API altogether.
\<close>

datatype ks_scope = SCOPE_STRATEGY | SCOPE_USER | SCOPE_PLATFORM

primrec scope_level :: "ks_scope \<Rightarrow> halt_level" where
  "scope_level SCOPE_STRATEGY = L0"
| "scope_level SCOPE_USER = L1"
| "scope_level SCOPE_PLATFORM = L3"

definition parse_scope :: "string \<Rightarrow> ks_scope option" where
  "parse_scope s =
     (if s = ''STRATEGY'' then Some SCOPE_STRATEGY else if s = ''USER'' then Some SCOPE_USER
      else if s = ''PLATFORM'' then Some SCOPE_PLATFORM else None)"

record ks_request =
  kr_scope :: string
  kr_target :: "nat option"
  kr_active :: bool
  kr_reason :: string
  kr_flatten :: bool
  kr_mfa :: string

record ks_data =
  kd_scope :: ks_scope
  kd_target :: "nat option"
  kd_active :: bool
  kd_reason :: string
  kd_flatten :: bool
  kd_mfa :: string

text \<open>\<open>KillSwitchCreateSerializer\<close>: a strategy must be named and owned, and cannot be flattened.\<close>

definition ks_valid :: "nat \<Rightarrow> ks_request \<Rightarrow> db \<Rightarrow> ks_data option" where
  "ks_valid uid rq db =
     (let reason = py_strip (kr_reason rq); mfa = py_strip (kr_mfa rq)
      in case parse_scope (kr_scope rq) of
           None \<Rightarrow> None
         | Some scope \<Rightarrow>
             if 255 < length reason \<or> 16 < length mfa then None
             else if scope = SCOPE_STRATEGY \<and>
               (kr_flatten rq \<or>
                (case kr_target rq of
                   None \<Rightarrow> True
                 | Some t \<Rightarrow> \<not> exists_where (\<lambda>s. s_id s = t \<and> s_owner s = Some uid) (d_strategies db)))
             then None
             else Some \<lparr>kd_scope = scope, kd_target = kr_target rq, kd_active = kr_active rq, kd_reason = reason,
                        kd_flatten = kr_flatten rq, kd_mfa = mfa\<rparr>)"

definition ks_halt_request :: "nat \<Rightarrow> ks_data \<Rightarrow> halt_request" where
  "ks_halt_request uid d =
     \<lparr>q_user = (if kd_scope d = SCOPE_PLATFORM then None else Some uid), q_level = scope_level (kd_scope d),
      q_strategy = (if kd_scope d = SCOPE_STRATEGY then kd_target d else None), q_reason = kd_reason d,
      q_created_by = Some uid, q_auto = False, q_flatten = (kd_flatten d \<or> kd_scope d = SCOPE_USER)\<rparr>"

text \<open>The active halts a release of a scope considers; the first one is released.\<close>

definition ks_release_query :: "nat \<Rightarrow> ks_data \<Rightarrow> halt \<Rightarrow> bool" where
  "ks_release_query uid d h \<longleftrightarrow>
     h_released h = None \<and> h_level h = scope_level (kd_scope d) \<and>
     (case kd_scope d of
        SCOPE_PLATFORM \<Rightarrow> h_user h = None
      | SCOPE_STRATEGY \<Rightarrow> h_user h = Some uid \<and> h_strategy h = kd_target d
      | SCOPE_USER \<Rightarrow> h_user h = Some uid \<and> h_strategy h = None)"

definition killswitch_post ::
  "env \<Rightarrow> (nat \<Rightarrow> string \<Rightarrow> bool) \<Rightarrow> nat \<Rightarrow> bool \<Rightarrow> ks_request \<Rightarrow> db \<Rightarrow> db \<times> http_result" where
  "killswitch_post env verify_mfa uid staff rq db =
     (case ks_valid uid rq db of
        None \<Rightarrow> (db, Response 400 ''VALIDATION_ERROR'')
      | Some d \<Rightarrow>
          if kd_scope d = SCOPE_PLATFORM \<and> \<not> staff then (db, Response 403 ''FORBIDDEN'')
          else if kd_scope d \<in> {SCOPE_USER, SCOPE_PLATFORM} \<and> \<not> verify_mfa uid (kd_mfa d)
          then (db, Response 403 ''MFA_REQUIRED'')
          else if kd_active d
          then (fst (trigger_halt env (ks_halt_request uid d) db), Response 201 ''ok'')
          else case first_where (ks_release_query uid d) (d_halts db) of
                 None \<Rightarrow> (db, Response 200 ''no active halt'')
               | Some h \<Rightarrow>
                   (let (db', released) = release_halt env (h_id h) (Some uid) db
                    in (db', if released then Response 200 ''ok'' else Response 409 ''HALT_LOCKED'')))"

text \<open>\<open>GET\<close>: the active halts the caller sees, newest first.\<close>

definition killswitch_list :: "nat \<Rightarrow> db \<Rightarrow> halt list" where
  "killswitch_list uid db =
     rev (sort_key h_created (filter (\<lambda>h. h_released h = None \<and> (h_user h = Some uid \<or> h_user h = None)) (d_halts db)))"

lemma ks_request_ok: "ks_valid uid rq db = Some d \<Longrightarrow> request_ok (ks_halt_request uid d)"
  by (auto simp: ks_valid_def request_ok_def ks_halt_request_def Let_def parse_scope_def split: option.splits if_splits)

text \<open>What a valid post does: nothing, one halt written or one halt released.\<close>

lemma killswitch_post_cases:
  assumes valid: "ks_valid uid rq db = Some d" and post: "killswitch_post env mfa uid staff rq db = (db', resp)"
  obtains (same) "db' = db" "resp \<noteq> Response 201 ''ok''" "resp \<noteq> Response 409 ''HALT_LOCKED''"
    | (engaged) "db' = fst (trigger_halt env (ks_halt_request uid d) db)" "resp = Response 201 ''ok''"
    | (release) g where "first_where (ks_release_query uid d) (d_halts db) = Some g"
        "kd_scope d = SCOPE_PLATFORM \<longrightarrow> staff" "db' = fst (release_halt env (h_id g) (Some uid) db)"
        "resp = (if snd (release_halt env (h_id g) (Some uid) db) then Response 200 ''ok'' else Response 409 ''HALT_LOCKED'')"
proof -
  define refused where "refused \<longleftrightarrow> kd_scope d = SCOPE_PLATFORM \<and> \<not> staff"
  define unverified where "unverified \<longleftrightarrow> kd_scope d \<in> {SCOPE_USER, SCOPE_PLATFORM} \<and> \<not> mfa uid (kd_mfa d)"
  define engaging where "engaging = fst (trigger_halt env (ks_halt_request uid d) db)"
  define found where "found = first_where (ks_release_query uid d) (d_halts db)"
  define rel where "rel h = release_halt env (h_id h) (Some uid) db" for h :: halt
  have run: "(db', resp) =
      (if refused then (db, Response 403 ''FORBIDDEN'') else if unverified then (db, Response 403 ''MFA_REQUIRED'')
       else if kd_active d then (engaging, Response 201 ''ok'')
       else case found of None \<Rightarrow> (db, Response 200 ''no active halt'')
          | Some h \<Rightarrow> (fst (rel h), if snd (rel h) then Response 200 ''ok'' else Response 409 ''HALT_LOCKED''))"
    unfolding post [symmetric] killswitch_post_def valid option.case refused_def unverified_def engaging_def found_def
      rel_def case_prod_beta Let_def ..
  consider "refused" | "\<not> refused" "unverified" | "\<not> refused" "\<not> unverified" "kd_active d"
    | "\<not> refused" "\<not> unverified" "\<not> kd_active d" "found = None"
    | g where "\<not> refused" "\<not> unverified" "\<not> kd_active d" "found = Some g" by (cases found) blast+
  then show thesis
  proof cases
    case 5
    with run have "db' = fst (rel g)"
      "resp = (if snd (rel g) then Response 200 ''ok'' else Response 409 ''HALT_LOCKED'')" by simp_all
    then show thesis using release [of g] 5 by (simp add: refused_def found_def rel_def)
  qed (use run same engaged in \<open>simp_all add: engaging_def\<close>)
qed

text \<open>
  C20. The kill-switch endpoint. Whatever is posted, the halts stay well formed and no request is
  answered \<open>HALT_LOCKED\<close>; an accepted engagement blocks at once everything of its scope; and a
  request leaves alone every active halt of another user, every daily-loss halt, and, unless
  it comes from staff, the platform halts.
\<close>

theorem kill_switch_endpoint:
  assumes wf: "halts_wf db" and post: "killswitch_post env mfa uid staff rq db = (db', resp)"
  shows "halts_wf db' \<and> resp \<noteq> Response 409 ''HALT_LOCKED'' \<and>
    (resp = Response 201 ''ok'' \<longrightarrow>
       (kr_scope rq = ''PLATFORM'' \<longrightarrow> is_blocked db' u st \<noteq> None) \<and>
       (kr_scope rq = ''USER'' \<longrightarrow> is_blocked db' uid st \<noteq> None) \<and>
       (kr_scope rq = ''STRATEGY'' \<longrightarrow> is_blocked db' uid (kr_target rq) \<noteq> None)) \<and>
    (h \<in> set (d_halts db) \<and> active_halt h \<and>
       (h_level h = L2 \<or> h_level h = L3 \<and> \<not> staff \<or> h_level h \<noteq> L3 \<and> h_user h \<noteq> Some uid) \<longrightarrow>
     h \<in> set (d_halts db'))"
proof (cases "ks_valid uid rq db")
  case None
  with post wf show ?thesis by (auto simp: killswitch_post_def)
next
  case (Some d)
  have d: "parse_scope (kr_scope rq) = Some (kd_scope d)" "kd_target d = kr_target rq"
    using Some by (auto simp: ks_valid_def Let_def split: option.splits if_splits)
  let ?q = "ks_halt_request uid d"
  have q: "request_ok ?q" by (rule ks_request_ok [OF Some])
  consider (same) "db' = db" "resp \<noteq> Response 201 ''ok''" "resp \<noteq> Response 409 ''HALT_LOCKED''"
    | (engaged) "db' = fst (trigger_halt env ?q db)" "resp = Response 201 ''ok''"
    | (release) g where "first_where (ks_release_query uid d) (d_halts db) = Some g"
        "kd_scope d = SCOPE_PLATFORM \<longrightarrow> staff" "db' = fst (release_halt env (h_id g) (Some uid) db)"
        "resp = (if snd (release_halt env (h_id g) (Some uid) db) then Response 200 ''ok'' else Response 409 ''HALT_LOCKED'')"
    by (rule killswitch_post_cases [OF Some post])
  then show ?thesis
  proof cases
    case same
    with wf show ?thesis by simp
  next
    case engaged
    have scope: "(kr_scope rq = ''PLATFORM'' \<longrightarrow> kd_scope d = SCOPE_PLATFORM) \<and>
        (kr_scope rq = ''USER'' \<longrightarrow> kd_scope d = SCOPE_USER) \<and> (kr_scope rq = ''STRATEGY'' \<longrightarrow> kd_scope d = SCOPE_STRATEGY)"
      using d(1) by (auto simp: parse_scope_def split: if_splits)
    obtain g where g: "g \<in> set (d_halts db')" "active_halt g" "halt_scope_query (q_user ?q) (q_level ?q) (q_strategy ?q) g"
      using trigger_in_force [OF q wf] engaged(1) by blast
    have blocked: "is_blocked db' v s \<noteq> None"
      if "q_level ?q = L3 \<or> q_user ?q = Some v \<and> (q_level ?q = L0 \<longrightarrow> q_strategy ?q = s)" for v s
      using g that q unfolding is_blocked_None
      by (cases "q_level ?q") (auto simp: halt_scope_query_def request_ok_def intro!: bexI [of _ g])
    have "h \<in> set (d_halts db) \<longrightarrow> h \<in> set (d_halts db')" using trigger_keeps_halts engaged(1) by blast
    moreover have "halts_wf db'" unfolding engaged(1) by (rule trigger_halt_wf [OF wf q])
    ultimately show ?thesis
      using engaged(2) scope blocked [of u st] blocked [of uid st] blocked [of uid "kr_target rq"] d(2)
      by (auto simp: ks_halt_request_def)
  next
    case release
    have g: "g \<in> set (d_halts db)" "ks_release_query uid d g" using first_where_Some [OF release(1)] by auto
    then have gact: "active_halt g" "h_level g \<noteq> L2"
      by (cases "kd_scope d"; simp add: ks_release_query_def active_halt_def)+
    have rel: "snd (release_halt env (h_id g) (Some uid) db)"
    proof (rule ccontr)
      assume "\<not> snd (release_halt env (h_id g) (Some uid) db)"
      then have "release_halt env (h_id g) (Some uid) db = (db, False)"
        by (cases rule: release_halt_cases [of env "h_id g" "Some uid" db]) auto
      moreover have "g \<notin> set (d_halts (fst (release_halt env (h_id g) (Some uid) db)))"
        by (rule release_halt_releases [OF wf g(1) gact(1)]) (use gact(2) in \<open>auto simp: locked_def l2_auto_def\<close>)
      ultimately show False using g(1) by simp
    qed
    have keeps: "x \<in> set (d_halts db')" if "x \<in> set (d_halts db)" "x \<noteq> g" for x
    proof -
      have ne: "h_id x \<noteq> h_id g" using halt_key [OF wf that(1) g(1)] that(2) by blast
      show ?thesis
        unfolding release(3)
        by (cases rule: release_halt_cases [of env "h_id g" "Some uid" db])
          (use that ne in \<open>auto simp: set_update_where image_iff intro!: bexI [of _ x]\<close>)
    qed
    have "h_level g \<noteq> L2 \<and> (h_level g = L3 \<longrightarrow> staff) \<and> (h_level g \<noteq> L3 \<longrightarrow> h_user g = Some uid)"
      using g(2) release(2) by (cases "kd_scope d") (auto simp: ks_release_query_def)
    moreover have "halts_wf db'" unfolding release(3) by (rule release_halt_wf [OF wf])
    ultimately show ?thesis using keeps [of h] release(4) rel by auto
  qed
qed

theorem kill_switch_endpoint_witness:
  "is_blocked (fst (killswitch_post sample_env (\<lambda>u c. c = ''123456'') 7 False
     \<lparr>kr_scope = ''USER'', kr_target = None, kr_active = True, kr_reason = ''stop'', kr_flatten = False, kr_mfa = ''123456''\<rparr>
     sample_db)) 7 (Some 3) \<noteq> None"
proof -
  let ?rq = "\<lparr>kr_scope = ''USER'', kr_target = None, kr_active = True, kr_reason = ''stop'', kr_flatten = False, kr_mfa = ''123456''\<rparr>"
  let ?post = "killswitch_post sample_env (\<lambda>u c. c = ''123456'') 7 False ?rq sample_db"
  have strip: "py_strip ''stop'' = ''stop''" "py_strip ''123456'' = ''123456''" by code_simp+
  have "snd ?post = Response 201 ''ok''"
    by (simp add: killswitch_post_def ks_valid_def parse_scope_def Let_def strip)
  then have "?post = (fst ?post, Response 201 ''ok'')" by (simp add: prod_eq_iff)
  from kill_switch_endpoint [OF sample_halts_wf this, of _ "Some 3"] show ?thesis by simp
qed

end
