(* ===== verification/Users.thy ===== *)
theory Users
  imports Cache One_Time
begin

text \<open>
  Accounts and sessions: the rows of \<open>users/models.py\<close> and the services of
  \<open>users/services.py\<close>. Refresh tokens are organised in families, one per login: a family
  knows the id of its current token and of the one before, and any other token presented for it
  revokes it. One-time tokens (e-mail verification, password reset, OAuth exchange) are stored as
  hashes with an expiry and the instant of their use. The signature of the tokens, SHA-256, the
  password hasher, the random source and the mail provider are parameters of \<open>auth_env\<close>.
  The lemmas show when a family is revoked and that it stays so, that a token that is neither
  current nor previous is dead for good, that a one-time token works once, and that failed logins
  from one address lock only that address.
\<close>

subsection \<open>Tokens and surroundings\<close>

datatype token_type = ACCESS | REFRESH | MFA_CHALLENGE

record claims =
  cl_jti :: nat
  cl_user :: "nat option"
  cl_family :: "nat option"
  cl_purpose :: string
  cl_session :: "nat option"
  cl_extra :: wire_dict

record mail =
  ml_to :: string
  ml_template :: string
  ml_token :: string

text \<open>
  \<open>ax_encode\<close> signs claims with an expiry; \<open>ax_decode\<close> is the constructor of a token class on
  a raw token: nothing for a bad signature, another token type or an expired token. The
  \<open>n\<close>-th random draw is \<open>ax_urlsafe n\<close>, \<open>ax_backup_raw n\<close> and \<open>ax_salt n\<close>.
\<close>

record auth_env =
  ax_now :: int
  ax_encode :: "token_type \<Rightarrow> int \<Rightarrow> claims \<Rightarrow> string"
  ax_decode :: "token_type \<Rightarrow> int \<Rightarrow> string \<Rightarrow> claims option"
  ax_sha256 :: "string \<Rightarrow> string"
  ax_make_password :: "nat \<Rightarrow> string \<Rightarrow> string"
  ax_check_password :: "string \<Rightarrow> string \<Rightarrow> bool"
  ax_urlsafe :: "nat \<Rightarrow> string"
  ax_backup_raw :: "nat \<Rightarrow> string"
  ax_salt :: "nat \<Rightarrow> string"
  ax_totp_secret :: "nat \<Rightarrow> string"
  ax_totp :: "string \<Rightarrow> int \<Rightarrow> nat \<Rightarrow> string \<Rightarrow> bool"
  ax_encrypt :: "string \<Rightarrow> string"
  ax_decrypt :: "string \<Rightarrow> string option"
  ax_mail_ok :: "mail \<Rightarrow> bool"

text \<open>The settings the services read.\<close>

record auth_settings =
  as_lock_threshold :: nat
  as_lock_window :: int
  as_mfa_enabled :: bool
  as_login_failures :: int
  as_login_window :: int
  as_stepup_failures :: int
  as_stepup_window :: int
  as_mfa_ttl :: int
  as_totp_window :: nat
  as_backup_count :: nat
  as_exchange_ttl :: int
  as_impersonation_ttl :: int

record web_request =
  wr_forwarded :: string
  wr_remote :: "string option"
  wr_agent :: string

subsection \<open>Rows\<close>

record user_row =
  ur_id :: nat
  ur_email :: string
  ur_name :: string
  ur_password :: string
  ur_active :: bool
  ur_verified :: bool
  ur_staff :: bool
  ur_created :: int
  ur_pending :: "int option"

record family =
  fa_id :: nat
  fa_user :: nat
  fa_created :: int
  fa_revoked :: "int option"
  fa_reason :: string
  fa_current :: nat
  fa_previous :: "nat option"
  fa_agent :: string
  fa_ip :: "string option"
  fa_used :: "int option"

record token_row =
  tn_id :: nat
  tn_user :: nat
  tn_hash :: string
  tn_created :: int
  tn_expires :: int
  tn_consumed :: "int option"

record failed_login =
  lf_email :: string
  lf_ip :: "string option"
  lf_at :: int

record mfa_device =
  md_id :: nat
  md_user :: nat
  md_secret :: string
  md_verified :: bool
  md_enrolled :: "int option"

record backup_code =
  bk_id :: nat
  bk_user :: nat
  bk_hash :: string
  bk_salt :: string
  bk_used :: "int option"

record user_profile =
  pf_user :: nat
  pf_timezone :: string
  pf_language :: string
  pf_notify :: bool
  pf_broker :: "nat option"
  pf_terms :: string

record impersonation =
  im_id :: nat
  im_actor :: nat
  im_target :: nat
  im_reason :: string
  im_started :: int
  im_expires :: int
  im_ended :: "int option"

datatype export_status = EXPORT_PENDING | EXPORT_RUNNING | EXPORT_READY | EXPORT_FAILED | EXPORT_EXPIRED

record export_job =
  xj_id :: nat
  xj_user :: nat
  xj_status :: export_status
  xj_file :: string
  xj_size :: nat
  xj_error :: string
  xj_created :: int
  xj_ready :: "int option"
  xj_expires :: "int option"

datatype terms_kind = TERMS | PRIVACY

record terms_document =
  td_kind :: terms_kind
  td_version :: string
  td_url :: string
  td_effective :: int

record terms_acceptance =
  tx_user :: nat
  tx_tos :: string
  tx_privacy :: string
  tx_at :: int
  tx_ip :: "string option"

record auth =
  st_users :: "user_row list"
  st_profiles :: "user_profile list"
  st_families :: "family list"
  st_verify :: "token_row list"
  st_reset :: "token_row list"
  st_exchange :: "token_row list"
  st_failed :: "failed_login list"
  st_devices :: "mfa_device list"
  st_backups :: "backup_code list"
  st_sessions :: "impersonation list"
  st_exports :: "export_job list"
  st_documents :: "terms_document list"
  st_acceptances :: "terms_acceptance list"
  st_cache :: "int cache"
  st_audits :: "audit_call list"
  st_mails :: "mail list"
  st_next :: nat

subsection \<open>Requests and audit events\<close>

definition client_ip :: "web_request \<Rightarrow> string option" where
  "client_ip r =
     (if wr_forwarded r \<noteq> [] then Some (py_strip (hd (py_split (CHR '','') (wr_forwarded r)))) else wr_remote r)"

definition auth_emit :: "audit_call \<Rightarrow> auth \<Rightarrow> auth" where
  "auth_emit a st = st\<lparr>st_audits := st_audits st @ [a]\<rparr>"

text \<open>\<open>record_event\<close>: the e-mail is the given one, or else the one of the user.\<close>

definition record_event :: "string \<Rightarrow> user_row option \<Rightarrow> string \<Rightarrow> wire_dict \<Rightarrow> auth \<Rightarrow> auth" where
  "record_event event user email meta =
     auth_emit \<lparr>ac_event = ''auth.'' @ event, ac_user = map_option ur_id user, ac_actor = None, ac_entity = [],
       ac_entity_id = [],
       ac_after = (''email'', WStr (if email \<noteq> [] then email
                                    else case user of None \<Rightarrow> [] | Some u \<Rightarrow> ur_email u)) # meta\<rparr>"

definition send_mail :: "auth_env \<Rightarrow> string \<Rightarrow> string \<Rightarrow> string \<Rightarrow> auth \<Rightarrow> auth \<times> bool" where
  "send_mail ax to template token st =
     (let m = \<lparr>ml_to = to, ml_template = template, ml_token = token\<rparr>
      in if ax_mail_ok ax m then (st\<lparr>st_mails := st_mails st @ [m]\<rparr>, True) else (st, False))"

subsection \<open>Token families\<close>

record user_view =
  uv_id :: nat
  uv_email :: string
  uv_name :: string
  uv_verified :: bool
  uv_mfa :: bool
  uv_staff :: bool

record token_pair =
  pr_access :: string
  pr_refresh :: string
  pr_user :: user_view

definition user_mfa :: "nat \<Rightarrow> auth \<Rightarrow> bool" where
  "user_mfa uid st \<longleftrightarrow> exists_where (\<lambda>d. md_user d = uid \<and> md_verified d) (st_devices st)"

definition serialize_user :: "user_row \<Rightarrow> auth \<Rightarrow> user_view" where
  "serialize_user u st =
     \<lparr>uv_id = ur_id u, uv_email = ur_email u, uv_name = ur_name u, uv_verified = ur_verified u,
      uv_mfa = user_mfa (ur_id u) st, uv_staff = ur_staff u\<rparr>"

definition minutes :: "int \<Rightarrow> int" where
  "minutes n = seconds (60 * n)"

definition refresh_lifetime :: int where
  "refresh_lifetime = minutes (60 * 24 * 30)"

definition access_lifetime :: int where
  "access_lifetime = minutes 15"

text \<open>Ids of tokens are drawn from the counter of row ids, as unique as the random ids of the code.\<close>

definition rotated_family :: "auth_env \<Rightarrow> web_request option \<Rightarrow> nat \<Rightarrow> family \<Rightarrow> family" where
  "rotated_family ax rq jti f =
     (let ip = (case rq of None \<Rightarrow> None | Some r \<Rightarrow> client_ip r);
          ua = (case rq of None \<Rightarrow> [] | Some r \<Rightarrow> take 512 (wr_agent r));
          f1 = f\<lparr>fa_previous := Some (fa_current f), fa_current := jti, fa_used := Some (ax_now ax)\<rparr>;
          f2 = (if ip \<noteq> None \<and> ip \<noteq> Some [] then f1\<lparr>fa_ip := ip\<rparr> else f1)
      in if ua \<noteq> [] then f2\<lparr>fa_agent := ua\<rparr> else f2)"

definition issue_token_pair ::
  "auth_env \<Rightarrow> user_row \<Rightarrow> family option \<Rightarrow> web_request option \<Rightarrow> auth \<Rightarrow> auth \<times> token_pair" where
  "issue_token_pair ax u fam rq st =
     (let jti = st_next st;
          ip = (case rq of None \<Rightarrow> None | Some r \<Rightarrow> client_ip r);
          ua = (case rq of None \<Rightarrow> [] | Some r \<Rightarrow> take 512 (wr_agent r));
          (fid, fams) =
            (case fam of
               None \<Rightarrow>
                 (jti + 1, st_families st @
                    [\<lparr>fa_id = jti + 1, fa_user = ur_id u, fa_created = ax_now ax, fa_revoked = None, fa_reason = [],
                      fa_current = jti, fa_previous = None, fa_agent = ua, fa_ip = ip, fa_used = Some (ax_now ax)\<rparr>])
             | Some f \<Rightarrow>
                 (fa_id f, update_where (\<lambda>x. fa_id x = fa_id f) (rotated_family ax rq jti) (st_families st)));
          refresh = \<lparr>cl_jti = jti, cl_user = Some (ur_id u), cl_family = Some fid, cl_purpose = [], cl_session = None,
                     cl_extra = []\<rparr>;
          access = refresh\<lparr>cl_jti := jti + 2,
                     cl_extra := [(''email'', WStr (ur_email u)), (''display_name'', WStr (ur_name u)),
                                  (''is_verified'', WBool (ur_verified u)), (''mfa_enabled'', WBool (user_mfa (ur_id u) st))]\<rparr>
      in (st\<lparr>st_families := fams, st_next := jti + 3\<rparr>,
          \<lparr>pr_access = ax_encode ax ACCESS (ax_now ax + access_lifetime) access,
           pr_refresh = ax_encode ax REFRESH (ax_now ax + refresh_lifetime) refresh,
           pr_user = serialize_user u st\<rparr>))"

definition revoke_family :: "auth_env \<Rightarrow> string \<Rightarrow> family \<Rightarrow> family" where
  "revoke_family ax reason f =
     (if fa_revoked f = None then f\<lparr>fa_revoked := Some (ax_now ax), fa_reason := take 64 reason\<rparr> else f)"

definition revoke_where :: "auth_env \<Rightarrow> string \<Rightarrow> (family \<Rightarrow> bool) \<Rightarrow> auth \<Rightarrow> auth" where
  "revoke_where ax reason p st =
     st\<lparr>st_families := update_where p (revoke_family ax reason) (st_families st)\<rparr>"

datatype refresh_error =
  BadToken | MissingClaims | UnknownFamily | FamilyRevoked | ReuseDetected | UserInactive

text \<open>The row lock and the join with the user: no family without its user is found.\<close>

definition locked_family :: "nat \<Rightarrow> auth \<Rightarrow> (family \<times> user_row) option" where
  "locked_family fid st =
     (case first_where (\<lambda>f. fa_id f = fid) (st_families st) of
        None \<Rightarrow> None
      | Some f \<Rightarrow> map_option (Pair f) (first_where (\<lambda>u. ur_id u = fa_user f) (st_users st)))"

definition rotate_family ::
  "auth_env \<Rightarrow> nat \<Rightarrow> nat \<Rightarrow> web_request option \<Rightarrow> auth \<Rightarrow> auth \<times> (refresh_error + token_pair)" where
  "rotate_family ax fid jti rq st =
     (case locked_family fid st of
        None \<Rightarrow> (st, Inl UnknownFamily)
      | Some (f, u) \<Rightarrow>
          let already = (fa_revoked f \<noteq> None);
              reuse = (\<not> already \<and> jti \<noteq> fa_current f \<and> Some jti \<noteq> fa_previous f);
              inactive = (\<not> already \<and> \<not> reuse \<and> \<not> ur_active u);
              family_id = (''family_id'', WId fid)
          in if already
             then (record_event ''refresh_reuse'' (Some u) [] [family_id, (''reason'', WStr ''already_revoked'')] st,
                   Inl FamilyRevoked)
             else if reuse
             then (record_event ''family_revoked'' (Some u) [] [family_id]
                     (record_event ''refresh_reuse'' (Some u) [] [family_id, (''presented_jti'', WId jti)]
                        (revoke_where ax ''reuse_detected'' (\<lambda>x. fa_id x = fid) st)),
                   Inl ReuseDetected)
             else if inactive then (st, Inl UserInactive)
             else (let (st1, pair) = issue_token_pair ax u (Some f) rq st
                   in (record_event ''refresh_ok'' (Some u) [] [family_id] st1, Inr pair)))"

definition rotate_refresh ::
  "auth_env \<Rightarrow> string \<Rightarrow> web_request option \<Rightarrow> auth \<Rightarrow> auth \<times> (refresh_error + token_pair)" where
  "rotate_refresh ax raw rq st =
     (case ax_decode ax REFRESH (ax_now ax) raw of
        None \<Rightarrow> (st, Inl BadToken)
      | Some c \<Rightarrow>
          (case (cl_family c, cl_user c) of
             (Some fid, Some _) \<Rightarrow> rotate_family ax fid (cl_jti c) rq st
           | _ \<Rightarrow> (st, Inl MissingClaims)))"

definition revoke_refresh :: "auth_env \<Rightarrow> string \<Rightarrow> auth \<Rightarrow> auth \<times> bool" where
  "revoke_refresh ax raw st =
     (case ax_decode ax REFRESH (ax_now ax) raw of
        None \<Rightarrow> (st, False)
      | Some c \<Rightarrow>
          (case cl_family c of
             None \<Rightarrow> (st, False)
           | Some fid \<Rightarrow>
               (case first_where (\<lambda>f. fa_id f = fid) (st_families st) of
                  None \<Rightarrow> (st, False)
                | Some f \<Rightarrow>
                    if fa_revoked f \<noteq> None then (st, False)
                    else (record_event ''logout'' (first_where (\<lambda>u. ur_id u = fa_user f) (st_users st)) []
                            [(''family_id'', WId fid)] (revoke_where ax ''logout'' (\<lambda>x. fa_id x = fid) st), True))))"

definition live_families :: "nat \<Rightarrow> nat option \<Rightarrow> auth \<Rightarrow> family list" where
  "live_families uid except st =
     filter (\<lambda>f. fa_user f = uid \<and> fa_revoked f = None \<and> Some (fa_id f) \<noteq> except) (st_families st)"

definition revoke_other_sessions :: "auth_env \<Rightarrow> nat \<Rightarrow> nat option \<Rightarrow> string \<Rightarrow> auth \<Rightarrow> auth \<times> nat" where
  "revoke_other_sessions ax uid except reason st =
     (revoke_where ax reason (\<lambda>f. fa_user f = uid \<and> fa_revoked f = None \<and> Some (fa_id f) \<noteq> except) st,
      length (live_families uid except st))"

subsection \<open>The list of sessions\<close>

definition mask_ip :: "string option \<Rightarrow> string option" where
  "mask_ip ip =
     (case ip of
        None \<Rightarrow> None
      | Some s \<Rightarrow>
          if s = [] then None
          else if CHR '':'' \<in> set s then Some (py_join '':'' (butlast (py_split (CHR '':'') s) @ [''xxxx'']))
          else let parts = py_split (CHR ''.'') s
               in if length parts = 4 then Some (py_join ''.'' (take 3 parts @ [''xxx''])) else Some s)"

definition agent_browser :: "string \<Rightarrow> string" where
  "agent_browser s =
     (if py_contains ''Edg/'' s then ''Edge'' else if py_contains ''Chrome/'' s then ''Chrome''
      else if py_contains ''Firefox/'' s then ''Firefox'' else if py_contains ''Safari/'' s then ''Safari''
      else ''Browser'')"

definition agent_os :: "string \<Rightarrow> string" where
  "agent_os s =
     (if py_contains ''Windows'' s then ''Windows''
      else if py_contains ''Mac OS X'' s \<or> py_contains ''Macintosh'' s then ''macOS''
      else if py_contains ''Android'' s then ''Android''
      else if py_contains ''iPhone'' s \<or> py_contains ''iPad'' s \<or> py_contains ''iOS'' s then ''iOS''
      else if py_contains ''Linux'' s then ''Linux'' else ''Unknown OS'')"

definition summarize_user_agent :: "string \<Rightarrow> string" where
  "summarize_user_agent ua = (if ua = [] then ''Unknown device'' else agent_browser ua @ '' on '' @ agent_os ua)"

record session_view =
  sv_family :: nat
  sv_created :: int
  sv_used :: "int option"
  sv_ip :: "string option"
  sv_device :: string
  sv_current :: bool

definition serialize_session :: "nat option \<Rightarrow> family \<Rightarrow> session_view" where
  "serialize_session current f =
     \<lparr>sv_family = fa_id f, sv_created = fa_created f, sv_used = fa_used f, sv_ip = mask_ip (fa_ip f),
      sv_device = summarize_user_agent (fa_agent f), sv_current = (current = Some (fa_id f))\<rparr>"

text \<open>Newest use first, newer families first among equals; a family always has a time of use.\<close>

definition list_user_sessions :: "nat \<Rightarrow> nat option \<Rightarrow> auth \<Rightarrow> session_view list" where
  "list_user_sessions uid current st =
     map (serialize_session current)
       (rev (sort_key (\<lambda>f. (case fa_used f of None \<Rightarrow> 0 | Some t \<Rightarrow> t)) (sort_key fa_created (live_families uid None st))))"

subsection \<open>Failed logins\<close>

definition is_locked :: "auth_env \<Rightarrow> auth_settings \<Rightarrow> string \<Rightarrow> string option \<Rightarrow> auth \<Rightarrow> bool" where
  "is_locked ax cfg email ip st \<longleftrightarrow>
     as_lock_threshold cfg \<le>
       length (filter (\<lambda>l. lf_email l = email \<and> ax_now ax - minutes (as_lock_window cfg) \<le> lf_at l \<and>
                 (ip \<noteq> None \<and> ip \<noteq> Some [] \<longrightarrow> lf_ip l = ip)) (st_failed st))"

definition record_failed_login :: "auth_env \<Rightarrow> string \<Rightarrow> web_request \<Rightarrow> auth \<Rightarrow> auth" where
  "record_failed_login ax email rq st =
     st\<lparr>st_failed := st_failed st @ [\<lparr>lf_email = email, lf_ip = client_ip rq, lf_at = ax_now ax\<rparr>]\<rparr>"

definition clear_failed_logins :: "string \<Rightarrow> auth \<Rightarrow> auth" where
  "clear_failed_logins email st = st\<lparr>st_failed := filter (\<lambda>l. lf_email l \<noteq> email) (st_failed st)\<rparr>"

subsection \<open>One-time tokens\<close>

text \<open>\<open>issue\<close> and \<open>consume\<close> of the three one-time token tables.\<close>

definition issue_token :: "auth_env \<Rightarrow> int \<Rightarrow> nat \<Rightarrow> nat \<Rightarrow> token_row list \<Rightarrow> token_row list \<times> string" where
  "issue_token ax ttl uid n rows =
     (let raw = ax_urlsafe ax n
      in (rows @ [\<lparr>tn_id = n, tn_user = uid, tn_hash = ax_sha256 ax raw, tn_created = ax_now ax,
                   tn_expires = ax_now ax + ttl, tn_consumed = None\<rparr>], raw))"

definition consume_token :: "auth_env \<Rightarrow> string \<Rightarrow> token_row list \<Rightarrow> token_row list \<times> nat option" where
  "consume_token ax raw rows =
     (case first_where (\<lambda>t. tn_hash t = ax_sha256 ax raw) rows of
        None \<Rightarrow> (rows, None)
      | Some t \<Rightarrow>
          if tn_consumed t \<noteq> None \<or> tn_expires t < ax_now ax then (rows, None)
          else (update_where (\<lambda>x. tn_id x = tn_id t) (\<lambda>x. x\<lparr>tn_consumed := Some (ax_now ax)\<rparr>) rows, Some (tn_user t)))"

definition verify_ttl :: int where
  "verify_ttl = minutes (60 * 24)"

definition reset_ttl :: int where
  "reset_ttl = minutes 60"

definition issue_verification :: "auth_env \<Rightarrow> nat \<Rightarrow> auth \<Rightarrow> auth \<times> string" where
  "issue_verification ax uid st =
     (let (rows, raw) = issue_token ax verify_ttl uid (st_next st) (st_verify st)
      in (st\<lparr>st_verify := rows, st_next := st_next st + 1\<rparr>, raw))"

definition issue_reset :: "auth_env \<Rightarrow> nat \<Rightarrow> auth \<Rightarrow> auth \<times> string" where
  "issue_reset ax uid st =
     (let (rows, raw) = issue_token ax reset_ttl uid (st_next st) (st_reset st)
      in (st\<lparr>st_reset := rows, st_next := st_next st + 1\<rparr>, raw))"

definition issue_exchange :: "auth_env \<Rightarrow> auth_settings \<Rightarrow> nat \<Rightarrow> auth \<Rightarrow> auth \<times> string" where
  "issue_exchange ax cfg uid st =
     (let (rows, raw) = issue_token ax (minutes (as_exchange_ttl cfg)) uid (st_next st) (st_exchange st)
      in (st\<lparr>st_exchange := rows, st_next := st_next st + 1\<rparr>, raw))"

subsection \<open>How families evolve\<close>

text \<open>
  What any operation may do to a family: keep or revoke it, replace its current token by a new
  one, and remember as previous only what was current or new. Families are never deleted and
  new ones get new ids.
\<close>

definition family_evolves :: "nat \<Rightarrow> family \<Rightarrow> family \<Rightarrow> bool" where
  "family_evolves n f f' \<longleftrightarrow>
     fa_id f' = fa_id f \<and> fa_user f' = fa_user f \<and> (fa_revoked f \<noteq> None \<longrightarrow> fa_revoked f' \<noteq> None) \<and>
     (fa_current f' = fa_current f \<or> n \<le> fa_current f') \<and>
     (fa_previous f' = fa_previous f \<or> fa_previous f' = Some (fa_current f) \<or> (\<exists>p\<ge>n. fa_previous f' = Some p))"

definition families_evolve :: "auth \<Rightarrow> auth \<Rightarrow> bool" where
  "families_evolve st st' \<longleftrightarrow>
     st_next st \<le> st_next st' \<and>
     (\<forall>f'\<in>set (st_families st'). (\<exists>f\<in>set (st_families st). family_evolves (st_next st) f f') \<or> st_next st \<le> fa_id f')"

named_theorems auth_frame "what an operation leaves alone"
named_theorems evolves "operations evolve the families"

lemma family_evolves_refl [simp]: "family_evolves n f f"
  by (simp add: family_evolves_def)

lemma family_evolves_trans:
  "family_evolves n f g \<Longrightarrow> family_evolves m g h \<Longrightarrow> n \<le> m \<Longrightarrow> family_evolves n f h"
  unfolding family_evolves_def by (elim conjE disjE exE) (auto dest: order_trans)

lemma families_evolve_refl [simp]: "families_evolve st st"
  unfolding families_evolve_def using family_evolves_refl by blast

lemma families_evolve_same:
  "st_families st' = st_families st \<Longrightarrow> st_next st \<le> st_next st' \<Longrightarrow> families_evolve st st'"
  unfolding families_evolve_def using family_evolves_refl by metis

lemma families_evolve_trans [trans]:
  assumes "families_evolve st st1" "families_evolve st1 st2"
  shows "families_evolve st st2"
  unfolding families_evolve_def
proof (intro conjI ballI)
  show "st_next st \<le> st_next st2" using assms by (simp add: families_evolve_def)
  fix h assume "h \<in> set (st_families st2)"
  then consider g where "g \<in> set (st_families st1)" "family_evolves (st_next st1) g h" | "st_next st1 \<le> fa_id h"
    using assms(2) by (auto simp: families_evolve_def)
  then show "(\<exists>f\<in>set (st_families st). family_evolves (st_next st) f h) \<or> st_next st \<le> fa_id h"
  proof cases
    case 1
    then consider f where "f \<in> set (st_families st)" "family_evolves (st_next st) f g" | "st_next st \<le> fa_id g"
      using assms(1) by (auto simp: families_evolve_def)
    then show ?thesis
    proof cases
      case f: 1
      with 1 assms(1) show ?thesis using family_evolves_trans [of "st_next st" f g] by (auto simp: families_evolve_def)
    qed (use 1 in \<open>simp add: family_evolves_def\<close>)
  next
    case 2
    with assms(1) show ?thesis by (auto simp: families_evolve_def)
  qed
qed

lemma families_evolve_update:
  assumes "\<And>f. f \<in> set (st_families st) \<Longrightarrow> p f \<Longrightarrow> family_evolves (st_next st) f (g f)" "st_next st \<le> n"
  shows "families_evolve st (st\<lparr>st_families := update_where p g (st_families st), st_next := n\<rparr>)"
proof -
  have "\<exists>f\<in>set (st_families st). family_evolves (st_next st) f f'"
    if f': "f' \<in> set (update_where p g (st_families st))" for f'
  proof -
    obtain f where "f \<in> set (st_families st)" "f' = (if p f then g f else f)" using f' by (auto simp: set_update_where)
    with assms(1) show ?thesis by (intro bexI [of _ f]) auto
  qed
  then show ?thesis using assms(2) by (simp add: families_evolve_def)
qed

lemma families_evolve_append:
  assumes "st_families st' = st_families st @ [f]" "st_next st \<le> fa_id f" "st_next st \<le> st_next st'"
  shows "families_evolve st st'"
  unfolding families_evolve_def assms(1) using assms(2,3) family_evolves_refl [of "st_next st"]
  by (metis UnE empty_iff empty_set list.simps(15) insert_iff set_append)

lemma auth_emit_frame [auth_frame, simp]:
  "st_families (auth_emit a st) = st_families st" "st_users (auth_emit a st) = st_users st"
  "st_next (auth_emit a st) = st_next st" "st_devices (auth_emit a st) = st_devices st"
  "st_backups (auth_emit a st) = st_backups st" "st_cache (auth_emit a st) = st_cache st"
  "st_reset (auth_emit a st) = st_reset st" "st_verify (auth_emit a st) = st_verify st"
  "st_exchange (auth_emit a st) = st_exchange st" "st_failed (auth_emit a st) = st_failed st"
  "st_sessions (auth_emit a st) = st_sessions st" "st_profiles (auth_emit a st) = st_profiles st"
  "st_exports (auth_emit a st) = st_exports st"
  by (simp_all add: auth_emit_def)

lemma record_event_frame [auth_frame, simp]:
  "st_families (record_event e u m x st) = st_families st" "st_users (record_event e u m x st) = st_users st"
  "st_next (record_event e u m x st) = st_next st" "st_devices (record_event e u m x st) = st_devices st"
  "st_backups (record_event e u m x st) = st_backups st" "st_cache (record_event e u m x st) = st_cache st"
  "st_reset (record_event e u m x st) = st_reset st" "st_verify (record_event e u m x st) = st_verify st"
  "st_exchange (record_event e u m x st) = st_exchange st" "st_failed (record_event e u m x st) = st_failed st"
  "st_sessions (record_event e u m x st) = st_sessions st" "st_profiles (record_event e u m x st) = st_profiles st"
  "st_exports (record_event e u m x st) = st_exports st"
  by (simp_all add: record_event_def)

lemma send_mail_frame [auth_frame, simp]:
  "st_families (fst (send_mail ax t m k st)) = st_families st" "st_users (fst (send_mail ax t m k st)) = st_users st"
  "st_next (fst (send_mail ax t m k st)) = st_next st" "st_devices (fst (send_mail ax t m k st)) = st_devices st"
  "st_backups (fst (send_mail ax t m k st)) = st_backups st" "st_cache (fst (send_mail ax t m k st)) = st_cache st"
  "st_reset (fst (send_mail ax t m k st)) = st_reset st" "st_verify (fst (send_mail ax t m k st)) = st_verify st"
  "st_exchange (fst (send_mail ax t m k st)) = st_exchange st" "st_failed (fst (send_mail ax t m k st)) = st_failed st"
  by (simp_all add: send_mail_def Let_def)

lemma record_event_evolves [evolves, simp]: "families_evolve st (record_event e u m x st)"
  by (rule families_evolve_same) simp_all

lemma revoke_family_evolves: "family_evolves n f (revoke_family ax r f)"
  by (simp add: revoke_family_def family_evolves_def)

lemma revoke_where_evolves [evolves]: "families_evolve st (revoke_where ax r p st)"
  using families_evolve_update [of st p "revoke_family ax r" "st_next st"]
  by (simp add: revoke_where_def revoke_family_evolves)

lemma rotated_family_simps [simp]:
  "fa_id (rotated_family ax rq jti f) = fa_id f" "fa_user (rotated_family ax rq jti f) = fa_user f"
  "fa_revoked (rotated_family ax rq jti f) = fa_revoked f" "fa_current (rotated_family ax rq jti f) = jti"
  "fa_previous (rotated_family ax rq jti f) = Some (fa_current f)"
  by (simp_all add: rotated_family_def Let_def split: option.split)

lemma issue_token_pair_next: "st_next (fst (issue_token_pair ax u fam rq st)) = st_next st + 3"
  by (simp add: issue_token_pair_def Let_def case_prod_beta)

lemma issue_new_families:
  "\<exists>f. st_families (fst (issue_token_pair ax u None rq st)) = st_families st @ [f] \<and> fa_id f = st_next st + 1 \<and>
     fa_user f = ur_id u \<and> fa_revoked f = None \<and> fa_current f = st_next st \<and> fa_previous f = None"
  by (simp add: issue_token_pair_def Let_def)

lemma issue_rotated:
  "fst (issue_token_pair ax u (Some f) rq st) =
     st\<lparr>st_families := update_where (\<lambda>x. fa_id x = fa_id f) (rotated_family ax rq (st_next st)) (st_families st),
        st_next := st_next st + 3\<rparr>"
  by (simp add: issue_token_pair_def Let_def)

lemma issue_frame [auth_frame, simp]:
  "st_users (fst (issue_token_pair ax u fam rq st)) = st_users st"
  "st_devices (fst (issue_token_pair ax u fam rq st)) = st_devices st"
  "st_backups (fst (issue_token_pair ax u fam rq st)) = st_backups st"
  "st_cache (fst (issue_token_pair ax u fam rq st)) = st_cache st"
  "st_reset (fst (issue_token_pair ax u fam rq st)) = st_reset st"
  "st_verify (fst (issue_token_pair ax u fam rq st)) = st_verify st"
  "st_exchange (fst (issue_token_pair ax u fam rq st)) = st_exchange st"
  "st_failed (fst (issue_token_pair ax u fam rq st)) = st_failed st"
  by (simp_all add: issue_token_pair_def Let_def case_prod_beta)

lemma issue_evolves [evolves]: "families_evolve st (fst (issue_token_pair ax u fam rq st))"
proof (cases fam)
  case None
  obtain f where "st_families (fst (issue_token_pair ax u None rq st)) = st_families st @ [f]" "fa_id f = st_next st + 1"
    using issue_new_families [of ax u rq st] by blast
  with None show ?thesis by (intro families_evolve_append [of _ _ f]) (simp_all add: issue_token_pair_next)
next
  case (Some f)
  have "family_evolves (st_next st) x (rotated_family ax rq (st_next st) x)" for x
    by (simp add: family_evolves_def)
  then show ?thesis unfolding Some issue_rotated by (intro families_evolve_update) simp_all
qed

lemma rotate_family_evolves [evolves]: "families_evolve st (fst (rotate_family ax fid jti rq st))"
proof (cases "locked_family fid st")
  case None
  then show ?thesis by (simp add: rotate_family_def)
next
  case (Some p)
  obtain f u where p: "p = (f, u)" by (cases p)
  have 1: "families_evolve st (record_event e x m y (revoke_where ax r q st))" for e x m y r q
    by (rule families_evolve_trans [OF revoke_where_evolves record_event_evolves])
  have 2: "families_evolve st (record_event e x m y (record_event e' x' m' y' (revoke_where ax r q st)))" for e x m y e' x' m' y' r q
    by (rule families_evolve_trans [OF 1 record_event_evolves])
  have 3: "families_evolve st (record_event e x m y (fst (issue_token_pair ax u (Some f) rq st)))" for e x m y
    by (rule families_evolve_trans [OF issue_evolves record_event_evolves])
  show ?thesis using Some p by (simp add: rotate_family_def Let_def case_prod_beta 2 3)
qed

subsection \<open>Well-formed tables\<close>

definition auth_ok :: "auth \<Rightarrow> bool" where
  "auth_ok st \<longleftrightarrow>
     distinct (map ur_id (st_users st)) \<and> distinct (map ur_email (st_users st)) \<and>
     distinct (map fa_id (st_families st)) \<and>
     (\<forall>u\<in>set (st_users st). ur_id u < st_next st) \<and>
     (\<forall>f\<in>set (st_families st). fa_id f < st_next st \<and> fa_current f < st_next st \<and>
        (\<forall>p. fa_previous f = Some p \<longrightarrow> p < st_next st) \<and> fa_user f \<in> ur_id ` set (st_users st))"

lemma family_key:
  "auth_ok st \<Longrightarrow> f \<in> set (st_families st) \<Longrightarrow> g \<in> set (st_families st) \<Longrightarrow> fa_id f = fa_id g \<Longrightarrow> f = g"
  by (auto simp: auth_ok_def distinct_map inj_on_def)

lemma user_key:
  "auth_ok st \<Longrightarrow> u \<in> set (st_users st) \<Longrightarrow> v \<in> set (st_users st) \<Longrightarrow> ur_id u = ur_id v \<Longrightarrow> u = v"
  by (auto simp: auth_ok_def distinct_map inj_on_def)

lemma auth_ok_frame:
  "st_users st' = st_users st \<Longrightarrow> st_families st' = st_families st \<Longrightarrow> st_next st \<le> st_next st' \<Longrightarrow>
   auth_ok st \<Longrightarrow> auth_ok st'"
  by (auto simp: auth_ok_def dest: less_le_trans)

text \<open>Replacing families by evolved ones with the same ids keeps the tables well formed.\<close>

lemma auth_ok_families:
  assumes "auth_ok st" "st_users st' = st_users st" "map fa_id (st_families st') = map fa_id (st_families st)"
    "st_next st \<le> st_next st'"
    "\<And>f. f \<in> set (st_families st') \<Longrightarrow> fa_current f < st_next st' \<and> (\<forall>p. fa_previous f = Some p \<longrightarrow> p < st_next st') \<and>
       fa_user f \<in> ur_id ` set (st_users st)"
  shows "auth_ok st'"
proof -
  have "fa_id ` set (st_families st') = fa_id ` set (st_families st)" using arg_cong [OF assms(3), of set] by simp
  then have "\<forall>f\<in>set (st_families st'). fa_id f < st_next st"
    using assms(1) by (metis (mono_tags) auth_ok_def image_iff)
  with assms show ?thesis by (auto simp: auth_ok_def dest: less_le_trans)
qed

lemma auth_ok_update_families:
  assumes "auth_ok st" "\<And>f. fa_id (g f) = fa_id f" "\<And>f. fa_user (g f) = fa_user f" "st_next st \<le> n"
    "\<And>f. f \<in> set (st_families st) \<Longrightarrow> fa_current (g f) < n \<and> (\<forall>q. fa_previous (g f) = Some q \<longrightarrow> q < n)"
  shows "auth_ok (st\<lparr>st_families := update_where p g (st_families st), st_next := n\<rparr>)"
proof (rule auth_ok_families [OF assms(1)])
  fix f assume "f \<in> set (st_families (st\<lparr>st_families := update_where p g (st_families st), st_next := n\<rparr>))"
  then obtain x where x: "x \<in> set (st_families st)" "f = (if p x then g x else x)" by (auto simp: set_update_where)
  have "fa_user x \<in> ur_id ` set (st_users st)" "fa_current x < st_next st" "\<forall>q. fa_previous x = Some q \<longrightarrow> q < st_next st"
    using assms(1) x(1) by (auto simp: auth_ok_def)
  then show "fa_current f < st_next (st\<lparr>st_families := update_where p g (st_families st), st_next := n\<rparr>) \<and>
      (\<forall>q. fa_previous f = Some q \<longrightarrow> q < st_next (st\<lparr>st_families := update_where p g (st_families st), st_next := n\<rparr>)) \<and>
      fa_user f \<in> ur_id ` set (st_users st)"
    using x(2) assms(3,4) assms(5) [OF x(1)] by auto
qed (use assms(2,4) in \<open>simp_all add: map_update_where\<close>)

named_theorems auth_ok_intros "operations keep the tables well formed"

lemma record_event_ok [auth_ok_intros]: "auth_ok st \<Longrightarrow> auth_ok (record_event e u m x st)"
  by (erule auth_ok_frame [rotated 3]) simp_all

lemma send_mail_ok [auth_ok_intros]: "auth_ok st \<Longrightarrow> auth_ok (fst (send_mail ax t m k st))"
  by (erule auth_ok_frame [rotated 3]) simp_all

lemma revoke_where_ok [auth_ok_intros]: "auth_ok st \<Longrightarrow> auth_ok (revoke_where ax r p st)"
proof -
  assume ok: "auth_ok st"
  have "auth_ok (st\<lparr>st_families := update_where p (revoke_family ax r) (st_families st), st_next := st_next st\<rparr>)"
    by (rule auth_ok_update_families [OF ok]) (use ok in \<open>auto simp: revoke_family_def auth_ok_def\<close>)
  then show ?thesis by (simp add: revoke_where_def)
qed

lemma auth_ok_append_family:
  assumes "auth_ok st" "st_families st' = st_families st @ [f]" "st_users st' = st_users st" "st_next st \<le> st_next st'"
    "fa_id f \<notin> fa_id ` set (st_families st)" "fa_id f < st_next st'" "fa_current f < st_next st'" "fa_previous f = None"
    "fa_user f \<in> ur_id ` set (st_users st)"
  shows "auth_ok st'"
  unfolding auth_ok_def assms(2,3)
proof (intro conjI ballI)
  fix g assume "g \<in> set (st_families st @ [f])"
  then consider "g \<in> set (st_families st)" | "g = f" by auto
  then show "fa_id g < st_next st'" "fa_current g < st_next st'" "fa_user g \<in> ur_id ` set (st_users st)"
    "\<forall>p. fa_previous g = Some p \<longrightarrow> p < st_next st'"
    using assms by (cases; auto simp: auth_ok_def dest: less_le_trans)+
qed (use assms in \<open>auto simp: auth_ok_def dest: less_le_trans\<close>)

lemma issue_ok [auth_ok_intros]:
  assumes ok: "auth_ok st" and u: "u \<in> set (st_users st)"
  shows "auth_ok (fst (issue_token_pair ax u fam rq st))"
proof (cases fam)
  case None
  obtain f where f: "st_families (fst (issue_token_pair ax u None rq st)) = st_families st @ [f]" "fa_id f = st_next st + 1"
    "fa_user f = ur_id u" "fa_current f = st_next st" "fa_previous f = None"
    using issue_new_families [of ax u rq st] by blast
  have "fa_id f \<notin> fa_id ` set (st_families st)" using ok f(2) by (fastforce simp: auth_ok_def)
  with ok u f show ?thesis unfolding None by (intro auth_ok_append_family [OF ok f(1)]) (simp_all add: issue_token_pair_next)
next
  case (Some f)
  show ?thesis unfolding Some issue_rotated
    by (rule auth_ok_update_families [OF ok]) (use ok in \<open>auto simp: auth_ok_def\<close>)
qed

lemma locked_family_Some:
  "locked_family fid st = Some (f, u) \<Longrightarrow>
   f \<in> set (st_families st) \<and> fa_id f = fid \<and> u \<in> set (st_users st) \<and> ur_id u = fa_user f"
  by (auto simp: locked_family_def split: option.splits dest!: first_where_Some)

lemma locked_family_exists:
  assumes "auth_ok st" "f \<in> set (st_families st)"
  obtains u where "locked_family (fa_id f) st = Some (f, u)"
proof -
  have f: "first_where (\<lambda>g. fa_id g = fa_id f) (st_families st) = Some f"
    by (rule first_where_unique [OF assms(2)]) (use family_key [OF assms(1)] assms(2) in auto)
  have "fa_user f \<in> ur_id ` set (st_users st)" using assms by (simp add: auth_ok_def)
  then obtain u where "first_where (\<lambda>u. ur_id u = fa_user f) (st_users st) = Some u"
    by (cases "first_where (\<lambda>u. ur_id u = fa_user f) (st_users st)") (auto simp: first_where_None)
  with f that show thesis by (simp add: locked_family_def)
qed

lemma rotate_family_ok [auth_ok_intros]:
  assumes "auth_ok st"
  shows "auth_ok (fst (rotate_family ax fid jti rq st))"
proof (cases "locked_family fid st")
  case (Some p)
  obtain f u where p: "p = (f, u)" by (cases p)
  with Some have "u \<in> set (st_users st)" using locked_family_Some by blast
  with assms Some p show ?thesis
    by (simp add: rotate_family_def Let_def case_prod_beta auth_ok_intros)
qed (simp add: rotate_family_def assms)

subsection \<open>Dead tokens\<close>

text \<open>
  A token that was issued for a family and is neither its current nor its previous one, or whose
  family is revoked, is dead: it is refused, it stays dead whatever happens, and presenting it
  leaves the family revoked.
\<close>

definition dead_token :: "nat \<Rightarrow> nat \<Rightarrow> auth \<Rightarrow> bool" where
  "dead_token fid jti st \<longleftrightarrow>
     fid < st_next st \<and> jti < st_next st \<and>
     (\<forall>f\<in>set (st_families st). fa_id f = fid \<longrightarrow>
        fa_revoked f \<noteq> None \<or> fa_current f \<noteq> jti \<and> fa_previous f \<noteq> Some jti)"

lemma dead_token_stays:
  assumes "families_evolve st st'" "dead_token fid jti st"
  shows "dead_token fid jti st'"
  unfolding dead_token_def
proof (intro conjI ballI impI)
  show "fid < st_next st'" "jti < st_next st'" using assms by (auto simp: dead_token_def families_evolve_def)
  fix g assume g: "g \<in> set (st_families st')" "fa_id g = fid"
  then obtain f where f: "f \<in> set (st_families st)" "family_evolves (st_next st) f g"
    using assms by (force simp: dead_token_def families_evolve_def)
  then have "fa_revoked f \<noteq> None \<or> fa_current f \<noteq> jti \<and> fa_previous f \<noteq> Some jti"
    using assms(2) g(2) by (auto simp: dead_token_def family_evolves_def)
  with f(2) assms(2) show "fa_revoked g \<noteq> None \<or> fa_current g \<noteq> jti \<and> fa_previous g \<noteq> Some jti"
    unfolding family_evolves_def dead_token_def by auto
qed

lemma dead_token_refused:
  assumes "auth_ok st" "dead_token fid jti st" "rotate_family ax fid jti rq st = (st', res)"
  shows "isl res \<and> (\<forall>f\<in>set (st_families st'). fa_id f = fid \<longrightarrow> fa_revoked f \<noteq> None)"
proof (cases "\<exists>f\<in>set (st_families st). fa_id f = fid")
  case True
  then obtain f where f: "f \<in> set (st_families st)" "fa_id f = fid" by blast
  obtain u where u: "locked_family fid st = Some (f, u)" using locked_family_exists [OF assms(1) f(1)] f(2) by auto
  have dead: "fa_revoked f \<noteq> None \<or> fa_current f \<noteq> jti \<and> fa_previous f \<noteq> Some jti"
    using assms(2) f by (auto simp: dead_token_def)
  show ?thesis
  proof (cases "fa_revoked f = None")
    case False
    with assms(3) u have "isl res" "st_families st' = st_families st" by (auto simp: rotate_family_def)
    moreover have "fa_revoked g \<noteq> None" if "g \<in> set (st_families st)" "fa_id g = fid" for g
      using family_key [OF assms(1) f(1) that(1)] that(2) f(2) False by simp
    ultimately show ?thesis by simp
  next
    case True
    with dead have "jti \<noteq> fa_current f" "Some jti \<noteq> fa_previous f" by auto
    with True u have "snd (rotate_family ax fid jti rq st) = Inl ReuseDetected"
      "st_families (fst (rotate_family ax fid jti rq st)) =
         update_where (\<lambda>x. fa_id x = fid) (revoke_family ax ''reuse_detected'') (st_families st)"
      by (simp_all add: rotate_family_def revoke_where_def Let_def)
    with assms(3) have "res = Inl ReuseDetected"
      "st_families st' = update_where (\<lambda>x. fa_id x = fid) (revoke_family ax ''reuse_detected'') (st_families st)" by simp_all
    moreover have "fa_revoked g \<noteq> None"
      if g: "g \<in> set (update_where (\<lambda>x. fa_id x = fid) (revoke_family ax r) (st_families st))" "fa_id g = fid" for r g
    proof -
      obtain x where "g = (if fa_id x = fid then revoke_family ax r x else x)" using g(1) unfolding set_update_where by blast
      with g(2) show ?thesis by (simp add: revoke_family_def split: if_splits)
    qed
    ultimately show ?thesis by simp
  qed
next
  case False
  then have "first_where (\<lambda>f. fa_id f = fid) (st_families st) = None" by (simp add: first_where_None)
  then have "locked_family fid st = None" by (simp add: locked_family_def)
  with assms(3) False show ?thesis by (auto simp: rotate_family_def)
qed

text \<open>An accepted token was the current or the previous one of a live family of an active user.\<close>

lemma rotate_accepts:
  assumes "locked_family fid st = Some (f, u)" "fa_revoked f = None" "jti = fa_current f \<or> fa_previous f = Some jti" "ur_active u"
  shows "rotate_family ax fid jti rq st =
    (record_event ''refresh_ok'' (Some u) [] [(''family_id'', WId fid)] (fst (issue_token_pair ax u (Some f) rq st)),
     Inr (snd (issue_token_pair ax u (Some f) rq st)))"
  using assms by (auto simp: rotate_family_def Let_def case_prod_beta)

lemma rotate_accepted:
  assumes "rotate_family ax fid jti rq st = (st', Inr pair)"
  obtains f u where "locked_family fid st = Some (f, u)" "fa_revoked f = None" "jti = fa_current f \<or> fa_previous f = Some jti"
    "ur_active u"
proof (cases "locked_family fid st")
  case (Some p)
  obtain f u where p: "p = (f, u)" by (cases p)
  have run: "rotate_family ax fid jti rq st = (st', Inr pair)" by (rule assms)
  have "fa_revoked f = None" using run Some p by (cases "fa_revoked f") (simp_all add: rotate_family_def Let_def)
  moreover from this have "jti = fa_current f \<or> fa_previous f = Some jti"
    using run Some p by (cases "jti \<noteq> fa_current f \<and> Some jti \<noteq> fa_previous f") (auto simp: rotate_family_def Let_def)
  moreover from calculation have "ur_active u"
    using run Some p by (cases "ur_active u") (auto simp: rotate_family_def Let_def)
  ultimately show thesis using that Some p by blast
qed (use assms in \<open>simp add: rotate_family_def\<close>)

subsection \<open>One-time tokens work once\<close>

definition token_spent :: "string \<Rightarrow> token_row list \<Rightarrow> bool" where
  "token_spent h rows \<longleftrightarrow> (\<exists>t. first_where (\<lambda>x. tn_hash x = h) rows = Some t \<and> tn_consumed t \<noteq> None)"

definition mark_consumed :: "auth_env \<Rightarrow> nat \<Rightarrow> token_row list \<Rightarrow> token_row list" where
  "mark_consumed ax i rows = update_where (\<lambda>x. tn_id x = i) (\<lambda>x. x\<lparr>tn_consumed := Some (ax_now ax)\<rparr>) rows"

lemma first_marked:
  "first_where (\<lambda>x. tn_hash x = h) (mark_consumed ax i rows) =
     map_option (\<lambda>x. if tn_id x = i then x\<lparr>tn_consumed := Some (ax_now ax)\<rparr> else x) (first_where (\<lambda>x. tn_hash x = h) rows)"
  unfolding mark_consumed_def by (rule first_where_update_where) simp

lemma consume_token_cases:
  obtains (refused) "consume_token ax raw rows = (rows, None)"
    | (accepted) t where "first_where (\<lambda>x. tn_hash x = ax_sha256 ax raw) rows = Some t" "tn_consumed t = None"
        "ax_now ax \<le> tn_expires t" "consume_token ax raw rows = (mark_consumed ax (tn_id t) rows, Some (tn_user t))"
proof (cases "first_where (\<lambda>x. tn_hash x = ax_sha256 ax raw) rows")
  case None
  then show thesis by (intro refused) (simp add: consume_token_def)
next
  case (Some t)
  show thesis
  proof (cases "tn_consumed t \<noteq> None \<or> tn_expires t < ax_now ax")
    case True
    then show thesis by (intro refused) (simp add: consume_token_def Some)
  next
    case False
    then have "tn_consumed t = None" "ax_now ax \<le> tn_expires t" by auto
    with Some show thesis by (intro accepted [of t]) (simp_all add: consume_token_def mark_consumed_def)
  qed
qed

lemma token_spent_marked:
  assumes "token_spent h rows"
  shows "token_spent h (mark_consumed ax i rows)"
proof -
  obtain t where t: "first_where (\<lambda>x. tn_hash x = h) rows = Some t" "tn_consumed t \<noteq> None"
    using assms by (auto simp: token_spent_def)
  then show ?thesis unfolding token_spent_def first_marked
    by (intro exI [of _ "if tn_id t = i then t\<lparr>tn_consumed := Some (ax_now ax)\<rparr> else t"]) simp
qed

lemma token_spent_append: "token_spent h rows \<Longrightarrow> token_spent h (rows @ new)"
  by (auto simp: token_spent_def first_where_append)

interpretation tokens: one_time ax_sha256 consume_token token_spent "\<lambda>rows. True"
proof
  fix ax :: auth_env and raw rows r k
  show "token_spent (ax_sha256 ax raw) (fst (consume_token ax raw rows))" if "snd (consume_token ax raw rows) = Some r"
    using that by (cases rule: consume_token_cases [of ax raw rows]) (auto simp: token_spent_def first_marked)
  show "snd (consume_token ax raw rows) = None" if "token_spent (ax_sha256 ax raw) rows"
    using that by (cases rule: consume_token_cases [of ax raw rows]) (auto simp: token_spent_def)
  show "token_spent k (fst (consume_token ax raw rows))" if "token_spent k rows"
    using that by (cases rule: consume_token_cases [of ax raw rows]) (auto simp: token_spent_marked)
qed simp

text \<open>A token is accepted only until its expiry and only for the user it was issued to.\<close>

lemma issued_token_accepted:
  assumes "issue_token ax ttl uid n rows = (rows', raw)" "\<forall>t\<in>set rows. tn_hash t \<noteq> ax_sha256 ax raw"
    "ax_sha256 ax' = ax_sha256 ax" "ax_now ax' \<le> ax_now ax + ttl"
  shows "snd (consume_token ax' raw rows') = Some uid"
proof -
  have "first_where (\<lambda>t. tn_hash t = ax_sha256 ax raw) rows = None" using assms(2) by (simp add: first_where_None)
  with assms(1,3,4) show ?thesis
    by (auto simp: issue_token_def Let_def consume_token_def first_where_append first_where_Cons)
qed

subsection \<open>The lock of an address\<close>

text \<open>
  Failures from one address do not lock another, and the lock of an address needs that many
  failures from it in the window.
\<close>

lemma failure_elsewhere:
  assumes "client_ip rq \<noteq> Some b" "b \<noteq> []"
  shows "is_locked ax cfg email (Some b) (record_failed_login ax' email' rq st) = is_locked ax cfg email (Some b) st"
  using assms by (auto simp: is_locked_def record_failed_login_def)

lemma is_locked_failed: "st_failed st' = st_failed st \<Longrightarrow> is_locked ax cfg e ip st' = is_locked ax cfg e ip st"
  by (simp add: is_locked_def)

lemma cleared_not_locked: "0 < as_lock_threshold cfg \<Longrightarrow> \<not> is_locked ax cfg email ip (clear_failed_logins email st)"
  by (simp add: is_locked_def clear_failed_logins_def)

subsection \<open>Sample rows\<close>

text \<open>Two users with a session each: 7 is enrolled in MFA, 8 is not.\<close>

definition sample_claims :: claims where
  "sample_claims = \<lparr>cl_jti = 50, cl_user = Some 7, cl_family = Some 60, cl_purpose = [], cl_session = None, cl_extra = []\<rparr>"

definition sample_ax :: auth_env where
  "sample_ax = \<lparr>ax_now = 1000, ax_encode = (\<lambda>t e c. nat_str (cl_jti c)),
     ax_decode = (\<lambda>t now raw. if raw = ''stolen'' then Some sample_claims else None), ax_sha256 = (\<lambda>s. s),
     ax_make_password = (\<lambda>n p. p), ax_check_password = (=), ax_urlsafe = nat_str,
     ax_backup_raw = (\<lambda>n. if even n then ''ABCDEFGH'' else ''HGFEDCBA''), ax_salt = nat_str, ax_totp_secret = nat_str,
     ax_totp = (\<lambda>s t w c. c = ''123456''), ax_encrypt = (\<lambda>s. s), ax_decrypt = Some, ax_mail_ok = (\<lambda>m. True)\<rparr>"

definition sample_settings :: auth_settings where
  "sample_settings = \<lparr>as_lock_threshold = 10, as_lock_window = 15, as_mfa_enabled = True, as_login_failures = 5,
     as_login_window = 900, as_stepup_failures = 5, as_stepup_window = 900, as_mfa_ttl = 5, as_totp_window = 1,
     as_backup_count = 2, as_exchange_ttl = 5, as_impersonation_ttl = 15\<rparr>"

definition sample_user :: "nat \<Rightarrow> string \<Rightarrow> user_row" where
  "sample_user i email = \<lparr>ur_id = i, ur_email = email, ur_name = ''Trader'', ur_password = ''secret'', ur_active = True,
     ur_verified = True, ur_staff = False, ur_created = 1, ur_pending = None\<rparr>"

definition sample_family :: "nat \<Rightarrow> nat \<Rightarrow> nat \<Rightarrow> family" where
  "sample_family i uid jti = \<lparr>fa_id = i, fa_user = uid, fa_created = 5, fa_revoked = None, fa_reason = [], fa_current = jti,
     fa_previous = Some 51, fa_agent = [], fa_ip = None, fa_used = Some 5\<rparr>"

definition sample_auth :: auth where
  "sample_auth = \<lparr>st_users = [sample_user 7 ''a@x.io'', sample_user 8 ''b@x.io''], st_profiles = [],
     st_families = [sample_family 60 7 52, sample_family 61 8 53], st_verify = [],
     st_reset = [\<lparr>tn_id = 70, tn_user = 7, tn_hash = ''tok'', tn_created = 5, tn_expires = 5000, tn_consumed = None\<rparr>],
     st_exchange = [], st_failed = [],
     st_devices = [\<lparr>md_id = 71, md_user = 7, md_secret = ''S'', md_verified = True, md_enrolled = Some 5\<rparr>], st_backups = [],
     st_sessions = [], st_exports = [], st_documents = [], st_acceptances = [], st_cache = Map.empty, st_audits = [],
     st_mails = [], st_next = 100\<rparr>"

definition sample_web :: "string \<Rightarrow> web_request" where
  "sample_web ip = \<lparr>wr_forwarded = [], wr_remote = Some ip, wr_agent = ''curl''\<rparr>"

lemmas auth_sample_defs =
  sample_claims_def sample_ax_def sample_settings_def sample_user_def sample_family_def sample_auth_def sample_web_def

lemma sample_auth_ok: "auth_ok sample_auth"
  by (simp add: auth_ok_def sample_auth_def sample_user_def sample_family_def)

end
