(* ===== verification/Mfa.thy ===== *)
theory Mfa
  imports Users
begin

text \<open>
  The second factor (\<open>users/mfa.py\<close>): TOTP codes, backup codes, the challenge token of a login,
  and the step-up check of sensitive actions with its attempt limit. The TOTP computation, the
  encryption of the secrets and SHA-256 are parameters of \<open>auth_env\<close>. The lemmas show that a
  displayed backup code is accepted however it is typed, that it is accepted once, and that in a
  window no more than the configured number of codes is ever tried.
\<close>

subsection \<open>Codes\<close>

definition verify_totp :: "auth_env \<Rightarrow> auth_settings \<Rightarrow> string \<Rightarrow> string \<Rightarrow> bool" where
  "verify_totp ax cfg secret raw =
     (let code = filter (\<lambda>c. c \<noteq> CHR '' '') (py_strip raw)
      in py_isdigit code \<and> length code = 6 \<and> ax_totp ax secret (ax_now ax) (as_totp_window cfg) code)"

definition format_backup_code :: "string \<Rightarrow> string" where
  "format_backup_code raw = take 4 raw @ ''-'' @ drop 4 raw"

definition normalize_backup_code :: "string \<Rightarrow> string" where
  "normalize_backup_code v = py_upper (py_strip (filter (\<lambda>c. c \<noteq> CHR '' '') (filter (\<lambda>c. c \<noteq> CHR ''-'') v)))"

definition backup_alphabet :: string where
  "backup_alphabet = ''ABCDEFGHJKLMNPQRSTUVWXYZ23456789''"

definition hash_backup_code :: "(string \<Rightarrow> string) \<Rightarrow> string \<Rightarrow> string \<Rightarrow> string" where
  "hash_backup_code h raw salt = h (salt @ raw)"

fun make_backup_codes :: "auth_env \<Rightarrow> nat \<Rightarrow> nat \<Rightarrow> nat \<Rightarrow> backup_code list \<times> string list" where
  "make_backup_codes ax uid n 0 = ([], [])"
| "make_backup_codes ax uid n (Suc k) =
     (let raw = ax_backup_raw ax n; salt = ax_salt ax n; (rows, shown) = make_backup_codes ax uid (n + 1) k
      in (\<lparr>bk_id = n, bk_user = uid, bk_hash = hash_backup_code (ax_sha256 ax) raw salt, bk_salt = salt, bk_used = None\<rparr> # rows,
          format_backup_code raw # shown))"

definition generate_backup_codes :: "auth_env \<Rightarrow> auth_settings \<Rightarrow> nat \<Rightarrow> auth \<Rightarrow> auth \<times> string list" where
  "generate_backup_codes ax cfg uid st =
     (let (rows, shown) = make_backup_codes ax uid (st_next st) (as_backup_count cfg)
      in (st\<lparr>st_backups := filter (\<lambda>b. bk_user b \<noteq> uid) (st_backups st) @ rows,
             st_next := st_next st + as_backup_count cfg\<rparr>, shown))"

text \<open>The rows are searched with the hash function \<open>h\<close>.\<close>

definition code_matches :: "(string \<Rightarrow> string) \<Rightarrow> nat \<Rightarrow> string \<Rightarrow> backup_code \<Rightarrow> bool" where
  "code_matches h uid raw b \<longleftrightarrow> bk_user b = uid \<and> bk_used b = None \<and> hash_backup_code h raw (bk_salt b) = bk_hash b"

definition consume_backup_row ::
  "(string \<Rightarrow> string) \<Rightarrow> nat \<Rightarrow> int \<Rightarrow> string \<Rightarrow> backup_code list \<Rightarrow> backup_code list \<times> unit option" where
  "consume_backup_row h uid now code rows =
     (let raw = normalize_backup_code code
      in if length raw \<noteq> 8 then (rows, None)
         else case first_where (code_matches h uid raw) rows of
                None \<Rightarrow> (rows, None)
              | Some b \<Rightarrow> (update_where (\<lambda>x. bk_id x = bk_id b) (\<lambda>x. x\<lparr>bk_used := Some now\<rparr>) rows, Some ()))"

definition consume_backup_code :: "auth_env \<Rightarrow> nat \<Rightarrow> string \<Rightarrow> auth \<Rightarrow> auth \<times> bool" where
  "consume_backup_code ax uid code st =
     (let (rows, used) = consume_backup_row (ax_sha256 ax) uid (ax_now ax) code (st_backups st)
      in (st\<lparr>st_backups := rows\<rparr>, used \<noteq> None))"

subsection \<open>The challenge token\<close>

definition issue_mfa_token :: "auth_env \<Rightarrow> auth_settings \<Rightarrow> nat \<Rightarrow> auth \<Rightarrow> auth \<times> string" where
  "issue_mfa_token ax cfg uid st =
     (st\<lparr>st_next := st_next st + 1\<rparr>,
      ax_encode ax MFA_CHALLENGE (ax_now ax + minutes (as_mfa_ttl cfg))
        \<lparr>cl_jti = st_next st, cl_user = Some uid, cl_family = None, cl_purpose = ''mfa'', cl_session = None, cl_extra = []\<rparr>)"

definition decode_mfa_token_claims :: "auth_env \<Rightarrow> string \<Rightarrow> (nat \<times> nat) option" where
  "decode_mfa_token_claims ax raw =
     (case ax_decode ax MFA_CHALLENGE (ax_now ax) raw of
        None \<Rightarrow> None
      | Some c \<Rightarrow>
          if cl_purpose c \<noteq> ''mfa'' then None
          else case cl_user c of None \<Rightarrow> None | Some uid \<Rightarrow> Some (uid, cl_jti c))"

definition decode_mfa_token :: "auth_env \<Rightarrow> string \<Rightarrow> nat option" where
  "decode_mfa_token ax raw = map_option fst (decode_mfa_token_claims ax raw)"

subsection \<open>Counting failures\<close>

text \<open>\<open>cache.incr(key)\<close>, or \<open>cache.set(key, 1, window)\<close> when the key is absent.\<close>

definition count_failure :: "int cache \<Rightarrow> int \<Rightarrow> string \<Rightarrow> int \<Rightarrow> int \<times> int cache" where
  "count_failure c now k window =
     (case cache_incr c now k of Some r \<Rightarrow> r | None \<Rightarrow> (1, cache_set c now k 1 window))"

definition failures :: "int cache \<Rightarrow> int \<Rightarrow> string \<Rightarrow> int" where
  "failures c now k = (case cache_get c now k of None \<Rightarrow> 0 | Some n \<Rightarrow> n)"

lemma count_failure_value: "fst (count_failure c now k w) = failures c now k + 1"
  by (auto simp: count_failure_def failures_def cache_incr_def cache_get_def split: option.splits)

text \<open>Within the window that is open, a failure adds one; otherwise it opens a window.\<close>

lemma count_failure_get:
  assumes "now \<le> t"
  shows "cache_get (snd (count_failure c now k w)) t k =
    (case cache_get c now k of
       None \<Rightarrow> if t < now + seconds w then Some 1 else None
     | Some n \<Rightarrow> map_option (\<lambda>_. n + 1) (cache_get c t k))"
  using assms
  by (auto simp: count_failure_def cache_incr_def cache_get_def cache_set_def split: option.splits if_splits)

text \<open>
  Counters are positive while they are live, so a counter that has its value of now at \<open>t\<close> too
  counts one more there, within the window of the failure.
\<close>

definition positive_counter :: "int cache \<Rightarrow> string \<Rightarrow> bool" where
  "positive_counter c k \<longleftrightarrow> (\<forall>v e. c k = Some (v, e) \<longrightarrow> 0 < v)"

lemma count_failure_positive: "positive_counter c k' \<Longrightarrow> positive_counter (snd (count_failure c now k w)) k'"
  by (auto simp: positive_counter_def count_failure_def cache_incr_def cache_set_def split: option.splits if_splits)

lemma cache_delete_positive: "positive_counter c k' \<Longrightarrow> positive_counter (cache_delete c k) k'"
  by (simp add: positive_counter_def cache_delete_def)

lemma count_failure_counts:
  assumes "positive_counter c k" "now \<le> t" "t < now + seconds w" "failures c t k = failures c now k"
  shows "failures (snd (count_failure c now k w)) t k = failures c now k + 1"
proof (cases "cache_get c now k")
  case (Some n)
  then have "0 < n" using assms(1) by (auto simp: cache_get_def positive_counter_def split: option.splits if_splits)
  with Some have "cache_get c t k \<noteq> None" using assms(4) by (auto simp: failures_def split: option.splits)
  then show ?thesis using Some by (auto simp: failures_def count_failure_get [OF assms(2)])
qed (use assms in \<open>simp add: failures_def count_failure_get\<close>)

lemma count_failure_other: "k' \<noteq> k \<Longrightarrow> cache_get (snd (count_failure c now k w)) t k' = cache_get c t k'"
  by (auto simp: count_failure_def cache_incr_def cache_get_def cache_set_def split: option.splits if_splits)

subsection \<open>The step-up check\<close>

definition stepup_key :: "nat \<Rightarrow> string" where
  "stepup_key uid = ''mfa_stepup_fail:'' @ nat_str uid"

definition emit_stepup_throttled :: "nat \<Rightarrow> int \<Rightarrow> int \<Rightarrow> auth \<Rightarrow> auth" where
  "emit_stepup_throttled uid n window =
     auth_emit \<lparr>ac_event = ''security.mfa_stepup_throttled'', ac_user = Some uid, ac_actor = None, ac_entity = [],
       ac_entity_id = [],
       ac_after = [(''failures'', WNum (of_int n)), (''window_seconds'', WNum (of_int window))]\<rparr>"

definition device_of :: "nat \<Rightarrow> auth \<Rightarrow> mfa_device option" where
  "device_of uid st = first_where (\<lambda>d. md_user d = uid \<and> md_verified d) (st_devices st)"

text \<open>Nothing when the stored secret cannot be decrypted, which raises.\<close>

definition check_code :: "auth_env \<Rightarrow> auth_settings \<Rightarrow> nat \<Rightarrow> string \<Rightarrow> auth \<Rightarrow> auth \<times> bool option" where
  "check_code ax cfg uid code st =
     (case device_of uid st of
        None \<Rightarrow> (let (st1, used) = consume_backup_code ax uid code st in (st1, Some used))
      | Some d \<Rightarrow>
          (case ax_decrypt ax (md_secret d) of
             None \<Rightarrow> (st, None)
           | Some secret \<Rightarrow>
               if verify_totp ax cfg secret code then (st, Some True)
               else (let (st1, used) = consume_backup_code ax uid code st in (st1, Some used))))"

definition verify_mfa_code :: "auth_env \<Rightarrow> auth_settings \<Rightarrow> nat \<Rightarrow> string \<Rightarrow> auth \<Rightarrow> auth \<times> bool option" where
  "verify_mfa_code ax cfg uid code st =
     (if code = [] \<or> \<not> user_mfa uid st then (st, Some False)
      else if as_stepup_failures cfg \<le> failures (st_cache st) (ax_now ax) (stepup_key uid) then (st, Some False)
      else case check_code ax cfg uid code st of
             (st1, None) \<Rightarrow> (st1, None)
           | (st1, Some True) \<Rightarrow> (st1\<lparr>st_cache := cache_delete (st_cache st1) (stepup_key uid)\<rparr>, Some True)
           | (st1, Some False) \<Rightarrow>
               (let (n, c) = count_failure (st_cache st1) (ax_now ax) (stepup_key uid) (as_stepup_window cfg);
                    st2 = st1\<lparr>st_cache := c\<rparr>
                in (if as_stepup_failures cfg \<le> n then emit_stepup_throttled uid n (as_stepup_window cfg) st2 else st2,
                    Some False)))"

subsection \<open>Backup codes work once\<close>

text \<open>No two unused codes of a user are the same, and row ids are keys.\<close>

definition codes_differ :: "(string \<Rightarrow> string) \<Rightarrow> nat \<Rightarrow> backup_code list \<Rightarrow> bool" where
  "codes_differ h uid rows \<longleftrightarrow> distinct (map bk_id rows) \<and>
     (\<forall>raw. \<forall>b\<in>set rows. \<forall>b'\<in>set rows. length raw = 8 \<longrightarrow> code_matches h uid raw b \<longrightarrow> code_matches h uid raw b' \<longrightarrow> b = b')"

definition code_spent :: "(string \<Rightarrow> string) \<Rightarrow> nat \<Rightarrow> string \<Rightarrow> backup_code list \<Rightarrow> bool" where
  "code_spent h uid raw rows \<longleftrightarrow> (\<forall>b\<in>set rows. \<not> code_matches h uid raw b)"

definition mark_used :: "int \<Rightarrow> nat \<Rightarrow> backup_code list \<Rightarrow> backup_code list" where
  "mark_used now i rows = update_where (\<lambda>x. bk_id x = i) (\<lambda>x. x\<lparr>bk_used := Some now\<rparr>) rows"

lemma mark_used_matches:
  "b \<in> set (mark_used now i rows) \<Longrightarrow> code_matches h uid raw b \<Longrightarrow> b \<in> set rows \<and> bk_id b \<noteq> i"
  by (auto simp: mark_used_def set_update_where code_matches_def split: if_splits)

lemma consume_backup_cases:
  obtains (refused) "consume_backup_row h uid now code rows = (rows, None)"
    | (used) b where "b \<in> set rows" "code_matches h uid (normalize_backup_code code) b" "length (normalize_backup_code code) = 8"
        "consume_backup_row h uid now code rows = (mark_used now (bk_id b) rows, Some ())"
proof (cases "first_where (code_matches h uid (normalize_backup_code code)) rows")
  case None
  then show thesis by (intro refused) (simp add: consume_backup_row_def Let_def)
next
  case (Some b)
  with first_where_Some [OF Some] refused used [of b] show thesis
    by (cases "length (normalize_backup_code code) = 8") (simp_all add: consume_backup_row_def mark_used_def Let_def)
qed

interpretation backup_codes: one_time "\<lambda>now code. normalize_backup_code code" "consume_backup_row h uid"
  "code_spent h uid" "codes_differ h uid" for h uid
proof
  fix now :: int and code rows r k
  show "code_spent h uid (normalize_backup_code code) (fst (consume_backup_row h uid now code rows))"
    if ok: "codes_differ h uid rows" and "snd (consume_backup_row h uid now code rows) = Some r"
    using that(2)
  proof (cases rule: consume_backup_cases [of h uid now code rows])
    case (used b)
    have "\<not> code_matches h uid (normalize_backup_code code) x" if x: "x \<in> set (mark_used now (bk_id b) rows)" for x
    proof
      assume m: "code_matches h uid (normalize_backup_code code) x"
      from mark_used_matches [OF x m] have "x \<in> set rows" "bk_id x \<noteq> bk_id b" by auto
      with ok m used(1,2,3) show False unfolding codes_differ_def by blast
    qed
    with used(4) show ?thesis by (simp add: code_spent_def)
  qed simp
  show "snd (consume_backup_row h uid now code rows) = None" if "code_spent h uid (normalize_backup_code code) rows"
    using that by (cases rule: consume_backup_cases [of h uid now code rows]) (auto simp: code_spent_def)
  show "code_spent h uid k (fst (consume_backup_row h uid now code rows))" if "code_spent h uid k rows"
    using that
    by (cases rule: consume_backup_cases [of h uid now code rows]) (auto simp: code_spent_def dest: mark_used_matches)
  show "codes_differ h uid (fst (consume_backup_row h uid now code rows))" if ok: "codes_differ h uid rows"
  proof (cases rule: consume_backup_cases [of h uid now code rows])
    case (used b)
    have "map bk_id (mark_used now (bk_id b) rows) = map bk_id rows"
      unfolding mark_used_def by (rule map_update_where) simp
    moreover have "x = y" if "x \<in> set (mark_used now (bk_id b) rows)" "y \<in> set (mark_used now (bk_id b) rows)"
      "length raw = 8" "code_matches h uid raw x" "code_matches h uid raw y" for x y raw
      using mark_used_matches that ok unfolding codes_differ_def by blast
    ultimately show ?thesis using ok used(4) by (simp add: codes_differ_def)
  qed (use ok in simp)
qed

subsection \<open>A displayed code is accepted however it is typed\<close>

definition backup_draw :: "string \<Rightarrow> bool" where
  "backup_draw raw \<longleftrightarrow> length raw = 8 \<and> set raw \<subseteq> set backup_alphabet"

definition typed_chars :: "string \<Rightarrow> string" where
  "typed_chars v = filter (\<lambda>c. c \<noteq> CHR ''-'' \<and> c \<noteq> CHR '' '') v"

lemma alphabet_chars:
  "c \<in> set backup_alphabet \<Longrightarrow> c \<noteq> CHR ''-'' \<and> c \<noteq> CHR '' '' \<and> \<not> is_space_char c \<and> upper_char c = c"
proof -
  have "list_all (\<lambda>c. c \<noteq> CHR ''-'' \<and> c \<noteq> CHR '' '' \<and> \<not> is_space_char c \<and> upper_char c = c) backup_alphabet"
    by code_simp
  then show "c \<in> set backup_alphabet \<Longrightarrow> c \<noteq> CHR ''-'' \<and> c \<noteq> CHR '' '' \<and> \<not> is_space_char c \<and> upper_char c = c"
    by (simp add: list_all_iff)
qed

lemma space_char_upper: "is_space_char c \<Longrightarrow> upper_char c = c"
  by (auto simp: is_space_char_def upper_char_def is_lower_char_def)

lemma py_strip_no_space: "\<forall>c\<in>set s. \<not> is_space_char c \<Longrightarrow> py_strip s = s"
proof -
  assume "\<forall>c\<in>set s. \<not> is_space_char c"
  then have "dropWhile is_space_char s = s" "dropWhile is_space_char (rev s) = rev s"
    by (auto simp: dropWhile_eq_self_iff hd_rev intro: hd_in_set last_in_set)
  then show ?thesis by (simp add: py_strip_def)
qed

lemma normalize_typed:
  assumes "py_upper (typed_chars v) = raw" "set raw \<subseteq> set backup_alphabet"
  shows "normalize_backup_code v = raw"
proof -
  have "\<not> is_space_char c" if "c \<in> set (typed_chars v)" for c
  proof
    assume "is_space_char c"
    then have "upper_char c = c" by (rule space_char_upper)
    with that assms have "c \<in> set backup_alphabet" by (force simp: py_upper_def)
    with \<open>is_space_char c\<close> show False using alphabet_chars by blast
  qed
  then have "py_strip (typed_chars v) = typed_chars v" by (intro py_strip_no_space) auto
  with assms(1) show ?thesis by (simp add: normalize_backup_code_def typed_chars_def conj_commute)
qed

lemma typed_formatted: "backup_draw raw \<Longrightarrow> typed_chars (format_backup_code raw) = raw"
proof -
  assume "backup_draw raw"
  then have "\<forall>c\<in>set raw. c \<noteq> CHR ''-'' \<and> c \<noteq> CHR '' ''" using alphabet_chars by (auto simp: backup_draw_def)
  then have "typed_chars (take 4 raw) = take 4 raw" "typed_chars (drop 4 raw) = drop 4 raw"
    by (auto simp: typed_chars_def filter_id_conv dest: in_set_takeD in_set_dropD)
  then show ?thesis by (simp add: format_backup_code_def typed_chars_def)
qed

definition backups_ok :: "auth \<Rightarrow> bool" where
  "backups_ok st \<longleftrightarrow> distinct (map bk_id (st_backups st)) \<and> (\<forall>b\<in>set (st_backups st). bk_id b < st_next st)"

lemma made_codes:
  "make_backup_codes ax uid n k = (rows, shown) \<Longrightarrow>
   rows = map (\<lambda>i. \<lparr>bk_id = i, bk_user = uid, bk_hash = hash_backup_code (ax_sha256 ax) (ax_backup_raw ax i) (ax_salt ax i),
                    bk_salt = ax_salt ax i, bk_used = None\<rparr>) [n..<n + k] \<and>
   shown = map (\<lambda>i. format_backup_code (ax_backup_raw ax i)) [n..<n + k]"
proof (induction k arbitrary: n rows shown)
  case (Suc k)
  have up: "[n..<n + Suc k] = n # [n + 1..<n + 1 + k]" by (simp add: upt_conv_Cons del: upt_Suc)
  obtain rows1 shown1 where made: "make_backup_codes ax uid (n + 1) k = (rows1, shown1)" by fastforce
  from Suc.prems have "rows = \<lparr>bk_id = n, bk_user = uid,
        bk_hash = hash_backup_code (ax_sha256 ax) (ax_backup_raw ax n) (ax_salt ax n), bk_salt = ax_salt ax n,
        bk_used = None\<rparr> # rows1" "shown = format_backup_code (ax_backup_raw ax n) # shown1"
    by (simp_all only: make_backup_codes.simps made Let_def prod.case prod.inject)
  with Suc.IH [OF made] show ?case unfolding up by simp
qed simp

text \<open>What the hash is asked for codes of this set: any eight characters behind one of its salts.\<close>

definition hashed_inputs :: "auth_env \<Rightarrow> auth_settings \<Rightarrow> auth \<Rightarrow> string set" where
  "hashed_inputs ax cfg st =
     {ax_salt ax i @ raw |i raw. st_next st \<le> i \<and> i < st_next st + as_backup_count cfg \<and> length raw = 8}"

lemma generated_codes_differ:
  assumes gen: "generate_backup_codes ax cfg uid st = (st', shown)" and ok: "backups_ok st"
    and h: "inj_on (ax_sha256 ax) (hashed_inputs ax cfg st)"
    and draws: "inj_on (ax_backup_raw ax) {st_next st..<st_next st + as_backup_count cfg}"
    and form: "\<forall>i\<in>{st_next st..<st_next st + as_backup_count cfg}. backup_draw (ax_backup_raw ax i)"
  shows "codes_differ (ax_sha256 ax) uid (st_backups st')"
proof -
  let ?n = "st_next st" and ?k = "as_backup_count cfg"
  obtain rows where made: "make_backup_codes ax uid ?n ?k = (rows, shown)"
    and st': "st_backups st' = filter (\<lambda>b. bk_user b \<noteq> uid) (st_backups st) @ rows"
    using gen by (auto simp: generate_backup_codes_def split: prod.splits)
  note rows = conjunct1 [OF made_codes [OF made]]
  have ids: "map bk_id rows = [?n..<?n + ?k]" unfolding rows by (simp add: comp_def)
  have "bk_id b < ?n" if "b \<in> set (filter (\<lambda>b. bk_user b \<noteq> uid) (st_backups st))" for b
    using that ok by (auto simp: backups_ok_def)
  then have "distinct (map bk_id (st_backups st'))"
    using ok ids arg_cong [OF ids, of set] by (auto simp: st' backups_ok_def distinct_map_filter)
  moreover have "b = b'" if len: "length raw = 8" and b: "b \<in> set (st_backups st')" "code_matches (ax_sha256 ax) uid raw b"
    and b': "b' \<in> set (st_backups st')" "code_matches (ax_sha256 ax) uid raw b'" for raw b b'
  proof -
    have "\<exists>i. ?n \<le> i \<and> i < ?n + ?k \<and> raw = ax_backup_raw ax i \<and>
        x = \<lparr>bk_id = i, bk_user = uid, bk_hash = hash_backup_code (ax_sha256 ax) (ax_backup_raw ax i) (ax_salt ax i),
             bk_salt = ax_salt ax i, bk_used = None\<rparr>"
      if x: "x \<in> set (st_backups st')" "code_matches (ax_sha256 ax) uid raw x" for x
    proof -
      have "x \<in> set rows" using x by (auto simp: st' code_matches_def)
      then obtain i where i: "?n \<le> i" "i < ?n + ?k"
        "x = \<lparr>bk_id = i, bk_user = uid, bk_hash = hash_backup_code (ax_sha256 ax) (ax_backup_raw ax i) (ax_salt ax i),
             bk_salt = ax_salt ax i, bk_used = None\<rparr>"
        unfolding rows by auto
      with x(2) have "ax_sha256 ax (ax_salt ax i @ raw) = ax_sha256 ax (ax_salt ax i @ ax_backup_raw ax i)"
        by (simp add: code_matches_def hash_backup_code_def)
      moreover have "ax_salt ax i @ raw \<in> hashed_inputs ax cfg st" "ax_salt ax i @ ax_backup_raw ax i \<in> hashed_inputs ax cfg st"
        unfolding hashed_inputs_def using len i(1,2) form unfolding backup_draw_def by force+
      ultimately have "raw = ax_backup_raw ax i" using inj_onD [OF h] by blast
      with i show ?thesis by blast
    qed
    from this [OF b] this [OF b'] inj_onD [OF draws] show ?thesis by force
  qed
  ultimately show ?thesis unfolding codes_differ_def by blast
qed



subsection \<open>Attempt limits\<close>

text \<open>
  The contract of an operation with an attempt limit: a miss is possible only below the limit and
  counts one as long as its window is open, and what neither misses nor clears leaves the counter.
\<close>

locale attempt_limit =
  fixes count :: "'s \<Rightarrow> int \<Rightarrow> int" and time :: "'a \<Rightarrow> int" and attempt :: "'a \<Rightarrow> 's \<Rightarrow> 's"
    and missed cleared :: "'a \<Rightarrow> 's \<Rightarrow> bool" and ok :: "'s \<Rightarrow> bool" and limit window :: int
  assumes missed_below: "missed a s \<Longrightarrow> count s (time a) < limit"
    and missed_counts: "ok s \<Longrightarrow> missed a s \<Longrightarrow> time a \<le> t \<Longrightarrow> t < time a + seconds window \<Longrightarrow>
      count s t = count s (time a) \<Longrightarrow> count (attempt a s) t = count s (time a) + 1"
    and other_keeps: "\<not> missed a s \<Longrightarrow> \<not> cleared a s \<Longrightarrow> time a \<le> t \<Longrightarrow> count (attempt a s) t = count s t"
    and ok_kept: "ok s \<Longrightarrow> ok (attempt a s)"
begin

fun misses :: "'a list \<Rightarrow> 's \<Rightarrow> nat" where
  "misses [] s = 0"
| "misses (a # as) s = (if missed a s then 1 else 0) + misses as (attempt a s)"

fun never_cleared :: "'a list \<Rightarrow> 's \<Rightarrow> bool" where
  "never_cleared [] s \<longleftrightarrow> True"
| "never_cleared (a # as) s \<longleftrightarrow> \<not> cleared a s \<and> never_cleared as (attempt a s)"

fun after :: "'a list \<Rightarrow> 's \<Rightarrow> 's" where
  "after [] s = s"
| "after (a # as) s = after as (attempt a s)"

lemma misses_bounded:
  assumes "sorted (map time as)" "\<forall>a\<in>set as. lo \<le> time a \<and> time a < t0 + seconds window" "t0 \<le> lo"
    "never_cleared as s" "ok s" "\<forall>t. lo \<le> t \<and> t < t0 + seconds window \<longrightarrow> count s t = n" "n \<le> limit"
  shows "int (misses as s) + n \<le> limit \<and>
    (\<forall>t. (\<forall>a\<in>set as. time a \<le> t) \<and> lo \<le> t \<and> t < t0 + seconds window \<longrightarrow> count (after as s) t = int (misses as s) + n)"
  using assms
proof (induction as arbitrary: s n lo)
  case (Cons a as)
  have ta: "lo \<le> time a" "time a < t0 + seconds window" and cnt: "count s (time a) = n" using Cons.prems by auto
  have rest: "sorted (map time as)" "\<forall>b\<in>set as. time a \<le> time b \<and> time b < t0 + seconds window" "t0 \<le> time a"
    "never_cleared as (attempt a s)" "ok (attempt a s)" "\<not> cleared a s"
    using Cons.prems ok_kept by auto
  show ?case
  proof (cases "missed a s")
    case True
    have "count (attempt a s) t = n + 1" if "time a \<le> t" "t < t0 + seconds window" for t
      using missed_counts [OF Cons.prems(5) True that(1)] Cons.prems(6) cnt ta rest(3) that by simp
    with Cons.IH [OF rest(1,2,3,4,5), of "n + 1"] missed_below [OF True] cnt True show ?thesis by auto
  next
    case False
    have "count (attempt a s) t = n" if "time a \<le> t" "t < t0 + seconds window" for t
      using other_keeps [OF False rest(6) that(1)] Cons.prems(6) ta that by simp
    with Cons.IH [OF rest(1,2,3,4,5), of n] Cons.prems(7) False show ?thesis by auto
  qed
qed simp

end

text \<open>
  For the step-up check a miss is a wrong code that was checked; a correct one clears the counter. A
  request that is refused before the check is neither.
\<close>

definition stepup_missed :: "auth_settings \<Rightarrow> nat \<Rightarrow> auth_env \<times> string \<Rightarrow> auth \<Rightarrow> bool" where
  "stepup_missed cfg uid a st \<longleftrightarrow>
     (case a of (ax, code) \<Rightarrow> code \<noteq> [] \<and> user_mfa uid st \<and>
        failures (st_cache st) (ax_now ax) (stepup_key uid) < as_stepup_failures cfg \<and>
        snd (check_code ax cfg uid code st) = Some False)"

definition stepup_step :: "auth_settings \<Rightarrow> nat \<Rightarrow> auth_env \<times> string \<Rightarrow> auth \<Rightarrow> auth" where
  "stepup_step cfg uid a st = (case a of (ax, code) \<Rightarrow> fst (verify_mfa_code ax cfg uid code st))"

definition stepup_passed :: "auth_settings \<Rightarrow> nat \<Rightarrow> auth_env \<times> string \<Rightarrow> auth \<Rightarrow> bool" where
  "stepup_passed cfg uid a st = (case a of (ax, code) \<Rightarrow> snd (verify_mfa_code ax cfg uid code st) = Some True)"

lemma check_code_cache: "st_cache (fst (check_code ax cfg uid code st)) = st_cache st"
  by (simp add: check_code_def consume_backup_code_def case_prod_beta Let_def split: option.split)

lemma verify_mfa_cases:
  obtains (refused) "verify_mfa_code ax cfg uid code st = (st, Some False)" "\<not> stepup_missed cfg uid (ax, code) st"
    | (raised) "verify_mfa_code ax cfg uid code st = (fst (check_code ax cfg uid code st), None)"
        "\<not> stepup_missed cfg uid (ax, code) st"
    | (passed) "snd (verify_mfa_code ax cfg uid code st) = Some True" "snd (check_code ax cfg uid code st) = Some True"
    | (missed) "stepup_missed cfg uid (ax, code) st" "snd (verify_mfa_code ax cfg uid code st) = Some False"
        "st_cache (fst (verify_mfa_code ax cfg uid code st)) =
           snd (count_failure (st_cache st) (ax_now ax) (stepup_key uid) (as_stepup_window cfg))"
proof (cases "code = [] \<or> \<not> user_mfa uid st \<or> as_stepup_failures cfg \<le> failures (st_cache st) (ax_now ax) (stepup_key uid)")
  case True
  then show thesis by (intro refused) (auto simp: verify_mfa_code_def stepup_missed_def)
next
  case False
  obtain st1 r where c: "check_code ax cfg uid code st = (st1, r)" by fastforce
  have cache: "st_cache st1 = st_cache st" using check_code_cache [of ax cfg uid code st] c by simp
  from False have run: "verify_mfa_code ax cfg uid code st =
      (case (st1, r) of
         (st1, None) \<Rightarrow> (st1, None)
       | (st1, Some True) \<Rightarrow> (st1\<lparr>st_cache := cache_delete (st_cache st1) (stepup_key uid)\<rparr>, Some True)
       | (st1, Some False) \<Rightarrow>
           (let (n, c) = count_failure (st_cache st1) (ax_now ax) (stepup_key uid) (as_stepup_window cfg);
                st2 = st1\<lparr>st_cache := c\<rparr>
            in (if as_stepup_failures cfg \<le> n then emit_stepup_throttled uid n (as_stepup_window cfg) st2 else st2,
                Some False)))"
    by (simp add: verify_mfa_code_def c)
  show thesis
  proof (cases r)
    case None
    with run c show thesis by (intro raised) (simp_all add: stepup_missed_def)
  next
    case (Some b)
    with run c cache False show thesis
      by (cases b; intro passed missed)
        (simp_all add: stepup_missed_def Let_def case_prod_beta emit_stepup_throttled_def)
  qed
qed

lemma verify_mfa_cleared:
  assumes "snd (verify_mfa_code ax cfg uid code st) = Some True"
  shows "st_cache (fst (verify_mfa_code ax cfg uid code st)) = cache_delete (st_cache st) (stepup_key uid)"
proof -
  obtain st1 r where c: "check_code ax cfg uid code st = (st1, r)" by fastforce
  have cache: "st_cache st1 = st_cache st" using check_code_cache [of ax cfg uid code st] c by simp
  show ?thesis using assms cache
    by (auto simp: verify_mfa_code_def c Let_def case_prod_beta split: option.splits bool.splits if_splits)
qed

interpretation stepup: attempt_limit "\<lambda>st t. failures (st_cache st) t (stepup_key uid)" "\<lambda>a. ax_now (fst a)"
  "stepup_step cfg uid" "stepup_missed cfg uid" "stepup_passed cfg uid"
  "\<lambda>st. positive_counter (st_cache st) (stepup_key uid)" "as_stepup_failures cfg" "as_stepup_window cfg"
  for cfg uid
proof
  fix a :: "auth_env \<times> string" and st t
  obtain ax code where a: "a = (ax, code)" by (cases a)
  show "failures (st_cache st) (ax_now (fst a)) (stepup_key uid) < as_stepup_failures cfg" if "stepup_missed cfg uid a st"
    using that by (simp add: a stepup_missed_def)
  show "failures (st_cache (stepup_step cfg uid a st)) t (stepup_key uid) = failures (st_cache st) (ax_now (fst a)) (stepup_key uid) + 1"
    if ok: "positive_counter (st_cache st) (stepup_key uid)" and m: "stepup_missed cfg uid a st"
      and t: "ax_now (fst a) \<le> t" "t < ax_now (fst a) + seconds (as_stepup_window cfg)"
      and same: "failures (st_cache st) t (stepup_key uid) = failures (st_cache st) (ax_now (fst a)) (stepup_key uid)"
  proof (cases rule: verify_mfa_cases [of ax cfg uid code st])
    case missed
    with count_failure_counts [OF ok, of "ax_now ax" t "as_stepup_window cfg"] t same show ?thesis
      by (simp add: a stepup_step_def)
  qed (use m in \<open>simp_all add: a stepup_missed_def\<close>)
  show "failures (st_cache (stepup_step cfg uid a st)) t (stepup_key uid) = failures (st_cache st) t (stepup_key uid)"
    if "\<not> stepup_missed cfg uid a st" "\<not> stepup_passed cfg uid a st" "ax_now (fst a) \<le> t"
    using that check_code_cache [of ax cfg uid code st]
    by (cases rule: verify_mfa_cases [of ax cfg uid code st]) (simp_all add: a stepup_step_def stepup_passed_def)
  show "positive_counter (st_cache (stepup_step cfg uid a st)) (stepup_key uid)"
    if "positive_counter (st_cache st) (stepup_key uid)"
    using that check_code_cache [of ax cfg uid code st] verify_mfa_cleared [of ax cfg uid code st]
    by (cases rule: verify_mfa_cases [of ax cfg uid code st])
      (simp_all add: a stepup_step_def count_failure_positive cache_delete_positive)
qed

text \<open>The wrong codes among the attempts that were checked, and the state the attempts leave.\<close>

fun wrong_codes :: "auth_settings \<Rightarrow> nat \<Rightarrow> (auth_env \<times> string) list \<Rightarrow> auth \<Rightarrow> nat" where
  "wrong_codes cfg uid [] st = 0"
| "wrong_codes cfg uid (a # as) st = (if stepup_missed cfg uid a st then 1 else 0) + wrong_codes cfg uid as (stepup_step cfg uid a st)"

fun after_attempts :: "auth_settings \<Rightarrow> nat \<Rightarrow> (auth_env \<times> string) list \<Rightarrow> auth \<Rightarrow> auth" where
  "after_attempts cfg uid [] st = st"
| "after_attempts cfg uid (a # as) st = after_attempts cfg uid as (stepup_step cfg uid a st)"

fun none_passes :: "auth_settings \<Rightarrow> nat \<Rightarrow> (auth_env \<times> string) list \<Rightarrow> auth \<Rightarrow> bool" where
  "none_passes cfg uid [] st \<longleftrightarrow> True"
| "none_passes cfg uid (a # as) st \<longleftrightarrow> \<not> stepup_passed cfg uid a st \<and> none_passes cfg uid as (stepup_step cfg uid a st)"

lemma wrong_codes_misses:
  "wrong_codes cfg uid as st = stepup.misses cfg uid as st" "after_attempts cfg uid as st = stepup.after cfg uid as st"
  "none_passes cfg uid as st = stepup.never_cleared cfg uid as st"
  by (induction as arbitrary: st) simp_all

text \<open>
  Guessing a step-up code. In a window that opens with no failure counted, at most the
  configured number of wrong codes is checked, however many are sent; once that many were, every
  further code is refused unchecked for the rest of the window, the right one too, and no
  backup code is used up.
\<close>

theorem stepup_guesses_bounded:
  assumes times: "sorted (map (\<lambda>a. ax_now (fst a)) as)"
    "\<forall>a\<in>set as. t0 \<le> ax_now (fst a) \<and> ax_now (fst a) < t0 + seconds (as_stepup_window cfg)"
    and pos: "positive_counter (st_cache st) (stepup_key uid)" "0 \<le> as_stepup_failures cfg"
    and fresh: "\<forall>t\<ge>t0. t < t0 + seconds (as_stepup_window cfg) \<longrightarrow> failures (st_cache st) t (stepup_key uid) = 0"
    and none: "none_passes cfg uid as st"
    and t: "t0 \<le> ax_now ax" "ax_now ax < t0 + seconds (as_stepup_window cfg)" "\<forall>a\<in>set as. ax_now (fst a) \<le> ax_now ax"
  shows "int (wrong_codes cfg uid as st) \<le> as_stepup_failures cfg \<and>
    (int (wrong_codes cfg uid as st) = as_stepup_failures cfg \<longrightarrow>
       verify_mfa_code ax cfg uid code (after_attempts cfg uid as st) = (after_attempts cfg uid as st, Some False))"
proof -
  have "int (stepup.misses cfg uid as st) + 0 \<le> as_stepup_failures cfg \<and>
    (\<forall>t. (\<forall>a\<in>set as. ax_now (fst a) \<le> t) \<and> t0 \<le> t \<and> t < t0 + seconds (as_stepup_window cfg) \<longrightarrow>
      failures (st_cache (stepup.after cfg uid as st)) t (stepup_key uid) = int (stepup.misses cfg uid as st) + 0)"
    by (rule stepup.misses_bounded [OF times order_refl]) (use pos fresh none in \<open>simp_all add: wrong_codes_misses\<close>)
  with t show ?thesis by (simp add: wrong_codes_misses verify_mfa_code_def)
qed

definition sample_ax_at :: "int \<Rightarrow> auth_env" where
  "sample_ax_at t = sample_ax\<lparr>ax_now := t\<rparr>"

definition wrong_attempts :: "(auth_env \<times> string) list" where
  "wrong_attempts = map (\<lambda>t. (sample_ax_at t, ''000000'')) [1000, 1001, 1002, 1003, 1004, 1005]"

theorem stepup_guesses_bounded_witness:
  "wrong_codes sample_settings 7 wrong_attempts sample_auth = 5 \<and>
   snd (verify_mfa_code (sample_ax_at 1006) sample_settings 7 ''123456'' (after_attempts sample_settings 7 wrong_attempts sample_auth)) =
     Some False"
proof -
  have five: "wrong_codes sample_settings 7 wrong_attempts sample_auth = 5" by code_simp
  have none: "none_passes sample_settings 7 wrong_attempts sample_auth" by code_simp
  have "failures (st_cache sample_auth) t (stepup_key 7) = 0" for t by (simp add: sample_auth_def failures_def cache_get_def)
  moreover have "positive_counter (st_cache sample_auth) (stepup_key 7)" by (simp add: sample_auth_def positive_counter_def)
  ultimately show ?thesis
    using stepup_guesses_bounded [of wrong_attempts 1000 sample_settings sample_auth 7 "sample_ax_at 1006" "''123456''"] none five
    by (simp add: wrong_attempts_def sample_ax_at_def sample_ax_def sample_settings_def seconds_def)
qed

end
