(* ===== verification/Auth_Api.thy ===== *)
theory Auth_Api
  imports Mfa
begin

text \<open>
  The authentication endpoints (\<open>users/views.py\<close>, \<open>users/views_m02.py\<close>, \<open>users/views_oauth.py\<close>
  with the serializers, validators and cookies they use): registration, verification, login,
  refresh, logout, password reset and change, MFA enrolment and challenge, sessions, and the
  exchange of an OAuth code. The rate limiter and the OAuth library are parameters. The lemmas
  show what every request does to the session families and prove from it when a session ends, and
  which requests hand out tokens.
\<close>

subsection \<open>Forms\<close>

text \<open>The validators of the framework; the program's own one is \<open>letters_and_digits\<close>.\<close>

record auth_forms =
  fo_email_ok :: "string \<Rightarrow> bool"
  fo_password_ok :: "string \<Rightarrow> string \<Rightarrow> string \<Rightarrow> bool"

definition is_alpha_char :: "char \<Rightarrow> bool" where
  "is_alpha_char c \<longleftrightarrow> is_upper_char c \<or> is_lower_char c"

definition letters_and_digits :: "string \<Rightarrow> bool" where
  "letters_and_digits pw \<longleftrightarrow> list_ex is_alpha_char pw \<and> list_ex is_digit_char pw"

definition password_length_ok :: "string \<Rightarrow> bool" where
  "password_length_ok pw \<longleftrightarrow> 12 \<le> length pw \<and> length pw \<le> 256"

definition password_policy :: "auth_forms \<Rightarrow> string \<Rightarrow> string \<Rightarrow> string \<Rightarrow> bool" where
  "password_policy fo pw email name \<longleftrightarrow> fo_password_ok fo pw email name \<and> letters_and_digits pw"

definition clean_email :: "auth_forms \<Rightarrow> string \<Rightarrow> string option" where
  "clean_email fo raw =
     (let e = py_strip raw in if e \<noteq> [] \<and> fo_email_ok fo e then Some (py_lower e) else None)"

definition code_field :: "nat \<Rightarrow> string \<Rightarrow> string option" where
  "code_field hi raw = (let c = py_strip raw in if 6 \<le> length c \<and> length c \<le> hi then Some c else None)"

text \<open>
  The bucket of the rate limiter: nothing when the key function raises, which it does for an
  e-mail that is not text. The argument is nothing for a body that is not JSON.
\<close>

definition email_keyer :: "json option \<Rightarrow> string option" where
  "email_keyer body =
     (let email = (case body of Some (JObj d) \<Rightarrow> dict_get_or ''email'' (JStr []) d | _ \<Rightarrow> JStr [])
      in if \<not> py_truthy email then Some ''anon''
         else case email of
                JStr s \<Rightarrow> (let k = py_lower (py_strip s) in Some (if k = [] then ''anon'' else k))
              | _ \<Rightarrow> None)"

subsection \<open>Responses\<close>

datatype auth_response =
    AuthFail nat string
  | AuthOk nat
  | Tokens token_pair
  | MfaChallenge string
  | BackupCodes "string list"
  | TotpSecret string
  | RevokedCount nat
  | ExchangeCode string
  | AuthRaised

definition token_invalid :: "nat \<Rightarrow> auth_response" where
  "token_invalid status = AuthFail status ''TOKEN_INVALID''"

definition find_user :: "nat \<Rightarrow> auth \<Rightarrow> user_row option" where
  "find_user uid st = first_where (\<lambda>u. ur_id u = uid) (st_users st)"

definition user_by_email :: "string \<Rightarrow> auth \<Rightarrow> user_row option" where
  "user_by_email email st = first_where (\<lambda>u. ur_email u = email) (st_users st)"

text \<open>The framework's password backend: an active user with this e-mail and password.\<close>

definition authenticate :: "auth_env \<Rightarrow> string \<Rightarrow> string \<Rightarrow> auth \<Rightarrow> user_row option" where
  "authenticate ax email pw st =
     (case user_by_email email st of
        None \<Rightarrow> None
      | Some u \<Rightarrow> if ax_check_password ax pw (ur_password u) \<and> ur_active u then Some u else None)"

definition update_user :: "nat \<Rightarrow> (user_row \<Rightarrow> user_row) \<Rightarrow> auth \<Rightarrow> auth" where
  "update_user uid f st = st\<lparr>st_users := update_where (\<lambda>u. ur_id u = uid) f (st_users st)\<rparr>"

definition set_password :: "auth_env \<Rightarrow> nat \<Rightarrow> string \<Rightarrow> auth \<Rightarrow> auth" where
  "set_password ax uid pw st =
     (update_user uid (\<lambda>u. u\<lparr>ur_password := ax_make_password ax (st_next st) pw\<rparr>) st)\<lparr>st_next := st_next st + 1\<rparr>"

definition issue_for :: "auth_env \<Rightarrow> user_row \<Rightarrow> web_request \<Rightarrow> auth \<Rightarrow> auth \<times> auth_response" where
  "issue_for ax u rq st = (let (st', pair) = issue_token_pair ax u None (Some rq) st in (st', Tokens pair))"

subsection \<open>Registration and verification\<close>

definition create_user :: "auth_env \<Rightarrow> string \<Rightarrow> string \<Rightarrow> string \<Rightarrow> auth \<Rightarrow> auth \<times> user_row" where
  "create_user ax email name pw st =
     (let i = st_next st;
          u = \<lparr>ur_id = i, ur_email = email, ur_name = name, ur_password = ax_make_password ax i pw, ur_active = True,
               ur_verified = False, ur_staff = False, ur_created = ax_now ax, ur_pending = None\<rparr>;
          p = \<lparr>pf_user = i, pf_timezone = ''America/New_York'', pf_language = ''en'', pf_notify = True, pf_broker = None,
               pf_terms = []\<rparr>
      in (st\<lparr>st_users := st_users st @ [u], st_profiles := st_profiles st @ [p], st_next := i + 1\<rparr>, u))"

definition register :: "auth_env \<Rightarrow> auth_forms \<Rightarrow> bool \<Rightarrow> string \<Rightarrow> string \<Rightarrow> string \<Rightarrow> auth \<Rightarrow> auth \<times> auth_response" where
  "register ax fo limited raw_email raw_name pw st =
     (let name = py_strip raw_name
      in if limited then (st, AuthFail 429 ''RATE_LIMITED'')
         else if \<not> password_length_ok pw then (st, AuthFail 400 ''PASSWORD_WEAK'')
         else case clean_email fo raw_email of
                None \<Rightarrow> (st, AuthFail 400 ''VALIDATION_ERROR'')
              | Some email \<Rightarrow>
                  if name = [] \<or> 64 < length name then (st, AuthFail 400 ''VALIDATION_ERROR'')
                  else if \<not> password_policy fo pw email name then (st, AuthFail 400 ''PASSWORD_WEAK'')
                  else if exists_where (\<lambda>u. ur_email u = email) (st_users st)
                  then (record_event ''register'' None email [(''duplicate'', WBool True)] st, AuthOk 202)
                  else (let (st1, u) = create_user ax email name pw st;
                            (st2, raw) = issue_verification ax (ur_id u) st1;
                            (st3, sent) = send_mail ax email ''verify_email'' raw st2
                        in (record_event ''register'' (Some u) [] [] st3, AuthOk 201)))"

definition verify_email :: "auth_env \<Rightarrow> web_request \<Rightarrow> string \<Rightarrow> auth \<Rightarrow> auth \<times> auth_response" where
  "verify_email ax rq raw st =
     (let token = py_strip raw
      in if token = [] then (st, AuthFail 400 ''VALIDATION_ERROR'')
         else case consume_token ax token (st_verify st) of
                (rows, None) \<Rightarrow> (st, token_invalid 400)
              | (rows, Some uid) \<Rightarrow>
                  (let st1 = st\<lparr>st_verify := rows\<rparr>
                   in case find_user uid st1 of
                        None \<Rightarrow> (st1, AuthRaised)
                      | Some u0 \<Rightarrow>
                          let u = u0\<lparr>ur_verified := True\<rparr>;
                              st2 = (if ur_verified u0 then st1 else update_user uid (\<lambda>x. x\<lparr>ur_verified := True\<rparr>) st1)
                          in issue_for ax u rq (record_event ''verify_email'' (Some u) [] [] st2)))"

definition resend_verification :: "auth_env \<Rightarrow> auth_forms \<Rightarrow> bool \<Rightarrow> string \<Rightarrow> auth \<Rightarrow> auth \<times> auth_response" where
  "resend_verification ax fo limited raw_email st =
     (if limited then (st, AuthFail 429 ''RATE_LIMITED'')
      else case clean_email fo raw_email of
             None \<Rightarrow> (st, AuthFail 400 ''VALIDATION_ERROR'')
           | Some email \<Rightarrow>
               (case user_by_email email st of
                  None \<Rightarrow> (st, AuthOk 200)
                | Some u \<Rightarrow>
                    if ur_verified u then (st, AuthOk 200)
                    else (let (st1, raw) = issue_verification ax (ur_id u) st;
                              (st2, sent) = send_mail ax (ur_email u) ''verify_email'' raw st1;
                              st3 = record_event ''resend_verification'' (Some u) [] [(''sent'', WBool sent)] st2
                          in (st3, if sent then AuthOk 200 else AuthFail 503 ''EMAIL_SEND_FAILED''))))"

subsection \<open>Login, refresh, logout\<close>

definition challenge_or_pair :: "auth_env \<Rightarrow> auth_settings \<Rightarrow> web_request \<Rightarrow> user_row \<Rightarrow> string \<Rightarrow> wire_dict \<Rightarrow> wire_dict \<Rightarrow> auth \<Rightarrow> auth \<times> auth_response" where
  "challenge_or_pair ax cfg rq u event with_mfa without st =
     (if as_mfa_enabled cfg \<and> user_mfa (ur_id u) st
      then (let (st1, tok) = issue_mfa_token ax cfg (ur_id u) st
            in (record_event event (Some u) [] with_mfa st1, MfaChallenge tok))
      else (let (st1, r) = issue_for ax u rq st in (record_event event (Some u) [] without st1, r)))"

definition login ::
  "auth_env \<Rightarrow> auth_settings \<Rightarrow> auth_forms \<Rightarrow> web_request \<Rightarrow> bool \<Rightarrow> string \<Rightarrow> string \<Rightarrow> auth \<Rightarrow> auth \<times> auth_response" where
  "login ax cfg fo rq limited raw_email pw st =
     (if limited then (st, AuthFail 429 ''RATE_LIMITED'')
      else case clean_email fo raw_email of
             None \<Rightarrow> (st, AuthFail 400 ''VALIDATION_ERROR'')
           | Some email \<Rightarrow>
               let ip = client_ip rq
               in if pw = [] then (st, AuthFail 400 ''VALIDATION_ERROR'')
                  else if is_locked ax cfg email ip st
                  then (record_event ''login_fail'' None email [(''reason'', WStr ''locked'')] st, AuthFail 423 ''ACCOUNT_LOCKED'')
                  else case authenticate ax email pw st of
                         None \<Rightarrow>
                           (let st1 = record_event ''login_fail'' None email [(''reason'', WStr ''invalid_credentials'')]
                                        (record_failed_login ax email rq st)
                            in (if is_locked ax cfg email ip st1
                                then (case user_by_email email st1 of
                                        None \<Rightarrow> record_event ''account_locked'' None email [] st1
                                      | Some u \<Rightarrow>
                                          record_event ''account_locked'' (Some u) email []
                                            (fst (send_mail ax (ur_email u) ''account_locked'' [] st1)))
                                else st1, AuthFail 401 ''INVALID_CREDENTIALS''))
                       | Some u \<Rightarrow>
                           if \<not> ur_verified u
                           then (record_event ''login_fail'' (Some u) [] [(''reason'', WStr ''unverified'')] st,
                                 AuthFail 403 ''EMAIL_NOT_VERIFIED'')
                           else challenge_or_pair ax cfg rq u ''login_ok'' [(''mfa_required'', WBool True)] []
                                  (clear_failed_logins email st))"

text \<open>The body wins over the cookie.\<close>

definition read_refresh :: "string \<Rightarrow> string \<Rightarrow> string" where
  "read_refresh body cookie = (if body \<noteq> [] then body else cookie)"

definition refresh :: "auth_env \<Rightarrow> web_request \<Rightarrow> string \<Rightarrow> string \<Rightarrow> auth \<Rightarrow> auth \<times> auth_response" where
  "refresh ax rq body cookie st =
     (let raw = read_refresh body cookie
      in if raw = [] then (st, token_invalid 401)
         else case rotate_refresh ax raw (Some rq) st of
                (st1, Inl e) \<Rightarrow> (st1, token_invalid 401)
              | (st1, Inr pair) \<Rightarrow> (st1, Tokens pair))"

definition logout :: "auth_env \<Rightarrow> string \<Rightarrow> string \<Rightarrow> auth \<Rightarrow> auth \<times> auth_response" where
  "logout ax body cookie st =
     (let raw = read_refresh body cookie
      in (if raw = [] then st else fst (revoke_refresh ax raw st), AuthOk 200))"

subsection \<open>Passwords\<close>

definition password_reset :: "auth_env \<Rightarrow> auth_forms \<Rightarrow> bool \<Rightarrow> string \<Rightarrow> auth \<Rightarrow> auth \<times> auth_response" where
  "password_reset ax fo limited raw_email st =
     (if limited then (st, AuthFail 429 ''RATE_LIMITED'')
      else case clean_email fo raw_email of
             None \<Rightarrow> (st, AuthFail 400 ''VALIDATION_ERROR'')
           | Some email \<Rightarrow>
               (case user_by_email email st of
                  None \<Rightarrow> (st, AuthOk 200)
                | Some u \<Rightarrow>
                    (let (st1, raw) = issue_reset ax (ur_id u) st;
                         (st2, sent) = send_mail ax (ur_email u) ''password_reset'' raw st1
                     in (record_event ''password_reset_requested'' (Some u) [] [] st2, AuthOk 200))))"

definition password_reset_confirm ::
  "auth_env \<Rightarrow> auth_forms \<Rightarrow> web_request \<Rightarrow> string \<Rightarrow> string \<Rightarrow> auth \<Rightarrow> auth \<times> auth_response" where
  "password_reset_confirm ax fo rq raw pw st =
     (let token = py_strip raw
      in if \<not> password_length_ok pw then (st, AuthFail 400 ''PASSWORD_WEAK'')
         else if token = [] then (st, AuthFail 400 ''VALIDATION_ERROR'')
         else if \<not> password_policy fo pw [] [] then (st, AuthFail 400 ''PASSWORD_WEAK'')
         else case consume_token ax token (st_reset st) of
                (rows, None) \<Rightarrow> (st, token_invalid 400)
              | (rows, Some uid) \<Rightarrow>
                  (let st1 = st\<lparr>st_reset := rows\<rparr>
                   in case find_user uid st1 of
                        None \<Rightarrow> (st1, AuthRaised)
                      | Some u0 \<Rightarrow>
                          let st2 = update_user uid (\<lambda>x. x\<lparr>ur_verified := True\<rparr>) (set_password ax uid pw st1);
                              u = u0\<lparr>ur_password := ax_make_password ax (st_next st1) pw, ur_verified := True\<rparr>;
                              st3 = clear_failed_logins (ur_email u) st2;
                              st4 = fst (revoke_other_sessions ax uid None ''password_reset'' st3)
                          in issue_for ax u rq (record_event ''password_reset_confirmed'' (Some u) [] [] st4)))"

definition password_change ::
  "auth_env \<Rightarrow> auth_forms \<Rightarrow> user_row \<Rightarrow> nat option \<Rightarrow> string \<Rightarrow> string \<Rightarrow> auth \<Rightarrow> auth \<times> auth_response" where
  "password_change ax fo u current old new st =
     (if \<not> password_length_ok new then (st, AuthFail 400 ''PASSWORD_WEAK'')
      else if old = [] \<or> \<not> password_policy fo new (ur_email u) (ur_name u) then (st, AuthFail 400 ''VALIDATION_ERROR'')
      else case authenticate ax (ur_email u) old st of
             None \<Rightarrow> (st, AuthFail 401 ''INVALID_CREDENTIALS'')
           | Some _ \<Rightarrow>
               (let st1 = set_password ax (ur_id u) new st;
                    st2 = fst (revoke_other_sessions ax (ur_id u) current ''password_changed'' st1)
                in (record_event ''password_changed'' (Some u) [] [] st2, AuthOk 200)))"

subsection \<open>MFA enrolment\<close>

definition mfa_fail :: "user_row \<Rightarrow> wire_dict \<Rightarrow> auth \<Rightarrow> auth" where
  "mfa_fail u meta st = record_event ''mfa_challenge_fail'' (Some u) [] meta st"

definition mfa_enroll :: "auth_env \<Rightarrow> auth_settings \<Rightarrow> user_row \<Rightarrow> auth \<Rightarrow> auth \<times> auth_response" where
  "mfa_enroll ax cfg u st =
     (if \<not> as_mfa_enabled cfg then (st, AuthFail 503 ''FEATURE_DISABLED'')
      else if user_mfa (ur_id u) st then (st, AuthFail 400 ''MFA_ALREADY_ENABLED'')
      else (let n = st_next st; secret = ax_totp_secret ax n;
                kept = filter (\<lambda>d. \<not> (md_user d = ur_id u \<and> \<not> md_verified d)) (st_devices st)
            in (st\<lparr>st_devices := kept @ [\<lparr>md_id = n, md_user = ur_id u, md_secret = ax_encrypt ax secret, md_verified = False,
                                        md_enrolled = None\<rparr>], st_next := n + 1\<rparr>, TotpSecret secret)))"

definition mfa_enroll_confirm ::
  "auth_env \<Rightarrow> auth_settings \<Rightarrow> user_row \<Rightarrow> string \<Rightarrow> auth \<Rightarrow> auth \<times> auth_response" where
  "mfa_enroll_confirm ax cfg u raw st =
     (if \<not> as_mfa_enabled cfg then (st, AuthFail 503 ''FEATURE_DISABLED'')
      else case code_field 8 raw of
             None \<Rightarrow> (st, AuthFail 400 ''VALIDATION_ERROR'')
           | Some code \<Rightarrow>
               (case first_where (\<lambda>d. md_user d = ur_id u) (st_devices st) of
                  None \<Rightarrow> (st, AuthFail 400 ''MFA_NOT_STARTED'')
                | Some d \<Rightarrow>
                    if md_verified d then (st, AuthFail 400 ''MFA_ALREADY_ENABLED'')
                    else case ax_decrypt ax (md_secret d) of
                           None \<Rightarrow> (st, AuthRaised)
                         | Some secret \<Rightarrow>
                             if \<not> verify_totp ax cfg secret code
                             then (mfa_fail u [(''phase'', WStr ''enroll'')] st, AuthFail 400 ''MFA_CODE_INVALID'')
                             else (let st1 = st\<lparr>st_devices := update_where (\<lambda>x. md_id x = md_id d)
                                         (\<lambda>x. x\<lparr>md_verified := True, md_enrolled := Some (ax_now ax)\<rparr>) (st_devices st)\<rparr>;
                                       (st2, codes) = generate_backup_codes ax cfg (ur_id u) st1;
                                       st3 = record_event ''mfa_enrolled'' (Some u) [] [] st2
                                   in (fst (send_mail ax (ur_email u) ''mfa_enabled'' [] st3), BackupCodes codes))))"

text \<open>The re-authentication of the two destructive endpoints: password, then a TOTP code.\<close>

definition reauthenticate ::
  "auth_env \<Rightarrow> auth_settings \<Rightarrow> user_row \<Rightarrow> nat \<Rightarrow> string \<Rightarrow> string \<Rightarrow> string \<Rightarrow> auth \<Rightarrow> (auth \<times> auth_response) option" where
  "reauthenticate ax cfg u hi phase pw raw st =
     (if \<not> as_mfa_enabled cfg then Some (st, AuthFail 503 ''FEATURE_DISABLED'')
      else case code_field hi raw of
             None \<Rightarrow> Some (st, AuthFail 400 ''VALIDATION_ERROR'')
           | Some code \<Rightarrow>
               if pw = [] then Some (st, AuthFail 400 ''VALIDATION_ERROR'')
               else case device_of (ur_id u) st of
                      None \<Rightarrow> Some (st, AuthFail 400 ''MFA_NOT_ENABLED'')
                    | Some d \<Rightarrow>
                        (case authenticate ax (ur_email u) pw st of
                           None \<Rightarrow> Some (st, AuthFail 401 ''INVALID_CREDENTIALS'')
                         | Some _ \<Rightarrow>
                             (case ax_decrypt ax (md_secret d) of
                                None \<Rightarrow> Some (st, AuthRaised)
                              | Some secret \<Rightarrow>
                                  if verify_totp ax cfg secret code then None
                                  else Some (mfa_fail u [(''phase'', WStr phase)] st, AuthFail 400 ''MFA_CODE_INVALID''))))"

definition mfa_disable ::
  "auth_env \<Rightarrow> auth_settings \<Rightarrow> user_row \<Rightarrow> string \<Rightarrow> string \<Rightarrow> auth \<Rightarrow> auth \<times> auth_response" where
  "mfa_disable ax cfg u pw raw st =
     (case reauthenticate ax cfg u 16 ''disable'' pw raw st of
        Some r \<Rightarrow> r
      | None \<Rightarrow>
          (let st1 = st\<lparr>st_devices := filter (\<lambda>d. md_user d \<noteq> ur_id u) (st_devices st),
                        st_backups := filter (\<lambda>b. bk_user b \<noteq> ur_id u) (st_backups st)\<rparr>;
               st2 = record_event ''mfa_disabled'' (Some u) [] [] st1
           in (fst (send_mail ax (ur_email u) ''mfa_disabled'' [] st2), AuthOk 200)))"

definition mfa_regenerate ::
  "auth_env \<Rightarrow> auth_settings \<Rightarrow> user_row \<Rightarrow> string \<Rightarrow> string \<Rightarrow> auth \<Rightarrow> auth \<times> auth_response" where
  "mfa_regenerate ax cfg u pw raw st =
     (case reauthenticate ax cfg u 8 ''regenerate'' pw raw st of
        Some r \<Rightarrow> r
      | None \<Rightarrow>
          (let (st1, codes) = generate_backup_codes ax cfg (ur_id u) st
           in (record_event ''backup_codes_regenerated'' (Some u) [] [] st1, BackupCodes codes)))"

subsection \<open>The MFA challenge of a login\<close>

definition login_fail_key :: "nat \<Rightarrow> string" where
  "login_fail_key uid = ''mfa_login_fail_user:'' @ nat_str uid"

definition jti_fail_key :: "nat \<Rightarrow> string" where
  "jti_fail_key jti = ''mfa_login_fail_jti:'' @ nat_str jti"

definition burn_key :: "nat \<Rightarrow> string" where
  "burn_key jti = ''mfa_login_burned:'' @ nat_str jti"

text \<open>A wrong code counts for the user and for the challenge token, which it may burn.\<close>

definition login_code_failed :: "auth_env \<Rightarrow> auth_settings \<Rightarrow> nat \<Rightarrow> nat \<Rightarrow> auth \<Rightarrow> auth" where
  "login_code_failed ax cfg uid jti st =
     (let c1 = snd (count_failure (st_cache st) (ax_now ax) (login_fail_key uid) (as_login_window cfg));
          (n, c2) = count_failure c1 (ax_now ax) (jti_fail_key jti) (as_login_window cfg);
          c3 = (if as_login_failures cfg \<le> n then cache_set c2 (ax_now ax) (burn_key jti) 1 (as_login_window cfg) else c2)
      in st\<lparr>st_cache := c3\<rparr>)"

definition code_kind :: "bool \<Rightarrow> wire_val" where
  "code_kind is_backup = WStr (if is_backup then ''backup'' else ''totp'')"

text \<open>The check of the code; nothing when the stored secret cannot be decrypted.\<close>

definition login_code :: "auth_env \<Rightarrow> auth_settings \<Rightarrow> user_row \<Rightarrow> mfa_device \<Rightarrow> string \<Rightarrow> bool \<Rightarrow> auth \<Rightarrow> auth \<times> bool option" where
  "login_code ax cfg u d code is_backup st =
     (if is_backup
      then (let (st1, used) = consume_backup_code ax (ur_id u) code st
            in (if used then record_event ''backup_code_used'' (Some u) [] [] st1 else st1, Some used))
      else (st, map_option (\<lambda>s. verify_totp ax cfg s code) (ax_decrypt ax (md_secret d))))"

definition mfa_verify ::
  "auth_env \<Rightarrow> auth_settings \<Rightarrow> web_request \<Rightarrow> bool \<Rightarrow> string \<Rightarrow> string \<Rightarrow> bool \<Rightarrow> auth \<Rightarrow> auth \<times> auth_response" where
  "mfa_verify ax cfg rq limited raw_token raw_code is_backup st =
     (let token = py_strip raw_token
      in if \<not> as_mfa_enabled cfg then (st, AuthFail 503 ''FEATURE_DISABLED'')
         else if limited then (st, AuthFail 429 ''RATE_LIMITED'')
         else case code_field 16 raw_code of
                None \<Rightarrow> (st, AuthFail 400 ''VALIDATION_ERROR'')
              | Some code \<Rightarrow>
                  if token = [] then (st, AuthFail 400 ''VALIDATION_ERROR'')
                  else case decode_mfa_token_claims ax token of
                         None \<Rightarrow> (st, token_invalid 401)
                       | Some (uid, jti) \<Rightarrow>
                           if cache_get (st_cache st) (ax_now ax) (burn_key jti) \<notin> {None, Some 0} then (st, token_invalid 401)
                           else if as_login_failures cfg \<le> failures (st_cache st) (ax_now ax) (login_fail_key uid)
                           then (st, AuthFail 429 ''MFA_LOCKED'')
                           else case (find_user uid st, device_of uid st) of
                                  (Some u, Some d) \<Rightarrow>
                                    if \<not> ur_active u then (st, token_invalid 401)
                                    else (case login_code ax cfg u d code is_backup st of
                                            (st1, None) \<Rightarrow> (st1, AuthRaised)
                                          | (st1, Some False) \<Rightarrow>
                                              (login_code_failed ax cfg uid jti
                                                 (mfa_fail u [(''phase'', WStr ''login''), (''kind'', code_kind is_backup)] st1),
                                               AuthFail 401 ''MFA_CODE_INVALID'')
                                          | (st1, Some True) \<Rightarrow>
                                              issue_for ax u rq
                                                (record_event ''mfa_challenge_ok'' (Some u) [] [(''kind'', code_kind is_backup)]
                                                   (st1\<lparr>st_cache := cache_delete (cache_delete (st_cache st1) (login_fail_key uid))
                                                                    (jti_fail_key jti)\<rparr>)))
                                | _ \<Rightarrow> (st, token_invalid 401))"

subsection \<open>Profile and sessions\<close>

record profile_form =
  pq_name :: "string option"
  pq_timezone :: "string option"
  pq_language :: "string option"
  pq_notify :: "bool option"

text \<open>The set of time-zone names is a parameter; an absent field is nothing.\<close>

definition profile_valid :: "(string \<Rightarrow> bool) \<Rightarrow> profile_form \<Rightarrow> profile_form option" where
  "profile_valid zones q =
     (let n = map_option py_strip (pq_name q); z = map_option py_strip (pq_timezone q); l = map_option py_strip (pq_language q)
      in if (case n of None \<Rightarrow> True | Some x \<Rightarrow> x \<noteq> [] \<and> length x \<le> 64) \<and>
            (case z of None \<Rightarrow> True | Some x \<Rightarrow> x \<noteq> [] \<and> length x \<le> 64 \<and> zones x) \<and>
            (case l of None \<Rightarrow> True | Some x \<Rightarrow> x = ''en'')
         then Some \<lparr>pq_name = n, pq_timezone = z, pq_language = l, pq_notify = pq_notify q\<rparr> else None)"

definition profile_fields :: "profile_form \<Rightarrow> string list" where
  "profile_fields q =
     (if pq_name q \<noteq> None then [''display_name''] else []) @ (if pq_language q \<noteq> None then [''language''] else []) @
     (if pq_notify q \<noteq> None then [''notification_email''] else []) @ (if pq_timezone q \<noteq> None then [''timezone''] else [])"

definition default_profile_row :: "nat \<Rightarrow> user_profile" where
  "default_profile_row uid =
     \<lparr>pf_user = uid, pf_timezone = ''America/New_York'', pf_language = ''en'', pf_notify = True, pf_broker = None, pf_terms = []\<rparr>"

definition set_profile :: "profile_form \<Rightarrow> user_profile \<Rightarrow> user_profile" where
  "set_profile q p =
     p\<lparr>pf_timezone := (case pq_timezone q of None \<Rightarrow> pf_timezone p | Some x \<Rightarrow> x),
       pf_language := (case pq_language q of None \<Rightarrow> pf_language p | Some x \<Rightarrow> x),
       pf_notify := (case pq_notify q of None \<Rightarrow> pf_notify p | Some x \<Rightarrow> x)\<rparr>"

definition profile_update :: "(string \<Rightarrow> bool) \<Rightarrow> user_row \<Rightarrow> profile_form \<Rightarrow> auth \<Rightarrow> auth \<times> auth_response" where
  "profile_update zones u raw st =
     (case profile_valid zones raw of
        None \<Rightarrow> (st, AuthFail 400 ''VALIDATION_ERROR'')
      | Some q \<Rightarrow>
          (let profiles = (if exists_where (\<lambda>p. pf_user p = ur_id u) (st_profiles st) then st_profiles st
                           else st_profiles st @ [default_profile_row (ur_id u)]);
               st1 = (case pq_name q of None \<Rightarrow> st | Some n \<Rightarrow> update_user (ur_id u) (\<lambda>x. x\<lparr>ur_name := n\<rparr>) st);
               st2 = st1\<lparr>st_profiles := update_where (\<lambda>p. pf_user p = ur_id u) (set_profile q) profiles\<rparr>
           in (record_event ''profile_updated'' (Some u) [] [(''fields'', WStr (py_join '','' (profile_fields q)))] st2, AuthOk 200)))"

definition sessions_revoke ::
  "auth_env \<Rightarrow> user_row \<Rightarrow> nat option \<Rightarrow> bool \<Rightarrow> nat option \<Rightarrow> auth \<Rightarrow> auth \<times> auth_response" where
  "sessions_revoke ax u current every fid st =
     (if every
      then (let (st1, n) = revoke_other_sessions ax (ur_id u) current ''revoke_all'' st
            in (record_event ''session_revoked'' (Some u) [] [(''scope'', WStr ''all_other''), (''count'', WId n)] st1,
                RevokedCount n))
      else case fid of
             None \<Rightarrow> (st, AuthFail 400 ''VALIDATION_ERROR'')
           | Some i \<Rightarrow>
               if \<not> exists_where (\<lambda>f. fa_id f = i \<and> fa_user f = ur_id u \<and> fa_revoked f = None) (st_families st)
               then (st, AuthFail 404 ''SESSION_NOT_FOUND'')
               else (record_event ''session_revoked'' (Some u) [] [(''scope'', WStr ''single''), (''family_id'', WId i)]
                       (revoke_where ax ''user_revoke'' (\<lambda>f. fa_id f = i \<and> fa_user f = ur_id u \<and> fa_revoked f = None) st),
                     RevokedCount 1))"

subsection \<open>OAuth\<close>

text \<open>\<open>_now_microsec_diff\<close>: the seconds and microseconds of the difference, without its days.\<close>

definition now_microsec_diff :: "int \<Rightarrow> int \<Rightarrow> int" where
  "now_microsec_diff now t = (now - t) mod seconds 86400"

definition recent :: "auth_env \<Rightarrow> int \<Rightarrow> bool" where
  "recent ax t \<longleftrightarrow> now_microsec_diff (ax_now ax) t < 30000000"

text \<open>
  After the provider's callback: the user the OAuth library logged in, if any, and when the social
  account joined. The exchange code is redirected to the front end.
\<close>

definition oauth_post_callback ::
  "auth_env \<Rightarrow> auth_settings \<Rightarrow> user_row option \<Rightarrow> int option \<Rightarrow> auth \<Rightarrow> auth \<times> auth_response" where
  "oauth_post_callback ax cfg user joined st =
     (let google = (''provider'', WStr ''google'')
      in case user of
           None \<Rightarrow>
             (record_event ''oauth_exchange_fail'' None [] [(''reason'', WStr ''no_authenticated_user_post_callback'')] st,
              AuthFail 302 ''oauth_failed'')
         | Some u \<Rightarrow>
             (let new = recent ax (ur_created u);
                  linked = ((case joined of None \<Rightarrow> False | Some t \<Rightarrow> recent ax t) \<and> \<not> new);
                  st1 = (if new then fst (send_mail ax (ur_email u) ''oauth_account_created'' []
                                        (record_event ''oauth_user_created'' (Some u) [] [google] st))
                         else if linked then fst (send_mail ax (ur_email u) ''oauth_account_linked'' []
                                                 (record_event ''oauth_linked'' (Some u) [] [google] st))
                         else st);
                  (st2, raw) = issue_exchange ax cfg (ur_id u) (record_event ''oauth_login_ok'' (Some u) [] [google] st1)
              in (st2, ExchangeCode raw)))"

definition oauth_exchange ::
  "auth_env \<Rightarrow> auth_settings \<Rightarrow> bool \<Rightarrow> web_request \<Rightarrow> string \<Rightarrow> auth \<Rightarrow> auth \<times> auth_response" where
  "oauth_exchange ax cfg enabled rq raw st =
     (let code = py_strip raw
      in if \<not> enabled then (st, AuthFail 503 ''FEATURE_DISABLED'')
         else if length code < 10 \<or> 128 < length code then (st, AuthFail 400 ''VALIDATION_ERROR'')
         else case consume_token ax code (st_exchange st) of
                (rows, None) \<Rightarrow>
                  (record_event ''oauth_exchange_fail'' None [] [(''reason'', WStr ''invalid_or_expired_code'')] st,
                   AuthFail 401 ''EXCHANGE_INVALID'')
              | (rows, Some uid) \<Rightarrow>
                  (let st1 = st\<lparr>st_exchange := rows\<rparr>
                   in case find_user uid st1 of
                        None \<Rightarrow> (st1, AuthRaised)
                      | Some u \<Rightarrow>
                          if \<not> ur_active u then (st1, AuthFail 401 ''EXCHANGE_INVALID'')
                          else challenge_or_pair ax cfg rq u ''oauth_exchange_ok'' [(''mfa_required'', WBool True)]
                                 [(''mfa_required'', WBool False)] st1))"

subsection \<open>Requests\<close>

text \<open>
  A request that needs a session carries the user of its access token and the token's family. The
  rate limiter's verdict is part of the request.
\<close>

datatype auth_op =
    Register bool string string string
  | VerifyEmail string
  | Resend bool string
  | Login bool string string
  | Refresh string string
  | Logout string string
  | ResetRequest bool string
  | ResetConfirm string string
  | MfaEnroll nat
  | MfaConfirm nat string
  | MfaDisable nat string string
  | MfaRegenerate nat string string
  | MfaVerify bool string string bool
  | ProfileUpdate nat profile_form
  | PasswordChange nat "nat option" string string
  | SessionsRevoke nat "nat option" bool "nat option"
  | OauthCallback "nat option" "int option"
  | OauthExchange string

record auth_config =
  au_settings :: auth_settings
  au_forms :: auth_forms
  au_zones :: "string \<Rightarrow> bool"
  au_google :: bool

definition with_user :: "nat \<Rightarrow> (user_row \<Rightarrow> auth \<Rightarrow> auth \<times> auth_response) \<Rightarrow> auth \<Rightarrow> auth \<times> auth_response" where
  "with_user uid f st = (case find_user uid st of None \<Rightarrow> (st, AuthFail 401 ''AUTH_REQUIRED'') | Some u \<Rightarrow> f u st)"

fun auth_step :: "auth_config \<Rightarrow> auth_env \<Rightarrow> web_request \<Rightarrow> auth_op \<Rightarrow> auth \<Rightarrow> auth \<times> auth_response" where
  "auth_step cf ax rq (Register ltd email name pw) st = register ax (au_forms cf) ltd email name pw st"
| "auth_step cf ax rq (VerifyEmail raw) st = verify_email ax rq raw st"
| "auth_step cf ax rq (Resend ltd email) st = resend_verification ax (au_forms cf) ltd email st"
| "auth_step cf ax rq (Login ltd email pw) st = login ax (au_settings cf) (au_forms cf) rq ltd email pw st"
| "auth_step cf ax rq (Refresh body cookie) st = refresh ax rq body cookie st"
| "auth_step cf ax rq (Logout body cookie) st = logout ax body cookie st"
| "auth_step cf ax rq (ResetRequest ltd email) st = password_reset ax (au_forms cf) ltd email st"
| "auth_step cf ax rq (ResetConfirm raw pw) st = password_reset_confirm ax (au_forms cf) rq raw pw st"
| "auth_step cf ax rq (MfaEnroll uid) st = with_user uid (mfa_enroll ax (au_settings cf)) st"
| "auth_step cf ax rq (MfaConfirm uid code) st = with_user uid (\<lambda>u. mfa_enroll_confirm ax (au_settings cf) u code) st"
| "auth_step cf ax rq (MfaDisable uid pw code) st = with_user uid (\<lambda>u. mfa_disable ax (au_settings cf) u pw code) st"
| "auth_step cf ax rq (MfaRegenerate uid pw code) st = with_user uid (\<lambda>u. mfa_regenerate ax (au_settings cf) u pw code) st"
| "auth_step cf ax rq (MfaVerify ltd tok code backup) st = mfa_verify ax (au_settings cf) rq ltd tok code backup st"
| "auth_step cf ax rq (ProfileUpdate uid q) st = with_user uid (\<lambda>u. profile_update (au_zones cf) u q) st"
| "auth_step cf ax rq (PasswordChange uid fam old new) st = with_user uid (\<lambda>u. password_change ax (au_forms cf) u fam old new) st"
| "auth_step cf ax rq (SessionsRevoke uid fam every fid) st = with_user uid (\<lambda>u. sessions_revoke ax u fam every fid) st"
| "auth_step cf ax rq (OauthCallback uid joined) st =
     oauth_post_callback ax (au_settings cf) (case uid of None \<Rightarrow> None | Some i \<Rightarrow> find_user i st) joined st"
| "auth_step cf ax rq (OauthExchange raw) st = oauth_exchange ax (au_settings cf) (au_google cf) rq raw st"

fun auth_run :: "auth_config \<Rightarrow> (auth_env \<times> web_request \<times> auth_op) list \<Rightarrow> auth \<Rightarrow> auth" where
  "auth_run cf [] st = st"
| "auth_run cf ((ax, rq, op) # ops) st = auth_run cf ops (fst (auth_step cf ax rq op st))"

subsection \<open>What a request does to the families\<close>

text \<open>
  The three facts every request keeps: the tables stay well formed, families only evolve, and a spent
  one-time token stays spent. They are proved together, operation by operation.
\<close>

definition spent_kept :: "token_row list \<Rightarrow> token_row list \<Rightarrow> bool" where
  "spent_kept rows rows' \<longleftrightarrow> (\<forall>h. token_spent h rows \<longrightarrow> token_spent h rows')"

definition tokens_kept :: "auth \<Rightarrow> auth \<Rightarrow> bool" where
  "tokens_kept st st' \<longleftrightarrow> spent_kept (st_verify st) (st_verify st') \<and> spent_kept (st_reset st) (st_reset st') \<and>
     spent_kept (st_exchange st) (st_exchange st')"

definition safe_step :: "auth \<Rightarrow> auth \<Rightarrow> bool" where
  "safe_step st st' \<longleftrightarrow> families_evolve st st' \<and> tokens_kept st st' \<and> (auth_ok st \<longrightarrow> auth_ok st')"

lemma spent_kept_refl [simp]: "spent_kept rows rows"
  by (simp add: spent_kept_def)

lemma spent_kept_append [simp]: "spent_kept rows (rows @ new)"
  by (simp add: spent_kept_def token_spent_append)

lemma spent_kept_consume: "consume_token ax raw rows = (rows', r) \<Longrightarrow> spent_kept rows rows'"
  unfolding spent_kept_def using tokens.spent_stays [of _ rows ax raw] by simp

lemma spent_kept_fst [simp]: "spent_kept rows (fst (consume_token ax raw rows))"
  by (rule spent_kept_consume [of ax raw rows _ "snd (consume_token ax raw rows)"]) simp

lemma tokens_kept_same:
  "st_verify st' = st_verify st \<Longrightarrow> st_reset st' = st_reset st \<Longrightarrow> st_exchange st' = st_exchange st \<Longrightarrow> tokens_kept st st'"
  by (simp add: tokens_kept_def)

lemma tokens_kept_trans: "tokens_kept st st1 \<Longrightarrow> tokens_kept st1 st2 \<Longrightarrow> tokens_kept st st2"
  by (simp add: tokens_kept_def spent_kept_def)

named_theorems safe_steps "operations whose step is safe"

lemma safe_step_refl [safe_steps]: "safe_step st st"
  by (simp add: safe_step_def tokens_kept_same)

lemma safe_step_trans [trans]: "safe_step st st1 \<Longrightarrow> safe_step st1 st2 \<Longrightarrow> safe_step st st2"
  unfolding safe_step_def using families_evolve_trans tokens_kept_trans by blast

text \<open>A step that leaves users and families alone.\<close>

lemma safe_step_frame:
  "st_users st' = st_users st \<Longrightarrow> st_families st' = st_families st \<Longrightarrow> st_next st \<le> st_next st' \<Longrightarrow>
   tokens_kept st st' \<Longrightarrow> safe_step st st'"
  unfolding safe_step_def using families_evolve_same auth_ok_frame by blast

lemma safe_event [safe_steps]: "safe_step st st1 \<Longrightarrow> safe_step st (record_event e u m x st1)"
  by (rule safe_step_trans, assumption, rule safe_step_frame) (simp_all add: tokens_kept_same)

lemma safe_mail [safe_steps]: "safe_step st st1 \<Longrightarrow> safe_step st (fst (send_mail ax t m k st1))"
  by (rule safe_step_trans, assumption, rule safe_step_frame) (simp_all add: tokens_kept_same)

lemma safe_revoke [safe_steps]: "safe_step st st1 \<Longrightarrow> safe_step st (revoke_where ax r p st1)"
  by (rule safe_step_trans, assumption) 
    (simp add: safe_step_def revoke_where_evolves revoke_where_ok, simp add: revoke_where_def tokens_kept_same)

lemma safe_revoke_others [safe_steps]: "safe_step st st1 \<Longrightarrow> safe_step st (fst (revoke_other_sessions ax u k r st1))"
  by (simp add: revoke_other_sessions_def safe_revoke)

text \<open>Replacing columns of users other than id and e-mail.\<close>

lemma safe_update_user [safe_steps]:
  assumes "safe_step st st1" "\<And>u. ur_id (f u) = ur_id u" "\<And>u. ur_email (f u) = ur_email u"
  shows "safe_step st (update_user uid f st1)"
proof (rule safe_step_trans [OF assms(1)])
  have ids: "map ur_id (st_users (update_user uid f st1)) = map ur_id (st_users st1)"
    "map ur_email (st_users (update_user uid f st1)) = map ur_email (st_users st1)"
    using assms(2,3) by (simp_all add: update_user_def map_update_where)
  have fams: "st_families (update_user uid f st1) = st_families st1" "st_next (update_user uid f st1) = st_next st1"
    by (simp_all add: update_user_def)
  have set_ids: "ur_id ` set (st_users (update_user uid f st1)) = ur_id ` set (st_users st1)"
    using arg_cong [OF ids(1), of set] by simp
  have "auth_ok (update_user uid f st1)" if ok: "auth_ok st1"
  proof -
    have "\<forall>u\<in>set (st_users (update_user uid f st1)). ur_id u < st_next st1"
      using ok set_ids by (metis (mono_tags) auth_ok_def image_iff)
    with ok show ?thesis by (simp add: auth_ok_def ids fams set_ids)
  qed
  then show "safe_step st1 (update_user uid f st1)"
    by (simp add: safe_step_def families_evolve_same fams, simp add: update_user_def tokens_kept_same)
qed

lemma find_user_in: "find_user uid st = Some u \<Longrightarrow> u \<in> set (st_users st) \<and> ur_id u = uid"
  by (auto simp: find_user_def dest!: first_where_Some)

text \<open>Tokens are issued for the id of an existing row.\<close>

lemma safe_issue:
  assumes "safe_step st st1" "ur_id u \<in> ur_id ` set (st_users st1)"
  shows "safe_step st (fst (issue_for ax u rq st1))"
proof (rule safe_step_trans [OF assms(1)])
  let ?st2 = "fst (issue_token_pair ax u None (Some rq) st1)"
  obtain f where f: "st_families ?st2 = st_families st1 @ [f]" "fa_id f = st_next st1 + 1" "fa_user f = ur_id u"
    "fa_current f = st_next st1" "fa_previous f = None"
    using issue_new_families by blast
  have "auth_ok ?st2" if ok: "auth_ok st1"
  proof (rule auth_ok_append_family [OF ok f(1)])
    show "fa_id f \<notin> fa_id ` set (st_families st1)" using ok f(2) by (fastforce simp: auth_ok_def)
  qed (use f assms(2) in \<open>simp_all add: issue_token_pair_next\<close>)
  then show "safe_step st1 (fst (issue_for ax u rq st1))"
    by (simp add: safe_step_def issue_for_def case_prod_beta issue_evolves tokens_kept_same)
qed

text \<open>Tables other than users and families.\<close>

lemma safe_tables [safe_steps]:
  "safe_step st st1 \<Longrightarrow> spent_kept (st_verify st1) r \<Longrightarrow> safe_step st (st1\<lparr>st_verify := r\<rparr>)"
  "safe_step st st1 \<Longrightarrow> spent_kept (st_reset st1) r \<Longrightarrow> safe_step st (st1\<lparr>st_reset := r\<rparr>)"
  "safe_step st st1 \<Longrightarrow> spent_kept (st_exchange st1) r \<Longrightarrow> safe_step st (st1\<lparr>st_exchange := r\<rparr>)" "safe_step st st1 \<Longrightarrow> safe_step st (st1\<lparr>st_cache := c\<rparr>)"
  "safe_step st st1 \<Longrightarrow> safe_step st (st1\<lparr>st_devices := d\<rparr>)" "safe_step st st1 \<Longrightarrow> safe_step st (st1\<lparr>st_backups := b\<rparr>)"
  "safe_step st st1 \<Longrightarrow> safe_step st (st1\<lparr>st_profiles := q\<rparr>)"
  "safe_step st st1 \<Longrightarrow> st_next st1 \<le> n \<Longrightarrow> safe_step st (st1\<lparr>st_next := n\<rparr>)"
  by (rule safe_step_trans, assumption, rule safe_step_frame; simp add: tokens_kept_def)+

lemma safe_services [safe_steps]:
  "safe_step st st1 \<Longrightarrow> safe_step st (fst (issue_verification ax uid st1))"
  "safe_step st st1 \<Longrightarrow> safe_step st (fst (issue_reset ax uid st1))"
  "safe_step st st1 \<Longrightarrow> safe_step st (fst (issue_exchange ax cfg uid st1))"
  "safe_step st st1 \<Longrightarrow> safe_step st (fst (issue_mfa_token ax cfg uid st1))"
  "safe_step st st1 \<Longrightarrow> safe_step st (clear_failed_logins email st1)"
  "safe_step st st1 \<Longrightarrow> safe_step st (record_failed_login ax email rq st1)"
  "safe_step st st1 \<Longrightarrow> safe_step st (fst (generate_backup_codes ax cfg uid st1))"
  "safe_step st st1 \<Longrightarrow> safe_step st (fst (consume_backup_code ax uid code st1))"
  "safe_step st st1 \<Longrightarrow> safe_step st (login_code_failed ax cfg uid jti st1)"
  by (rule safe_step_trans, assumption, rule safe_step_frame;
      simp add: issue_verification_def issue_reset_def issue_exchange_def issue_mfa_token_def clear_failed_logins_def
        record_failed_login_def generate_backup_codes_def consume_backup_code_def login_code_failed_def case_prod_beta Let_def
        issue_token_def tokens_kept_def)+

lemma safe_fail [safe_steps]: "safe_step st st1 \<Longrightarrow> safe_step st (mfa_fail u m st1)"
  by (simp add: mfa_fail_def safe_event)

lemma safe_set_password [safe_steps]: "safe_step st st1 \<Longrightarrow> safe_step st (set_password ax uid pw st1)"
  unfolding set_password_def
  by (intro safe_tables(8) safe_update_user) (simp_all add: update_user_def)

definition user_ids :: "auth \<Rightarrow> nat set" where
  "user_ids st = ur_id ` set (st_users st)"

lemma user_ids_next: "user_ids (st\<lparr>st_next := n\<rparr>) = user_ids st"
  by (simp add: user_ids_def)

lemma user_ids_same: "st_users st' = st_users st \<Longrightarrow> user_ids st' = user_ids st"
  by (simp add: user_ids_def)

lemma user_ids_update: "(\<And>u. ur_id (f u) = ur_id u) \<Longrightarrow> user_ids (update_user uid f st) = user_ids st"
proof -
  assume "\<And>u. ur_id (f u) = ur_id u"
  then have "map ur_id (st_users (update_user uid f st)) = map ur_id (st_users st)"
    by (simp add: update_user_def map_update_where)
  then show ?thesis unfolding user_ids_def set_map [symmetric] by simp
qed

lemma user_ids_frame [simp]:
  "user_ids (record_event e u m x st) = user_ids st" "user_ids (fst (send_mail ax to m k st)) = user_ids st"
  "user_ids (revoke_where ax r p st) = user_ids st" "user_ids (fst (revoke_other_sessions ax i ex r st)) = user_ids st"
  "user_ids (clear_failed_logins email st) = user_ids st" "user_ids (st\<lparr>st_verify := t\<rparr>) = user_ids st"
  "user_ids (st\<lparr>st_reset := t\<rparr>) = user_ids st" "user_ids (st\<lparr>st_exchange := t\<rparr>) = user_ids st"
  "user_ids (st\<lparr>st_cache := c\<rparr>) = user_ids st" "user_ids (fst (consume_backup_code ax i code st)) = user_ids st"
  by (simp_all add: user_ids_def revoke_where_def revoke_other_sessions_def clear_failed_logins_def consume_backup_code_def
      case_prod_beta Let_def)

lemma user_ids_updates [simp]:
  "user_ids (update_user i (\<lambda>x. x\<lparr>ur_verified := b\<rparr>) st) = user_ids st" "user_ids (set_password ax i pw st) = user_ids st"
  by (simp_all add: user_ids_update set_password_def user_ids_next)

lemma find_user_ids: "find_user uid st = Some u \<Longrightarrow> ur_id u = uid \<and> uid \<in> user_ids st"
  by (auto simp: user_ids_def dest: find_user_in)

lemma user_by_email_ids: "user_by_email email st = Some u \<Longrightarrow> ur_id u \<in> user_ids st"
  by (auto simp: user_ids_def user_by_email_def dest!: first_where_Some)

lemma authenticate_ids: "authenticate ax email pw st = Some u \<Longrightarrow> ur_id u \<in> user_ids st"
  by (auto simp: authenticate_def split: option.splits if_splits dest: user_by_email_ids)

lemmas safe_issue_ids [safe_steps] = safe_issue [folded user_ids_def]

subsubsection \<open>Every request is safe\<close>

lemma safe_create_user:
  assumes "\<not> exists_where (\<lambda>u. ur_email u = email) (st_users st)"
  shows "safe_step st (fst (create_user ax email name pw st))"
proof -
  have "auth_ok (fst (create_user ax email name pw st))" if ok: "auth_ok st"
    using ok assms unfolding auth_ok_def create_user_def Let_def
    by (auto simp: exists_where_iff dest: less_le_trans)
  then show ?thesis by (auto simp: safe_step_def create_user_def Let_def tokens_kept_same intro: families_evolve_same)
qed

lemma safe_register: "safe_step st (fst (register ax fo ltd email name pw st))"
  by (auto simp: register_def Let_def case_prod_beta intro!: safe_steps safe_create_user split: option.split)

lemma safe_verify_email: "safe_step st (fst (verify_email ax rq raw st))"
  by (auto simp: verify_email_def Let_def case_prod_beta intro!: safe_steps dest: find_user_ids spent_kept_consume split: option.split prod.split)

lemma safe_resend: "safe_step st (fst (resend_verification ax fo ltd email st))"
  by (auto simp: resend_verification_def Let_def case_prod_beta intro!: safe_steps split: option.split)

lemma safe_challenge:
  "safe_step st st1 \<Longrightarrow> ur_id u \<in> user_ids st1 \<Longrightarrow> safe_step st (fst (challenge_or_pair ax cfg rq u e w wo st1))"
  by (auto simp: challenge_or_pair_def Let_def case_prod_beta intro!: safe_steps)

lemma safe_login: "safe_step st (fst (login ax cfg fo rq ltd email pw st))"
  by (auto simp: login_def Let_def case_prod_beta intro!: safe_steps safe_challenge dest: authenticate_ids split: option.split)

lemma safe_rotate: "safe_step st (fst (rotate_refresh ax raw rq st))"
proof -
  have "tokens_kept st (fst (rotate_family ax fid jti rq st))" for fid jti
    by (auto simp: rotate_family_def Let_def case_prod_beta revoke_where_def split: option.split intro!: tokens_kept_same)
  then show ?thesis
    by (auto simp: rotate_refresh_def safe_step_def rotate_family_evolves rotate_family_ok tokens_kept_same split: option.split)
qed

lemma safe_refresh: "safe_step st (fst (refresh ax rq body cookie st))"
  using safe_rotate [of st ax "read_refresh body cookie" "Some rq"]
  by (auto simp: refresh_def Let_def intro!: safe_steps split: prod.split sum.split)

lemma safe_logout: "safe_step st (fst (logout ax body cookie st))"
  by (auto simp: logout_def Let_def revoke_refresh_def intro!: safe_steps split: option.split)

lemma safe_reset: "safe_step st (fst (password_reset ax fo ltd email st))"
  by (auto simp: password_reset_def Let_def case_prod_beta intro!: safe_steps split: option.split)

lemma safe_reset_confirm: "safe_step st (fst (password_reset_confirm ax fo rq raw pw st))"
  by (auto simp: password_reset_confirm_def Let_def case_prod_beta intro!: safe_steps dest: find_user_ids spent_kept_consume split: option.split prod.split)

lemma safe_change: "safe_step st (fst (password_change ax fo u fam old new st))"
  by (auto simp: password_change_def Let_def intro!: safe_steps split: option.split)

lemma safe_enroll: "safe_step st (fst (mfa_enroll ax cfg u st))"
  by (auto simp: mfa_enroll_def Let_def intro!: safe_step_frame tokens_kept_same)

lemma safe_confirm: "safe_step st (fst (mfa_enroll_confirm ax cfg u raw st))"
  by (auto simp: mfa_enroll_confirm_def Let_def case_prod_beta intro!: safe_steps split: option.split)

lemma reauthenticate_safe: "reauthenticate ax cfg u hi phase pw raw st = Some r \<Longrightarrow> safe_step st (fst r)"
  by (auto simp: reauthenticate_def intro!: safe_steps split: if_splits option.splits)

lemma safe_disable: "safe_step st (fst (mfa_disable ax cfg u pw raw st))"
  by (auto simp: mfa_disable_def Let_def intro!: safe_steps dest: reauthenticate_safe split: option.split intro: safe_step_frame)

lemma safe_regenerate: "safe_step st (fst (mfa_regenerate ax cfg u pw raw st))"
  by (auto simp: mfa_regenerate_def Let_def case_prod_beta intro!: safe_steps dest: reauthenticate_safe split: option.split)

lemma safe_login_code: "safe_step st (fst (login_code ax cfg u d code b st))"
  by (auto simp: login_code_def Let_def case_prod_beta intro!: safe_steps)

lemma login_code_ids: "user_ids (fst (login_code ax cfg u d code b st)) = user_ids st"
  by (auto simp: login_code_def Let_def case_prod_beta)

lemma safe_verify: "safe_step st (fst (mfa_verify ax cfg rq ltd tok code b st))"
proof -
  have "safe_step st st1 \<and> user_ids st1 = user_ids st" if "login_code ax cfg u d c b st = (st1, r)" for u d c st1 r
    using safe_login_code [of st ax cfg u d c b] login_code_ids [of ax cfg u d c b st] that by simp
  then show ?thesis
    by (auto simp: mfa_verify_def Let_def intro!: safe_steps dest: find_user_ids split: option.split prod.split bool.split)
qed

lemma safe_profile: "safe_step st (fst (profile_update zones u q st))"
  by (auto simp: profile_update_def Let_def intro!: safe_steps split: option.split)

lemma safe_sessions: "safe_step st (fst (sessions_revoke ax u fam every fid st))"
  by (auto simp: sessions_revoke_def Let_def case_prod_beta intro!: safe_steps split: option.split)

lemma safe_callback: "safe_step st (fst (oauth_post_callback ax cfg u joined st))"
  by (auto simp: oauth_post_callback_def Let_def case_prod_beta intro!: safe_steps split: option.split)

lemma safe_exchange: "safe_step st (fst (oauth_exchange ax cfg en rq raw st))"
  by (auto simp: oauth_exchange_def Let_def intro!: safe_steps safe_challenge dest: find_user_ids spent_kept_consume split: option.split prod.split)

lemmas safe_requests =
  safe_register safe_verify_email safe_resend safe_login safe_refresh safe_logout safe_reset safe_reset_confirm safe_change
  safe_enroll safe_confirm safe_disable safe_regenerate safe_verify safe_profile safe_sessions safe_callback safe_exchange

lemma safe_auth_step: "safe_step st (fst (auth_step cf ax rq op st))"
  by (cases op) (auto simp: with_user_def safe_requests safe_step_refl split: option.split)

lemma safe_auth_run: "safe_step st (auth_run cf ops st)"
proof (induction ops arbitrary: st)
  case (Cons a ops)
  obtain ax rq op where a: "a = (ax, rq, op)" by (cases a)
  show ?case unfolding a auth_run.simps by (rule safe_step_trans [OF safe_auth_step Cons.IH])
qed (simp add: safe_step_refl)

end
