(* ===== verification/Auth_Safety.thy ===== *)
theory Auth_Safety
  imports Auth_Api
begin

text \<open>
  What the sessions and the second factor guarantee over any sequence of requests, proved from the
  step facts of \<open>Auth_Api\<close>.
\<close>

subsection \<open>Revoked families\<close>

definition ended :: "nat \<Rightarrow> auth \<Rightarrow> bool" where
  "ended fid st \<longleftrightarrow> fid < st_next st \<and> (\<forall>f\<in>set (st_families st). fa_id f = fid \<longrightarrow> fa_revoked f \<noteq> None)"

lemma ended_stays:
  assumes "ended fid st" "safe_step st st'"
  shows "ended fid st'"
proof -
  have evolve: "families_evolve st st'" using assms(2) by (simp add: safe_step_def)
  have "fa_revoked g \<noteq> None" if "g \<in> set (st_families st')" "fa_id g = fid" for g
  proof -
    have "\<not> st_next st \<le> fa_id g" using assms(1) that(2) by (simp add: ended_def)
    moreover have "(\<exists>f\<in>set (st_families st). family_evolves (st_next st) f g) \<or> st_next st \<le> fa_id g"
      using evolve that(1) by (simp add: families_evolve_def)
    ultimately obtain f where f: "f \<in> set (st_families st)" "family_evolves (st_next st) f g" by auto
    then have "fa_id f = fid" using that(2) by (simp add: family_evolves_def)
    with assms(1) f(1) have "fa_revoked f \<noteq> None" by (simp add: ended_def)
    with f(2) show ?thesis by (simp add: family_evolves_def)
  qed
  moreover have "fid < st_next st'" using assms(1) evolve by (simp add: ended_def families_evolve_def)
  ultimately show ?thesis by (simp add: ended_def)
qed

lemma ended_run: "ended fid st \<Longrightarrow> ended fid (auth_run cf ops st)"
  by (rule ended_stays [OF _ safe_auth_run])

lemma ended_refused:
  assumes "ended fid st"
  shows "isl (snd (rotate_family ax fid jti rq st))"
proof (cases "locked_family fid st")
  case (Some p)
  obtain f u where p: "p = (f, u)" by (cases p)
  have "fa_revoked f \<noteq> None" using assms locked_family_Some Some p by (auto simp: ended_def)
  with Some p show ?thesis by (simp add: rotate_family_def Let_def)
qed (simp add: rotate_family_def)

lemma ended_refresh:
  assumes "ended fid st" "ax_decode ax REFRESH (ax_now ax) raw = Some c" "cl_family c = Some fid"
  shows "isl (snd (rotate_refresh ax raw rq st))"
  using assms ended_refused by (simp add: rotate_refresh_def split: option.split)

lemma run_ok: "auth_ok st \<Longrightarrow> auth_ok (auth_run cf ops st)"
  using safe_auth_run [of st cf ops] by (simp add: safe_step_def)

lemma auth_run_append: "auth_run cf (ops @ ops') st = auth_run cf ops' (auth_run cf ops st)"
  by (induction ops arbitrary: st) auto

text \<open>
  C21. Replay of a refresh token. A token of a family that is neither its current nor its previous
  one is refused after any number of further requests; presenting it ends the family, and no
  token of that family is accepted ever after.
\<close>

theorem replay_ends_family:
  assumes ok: "auth_ok st" and f: "f \<in> set (st_families st)" and jti: "jti < st_next st" "jti \<noteq> fa_current f" "fa_previous f \<noteq> Some jti"
    and replay: "rotate_family ax (fa_id f) jti rq (auth_run cf ops st) = (st', res)"
  shows "isl res \<and> isl (snd (rotate_family ax' (fa_id f) jti' rq' (auth_run cf ops' st')))"
proof -
  let ?fid = "fa_id f" and ?st1 = "auth_run cf ops st"
  have "dead_token ?fid jti st"
    unfolding dead_token_def
  proof (intro conjI ballI impI)
    show "?fid < st_next st" using ok f by (simp add: auth_ok_def)
    fix g assume "g \<in> set (st_families st)" "fa_id g = ?fid"
    then have "g = f" using family_key [OF ok f, of g] by simp
    with jti show "fa_revoked g \<noteq> None \<or> fa_current g \<noteq> jti \<and> fa_previous g \<noteq> Some jti" by auto
  qed (rule jti(1))
  then have dead: "dead_token ?fid jti ?st1" using safe_auth_run dead_token_stays unfolding safe_step_def by blast
  have refused: "isl res \<and> (\<forall>g\<in>set (st_families st'). fa_id g = ?fid \<longrightarrow> fa_revoked g \<noteq> None)"
    by (rule dead_token_refused [OF run_ok [OF ok] dead replay])
  have "st_next ?st1 \<le> st_next st'"
    using rotate_family_evolves [of ?st1 ax ?fid jti rq] replay by (simp add: families_evolve_def)
  with refused dead have "ended ?fid st'" by (simp add: ended_def dead_token_def)
  with ended_run ended_refused refused show ?thesis by blast
qed

theorem replay_ends_family_witness:
  "isl (snd (rotate_family sample_ax 60 50 None sample_auth)) \<and>
   isl (snd (rotate_family sample_ax 60 52 None (fst (rotate_family sample_ax 60 50 None sample_auth))))"
proof -
  let ?cf = "\<lparr>au_settings = sample_settings, au_forms = \<lparr>fo_email_ok = (\<lambda>s. True), fo_password_ok = (\<lambda>p e n. True)\<rparr>,
    au_zones = (\<lambda>z. True), au_google = True\<rparr>"
  let ?f = "sample_family 60 7 52"
  have f: "?f \<in> set (st_families sample_auth)" "50 < st_next sample_auth" "50 \<noteq> fa_current ?f" "fa_previous ?f \<noteq> Some 50"
    by (simp_all add: sample_auth_def sample_family_def)
  have r: "rotate_family sample_ax (fa_id ?f) 50 None (auth_run ?cf [] sample_auth) =
      (fst (rotate_family sample_ax 60 50 None sample_auth), snd (rotate_family sample_ax 60 50 None sample_auth))"
    by (simp add: sample_family_def)
  from replay_ends_family [OF sample_auth_ok f r, of sample_ax 52 None "[]"] show ?thesis by (simp add: sample_family_def)
qed

subsection \<open>Two holders of one session\<close>

text \<open>
  Two parties that both hold tokens of a family and take turns: each time the previous token is
  presented, which is the last one the other party did not see replaced.
\<close>

fun take_turns :: "(auth_env \<times> web_request option) list \<Rightarrow> nat \<Rightarrow> auth \<Rightarrow> auth \<times> bool" where
  "take_turns [] fid st = (st, True)"
| "take_turns ((ax, rq) # ts) fid st =
     (case first_where (\<lambda>f. fa_id f = fid) (st_families st) of
        None \<Rightarrow> (st, False)
      | Some f \<Rightarrow>
          (case fa_previous f of
             None \<Rightarrow> (st, False)
           | Some p \<Rightarrow>
               (case rotate_family ax fid p rq st of
                  (st1, Inl e) \<Rightarrow> (st1, False)
                | (st1, Inr pair) \<Rightarrow> take_turns ts fid st1)))"

text \<open>
  A stolen session that takes turns is never detected. When a family with a previous token is
  live and its user active, presenting the previous token again and again is accepted every
  time, however long it goes on: the reuse detection does not fire.
\<close>

theorem alternating_reuse_undetected:
  assumes "locked_family fid st = Some (f, u)" "fa_revoked f = None" "fa_previous f \<noteq> None" "ur_active u"
  shows "snd (take_turns ts fid st)"
  using assms
proof (induction ts arbitrary: st f u)
  case (Cons t ts)
  obtain ax rq where t: "t = (ax, rq)" by (cases t)
  obtain p where p: "fa_previous f = Some p" using Cons.prems(3) by auto
  have find: "first_where (\<lambda>f. fa_id f = fid) (st_families st) = Some f"
    and user: "first_where (\<lambda>x. ur_id x = fa_user f) (st_users st) = Some u"
    using Cons.prems(1) by (auto simp: locked_family_def split: option.splits)
  have id: "fa_id f = fid" using first_where_Some [OF find] by simp
  let ?st1 = "record_event ''refresh_ok'' (Some u) [] [(''family_id'', WId fid)] (fst (issue_token_pair ax u (Some f) rq st))"
  let ?g = "rotated_family ax rq (st_next st) f"
  have run: "rotate_family ax fid p rq st = (?st1, Inr (snd (issue_token_pair ax u (Some f) rq st)))"
    by (rule rotate_accepts [OF Cons.prems(1,2) _ Cons.prems(4)]) (simp add: p)
  have "first_where (\<lambda>f. fa_id f = fid) (st_families ?st1) = Some ?g"
    using find id by (simp add: issue_rotated first_where_update_where)
  then have "locked_family fid ?st1 = Some (?g, u)" using user by (simp add: locked_family_def)
  from Cons.IH [OF this _ _ Cons.prems(4)] Cons.prems(2) show ?case by (simp add: t find p run)
qed simp

theorem alternating_reuse_undetected_witness:
  "snd (take_turns [(sample_ax, None), (sample_ax, None), (sample_ax, None)] 60 sample_auth)"
  by (rule alternating_reuse_undetected [of 60 sample_auth "sample_family 60 7 52" "sample_user 7 ''a@x.io''"])
    (simp_all add: locked_family_def first_where_Cons sample_auth_def sample_family_def sample_user_def)

subsection \<open>Changing the password\<close>

lemma revoke_others_ends:
  assumes ok: "auth_ok st" and f: "f \<in> set (st_families st)" "fa_user f = uid" "Some (fa_id f) \<noteq> ex"
  shows "ended (fa_id f) (fst (revoke_other_sessions ax uid ex r st))"
proof -
  have "fa_revoked g \<noteq> None"
    if g: "g \<in> set (st_families (fst (revoke_other_sessions ax uid ex r st)))" "fa_id g = fa_id f" for g
  proof -
    obtain x where x: "x \<in> set (st_families st)"
      "g = (if fa_user x = uid \<and> fa_revoked x = None \<and> Some (fa_id x) \<noteq> ex then revoke_family ax r x else x)"
      using g(1) unfolding revoke_other_sessions_def revoke_where_def by (auto simp: set_update_where)
    then have "fa_id x = fa_id f" using g(2) by (simp add: revoke_family_def split: if_splits)
    then have "x = f" using family_key [OF ok x(1) f(1)] by simp
    with x(2) f show ?thesis by (simp add: revoke_family_def split: if_splits)
  qed
  then show ?thesis using ok f(1) by (simp add: ended_def revoke_other_sessions_def revoke_where_def auth_ok_def)
qed

lemma set_password_ok: "auth_ok st \<Longrightarrow> auth_ok (set_password ax uid pw st)"
  using safe_set_password [OF safe_step_refl] unfolding safe_step_def by blast

lemma verified_ok: "auth_ok st \<Longrightarrow> auth_ok (update_user uid (\<lambda>x. x\<lparr>ur_verified := b\<rparr>) st)"
  using safe_update_user [OF safe_step_refl, of "\<lambda>x. x\<lparr>ur_verified := b\<rparr>" st uid] unfolding safe_step_def by simp

text \<open>A reset that hands out tokens went through these steps.\<close>

lemma reset_confirm_tokens:
  assumes "password_reset_confirm ax fo rq raw pw st = (st', Tokens pair)"
  obtains uid u0 rows where "consume_token ax (py_strip raw) (st_reset st) = (rows, Some uid)"
    "find_user uid (st\<lparr>st_reset := rows\<rparr>) = Some u0"
    "(st', Tokens pair) =
       issue_for ax (u0\<lparr>ur_password := ax_make_password ax (st_next st) pw, ur_verified := True\<rparr>) rq
         (record_event ''password_reset_confirmed'' (Some (u0\<lparr>ur_password := ax_make_password ax (st_next st) pw, ur_verified := True\<rparr>)) [] []
           (fst (revoke_other_sessions ax uid None ''password_reset''
             (clear_failed_logins (ur_email u0)
               (update_user uid (\<lambda>x. x\<lparr>ur_verified := True\<rparr>) (set_password ax uid pw (st\<lparr>st_reset := rows\<rparr>)))))))"
proof -
  obtain rows r where c: "consume_token ax (py_strip raw) (st_reset st) = (rows, r)" by fastforce
  note simps = password_reset_confirm_def token_invalid_def Let_def
  have len: "password_length_ok pw" using assms by (cases "password_length_ok pw") (simp_all add: simps)
  have tok: "py_strip raw \<noteq> []" using assms len by (cases "py_strip raw = []") (simp_all add: simps)
  have pol: "password_policy fo pw [] []" using assms len tok by (cases "password_policy fo pw [] []") (simp_all add: simps)
  have "r \<noteq> None" using assms len tok pol c by (cases r) (simp_all add: simps)
  with len tok pol have valid: "password_length_ok pw" "py_strip raw \<noteq> []" "password_policy fo pw [] []" "r \<noteq> None" by simp_all
  then obtain uid where r: "r = Some uid" by blast
  have run: "password_reset_confirm ax fo rq raw pw st =
      (case find_user uid (st\<lparr>st_reset := rows\<rparr>) of
         None \<Rightarrow> (st\<lparr>st_reset := rows\<rparr>, AuthRaised)
       | Some u0 \<Rightarrow>
           issue_for ax (u0\<lparr>ur_password := ax_make_password ax (st_next st) pw, ur_verified := True\<rparr>) rq
             (record_event ''password_reset_confirmed'' (Some (u0\<lparr>ur_password := ax_make_password ax (st_next st) pw, ur_verified := True\<rparr>)) [] []
               (fst (revoke_other_sessions ax uid None ''password_reset''
                 (clear_failed_logins (ur_email u0)
                   (update_user uid (\<lambda>x. x\<lparr>ur_verified := True\<rparr>) (set_password ax uid pw (st\<lparr>st_reset := rows\<rparr>))))))))"
    unfolding password_reset_confirm_def Let_def using valid(1-3) c r by (simp cong: option.case_cong)
  show thesis
  proof (cases "find_user uid (st\<lparr>st_reset := rows\<rparr>)")
    case None
    with run assms show thesis by simp
  next
    case (Some u0)
    with run assms c r that show thesis by simp
  qed
qed

lemma issue_for_user: "issue_for ax u rq st = (st', Tokens pair) \<Longrightarrow> uv_id (pr_user pair) = ur_id u"
  by (auto simp: issue_for_def issue_token_pair_def Let_def serialize_user_def)

text \<open>
  A password reset ends every session. Once a reset has been confirmed, no refresh token of any
  session the user had before is accepted, whatever requests follow.
\<close>

theorem reset_ends_sessions:
  assumes ok: "auth_ok st" and reset: "password_reset_confirm ax fo rq raw pw st = (st', Tokens pair)"
    and f: "f \<in> set (st_families st)" "fa_user f = uv_id (pr_user pair)"
  shows "isl (snd (rotate_family ax' (fa_id f) jti rq' (auth_run cf ops st')))"
proof -
  from reset obtain uid u0 rows where c: "consume_token ax (py_strip raw) (st_reset st) = (rows, Some uid)"
    and u0: "find_user uid (st\<lparr>st_reset := rows\<rparr>) = Some u0"
    and run: "(st', Tokens pair) =
       issue_for ax (u0\<lparr>ur_password := ax_make_password ax (st_next st) pw, ur_verified := True\<rparr>) rq
         (record_event ''password_reset_confirmed'' (Some (u0\<lparr>ur_password := ax_make_password ax (st_next st) pw, ur_verified := True\<rparr>)) [] []
           (fst (revoke_other_sessions ax uid None ''password_reset''
             (clear_failed_logins (ur_email u0)
               (update_user uid (\<lambda>x. x\<lparr>ur_verified := True\<rparr>) (set_password ax uid pw (st\<lparr>st_reset := rows\<rparr>)))))))"
    by (rule reset_confirm_tokens)
  let ?st1 = "clear_failed_logins (ur_email u0)
    (update_user uid (\<lambda>x. x\<lparr>ur_verified := True\<rparr>) (set_password ax uid pw (st\<lparr>st_reset := rows\<rparr>)))"
  let ?st2 = "fst (revoke_other_sessions ax uid None ''password_reset'' ?st1)"
  have uid: "fa_user f = uid" using f(2) issue_for_user [OF run [symmetric]] find_user_ids [OF u0] by simp
  have fams: "st_families ?st1 = st_families st"
    by (simp add: clear_failed_logins_def update_user_def set_password_def)
  have "auth_ok (st\<lparr>st_reset := rows\<rparr>)" using ok by (rule auth_ok_frame [rotated 3]) simp_all
  then have "auth_ok (update_user uid (\<lambda>x. x\<lparr>ur_verified := True\<rparr>) (set_password ax uid pw (st\<lparr>st_reset := rows\<rparr>)))"
    by (intro verified_ok set_password_ok)
  then have "auth_ok ?st1" by (rule auth_ok_frame [rotated 3]) (simp_all add: clear_failed_logins_def)
  from revoke_others_ends [OF this, of f uid None] fams f(1) uid have ended: "ended (fa_id f) ?st2" by simp
  have "ur_id u0 \<in> user_ids ?st2" using find_user_ids [OF u0] by simp
  then have "safe_step ?st2 (fst (st', Tokens pair))"
    unfolding run by (intro safe_issue_ids safe_event safe_step_refl) simp
  then have "safe_step ?st2 st'" by simp
  from ended_refused [OF ended_run [OF ended_stays [OF ended this]]] show ?thesis .
qed

definition sample_forms :: auth_forms where
  "sample_forms = \<lparr>fo_email_ok = (\<lambda>s. True), fo_password_ok = (\<lambda>p e n. True)\<rparr>"

definition sample_config :: auth_config where
  "sample_config = \<lparr>au_settings = sample_settings, au_forms = sample_forms, au_zones = (\<lambda>z. True), au_google = True\<rparr>"

definition sample_reset :: "auth \<times> auth_response" where
  "sample_reset = password_reset_confirm sample_ax sample_forms (sample_web ''10.0.0.1'') ''tok'' ''new password 1'' sample_auth"

lemma sample_reset_tokens:
  "\<exists>pair. sample_reset = (fst sample_reset, Tokens pair) \<and> uv_id (pr_user pair) = 7 \<and> uv_mfa (pr_user pair)"
proof -
  have "(case snd sample_reset of Tokens pair \<Rightarrow> uv_id (pr_user pair) = 7 \<and> uv_mfa (pr_user pair) | _ \<Rightarrow> False)" by code_simp
  then show ?thesis by (cases "snd sample_reset") (simp_all add: prod_eq_iff)
qed

theorem reset_ends_sessions_witness: "isl (snd (rotate_family sample_ax 60 52 None (fst sample_reset)))"
proof -
  obtain pair where r: "sample_reset = (fst sample_reset, Tokens pair)" "uv_id (pr_user pair) = 7" using sample_reset_tokens by blast
  have f: "sample_family 60 7 52 \<in> set (st_families sample_auth)" "fa_user (sample_family 60 7 52) = uv_id (pr_user pair)"
    using r(2) by (simp_all add: sample_auth_def sample_family_def)
  from reset_ends_sessions [OF sample_auth_ok r(1) [unfolded sample_reset_def] f, of sample_ax 52 None sample_config "[]"]
  show ?thesis by (simp add: sample_family_def sample_reset_def)
qed

text \<open>
  A password change ends the other sessions. Once it is accepted no refresh token of another
  session of the user is accepted, and the session it was made in goes on.
\<close>

theorem change_ends_other_sessions:
  assumes ok: "auth_ok st" and u: "ur_id u \<in> ur_id ` set (st_users st)"
    and change: "password_change ax fo u current old new st = (st', AuthOk 200)"
    and f: "f \<in> set (st_families st)" "fa_user f = ur_id u"
  shows "(current \<noteq> Some (fa_id f) \<longrightarrow> isl (snd (rotate_family ax' (fa_id f) jti rq' (auth_run cf ops st')))) \<and>
    (current = Some (fa_id f) \<longrightarrow> f \<in> set (st_families st'))"
proof -
  have st': "st' = record_event ''password_changed'' (Some u) [] []
      (fst (revoke_other_sessions ax (ur_id u) current ''password_changed'' (set_password ax (ur_id u) new st)))"
    using change by (auto simp: password_change_def Let_def split: if_splits option.splits)
  let ?st1 = "set_password ax (ur_id u) new st"
  have fams: "st_families ?st1 = st_families st" by (simp add: set_password_def update_user_def)
  have "isl (snd (rotate_family ax' (fa_id f) jti rq' (auth_run cf ops st')))" if "current \<noteq> Some (fa_id f)"
  proof -
    have "ended (fa_id f) (fst (revoke_other_sessions ax (ur_id u) current ''password_changed'' ?st1))"
      by (rule revoke_others_ends [OF set_password_ok [OF ok]]) (use fams f that in auto)
    then have "ended (fa_id f) st'" unfolding st' by (rule ended_stays [OF _ safe_event [OF safe_step_refl]])
    then show ?thesis by (intro ended_refused ended_run)
  qed
  moreover have "f \<in> set (st_families st')" if "current = Some (fa_id f)"
    using f(1) fams that by (auto simp: st' revoke_other_sessions_def revoke_where_def set_update_where image_iff intro!: bexI [of _ f])
  ultimately show ?thesis by blast
qed

theorem change_ends_other_sessions_witness:
  "isl (snd (rotate_family sample_ax 60 52 None
     (fst (password_change sample_ax sample_forms (sample_user 7 ''a@x.io'') (Some 99) ''secret'' ''new password 1'' sample_auth))))"
proof -
  let ?change = "password_change sample_ax sample_forms (sample_user 7 ''a@x.io'') (Some 99) ''secret'' ''new password 1'' sample_auth"
  have "snd ?change = AuthOk 200" by code_simp
  then have c: "?change = (fst ?change, AuthOk 200)" by (simp add: prod_eq_iff)
  have f: "sample_family 60 7 52 \<in> set (st_families sample_auth)" "fa_user (sample_family 60 7 52) = ur_id (sample_user 7 ''a@x.io'')"
    "ur_id (sample_user 7 ''a@x.io'') \<in> ur_id ` set (st_users sample_auth)"
    by (simp_all add: sample_auth_def sample_family_def sample_user_def)
  from change_ends_other_sessions [OF sample_auth_ok f(3) c f(1,2), of sample_ax 52 None sample_config "[]"]
  show ?thesis by (simp add: sample_family_def)
qed

subsection \<open>One-time tokens over requests\<close>

lemma consume_accepted_spends: "consume_token ax raw rows = (rows', Some uid) \<Longrightarrow> token_spent (ax_sha256 ax raw) rows'"
  using tokens.accepted_spends [of ax raw rows] by auto

lemma spent_not_reset: "token_spent (ax_sha256 ax (py_strip raw)) (st_reset st) \<Longrightarrow> snd (password_reset_confirm ax fo rq raw pw st) \<noteq> Tokens pair"
proof -
  assume "token_spent (ax_sha256 ax (py_strip raw)) (st_reset st)"
  then have "snd (consume_token ax (py_strip raw) (st_reset st)) = None" by (rule tokens.spent_refused)
  then show ?thesis
    by (cases "consume_token ax (py_strip raw) (st_reset st)") (simp add: password_reset_confirm_def token_invalid_def Let_def)
qed

text \<open>
  A reset token works once. After a confirmed reset the same token is refused, whatever requests
  come in between and whatever password is sent with it.
\<close>

theorem reset_token_once:
  assumes reset: "password_reset_confirm ax fo rq raw pw st = (st', Tokens pair)"
    and again: "ax_sha256 ax' = ax_sha256 ax" "py_strip raw' = py_strip raw"
  shows "snd (password_reset_confirm ax' fo rq' raw' pw' (auth_run cf ops st')) \<noteq> Tokens pair'"
proof -
  from reset obtain uid u0 rows where c: "consume_token ax (py_strip raw) (st_reset st) = (rows, Some uid)"
    and run: "(st', Tokens pair) =
       issue_for ax (u0\<lparr>ur_password := ax_make_password ax (st_next st) pw, ur_verified := True\<rparr>) rq
         (record_event ''password_reset_confirmed'' (Some (u0\<lparr>ur_password := ax_make_password ax (st_next st) pw, ur_verified := True\<rparr>)) [] []
           (fst (revoke_other_sessions ax uid None ''password_reset''
             (clear_failed_logins (ur_email u0)
               (update_user uid (\<lambda>x. x\<lparr>ur_verified := True\<rparr>) (set_password ax uid pw (st\<lparr>st_reset := rows\<rparr>)))))))"
    by (rule reset_confirm_tokens)
  have "st_reset (fst (st', Tokens pair)) = rows"
    unfolding run by (simp add: issue_for_def case_prod_beta revoke_other_sessions_def revoke_where_def clear_failed_logins_def
        update_user_def set_password_def)
  then have "token_spent (ax_sha256 ax (py_strip raw)) (st_reset st')" using consume_accepted_spends [OF c] by simp
  moreover have "spent_kept (st_reset st') (st_reset (auth_run cf ops st'))"
    using safe_auth_run [of st' cf ops] by (simp add: safe_step_def tokens_kept_def)
  ultimately have "token_spent (ax_sha256 ax' (py_strip raw')) (st_reset (auth_run cf ops st'))"
    using again by (simp add: spent_kept_def)
  then show ?thesis by (rule spent_not_reset)
qed

theorem reset_token_once_witness:
  "snd (password_reset_confirm sample_ax sample_forms (sample_web ''10.0.0.2'') '' tok'' ''other password 2'' (fst sample_reset)) \<noteq>
   Tokens \<lparr>pr_access = [], pr_refresh = [], pr_user = serialize_user (sample_user 7 ''a@x.io'') sample_auth\<rparr>"
proof -
  obtain pair where "sample_reset = (fst sample_reset, Tokens pair)" using sample_reset_tokens by blast
  moreover have "py_strip '' tok'' = py_strip ''tok''" by code_simp
  ultimately show ?thesis
    using reset_token_once [of sample_ax sample_forms "sample_web ''10.0.0.1''" "''tok''" "''new password 1''" sample_auth
        "fst sample_reset" pair sample_ax "'' tok''" "sample_web ''10.0.0.2''" "''other password 2''" sample_config "[]"]
    by (simp add: sample_reset_def)
qed

subsection \<open>The second factor\<close>

lemma challenge_tokens:
  assumes "challenge_or_pair ax cfg rq u e w wo st = (st', Tokens pair)" "as_mfa_enabled cfg"
  shows "\<not> user_mfa (uv_id (pr_user pair)) st"
proof (cases "user_mfa (ur_id u) st")
  case False
  with assms have "issue_for ax u rq st = (fst (issue_for ax u rq st), Tokens pair)"
    by (auto simp: challenge_or_pair_def Let_def case_prod_beta prod_eq_iff)
  with issue_for_user False show ?thesis by metis
qed (use assms in \<open>simp add: challenge_or_pair_def Let_def case_prod_beta\<close>)

lemma mfa_verify_tokens:
  assumes "mfa_verify ax cfg rq ltd tok raw b st = (st', Tokens pair)"
  shows "\<exists>u d code. code_field 16 raw = Some code \<and> ur_id u = uv_id (pr_user pair) \<and> device_of (ur_id u) st = Some d \<and>
    snd (login_code ax cfg u d code b st) = Some True"
  using assms
  by (auto simp: mfa_verify_def Let_def token_invalid_def split: if_splits option.splits prod.splits bool.splits
      dest!: issue_for_user find_user_ids)

lemma no_tokens:
  "snd (register ax fo ltd email name pw st) \<noteq> Tokens p" "snd (resend_verification ax fo ltd email st) \<noteq> Tokens p"
  "snd (logout ax body cookie st) \<noteq> Tokens p" "snd (password_reset ax fo ltd email st) \<noteq> Tokens p"
  "snd (mfa_enroll ax cfg u st) \<noteq> Tokens p" "snd (mfa_enroll_confirm ax cfg u raw st) \<noteq> Tokens p"
  "snd (profile_update zones u q st) \<noteq> Tokens p" "snd (password_change ax fo u fam old new st) \<noteq> Tokens p"
  "snd (sessions_revoke ax u fam every fid st) \<noteq> Tokens p" "snd (oauth_post_callback ax cfg user joined st) \<noteq> Tokens p"
  by (auto simp: register_def resend_verification_def logout_def password_reset_def mfa_enroll_def mfa_enroll_confirm_def
      profile_update_def password_change_def sessions_revoke_def oauth_post_callback_def Let_def case_prod_beta
      split: option.splits)

lemma reauthenticate_no_tokens: "reauthenticate ax cfg u hi phase pw raw st = Some r \<Longrightarrow> snd r \<noteq> Tokens p"
  by (auto simp: reauthenticate_def split: if_splits option.splits)

lemma no_tokens_reauthenticated:
  "snd (mfa_disable ax cfg u pw raw st) \<noteq> Tokens p" "snd (mfa_regenerate ax cfg u pw raw st) \<noteq> Tokens p"
  using reauthenticate_no_tokens
  by (auto simp: mfa_disable_def mfa_regenerate_def Let_def case_prod_beta split: option.splits)

lemma login_tokens:
  assumes "login ax cfg fo rq ltd raw pw st = (st', Tokens pair)"
  shows "\<exists>u email. challenge_or_pair ax cfg rq u ''login_ok'' [(''mfa_required'', WBool True)] [] (clear_failed_logins email st) =
    (st', Tokens pair)"
  using assms by (auto simp: login_def Let_def split: if_splits option.splits)

lemma exchange_tokens:
  assumes "oauth_exchange ax cfg en rq raw st = (st', Tokens pair)"
  shows "\<exists>u rows. challenge_or_pair ax cfg rq u ''oauth_exchange_ok'' [(''mfa_required'', WBool True)]
    [(''mfa_required'', WBool False)] (st\<lparr>st_exchange := rows\<rparr>) = (st', Tokens pair)"
  using assms by (auto simp: oauth_exchange_def Let_def split: if_splits option.splits prod.splits)

lemma with_user_tokens:
  "(\<And>u. snd (f u st) \<noteq> Tokens p) \<Longrightarrow> snd (with_user uid f st) \<noteq> Tokens p"
  by (simp add: with_user_def split: option.split)

text \<open>
  C22. Which requests hand tokens to an enrolled user. With MFA on, a user with a verified device
  gets tokens only from the MFA challenge, after a code that was checked, from a refresh, or from
  the two mail links: the verification of the e-mail and the password reset.
\<close>

theorem tokens_need_second_factor:
  assumes step: "auth_step cf ax rq op st = (st', Tokens pair)" and on: "as_mfa_enabled (au_settings cf)"
    and enrolled: "user_mfa (uv_id (pr_user pair)) st"
  shows "(\<exists>ltd tok raw b u d code. op = MfaVerify ltd tok raw b \<and> code_field 16 raw = Some code \<and>
            ur_id u = uv_id (pr_user pair) \<and> device_of (ur_id u) st = Some d \<and>
            snd (login_code ax (au_settings cf) u d code b st) = Some True) \<or>
    (\<exists>body cookie. op = Refresh body cookie) \<or> (\<exists>raw. op = VerifyEmail raw) \<or> (\<exists>raw pw. op = ResetConfirm raw pw)"
proof (cases op)
  case (MfaVerify ltd tok raw b)
  with step have "mfa_verify ax (au_settings cf) rq ltd tok raw b st = (st', Tokens pair)" by simp
  from mfa_verify_tokens [OF this] MfaVerify show ?thesis by blast
next
  case (Login ltd email pw)
  with step have "login ax (au_settings cf) (au_forms cf) rq ltd email pw st = (st', Tokens pair)" by simp
  from login_tokens [OF this] challenge_tokens [OF _ on] enrolled show ?thesis
    by (fastforce simp: user_mfa_def clear_failed_logins_def)
next
  case (OauthExchange raw)
  with step have "oauth_exchange ax (au_settings cf) (au_google cf) rq raw st = (st', Tokens pair)" by simp
  from exchange_tokens [OF this] challenge_tokens [OF _ on] enrolled show ?thesis
    by (fastforce simp: user_mfa_def)
qed (use step [THEN arg_cong, of snd] in
    \<open>simp_all add: no_tokens no_tokens_reauthenticated with_user_tokens\<close>)

definition challenge_ax :: auth_env where
  "challenge_ax = sample_ax\<lparr>ax_decode := (\<lambda>t now raw. if t = MFA_CHALLENGE \<and> raw = ''challenge''
     then Some (sample_claims\<lparr>cl_jti := 55, cl_purpose := ''mfa''\<rparr>) else None)\<rparr>"

theorem tokens_need_second_factor_witness:
  "\<exists>u d code. code_field 16 ''123456'' = Some code \<and> ur_id u = 7 \<and> device_of 7 sample_auth = Some d \<and>
     snd (login_code challenge_ax sample_settings u d code False sample_auth) = Some True"
proof -
  let ?op = "MfaVerify False ''challenge'' ''123456'' False"
  let ?r = "auth_step sample_config challenge_ax (sample_web ''10.0.0.1'') ?op sample_auth"
  have "(case snd ?r of Tokens pair \<Rightarrow> uv_id (pr_user pair) = 7 | _ \<Rightarrow> False)" by code_simp
  then obtain pair where r: "?r = (fst ?r, Tokens pair)" "uv_id (pr_user pair) = 7"
    by (cases "snd ?r") (simp_all add: prod_eq_iff)
  have "user_mfa (uv_id (pr_user pair)) sample_auth" unfolding r(2) by code_simp
  moreover have "as_mfa_enabled (au_settings sample_config)" by (simp add: sample_config_def sample_settings_def)
  ultimately show ?thesis using tokens_need_second_factor [OF r(1)] r(2) by (auto simp: sample_config_def)
qed

text \<open>
  The password reset skips the second factor. A confirmed reset hands a full token pair to an
  enrolled user, with MFA on, and asks for no code.
\<close>

theorem reset_skips_second_factor:
  assumes form: "password_length_ok pw" "password_policy fo pw [] []" "py_strip raw \<noteq> []"
    and tok: "first_where (\<lambda>t. tn_hash t = ax_sha256 ax (py_strip raw)) (st_reset st) = Some t" "tn_consumed t = None"
      "ax_now ax \<le> tn_expires t"
    and u: "find_user (tn_user t) st = Some u"
  shows "\<exists>st' pair. password_reset_confirm ax fo rq raw pw st = (st', Tokens pair) \<and> uv_id (pr_user pair) = tn_user t \<and>
    uv_mfa (pr_user pair) = user_mfa (tn_user t) st"
proof -
  have c: "consume_token ax (py_strip raw) (st_reset st) = (mark_consumed ax (tn_id t) (st_reset st), Some (tn_user t))"
    using tok by (simp add: consume_token_def mark_consumed_def)
  have u': "find_user (tn_user t) (st\<lparr>st_reset := rows\<rparr>) = Some u" for rows using u by (simp add: find_user_def)
  have "ur_id u = tn_user t" using find_user_ids [OF u] by simp
  then show ?thesis using form c
    by (simp add: password_reset_confirm_def Let_def u' issue_for_def issue_token_pair_def serialize_user_def user_mfa_def
        revoke_other_sessions_def revoke_where_def clear_failed_logins_def update_user_def set_password_def)
qed

theorem reset_skips_second_factor_witness:
  "\<exists>st' pair. password_reset_confirm sample_ax sample_forms (sample_web ''10.0.0.1'') ''tok'' ''new password 1'' sample_auth =
     (st', Tokens pair) \<and> uv_mfa (pr_user pair)"
proof -
  let ?t = "\<lparr>tn_id = 70, tn_user = 7, tn_hash = ''tok'', tn_created = 5, tn_expires = 5000, tn_consumed = None\<rparr> :: token_row"
  have strip: "py_strip ''tok'' = ''tok''" by code_simp
  have tok: "first_where (\<lambda>t. tn_hash t = ax_sha256 sample_ax (py_strip ''tok'')) (st_reset sample_auth) = Some ?t"
    by (simp add: strip first_where_Cons sample_auth_def sample_ax_def)
  have form: "password_length_ok ''new password 1''" "password_policy sample_forms ''new password 1'' [] []" by code_simp+
  have u: "find_user 7 sample_auth = Some (sample_user 7 ''a@x.io'')"
    by (simp add: find_user_def first_where_Cons sample_auth_def sample_user_def)
  have "user_mfa 7 sample_auth" by code_simp
  with reset_skips_second_factor [OF form _ tok, of "sample_user 7 ''a@x.io''" "sample_web ''10.0.0.1''"] u strip
  show ?thesis by (force simp: sample_ax_def)
qed

end
