(* ===== verification/Auth_Limits.thy ===== *)
theory Auth_Limits
  imports Auth_Safety
begin

text \<open>
  The attempt limits of a login over any sequence of requests: how many codes of the MFA challenge
  are ever checked, and which address a failed password counts for.
\<close>

subsection \<open>Guessing the code of a challenge\<close>

lemma limit_keys [simp]:
  "login_fail_key uid \<noteq> jti_fail_key jti" "login_fail_key uid \<noteq> burn_key jti" "jti_fail_key jti \<noteq> login_fail_key uid"
  "burn_key jti \<noteq> login_fail_key uid" "login_fail_key a = login_fail_key b \<longleftrightarrow> a = b"
  by (auto simp: login_fail_key_def jti_fail_key_def burn_key_def simp: nat_str_inj)

lemma login_code_cache: "st_cache (fst (login_code ax cfg u d code b st)) = st_cache st"
  by (simp add: login_code_def consume_backup_code_def case_prod_beta Let_def)

lemma mfa_verify_cases:
  obtains (refused) r where "mfa_verify ax cfg rq ltd tok raw b st = (st, r)" "\<forall>p. r \<noteq> Tokens p" "r \<noteq> AuthFail 401 ''MFA_CODE_INVALID''"
    | (raised) st1 where "mfa_verify ax cfg rq ltd tok raw b st = (st1, AuthRaised)" "st_cache st1 = st_cache st"
    | (missed) uid jti st1 where "decode_mfa_token_claims ax (py_strip tok) = Some (uid, jti)"
        "failures (st_cache st) (ax_now ax) (login_fail_key uid) < as_login_failures cfg" "st_cache st1 = st_cache st"
        "mfa_verify ax cfg rq ltd tok raw b st = (login_code_failed ax cfg uid jti st1, AuthFail 401 ''MFA_CODE_INVALID'')"
    | (passed) uid jti p where "decode_mfa_token_claims ax (py_strip tok) = Some (uid, jti)"
        "snd (mfa_verify ax cfg rq ltd tok raw b st) = Tokens p"
        "st_cache (fst (mfa_verify ax cfg rq ltd tok raw b st)) =
           cache_delete (cache_delete (st_cache st) (login_fail_key uid)) (jti_fail_key jti)"
proof -
  note unf = mfa_verify_def Let_def
  show thesis
  proof (cases "as_mfa_enabled cfg \<and> \<not> ltd \<and> py_strip tok \<noteq> []")
    case False
    show thesis by (rule refused [of "snd (mfa_verify ax cfg rq ltd tok raw b st)"])
      (use False in \<open>auto simp: unf split: option.splits\<close>)
  next
    case True
    show thesis
    proof (cases "code_field 16 raw")
      case None
      show thesis by (rule refused) (use True None in \<open>auto simp: unf\<close>)
    next
      case code: (Some code)
      show thesis
      proof (cases "decode_mfa_token_claims ax (py_strip tok)")
        case None
        show thesis by (rule refused) (use True None code in \<open>auto simp: unf token_invalid_def\<close>)
      next
        case dec: (Some p)
        obtain uid jti where p: "p = (uid, jti)" by (cases p)
        show thesis
        proof (cases "cache_get (st_cache st) (ax_now ax) (burn_key jti) \<in> {None, Some 0} \<and>
            failures (st_cache st) (ax_now ax) (login_fail_key uid) < as_login_failures cfg \<and>
            (\<exists>u d. find_user uid st = Some u \<and> device_of uid st = Some d \<and> ur_active u)")
          case False
          show thesis by (rule refused [of "snd (mfa_verify ax cfg rq ltd tok raw b st)"])
            (use True False code dec p in \<open>auto simp: unf token_invalid_def split: option.splits\<close>)
        next
          case ok: True
          then obtain u d where ud: "find_user uid st = Some u" "device_of uid st = Some d" "ur_active u" by blast
          obtain st1 res where lc: "login_code ax cfg u d code b st = (st1, res)" by fastforce
          have cache: "st_cache st1 = st_cache st" using login_code_cache [of ax cfg u d code b st] lc by simp
          have burn: "cache_get (st_cache st) (ax_now ax) (burn_key jti) \<notin> {None, Some 0} \<longleftrightarrow> False" using ok by simp
          have run: "mfa_verify ax cfg rq ltd tok raw b st =
            (case (st1, res) of
               (st1, None) \<Rightarrow> (st1, AuthRaised)
             | (st1, Some False) \<Rightarrow>
                 (login_code_failed ax cfg uid jti (mfa_fail u [(''phase'', WStr ''login''), (''kind'', code_kind b)] st1),
                  AuthFail 401 ''MFA_CODE_INVALID'')
             | (st1, Some True) \<Rightarrow>
                 issue_for ax u rq
                   (record_event ''mfa_challenge_ok'' (Some u) [] [(''kind'', code_kind b)]
                      (st1\<lparr>st_cache := cache_delete (cache_delete (st_cache st1) (login_fail_key uid)) (jti_fail_key jti)\<rparr>)))"
            using True ok ud lc code dec p unfolding unf by (simp del: insert_iff add: burn)
          show thesis
          proof (cases res)
            case None
            with run cache raised show thesis by simp
          next
            case (Some good)
            show thesis
            proof (cases good)
              case True
              with run Some cache dec p show thesis
                by (intro passed [of uid jti]) (simp_all add: issue_for_def case_prod_beta)
            next
              case False
              with run Some cache dec p ok show thesis
                by (intro missed [of uid jti]) (simp_all add: mfa_fail_def)
            qed
          qed
        qed
      qed
    qed
  qed
qed

text \<open>An attempt is a request to the challenge endpoint; a miss is a wrong code for the user that was checked.\<close>

type_synonym login_try = "auth_env \<times> web_request \<times> string \<times> string \<times> bool"

definition login_try_step :: "auth_settings \<Rightarrow> login_try \<Rightarrow> auth \<Rightarrow> auth \<times> auth_response" where
  "login_try_step cfg a st = (case a of (ax, rq, tok, raw, b) \<Rightarrow> mfa_verify ax cfg rq False tok raw b st)"

definition login_try_user :: "login_try \<Rightarrow> nat option" where
  "login_try_user a = (case a of (ax, rq, tok, raw, b) \<Rightarrow> map_option fst (decode_mfa_token_claims ax (py_strip tok)))"

definition login_missed :: "auth_settings \<Rightarrow> nat \<Rightarrow> login_try \<Rightarrow> auth \<Rightarrow> bool" where
  "login_missed cfg uid a st \<longleftrightarrow> login_try_user a = Some uid \<and> snd (login_try_step cfg a st) = AuthFail 401 ''MFA_CODE_INVALID''"

definition gives_tokens :: "auth_response \<Rightarrow> bool" where
  "gives_tokens r = (case r of Tokens p \<Rightarrow> True | _ \<Rightarrow> False)"

lemma gives_tokens_iff [simp]: "gives_tokens r \<longleftrightarrow> (\<exists>p. r = Tokens p)"
  by (cases r) (simp_all add: gives_tokens_def)

definition login_passed :: "auth_settings \<Rightarrow> nat \<Rightarrow> login_try \<Rightarrow> auth \<Rightarrow> bool" where
  "login_passed cfg uid a st \<longleftrightarrow> login_try_user a = Some uid \<and> gives_tokens (snd (login_try_step cfg a st))"

lemma failures_other:
  "k' \<noteq> k \<Longrightarrow> failures (snd (count_failure c now k w)) t k' = failures c t k'"
  "k' \<noteq> k \<Longrightarrow> failures (cache_set c now k v w) t k' = failures c t k'"
  by (simp_all add: failures_def count_failure_other) (simp add: cache_get_def cache_set_def)

lemma cache_set_positive: "0 < v \<Longrightarrow> positive_counter c k' \<Longrightarrow> positive_counter (cache_set c now k v w) k'"
  by (simp add: positive_counter_def cache_set_def)

lemma code_failed_counts:
  assumes "positive_counter (st_cache st) (login_fail_key uid)" "ax_now ax \<le> t" "t < ax_now ax + seconds (as_login_window cfg)"
    "failures (st_cache st) t (login_fail_key uid) = failures (st_cache st) (ax_now ax) (login_fail_key uid)"
  shows "failures (st_cache (login_code_failed ax cfg uid jti st)) t (login_fail_key uid) =
    failures (st_cache st) (ax_now ax) (login_fail_key uid) + 1"
  using count_failure_counts [OF assms]
  by (simp add: login_code_failed_def Let_def case_prod_beta failures_other)

lemma code_failed_other:
  "uid' \<noteq> uid \<Longrightarrow> failures (st_cache (login_code_failed ax cfg uid' jti st)) t (login_fail_key uid) =
     failures (st_cache st) t (login_fail_key uid)"
  by (simp add: login_code_failed_def Let_def case_prod_beta failures_other)

lemma code_failed_positive:
  "positive_counter (st_cache st) (login_fail_key uid) \<Longrightarrow>
   positive_counter (st_cache (login_code_failed ax cfg uid' jti st)) (login_fail_key uid)"
  by (simp add: login_code_failed_def Let_def case_prod_beta count_failure_positive cache_set_positive)

interpretation challenge: attempt_limit "\<lambda>st t. failures (st_cache st) t (login_fail_key uid)" "\<lambda>a. ax_now (fst a)"
  "\<lambda>a st. fst (login_try_step cfg a st)" "login_missed cfg uid" "login_passed cfg uid"
  "\<lambda>st. positive_counter (st_cache st) (login_fail_key uid)" "as_login_failures cfg" "as_login_window cfg"
  for cfg uid
proof
  fix a :: login_try and st t
  obtain ax rq tok raw b where a: "a = (ax, rq, tok, raw, b)" by (cases a)
  let ?k = "login_fail_key uid"
  note unf = a login_missed_def login_passed_def login_try_step_def login_try_user_def
  show "failures (st_cache st) (ax_now (fst a)) ?k < as_login_failures cfg" if m: "login_missed cfg uid a st"
  proof (cases rule: mfa_verify_cases [of ax cfg rq False tok raw b st])
    case (missed uid' jti st1)
    then have "uid' = uid" using m by (simp add: unf)
    with missed show ?thesis by (simp add: a)
  qed (use m in \<open>simp_all add: unf\<close>)
  show "failures (st_cache (fst (login_try_step cfg a st))) t ?k = failures (st_cache st) (ax_now (fst a)) ?k + 1"
    if "positive_counter (st_cache st) ?k" and m: "login_missed cfg uid a st" and "ax_now (fst a) \<le> t"
      "t < ax_now (fst a) + seconds (as_login_window cfg)" "failures (st_cache st) t ?k = failures (st_cache st) (ax_now (fst a)) ?k"
  proof (cases rule: mfa_verify_cases [of ax cfg rq False tok raw b st])
    case (missed uid' jti st1)
    then have "uid' = uid" using m by (simp add: unf)
    with missed code_failed_counts [of st1 uid ax t cfg jti] that show ?thesis by (simp add: unf)
  qed (use m in \<open>simp_all add: unf\<close>)
  show "failures (st_cache (fst (login_try_step cfg a st))) t ?k = failures (st_cache st) t ?k"
    if "\<not> login_missed cfg uid a st" "\<not> login_passed cfg uid a st" "ax_now (fst a) \<le> t"
  proof (cases rule: mfa_verify_cases [of ax cfg rq False tok raw b st])
    case (missed uid' jti st1)
    then have "uid' \<noteq> uid" using that(1) by (auto simp: unf)
    with missed code_failed_other [of uid' uid] show ?thesis by (simp add: unf)
  next
    case (passed uid' jti p)
    then have "uid' \<noteq> uid" using that(2) by (auto simp: unf)
    with passed show ?thesis by (simp add: unf failures_def cache_get_def cache_delete_def)
  qed (simp_all add: unf)
  show "positive_counter (st_cache (fst (login_try_step cfg a st))) ?k" if "positive_counter (st_cache st) ?k"
    using that
    by (cases rule: mfa_verify_cases [of ax cfg rq False tok raw b st])
      (simp_all add: unf code_failed_positive cache_delete_positive)
qed

fun wrong_challenges :: "auth_settings \<Rightarrow> nat \<Rightarrow> login_try list \<Rightarrow> auth \<Rightarrow> nat" where
  "wrong_challenges cfg uid [] st = 0"
| "wrong_challenges cfg uid (a # as) st =
     (if login_missed cfg uid a st then 1 else 0) + wrong_challenges cfg uid as (fst (login_try_step cfg a st))"

fun after_challenges :: "auth_settings \<Rightarrow> login_try list \<Rightarrow> auth \<Rightarrow> auth" where
  "after_challenges cfg [] st = st"
| "after_challenges cfg (a # as) st = after_challenges cfg as (fst (login_try_step cfg a st))"

fun no_login :: "auth_settings \<Rightarrow> nat \<Rightarrow> login_try list \<Rightarrow> auth \<Rightarrow> bool" where
  "no_login cfg uid [] st \<longleftrightarrow> True"
| "no_login cfg uid (a # as) st \<longleftrightarrow> \<not> login_passed cfg uid a st \<and> no_login cfg uid as (fst (login_try_step cfg a st))"

lemma challenges_misses:
  "wrong_challenges cfg uid as st = challenge.misses cfg uid as st" "after_challenges cfg as st = challenge.after cfg as st"
  "no_login cfg uid as st = challenge.never_cleared cfg uid as st"
  by (induction as arbitrary: st) simp_all

text \<open>
  C23. Guessing the code of a login. However many challenge tokens are obtained and from however many
  addresses they are used, in a window that opens with no failure counted at most the
  configured number of wrong codes of a user is checked; after that many, every request for
  the user is refused for the rest of the window.
\<close>

theorem login_guesses_bounded:
  assumes times: "sorted (map (\<lambda>a. ax_now (fst a)) as)"
    "\<forall>a\<in>set as. t0 \<le> ax_now (fst a) \<and> ax_now (fst a) < t0 + seconds (as_login_window cfg)"
    and pos: "positive_counter (st_cache st) (login_fail_key uid)" "0 \<le> as_login_failures cfg"
    and fresh: "\<forall>t\<ge>t0. t < t0 + seconds (as_login_window cfg) \<longrightarrow> failures (st_cache st) t (login_fail_key uid) = 0"
    and none: "no_login cfg uid as st"
    and t: "t0 \<le> ax_now ax" "ax_now ax < t0 + seconds (as_login_window cfg)" "\<forall>a\<in>set as. ax_now (fst a) \<le> ax_now ax"
    and user: "login_try_user (ax, rq, tok, raw, b) = Some uid"
  shows "int (wrong_challenges cfg uid as st) \<le> as_login_failures cfg \<and>
    (int (wrong_challenges cfg uid as st) = as_login_failures cfg \<longrightarrow>
       (\<exists>status code. login_try_step cfg (ax, rq, tok, raw, b) (after_challenges cfg as st) =
          (after_challenges cfg as st, AuthFail status code)))"
proof -
  have counted: "int (challenge.misses cfg uid as st) + 0 \<le> as_login_failures cfg \<and>
    (\<forall>t. (\<forall>a\<in>set as. ax_now (fst a) \<le> t) \<and> t0 \<le> t \<and> t < t0 + seconds (as_login_window cfg) \<longrightarrow>
      failures (st_cache (challenge.after cfg as st)) t (login_fail_key uid) = int (challenge.misses cfg uid as st) + 0)"
    by (rule challenge.misses_bounded [OF times order_refl]) (use pos fresh none in \<open>simp_all add: challenges_misses\<close>)
  obtain jti where dec: "decode_mfa_token_claims ax (py_strip tok) = Some (uid, jti)" using user by (auto simp: login_try_user_def)
  have "\<exists>status code. mfa_verify ax cfg rq False tok raw b s = (s, AuthFail status code)"
    if "failures (st_cache s) (ax_now ax) (login_fail_key uid) = as_login_failures cfg" for s
    using that dec by (auto simp: mfa_verify_def Let_def token_invalid_def split: option.split)
  with counted t show ?thesis by (simp add: challenges_misses login_try_step_def)
qed

definition wrong_tries :: "login_try list" where
  "wrong_tries = map (\<lambda>t. (challenge_ax\<lparr>ax_now := t\<rparr>, sample_web ''10.0.0.9'', ''challenge'', ''000000'', False))
     [1000, 1001, 1002, 1003, 1004, 1005]"

theorem login_guesses_bounded_witness:
  "\<exists>status code. snd (login_try_step sample_settings
     (challenge_ax\<lparr>ax_now := 1006\<rparr>, sample_web ''10.0.0.8'', ''challenge'', ''123456'', False)
     (after_challenges sample_settings wrong_tries sample_auth)) = AuthFail status code"
proof -
  have five: "wrong_challenges sample_settings 7 wrong_tries sample_auth = 5" by code_simp
  have none: "no_login sample_settings 7 wrong_tries sample_auth" by code_simp
  have user: "login_try_user (challenge_ax\<lparr>ax_now := 1006\<rparr>, sample_web ''10.0.0.8'', ''challenge'', ''123456'', False) = Some 7"
    by code_simp
  have "failures (st_cache sample_auth) t (login_fail_key 7) = 0" for t by (simp add: sample_auth_def failures_def cache_get_def)
  moreover have "positive_counter (st_cache sample_auth) (login_fail_key 7)" by (simp add: sample_auth_def positive_counter_def)
  ultimately have "\<exists>status code. login_try_step sample_settings
      (challenge_ax\<lparr>ax_now := 1006\<rparr>, sample_web ''10.0.0.8'', ''challenge'', ''123456'', False)
      (after_challenges sample_settings wrong_tries sample_auth) =
      (after_challenges sample_settings wrong_tries sample_auth, AuthFail status code)"
    using login_guesses_bounded [OF _ _ _ _ _ none _ _ _ user, of 1000] five
    by (simp add: wrong_tries_def challenge_ax_def sample_ax_def sample_settings_def seconds_def)
  then show ?thesis by auto
qed

subsection \<open>The lock of an address over requests\<close>

text \<open>The failures counted for an address only become fewer.\<close>

definition shrinks :: "string \<Rightarrow> auth \<Rightarrow> auth \<Rightarrow> bool" where
  "shrinks b st st' \<longleftrightarrow>
     (\<exists>P. filter (\<lambda>l. lf_ip l = Some b) (st_failed st') = filter P (filter (\<lambda>l. lf_ip l = Some b) (st_failed st)))"

lemma shrinks_same: "st_failed st' = st_failed st \<Longrightarrow> shrinks b st st'"
  by (auto simp: shrinks_def intro: exI [of _ "\<lambda>l. True"])

lemma shrinks_trans: "shrinks b st st1 \<Longrightarrow> shrinks b st1 st2 \<Longrightarrow> shrinks b st st2"
proof -
  assume "shrinks b st st1" "shrinks b st1 st2"
  then obtain P Q where "filter (\<lambda>l. lf_ip l = Some b) (st_failed st1) = filter P (filter (\<lambda>l. lf_ip l = Some b) (st_failed st))"
    "filter (\<lambda>l. lf_ip l = Some b) (st_failed st2) = filter Q (filter (\<lambda>l. lf_ip l = Some b) (st_failed st1))"
    unfolding shrinks_def by blast
  then have "filter (\<lambda>l. lf_ip l = Some b) (st_failed st2) =
      filter (\<lambda>l. P l \<and> Q l) (filter (\<lambda>l. lf_ip l = Some b) (st_failed st))" by (simp add: conj_assoc)
  then show ?thesis unfolding shrinks_def by blast
qed

lemma shrinks_clear: "shrinks b st (clear_failed_logins email st)"
proof -
  have "filter (\<lambda>l. lf_ip l = Some b) (st_failed (clear_failed_logins email st)) =
      filter (\<lambda>l. lf_email l \<noteq> email) (filter (\<lambda>l. lf_ip l = Some b) (st_failed st))"
    by (simp add: clear_failed_logins_def conj_commute)
  then show ?thesis unfolding shrinks_def by blast
qed

lemma shrinks_record: "client_ip rq \<noteq> Some b \<Longrightarrow> shrinks b st (record_failed_login ax email rq st)"
proof -
  assume "client_ip rq \<noteq> Some b"
  then have "filter (\<lambda>l. lf_ip l = Some b) (st_failed (record_failed_login ax email rq st)) = filter (\<lambda>l. lf_ip l = Some b) (st_failed st)"
    by (simp add: record_failed_login_def)
  then show ?thesis unfolding shrinks_def by (intro exI [of _ "\<lambda>l. True"]) simp
qed

lemma shrinks_not_locked:
  assumes "shrinks b st st'" "b \<noteq> []" "\<not> is_locked ax cfg email (Some b) st"
  shows "\<not> is_locked ax cfg email (Some b) st'"
proof -
  obtain P where P: "filter (\<lambda>l. lf_ip l = Some b) (st_failed st') = filter P (filter (\<lambda>l. lf_ip l = Some b) (st_failed st))"
    using assms(1) by (auto simp: shrinks_def)
  let ?Q = "\<lambda>l. lf_email l = email \<and> ax_now ax - minutes (as_lock_window cfg) \<le> lf_at l"
  have count: "length (filter (\<lambda>l. lf_email l = email \<and> ax_now ax - minutes (as_lock_window cfg) \<le> lf_at l \<and>
      (Some b \<noteq> None \<and> Some b \<noteq> Some [] \<longrightarrow> lf_ip l = Some b)) xs) = length (filter ?Q (filter (\<lambda>l. lf_ip l = Some b) xs))" for xs
    using assms(2) by (simp add: conj_ac)
  have "length (filter ?Q (filter P xs)) \<le> length (filter ?Q xs)" for xs :: "failed_login list"
    by (induction xs) auto
  with assms(3) show ?thesis unfolding is_locked_def count P by (meson le_trans)
qed

lemma failed_services [simp]:
  "st_failed (revoke_where ax r p st) = st_failed st" "st_failed (fst (revoke_other_sessions ax i ex r st)) = st_failed st"
  "st_failed (fst (issue_verification ax i st)) = st_failed st" "st_failed (fst (issue_reset ax i st)) = st_failed st"
  "st_failed (fst (issue_exchange ax cfg i st)) = st_failed st" "st_failed (fst (issue_mfa_token ax cfg i st)) = st_failed st"
  "st_failed (fst (generate_backup_codes ax cfg i st)) = st_failed st" "st_failed (fst (consume_backup_code ax i code st)) = st_failed st"
  "st_failed (login_code_failed ax cfg i jti st) = st_failed st" "st_failed (mfa_fail u m st) = st_failed st"
  "st_failed (update_user i f st) = st_failed st" "st_failed (set_password ax i pw st) = st_failed st"
  "st_failed (fst (issue_for ax u rq st)) = st_failed st" "st_failed (fst (create_user ax e n pw st)) = st_failed st"
  "st_failed (fst (login_code ax cfg u d code bk st)) = st_failed st"
  by (simp_all add: revoke_where_def revoke_other_sessions_def issue_verification_def issue_reset_def issue_exchange_def
      issue_mfa_token_def generate_backup_codes_def consume_backup_code_def login_code_failed_def mfa_fail_def update_user_def
      set_password_def issue_for_def create_user_def login_code_def case_prod_beta Let_def)

lemma failed_challenge [simp]: "st_failed (fst (challenge_or_pair ax cfg rq u e w wo st)) = st_failed st"
  by (simp add: challenge_or_pair_def case_prod_beta Let_def)

lemma failed_rotate [simp]: "st_failed (fst (rotate_refresh ax raw rq st)) = st_failed st"
  by (auto simp: rotate_refresh_def rotate_family_def case_prod_beta Let_def split: option.split)

lemma failed_same:
  "st_failed (fst (register ax fo ltd email name pw st)) = st_failed st"
  "st_failed (fst (verify_email ax rq raw st)) = st_failed st"
  "st_failed (fst (resend_verification ax fo ltd email st)) = st_failed st"
  "st_failed (fst (logout ax body cookie st)) = st_failed st"
  "st_failed (fst (password_reset ax fo ltd email st)) = st_failed st"
  "st_failed (fst (mfa_enroll ax cfg u st)) = st_failed st"
  "st_failed (fst (mfa_enroll_confirm ax cfg u raw st)) = st_failed st"
  "st_failed (fst (profile_update zones u q st)) = st_failed st"
  "st_failed (fst (password_change ax fo u fam old new st)) = st_failed st"
  "st_failed (fst (sessions_revoke ax u fam every fid st)) = st_failed st"
  "st_failed (fst (oauth_post_callback ax cfg user joined st)) = st_failed st"
  "st_failed (fst (oauth_exchange ax cfg en rq raw st)) = st_failed st"
  by (auto simp: register_def verify_email_def resend_verification_def logout_def revoke_refresh_def password_reset_def mfa_enroll_def
      mfa_enroll_confirm_def profile_update_def password_change_def sessions_revoke_def oauth_post_callback_def oauth_exchange_def
      Let_def case_prod_beta split: option.split)

lemma failed_refresh: "st_failed (fst (refresh ax rq body cookie st)) = st_failed st"
proof -
  obtain st1 r where "rotate_refresh ax (read_refresh body cookie) (Some rq) st = (st1, r)" by fastforce
  then show ?thesis using failed_rotate [of ax "read_refresh body cookie" "Some rq" st]
    by (cases r) (simp_all add: refresh_def Let_def)
qed

lemma failed_reauthenticated:
  "st_failed (fst (mfa_disable ax cfg u pw raw st)) = st_failed st" "st_failed (fst (mfa_regenerate ax cfg u pw raw st)) = st_failed st"
  by (auto simp: mfa_disable_def mfa_regenerate_def reauthenticate_def Let_def case_prod_beta split: option.splits)

lemma failed_mfa_verify: "st_failed (fst (mfa_verify ax cfg rq ltd tok code bk st)) = st_failed st"
proof -
  have "st_failed st1 = st_failed st" if "login_code ax cfg u d c bk st = (st1, r)" for u d c st1 r
    using failed_services(15) [of ax cfg u d c bk st] that by simp
  then show ?thesis by (auto simp: mfa_verify_def Let_def split: option.split prod.split bool.split)
qed

lemma failed_with_user: "(\<And>u. st_failed (fst (f u st)) = st_failed st) \<Longrightarrow> st_failed (fst (with_user uid f st)) = st_failed st"
  by (simp add: with_user_def split: option.split)

lemma shrinks_cleared: "st_failed st' = filter (\<lambda>l. lf_email l \<noteq> e) (st_failed st) \<Longrightarrow> shrinks b st st'"
  using shrinks_clear [of b st e] by (simp add: shrinks_def clear_failed_logins_def)

lemma shrinks_recorded: "client_ip rq \<noteq> Some b \<Longrightarrow> st_failed st' = st_failed (record_failed_login ax e rq st) \<Longrightarrow> shrinks b st st'"
  using shrinks_record [of rq b st ax e] by (simp add: shrinks_def)

lemma shrinks_reset_confirm: "shrinks b st (fst (password_reset_confirm ax fo rq raw pw st))"
proof -
  let ?st' = "fst (password_reset_confirm ax fo rq raw pw st)"
  have "st_failed ?st' = st_failed st \<or> (\<exists>e. st_failed ?st' = filter (\<lambda>l. lf_email l \<noteq> e) (st_failed st))"
    by (simp add: password_reset_confirm_def Let_def clear_failed_logins_def split: option.split prod.split) blast
  then show ?thesis using shrinks_same shrinks_cleared by blast
qed

lemma shrinks_login: "client_ip rq \<noteq> Some b \<Longrightarrow> shrinks b st (fst (login ax cfg fo rq ltd email pw st))"
proof -
  assume other: "client_ip rq \<noteq> Some b"
  let ?st' = "fst (login ax cfg fo rq ltd email pw st)"
  have "st_failed ?st' = st_failed st \<or> (\<exists>e. st_failed ?st' = filter (\<lambda>l. lf_email l \<noteq> e) (st_failed st)) \<or>
      (\<exists>e. st_failed ?st' = st_failed (record_failed_login ax e rq st))"
    by (simp add: login_def Let_def clear_failed_logins_def record_failed_login_def split: option.split) blast
  then show ?thesis using shrinks_same shrinks_cleared shrinks_recorded [OF other] by blast
qed

lemma shrinks_step: "client_ip rq \<noteq> Some b \<Longrightarrow> shrinks b st (fst (auth_step cf ax rq op st))"
  by (cases op)
     (auto simp: failed_same failed_refresh failed_reauthenticated failed_mfa_verify failed_with_user
       intro: shrinks_login shrinks_reset_confirm shrinks_same)

lemma shrinks_run:
  assumes "list_all (\<lambda>(ax, rq, op). client_ip rq \<noteq> Some b) ops"
  shows "shrinks b st (auth_run cf ops st)"
  using assms
proof (induction ops arbitrary: st)
  case (Cons r ops)
  obtain ax rq op where r: "r = (ax, rq, op)" by (cases r) auto
  have "shrinks b st (fst (auth_step cf ax rq op st))" using Cons.prems by (intro shrinks_step) (simp add: r)
  moreover have "shrinks b (fst (auth_step cf ax rq op st)) (auth_run cf ops (fst (auth_step cf ax rq op st)))"
    using Cons.prems by (intro Cons.IH) (simp add: r)
  ultimately show ?case by (simp add: r shrinks_trans [of b st])
qed (simp add: shrinks_same)

text \<open>
  The lock of an account is per address. Whatever requests other addresses make, however many
  wrong passwords they send, they never lock the account for a caller from an address of its own.
\<close>

theorem lockout_is_per_address:
  assumes "b \<noteq> []" "list_all (\<lambda>(ax, rq, op). client_ip rq \<noteq> Some b) ops" "\<not> is_locked ax cfg email (Some b) st"
  shows "\<not> is_locked ax cfg email (Some b) (auth_run cf ops st)"
  using shrinks_not_locked [OF shrinks_run [OF assms(2)] assms(1,3)] .

definition wrong_logins :: "(auth_env \<times> web_request \<times> auth_op) list" where
  "wrong_logins = replicate 10 (sample_ax, sample_web ''10.0.0.8'', Login False ''a@x.io'' ''wrong'')"

theorem lockout_is_per_address_witness:
  "is_locked sample_ax sample_settings ''a@x.io'' (Some ''10.0.0.8'') (auth_run sample_config wrong_logins sample_auth) \<and>
   \<not> is_locked sample_ax sample_settings ''a@x.io'' (Some ''10.0.0.9'') (auth_run sample_config wrong_logins sample_auth)"
proof -
  have "is_locked sample_ax sample_settings ''a@x.io'' (Some ''10.0.0.8'') (auth_run sample_config wrong_logins sample_auth)"
    by code_simp
  moreover have "list_all (\<lambda>(ax, rq, op). client_ip rq \<noteq> Some ''10.0.0.9'') wrong_logins" by code_simp
  moreover have "\<not> is_locked sample_ax sample_settings ''a@x.io'' (Some ''10.0.0.9'') sample_auth" by code_simp
  ultimately show ?thesis
    using lockout_is_per_address [of "''10.0.0.9''" wrong_logins sample_ax sample_settings "''a@x.io''" sample_auth sample_config]
    by simp
qed

end
