(* ===== verification/Screen_Criteria.thy ===== *)
theory Screen_Criteria
  imports Decimals
begin

text \<open>
  The \<open>[screen]\<close> block of a strategy description (\<open>screener/criteria.py\<close>): locating the block, its
  line grammar, the numbers with a magnitude suffix, and the vendor parameters and local criteria
  built from it. A number of the block is the value of the float Python computes; whether Python
  holds it as an int or as a float depends on the value alone.
\<close>

subsection \<open>Limits and keys\<close>

definition max_block_bytes :: nat where
  "max_block_bytes = 4096"

definition max_block_lines :: nat where
  "max_block_lines = 40"

definition limit_default :: int where
  "limit_default = 50"

definition min_history_default :: int where
  "min_history_default = 260"

definition min_history_max :: int where
  "min_history_max = 2000"

definition sma_windows :: "int list" where
  "sma_windows = [50, 200]"

definition max_number :: rat where
  "max_number = 10 ^ 18"

definition range_keys :: "(string \<times> string) list" where
  "range_keys = [(''market_cap'', ''marketCap''), (''price'', ''price''), (''volume'', ''volume''), (''beta'', ''beta''),
     (''dividend'', ''dividend'')]"

definition string_keys :: "(string \<times> string) list" where
  "string_keys = [(''sector'', ''sector''), (''industry'', ''industry''), (''exchange'', ''exchange''), (''country'', ''country'')]"

definition all_keys :: "string list" where
  "all_keys = map fst range_keys @ map fst string_keys @ [''etf''] @
     [''above_sma'', ''sma_rising'', ''near_52w_high'', ''min_history''] @ [''limit'']"

definition repeatable :: "string list" where
  "repeatable = [''above_sma'', ''sma_rising'']"

subsection \<open>What a block parses to\<close>

record num_range =
  rg_gte :: "rat option"
  rg_lte :: "rat option"

record criteria =
  cr_ranges :: "(string \<times> num_range) list"
  cr_strings :: "(string \<times> string) list"
  cr_etf :: "bool option"
  cr_above :: "int list"
  cr_rising :: "int list"
  cr_near :: "rat option"
  cr_min_history :: "int option"
  cr_limit :: "int option"

datatype param = PNum rat | PText string | PBool bool

record derived =
  dv_above :: "int list"
  dv_rising :: "int list"
  dv_near :: "rat option"
  dv_min_history :: "int option"

record screen_criteria =
  sn_criteria :: criteria
  sn_vendor :: "(string \<times> param) list"
  sn_derived :: derived
  sn_limit :: int

text \<open>An error has the line of the description it is about.\<close>

type_synonym screen_error = "nat \<times> string"

datatype screen_parse = NoBlock | Malformed "screen_error list" | Parsed screen_criteria

definition no_criteria :: criteria where
  "no_criteria = \<lparr>cr_ranges = [], cr_strings = [], cr_etf = None, cr_above = [], cr_rising = [], cr_near = None,
     cr_min_history = None, cr_limit = None\<rparr>"

subsection \<open>Numbers\<close>

definition magnitude :: "char \<Rightarrow> nat option" where
  "magnitude c = map_of [(CHR ''K'', 10 ^ 3), (CHR ''M'', 10 ^ 6), (CHR ''B'', 10 ^ 9), (CHR ''T'', 10 ^ 12)] (upper_char c)"

text \<open>The sign, the digits before and after the point, and the factor of the suffix.\<close>

definition number_parts :: "string \<Rightarrow> (bool \<times> string \<times> string \<times> nat) option" where
  "number_parts tok =
     (let neg = (tok \<noteq> [] \<and> hd tok = CHR ''-'');
          (ds, rest) = take_digits (if neg then tl tok else tok);
          (fs, rest') = (if rest \<noteq> [] \<and> hd rest = CHR ''.'' then take_digits (tl rest) else ([], rest));
          point = (rest \<noteq> [] \<and> hd rest = CHR ''.'')
      in if ds = [] \<or> (point \<and> fs = []) then None
         else case rest' of
                [] \<Rightarrow> Some (neg, ds, fs, 1)
              | [c] \<Rightarrow> map_option (\<lambda>m. (neg, ds, fs, m)) (magnitude c)
              | _ \<Rightarrow> None)"

fun number_value :: "bool \<times> string \<times> string \<times> nat \<Rightarrow> rat option" where
  "number_value (neg, ds, fs, m) =
     (let body = fl ((if neg then - 1 else 1) * of_nat (digits_nat (ds @ fs)) / 10 ^ length fs);
          v = fl (body * of_nat m)
      in if max_number < \<bar>v\<bar> then None else Some v)"

definition parse_number :: "string \<Rightarrow> rat option" where
  "parse_number tok = Option.bind (number_parts tok) number_value"

definition whole :: "rat \<Rightarrow> bool" where
  "whole v \<longleftrightarrow> of_int \<lfloor>v\<rfloor> = v"

text \<open>\<open>s.partition('..')\<close>.\<close>

fun split_dots :: "string \<Rightarrow> (string \<times> string) option" where
  "split_dots [] = None"
| "split_dots (c # cs) =
     (if take 2 (c # cs) = ''..'' then Some ([], drop 2 (c # cs)) else map_option (\<lambda>(a, b). (c # a, b)) (split_dots cs))"

definition parse_range :: "string \<Rightarrow> string + num_range" where
  "parse_range v =
     (case split_dots v of
        Some (lo_s, hi_s) \<Rightarrow>
          (case (parse_number (py_strip lo_s), parse_number (py_strip hi_s)) of
             (Some lo, Some hi) \<Rightarrow>
               if hi < lo then Inl (''range is inverted ('' @ py_strip lo_s @ ''..'' @ py_strip hi_s @ '').'')
               else Inr \<lparr>rg_gte = Some lo, rg_lte = Some hi\<rparr>
           | _ \<Rightarrow> Inl (''expected 'A..B' with numbers, got '' @ str_repr v @ ''.''))
      | None \<Rightarrow>
          if py_startswith v ''>='' then
            (case parse_number (py_strip (drop 2 v)) of
               None \<Rightarrow> Inl (''expected a number after >=, got '' @ str_repr v @ ''.'')
             | Some n \<Rightarrow> Inr \<lparr>rg_gte = Some n, rg_lte = None\<rparr>)
          else if py_startswith v ''<='' then
            (case parse_number (py_strip (drop 2 v)) of
               None \<Rightarrow> Inl (''expected a number after <=, got '' @ str_repr v @ ''.'')
             | Some n \<Rightarrow> Inr \<lparr>rg_gte = None, rg_lte = Some n\<rparr>)
          else if py_startswith v ''>'' \<or> py_startswith v ''<''
          then Inl (''use '>=' or '<=' (inclusive), not '' @ str_repr [hd v] @ ''.'')
          else Inl (''expected '>= N', '<= N' or 'A..B', got '' @ str_repr v @ ''.''))"

subsection \<open>One line\<close>

definition is_alpha :: "char \<Rightarrow> bool" where
  "is_alpha c \<longleftrightarrow> is_upper_char c \<or> is_lower_char c"

text \<open>A window of \<open>sma_windows\<close> as text.\<close>

definition window_text :: "int \<Rightarrow> string" where
  "window_text w = (if w = 50 then ''50'' else ''200'')"

definition add_window :: "string \<Rightarrow> string \<Rightarrow> int list \<Rightarrow> string + int list" where
  "add_window key v bucket =
     (case parse_number v of
        Some n \<Rightarrow>
          if n \<in> of_int ` set sma_windows
          then if \<lfloor>n\<rfloor> \<in> set bucket then Inl (key @ '': '' @ window_text \<lfloor>n\<rfloor> @ '' is already set (duplicate_key).'')
               else Inr (sort (bucket @ [\<lfloor>n\<rfloor>]))
          else Inl (key @ '': expected one of 50, 200.'')
      | None \<Rightarrow> Inl (key @ '': expected one of 50, 200.''))"

text \<open>\<open>_apply\<close>: the check of one value and its place in the criteria.\<close>

definition apply_line :: "string \<Rightarrow> string \<Rightarrow> criteria \<Rightarrow> string + criteria" where
  "apply_line key v c =
     (if key \<in> set (map fst range_keys) then
        (case parse_range v of
           Inl e \<Rightarrow> Inl (key @ '': '' @ e)
         | Inr r \<Rightarrow> Inr (c\<lparr>cr_ranges := cr_ranges c @ [(key, r)]\<rparr>))
      else if key \<in> set (map fst string_keys) then
        (if CHR ''|'' \<in> set v \<or> CHR '','' \<in> set v
         then Inl (key @ '': only ONE value is supported in v1 - multi-value vendor enums are out of scope.'')
         else if 64 < length v then Inl (key @ '': value longer than 64 characters.'')
         else if key = ''country'' then
           (if length v = 2 \<and> list_all is_alpha v then Inr (c\<lparr>cr_strings := cr_strings c @ [(key, py_upper v)]\<rparr>)
            else Inl ''country: expected a 2-letter ISO code, e.g. US.'')
         else Inr (c\<lparr>cr_strings := cr_strings c @ [(key, v)]\<rparr>))
      else if key = ''etf'' then
        (if py_lower v \<in> {''true'', ''false''} then Inr (c\<lparr>cr_etf := Some (py_lower v = ''true'')\<rparr>)
         else Inl ''etf: expected true or false.'')
      else if key = ''above_sma'' then map_sum id (\<lambda>ws. c\<lparr>cr_above := ws\<rparr>) (add_window key v (cr_above c))
      else if key = ''sma_rising'' then map_sum id (\<lambda>ws. c\<lparr>cr_rising := ws\<rparr>) (add_window key v (cr_rising c))
      else if key = ''near_52w_high'' then
        (case parse_number (if py_endswith v ''%'' then py_strip (butlast v) else v) of
           None \<Rightarrow> Inl ''near_52w_high: expected a percentage, e.g. 25%.''
         | Some n \<Rightarrow> if 1 \<le> n \<and> n \<le> 100 then Inr (c\<lparr>cr_near := Some n\<rparr>)
                     else Inl ''near_52w_high: percentage must be between 1 and 100.'')
      else if key = ''min_history'' then
        (case parse_number v of
           Some n \<Rightarrow> if whole n \<and> 1 \<le> n \<and> n \<le> of_int min_history_max then Inr (c\<lparr>cr_min_history := Some \<lfloor>n\<rfloor>\<rparr>)
                     else Inl ''min_history: expected a whole number of days between 1 and 2000.''
         | None \<Rightarrow> Inl ''min_history: expected a whole number of days between 1 and 2000.'')
      else
        (case parse_number v of
           Some n \<Rightarrow> if whole n then Inr (c\<lparr>cr_limit := Some (max 1 (min 100 \<lfloor>n\<rfloor>))\<rparr>)
                     else Inl ''limit: expected a whole number between 1 and 100.''
         | None \<Rightarrow> Inl ''limit: expected a whole number between 1 and 100.''))"

record body_state =
  bs_criteria :: criteria
  bs_seen :: "string list"
  bs_errors :: "screen_error list"

definition add_error :: "nat \<Rightarrow> string \<Rightarrow> body_state \<Rightarrow> body_state" where
  "add_error n e s = s\<lparr>bs_errors := bs_errors s @ [(n, e)]\<rparr>"

definition body_line :: "nat \<Rightarrow> string \<Rightarrow> body_state \<Rightarrow> body_state" where
  "body_line n raw s =
     (let line = py_strip (rev (dropWhile (\<lambda>c. c = CHR 0x0D) (rev raw)))
      in if line = [] \<or> py_startswith line ''#'' then s
         else case py_partition (CHR '':'') line of
                None \<Rightarrow> add_error n (''Expected 'key: value', got '' @ str_repr line @ ''.'') s
              | Some (raw_key, raw_val) \<Rightarrow>
                  let key = py_lower (py_strip raw_key); v = py_strip raw_val
                  in if key \<notin> set all_keys
                     then add_error n (''Unknown key '' @ str_repr key @ ''. Valid keys: '' @ py_join '', '' (sort all_keys) @ ''.'') s
                     else if v = [] then add_error n (''Key '' @ str_repr key @ '' has no value.'') s
                     else if key \<notin> set repeatable \<and> key \<in> set (bs_seen s)
                     then add_error n (''Duplicate key '' @ str_repr key @ '' (duplicate_key).'') s
                     else let s1 = (if key \<in> set repeatable then s else s\<lparr>bs_seen := key # bs_seen s\<rparr>)
                          in case apply_line key v (bs_criteria s1) of
                               Inl e \<Rightarrow> add_error n e s1
                             | Inr c \<Rightarrow> s1\<lparr>bs_criteria := c\<rparr>)"

fun body_lines :: "nat \<Rightarrow> string list \<Rightarrow> body_state \<Rightarrow> body_state" where
  "body_lines n [] s = s"
| "body_lines n (raw # raws) s = body_lines (n + 1) raws (body_line n raw s)"

subsection \<open>What the block asks for\<close>

definition range_params :: "criteria \<Rightarrow> (string \<times> param) list" where
  "range_params c =
     concat (map (\<lambda>(key, stem).
        case map_of (cr_ranges c) key of
          None \<Rightarrow> []
        | Some r \<Rightarrow>
            (case rg_gte r of None \<Rightarrow> [] | Some n \<Rightarrow> [(stem @ ''MoreThan'', PNum n)]) @
            (case rg_lte r of None \<Rightarrow> [] | Some n \<Rightarrow> [(stem @ ''LowerThan'', PNum n)])) range_keys)"

definition string_params :: "criteria \<Rightarrow> (string \<times> param) list" where
  "string_params c =
     concat (map (\<lambda>(key, name). case map_of (cr_strings c) key of None \<Rightarrow> [] | Some v \<Rightarrow> [(name, PText v)]) string_keys)"

definition derived_empty :: "derived \<Rightarrow> bool" where
  "derived_empty d \<longleftrightarrow> dv_above d = [] \<and> dv_rising d = [] \<and> dv_near d = None \<and> dv_min_history d = None"

definition build_derived :: "criteria \<Rightarrow> derived" where
  "build_derived c =
     (let d = \<lparr>dv_above = cr_above c, dv_rising = cr_rising c, dv_near = cr_near c, dv_min_history = None\<rparr>
      in if \<not> derived_empty d \<or> cr_min_history c \<noteq> None
         then d\<lparr>dv_min_history := Some (case cr_min_history c of None \<Rightarrow> min_history_default | Some n \<Rightarrow> n)\<rparr>
         else d)"

definition build_screen :: "criteria \<Rightarrow> screen_criteria" where
  "build_screen c0 =
     (let lim = (case cr_limit c0 of None \<Rightarrow> limit_default | Some n \<Rightarrow> n); c = c0\<lparr>cr_limit := Some lim\<rparr>
      in \<lparr>sn_criteria = c,
          sn_vendor = range_params c @ string_params c @
            [(''isActivelyTrading'', PBool True), (''isEtf'', PBool (cr_etf c = Some True)), (''limit'', PNum (of_int lim))],
          sn_derived = build_derived c, sn_limit = lim\<rparr>)"

definition parse_body :: "string list \<Rightarrow> nat \<Rightarrow> screen_parse" where
  "parse_body raws first_line =
     (let s = body_lines first_line raws \<lparr>bs_criteria = no_criteria, bs_seen = [], bs_errors = []\<rparr>
      in if bs_errors s \<noteq> [] then Malformed (bs_errors s) else Parsed (build_screen (bs_criteria s)))"

subsection \<open>Locating the block\<close>

text \<open>What follows an opening tag that starts the line.\<close>

definition open_rest :: "string \<Rightarrow> string option" where
  "open_rest line =
     (let l = dropWhile (\<lambda>c. c = CHR '' '' \<or> c = CHR 0x09) line
      in if py_lower (take 8 l) = ''[screen]'' then Some (drop 8 l) else None)"

text \<open>The numbers, from 1, of the lines that open a block.\<close>

fun open_lines :: "nat \<Rightarrow> string list \<Rightarrow> nat list" where
  "open_lines n [] = []"
| "open_lines n (l # ls) = (if open_rest l \<noteq> None then n # open_lines (n + 1) ls else open_lines (n + 1) ls)"

text \<open>The text before the first closing tag.\<close>

fun before_close :: "string \<Rightarrow> string option" where
  "before_close [] = None"
| "before_close (c # cs) =
     (if py_lower (take 9 (c # cs)) = ''[/screen]'' then Some [] else map_option (\<lambda>t. c # t) (before_close cs))"

definition newline :: char where
  "newline = CHR 0x0A"

definition extract_block :: "string \<Rightarrow> screen_error list + (string \<times> nat) option" where
  "extract_block text =
     (let ls = py_split newline text
      in case open_lines 1 ls of
           [] \<Rightarrow> Inr None
         | [n] \<Rightarrow>
             (case before_close (py_join [newline] (the (open_rest (ls ! (n - 1))) # drop n ls)) of
                None \<Rightarrow> Inl [(n, ''Unclosed [screen] block - add a [/screen] line to close it.'')]
              | Some body \<Rightarrow> Inr (Some (body, n)))
         | n # m # ns \<Rightarrow> Inl [(m, ''A description may contain only one [screen] block (duplicate_block).'')])"

definition parse_screen :: "string \<Rightarrow> screen_parse" where
  "parse_screen text =
     (if text = [] then NoBlock
      else case extract_block text of
             Inl errors \<Rightarrow> Malformed errors
           | Inr None \<Rightarrow> NoBlock
           | Inr (Some (body, first_line)) \<Rightarrow>
               if max_block_bytes < length body
               then Malformed [(first_line, ''[screen] block is larger than 4096 bytes.'')]
               else if max_block_lines < length (py_split newline body)
               then Malformed [(first_line, ''[screen] block has more than 40 lines.'')]
               else parse_body (py_split newline body) first_line)"

subsection \<open>Parsed criteria are well formed\<close>

definition range_ok :: "num_range \<Rightarrow> bool" where
  "range_ok r \<longleftrightarrow> (rg_gte r \<noteq> None \<or> rg_lte r \<noteq> None) \<and>
     (case rg_gte r of None \<Rightarrow> True | Some n \<Rightarrow> \<bar>n\<bar> \<le> max_number) \<and>
     (case rg_lte r of None \<Rightarrow> True | Some n \<Rightarrow> \<bar>n\<bar> \<le> max_number) \<and>
     (case (rg_gte r, rg_lte r) of (Some lo, Some hi) \<Rightarrow> lo \<le> hi | _ \<Rightarrow> True)"

definition text_ok :: "string \<times> string \<Rightarrow> bool" where
  "text_ok kv \<longleftrightarrow> length (snd kv) \<le> 64 \<and> CHR ''|'' \<notin> set (snd kv) \<and> CHR '','' \<notin> set (snd kv) \<and>
     (fst kv = ''country'' \<longrightarrow> length (snd kv) = 2 \<and> list_all is_upper_char (snd kv))"

definition windows_ok :: "int list \<Rightarrow> bool" where
  "windows_ok ws \<longleftrightarrow> sorted ws \<and> distinct ws \<and> set ws \<subseteq> set sma_windows"

definition criteria_ok :: "criteria \<Rightarrow> bool" where
  "criteria_ok c \<longleftrightarrow>
     distinct (map fst (cr_ranges c)) \<and> list_all (\<lambda>(key, r). key \<in> set (map fst range_keys) \<and> range_ok r) (cr_ranges c) \<and>
     distinct (map fst (cr_strings c)) \<and> list_all (\<lambda>kv. fst kv \<in> set (map fst string_keys) \<and> text_ok kv) (cr_strings c) \<and> windows_ok (cr_above c) \<and> windows_ok (cr_rising c) \<and>
     (case cr_near c of None \<Rightarrow> True | Some n \<Rightarrow> 1 \<le> n \<and> n \<le> 100) \<and>
     (case cr_min_history c of None \<Rightarrow> True | Some n \<Rightarrow> 1 \<le> n \<and> n \<le> min_history_max) \<and>
     (case cr_limit c of None \<Rightarrow> True | Some n \<Rightarrow> 1 \<le> n \<and> n \<le> 100)"

text \<open>The keys that may come once are listed as seen.\<close>

definition body_ok :: "body_state \<Rightarrow> bool" where
  "body_ok s \<longleftrightarrow> criteria_ok (bs_criteria s) \<and>
     list_all (\<lambda>kr. fst kr \<in> set (bs_seen s)) (cr_ranges (bs_criteria s)) \<and>
     list_all (\<lambda>kv. fst kv \<in> set (bs_seen s)) (cr_strings (bs_criteria s))"

lemma parse_number_bounded: "parse_number tok = Some n \<Longrightarrow> \<bar>n\<bar> \<le> max_number"
  by (auto simp: parse_number_def Let_def bind_eq_Some_conv split: if_splits)

lemma parse_range_ok: "parse_range v = Inr r \<Longrightarrow> range_ok r"
  by (auto simp: parse_range_def range_ok_def parse_number_bounded split: option.splits if_splits)

lemma add_window_ok: "add_window key v ws = Inr ws' \<Longrightarrow> windows_ok ws \<Longrightarrow> windows_ok ws'"
  by (auto simp: add_window_def windows_ok_def sma_windows_def split: option.splits if_splits)

lemma upper_char_alpha: "is_alpha c \<Longrightarrow> is_upper_char (upper_char c)"
proof -
  assume a: "is_alpha c"
  show ?thesis
  proof (cases "is_lower_char c")
    case True
    then have range: "97 \<le> char_code c" "char_code c \<le> 122" by (simp_all add: is_lower_char_def)
    then have "char_code (char_of (char_code c - 32)) = char_code c - 32" by (simp add: char_code_def)
    with range have "65 \<le> char_code (char_of (char_code c - 32))" "char_code (char_of (char_code c - 32)) \<le> 90" by linarith+
    with True show ?thesis by (simp add: is_upper_char_def upper_char_def)
  next
    case False
    with a show ?thesis by (simp add: is_alpha_def upper_char_def)
  qed
qed

lemma country_ok: "length v = 2 \<Longrightarrow> list_all is_alpha v \<Longrightarrow> text_ok (''country'', py_upper v)"
proof -
  assume v: "length v = 2" "list_all is_alpha v"
  then have "list_all is_upper_char (py_upper v)" by (auto simp: py_upper_def list_all_iff upper_char_alpha)
  moreover from this have "CHR ''|'' \<notin> set (py_upper v)" "CHR '','' \<notin> set (py_upper v)"
    by (auto simp: list_all_iff is_upper_char_def char_code_def)
  ultimately show ?thesis using v(1) by (simp add: text_ok_def py_upper_def)
qed

lemma key_lists:
  "map fst range_keys = [''market_cap'', ''price'', ''volume'', ''beta'', ''dividend'']"
  "map fst string_keys = [''sector'', ''industry'', ''exchange'', ''country'']"
  by (simp_all add: range_keys_def string_keys_def)

lemma criteria_ok_add_range:
  "criteria_ok c \<Longrightarrow> key \<in> set (map fst range_keys) \<Longrightarrow> range_ok r \<Longrightarrow> list_all (\<lambda>kr. fst kr \<noteq> key) (cr_ranges c) \<Longrightarrow>
   criteria_ok (c\<lparr>cr_ranges := cr_ranges c @ [(key, r)]\<rparr>)"
  by (simp add: criteria_ok_def) (auto simp: list_all_iff)

lemma criteria_ok_add_string:
  "criteria_ok c \<Longrightarrow> key \<in> set (map fst string_keys) \<Longrightarrow> text_ok (key, w) \<Longrightarrow> list_all (\<lambda>kv. fst kv \<noteq> key) (cr_strings c) \<Longrightarrow>
   criteria_ok (c\<lparr>cr_strings := cr_strings c @ [(key, w)]\<rparr>)"
  by (simp add: criteria_ok_def) (auto simp: list_all_iff)

lemma criteria_ok_set:
  assumes "criteria_ok c"
  shows "criteria_ok (c\<lparr>cr_etf := b\<rparr>)" "windows_ok ws \<Longrightarrow> criteria_ok (c\<lparr>cr_above := ws\<rparr>)"
    "windows_ok ws \<Longrightarrow> criteria_ok (c\<lparr>cr_rising := ws\<rparr>)"
    "1 \<le> x \<Longrightarrow> x \<le> 100 \<Longrightarrow> criteria_ok (c\<lparr>cr_near := Some x\<rparr>)"
    "1 \<le> n \<Longrightarrow> n \<le> min_history_max \<Longrightarrow> criteria_ok (c\<lparr>cr_min_history := Some n\<rparr>)"
    "1 \<le> n \<Longrightarrow> n \<le> 100 \<Longrightarrow> criteria_ok (c\<lparr>cr_limit := Some n\<rparr>)"
  using assms by (simp_all add: criteria_ok_def)

text \<open>What an accepted line does to the criteria.\<close>

lemma apply_line_cases:
  assumes "apply_line key v c = Inr c'"
  obtains (rng) r where "key \<in> set (map fst range_keys)" "range_ok r" "c' = c\<lparr>cr_ranges := cr_ranges c @ [(key, r)]\<rparr>"
    | (str) w where "key \<in> set (map fst string_keys)" "text_ok (key, w)" "c' = c\<lparr>cr_strings := cr_strings c @ [(key, w)]\<rparr>"
    | (etf) b where "c' = c\<lparr>cr_etf := b\<rparr>"
    | (above) ws where "windows_ok (cr_above c) \<longrightarrow> windows_ok ws" "c' = c\<lparr>cr_above := ws\<rparr>"
    | (rising) ws where "windows_ok (cr_rising c) \<longrightarrow> windows_ok ws" "c' = c\<lparr>cr_rising := ws\<rparr>"
    | (near) x where "1 \<le> x" "x \<le> 100" "c' = c\<lparr>cr_near := Some x\<rparr>"
    | (minimum) n where "1 \<le> n" "n \<le> min_history_max" "c' = c\<lparr>cr_min_history := Some n\<rparr>"
    | (cap) n where "1 \<le> n" "n \<le> 100" "c' = c\<lparr>cr_limit := Some n\<rparr>"
proof (cases "key \<in> set (map fst range_keys)")
  case True
  with assms obtain r where "parse_range v = Inr r" "c' = c\<lparr>cr_ranges := cr_ranges c @ [(key, r)]\<rparr>"
    by (auto simp: apply_line_def split: sum.splits)
  with True show thesis by (intro rng) (auto intro: parse_range_ok)
next
  case ranges: False
  show thesis
  proof (cases "key \<in> set (map fst string_keys)")
    case True
    show thesis
    proof (cases "key = ''country''")
      case country: True
      with assms ranges True have "length v = 2" "list_all is_alpha v" "c' = c\<lparr>cr_strings := cr_strings c @ [(key, py_upper v)]\<rparr>"
        by (auto simp: apply_line_def split: if_splits)
      with True country show thesis by (intro str) (auto intro: country_ok)
    next
      case False
      with assms ranges True have "text_ok (key, v)" "c' = c\<lparr>cr_strings := cr_strings c @ [(key, v)]\<rparr>"
        by (auto simp: apply_line_def text_ok_def split: if_splits)
      with True show thesis by (intro str)
    qed
  next
    case False
    note other = ranges False assms
    consider "key = ''etf''" | "key = ''above_sma''" | "key = ''sma_rising''" | "key = ''near_52w_high''" | "key = ''min_history''"
      | (rest) "key \<notin> {''etf'', ''above_sma'', ''sma_rising'', ''near_52w_high'', ''min_history''}" by blast
    then show thesis
    proof cases
      case 1
      with other show thesis by (intro etf [of "Some (py_lower v = ''true'')"]) (simp add: apply_line_def split: if_splits)
    next
      case 2
      with other obtain ws where "add_window key v (cr_above c) = Inr ws" "c' = c\<lparr>cr_above := ws\<rparr>"
        by (cases "add_window key v (cr_above c)") (simp_all add: apply_line_def)
      then show thesis using add_window_ok by (intro above [of ws]) blast+
    next
      case 3
      with other obtain ws where "add_window key v (cr_rising c) = Inr ws" "c' = c\<lparr>cr_rising := ws\<rparr>"
        by (cases "add_window key v (cr_rising c)") (simp_all add: apply_line_def)
      then show thesis using add_window_ok by (intro rising [of ws]) blast+
    next
      case 4
      with other obtain x where "1 \<le> x" "x \<le> 100" "c' = c\<lparr>cr_near := Some x\<rparr>"
        by (cases "parse_number (if py_endswith v ''%'' then py_strip (butlast v) else v)")
           (simp_all add: apply_line_def split: if_splits)
      then show thesis by (rule near)
    next
      case 5
      with other obtain x where "parse_number v = Some x" by (cases "parse_number v") (simp_all add: apply_line_def)
      with 5 other have "1 \<le> x" "x \<le> of_int min_history_max" "c' = c\<lparr>cr_min_history := Some \<lfloor>x\<rfloor>\<rparr>"
        by (simp_all add: apply_line_def split: if_splits)
      then show thesis by (intro minimum [of "\<lfloor>x\<rfloor>"]) (simp_all add: le_floor_iff floor_le_iff)
    next
      case rest
      with other obtain x where "parse_number v = Some x" by (cases "parse_number v") (simp_all add: apply_line_def)
      with rest other have "c' = c\<lparr>cr_limit := Some (max 1 (min 100 \<lfloor>x\<rfloor>))\<rparr>"
        by (simp_all add: apply_line_def split: if_splits)
      then show thesis by (intro cap [of "max 1 (min 100 \<lfloor>x\<rfloor>)"]) simp_all
    qed
  qed
qed

lemma apply_line_body:
  assumes "apply_line key v (bs_criteria s) = Inr c'" "body_ok s" "key \<notin> set repeatable \<longrightarrow> key \<notin> set (bs_seen s)"
  shows "body_ok (s\<lparr>bs_criteria := c', bs_seen := (if key \<in> set repeatable then bs_seen s else key # bs_seen s)\<rparr>)"
proof -
  have ok: "criteria_ok (bs_criteria s)" and seen: "list_all (\<lambda>kr. fst kr \<in> set (bs_seen s)) (cr_ranges (bs_criteria s))"
    "list_all (\<lambda>kv. fst kv \<in> set (bs_seen s)) (cr_strings (bs_criteria s))"
    using assms(2) by (simp_all add: body_ok_def)
  have new: "list_all (\<lambda>kr. fst kr \<noteq> key) (cr_ranges (bs_criteria s))" "list_all (\<lambda>kv. fst kv \<noteq> key) (cr_strings (bs_criteria s))"
    if "key \<notin> set repeatable" using seen assms(3) that by (auto simp: list_all_iff)
  have more: "list_all (\<lambda>kr. fst kr \<in> set (key # bs_seen s)) (cr_ranges (bs_criteria s))"
    "list_all (\<lambda>kv. fst kv \<in> set (key # bs_seen s)) (cr_strings (bs_criteria s))"
    using seen by (auto simp: list_all_iff)
  show ?thesis using assms(1)
  proof (cases rule: apply_line_cases)
    case (rng r)
    then have "key \<notin> set repeatable" by (auto simp: key_lists repeatable_def)
    with rng ok new more show ?thesis by (simp add: body_ok_def criteria_ok_add_range)
  next
    case (str w)
    then have "key \<notin> set repeatable" by (auto simp: key_lists repeatable_def)
    with str ok new more show ?thesis by (simp add: body_ok_def criteria_ok_add_string)
  qed (use ok seen more criteria_ok_def in \<open>auto simp: body_ok_def criteria_ok_set\<close>)
qed

lemma add_error_ok [simp]: "body_ok (add_error n e s) = body_ok s"
  by (simp add: add_error_def body_ok_def)

lemma body_ok_seen: "body_ok s \<Longrightarrow> body_ok (s\<lparr>bs_seen := k # bs_seen s\<rparr>)"
  by (auto simp: body_ok_def list_all_iff)

lemma body_line_ok: "body_ok s \<Longrightarrow> body_ok (body_line n raw s)"
proof -
  assume ok: "body_ok s"
  have step: "body_ok ((if key \<in> set repeatable then s else s\<lparr>bs_seen := key # bs_seen s\<rparr>)\<lparr>bs_criteria := c'\<rparr>)"
    if "apply_line key v (bs_criteria s) = Inr c'" "key \<notin> set repeatable \<longrightarrow> key \<notin> set (bs_seen s)" for key v c'
    using apply_line_body [OF that(1) ok that(2)] by (cases "key \<in> set repeatable") (simp_all, simp add: body_ok_def)
  show ?thesis
    using ok by (auto simp: body_line_def Let_def body_ok_seen step split: option.split sum.split) (use step in force)+
qed

lemma body_lines_ok: "body_ok s \<Longrightarrow> body_ok (body_lines n raws s)"
  by (induction raws arbitrary: n s) (simp_all add: body_line_ok)

lemma parse_screen_body:
  assumes "parse_screen text = Parsed sc"
  obtains raws n s where "s = body_lines n raws \<lparr>bs_criteria = no_criteria, bs_seen = [], bs_errors = []\<rparr>"
    "sc = build_screen (bs_criteria s)"
  using assms that by (auto simp: parse_screen_def parse_body_def Let_def split: if_splits sum.splits option.splits)

lemma start_ok: "body_ok \<lparr>bs_criteria = no_criteria, bs_seen = [], bs_errors = []\<rparr>"
  by (simp add: body_ok_def criteria_ok_def no_criteria_def windows_ok_def)

text \<open>The parameters of the vendor call.\<close>

definition vendor_names :: "string list" where
  "vendor_names = concat (map (\<lambda>(key, stem). [stem @ ''MoreThan'', stem @ ''LowerThan'']) range_keys) @ map snd string_keys @
     [''isActivelyTrading'', ''isEtf'', ''limit'']"

definition derived_ok :: "derived \<Rightarrow> bool" where
  "derived_ok d \<longleftrightarrow> windows_ok (dv_above d) \<and> windows_ok (dv_rising d) \<and>
     (case dv_near d of None \<Rightarrow> True | Some x \<Rightarrow> 1 \<le> x \<and> x \<le> 100) \<and>
     (case dv_min_history d of None \<Rightarrow> derived_empty d | Some n \<Rightarrow> 1 \<le> n \<and> n \<le> min_history_max)"

lemma subseq_concat:
  "(\<And>x. subseq (map fst (f x)) (g x)) \<Longrightarrow> subseq (map fst (concat (map f xs))) (concat (map g xs))"
  by (induction xs) (simp_all add: list_emb_append_mono)

lemma vendor_subseq: "subseq (map fst (sn_vendor (build_screen c))) vendor_names"
proof -
  have "subseq (map fst (range_params d)) (concat (map (\<lambda>(key, stem). [stem @ ''MoreThan'', stem @ ''LowerThan'']) range_keys))" for d
    unfolding range_params_def by (rule subseq_concat) (auto split: option.split)
  moreover have "subseq (map fst (string_params d)) (concat (map (\<lambda>kv. [snd kv]) string_keys))" for d
    unfolding string_params_def by (rule subseq_concat) (auto split: option.split)
  moreover have "concat (map (\<lambda>kv. [snd kv]) string_keys) = map snd string_keys" by (simp add: string_keys_def)
  ultimately show ?thesis
    by (simp add: build_screen_def Let_def vendor_names_def list_emb_append_mono)
qed

lemma subseq_distinct: "subseq xs ys \<Longrightarrow> distinct ys \<Longrightarrow> distinct xs"
  by (metis subseq_conv_nths distinct_nthsI)

lemma distinct_vendor_names: "distinct vendor_names"
  by code_simp

lemma limit_param: "map_of (sn_vendor (build_screen c)) ''limit'' = Some (PNum (of_int (sn_limit (build_screen c))))"
proof -
  have names: "distinct (map fst (sn_vendor (build_screen c)))"
    using subseq_distinct [OF vendor_subseq distinct_vendor_names] .
  have "(''limit'', PNum (of_int (sn_limit (build_screen c)))) \<in> set (sn_vendor (build_screen c))"
    by (simp add: build_screen_def Let_def)
  with names show ?thesis by (rule map_of_is_SomeI)
qed

lemma build_derived_ok: "criteria_ok c \<Longrightarrow> derived_ok (build_derived c)"
  by (auto simp: derived_ok_def build_derived_def derived_empty_def criteria_ok_def Let_def min_history_default_def
      min_history_max_def split: option.splits)

lemma build_ok: "criteria_ok c \<Longrightarrow> criteria_ok (sn_criteria (build_screen c)) \<and> 1 \<le> sn_limit (build_screen c) \<and> sn_limit (build_screen c) \<le> 100"
  by (cases "cr_limit c") (simp_all add: build_screen_def Let_def criteria_ok_set limit_default_def, simp_all add: criteria_ok_def)

text \<open>
  C29. What a description can ask for. Whatever text the author uploads, criteria that parse are
  well formed: each range has a bound, its ends are in order and below the cap, averages are the
  two supported windows without repetition, percentages, history and limit are within bounds; the
  vendor call has each parameter at most once, out of the fixed list, and its limit is between 1
  and 100; the local criteria name a history length exactly when there are any.
\<close>

theorem screen_well_formed:
  assumes "parse_screen text = Parsed sc"
  shows "criteria_ok (sn_criteria sc) \<and> derived_ok (sn_derived sc) \<and> 1 \<le> sn_limit sc \<and> sn_limit sc \<le> 100 \<and>
    distinct (map fst (sn_vendor sc)) \<and> set (map fst (sn_vendor sc)) \<subseteq> set vendor_names \<and>
    map_of (sn_vendor sc) ''limit'' = Some (PNum (of_int (sn_limit sc)))"
proof -
  obtain raws n s where s: "s = body_lines n raws \<lparr>bs_criteria = no_criteria, bs_seen = [], bs_errors = []\<rparr>"
    and sc: "sc = build_screen (bs_criteria s)" using assms by (rule parse_screen_body)
  have ok: "criteria_ok (bs_criteria s)" using body_lines_ok [OF start_ok] unfolding s body_ok_def by blast
  have "sn_derived sc = build_derived (bs_criteria s\<lparr>cr_limit := cr_limit (sn_criteria sc)\<rparr>)"
    by (simp add: sc build_screen_def Let_def)
  moreover have "criteria_ok (bs_criteria s\<lparr>cr_limit := cr_limit (sn_criteria sc)\<rparr>)"
    using build_ok [OF ok] by (simp add: sc build_screen_def Let_def)
  ultimately have "derived_ok (sn_derived sc)" by (simp add: build_derived_ok)
  then show ?thesis
    using build_ok [OF ok] limit_param [of "bs_criteria s"] vendor_subseq [of "bs_criteria s"]
      subseq_distinct [OF vendor_subseq distinct_vendor_names, of "bs_criteria s"] list_emb_set [OF vendor_subseq [of "bs_criteria s"]]
    unfolding sc by blast
qed

definition sample_desc :: string where
  "sample_desc = ''Momentum.'' @ [newline] @ ''[screen]'' @ [newline] @ ''# large caps'' @ [newline] @ 
     ''country: us'' @ [newline] @
     ''limit: 500'' @ [newline] @ ''[/screen]''"

theorem screen_well_formed_witness:
  "\<exists>sc. parse_screen sample_desc = Parsed sc \<and> criteria_ok (sn_criteria sc) \<and> sn_limit sc = 100"
proof -
  have "(case parse_screen sample_desc of Parsed sc \<Rightarrow> sn_limit sc = 100 | _ \<Rightarrow> False)" by code_simp
  then obtain sc where "parse_screen sample_desc = Parsed sc" "sn_limit sc = 100" by (cases "parse_screen sample_desc") auto
  with screen_well_formed [of sample_desc] show ?thesis by blast
qed

subsection \<open>Errors point into the description\<close>

lemma length_py_split: "length (py_split sep s) = Suc (count_list s sep)"
  by (induction s) (auto split: list.split)

lemma py_split_no_sep: "w \<in> set (py_split sep s) \<Longrightarrow> sep \<notin> set w"
  by (induction s arbitrary: w) (auto split: list.splits if_splits)

lemma count_join: "ws \<noteq> [] \<Longrightarrow> \<forall>w\<in>set ws. sep \<notin> set w \<Longrightarrow> count_list (py_join [sep] ws) sep = length ws - 1"
proof (induction ws)
  case (Cons w ws)
  then show ?case by (cases ws) (simp_all add: count_list_0_iff)
qed simp

lemma before_close_prefix: "before_close s = Some b \<Longrightarrow> \<exists>rest. s = b @ rest"
  by (induction s arbitrary: b) (auto split: if_splits)

lemma open_lines_range: "l \<in> set (open_lines n ls) \<Longrightarrow> n \<le> l \<and> l < n + length ls \<and> open_rest (ls ! (l - n)) \<noteq> None"
  by (induction n ls rule: open_lines.induct) (auto simp: nth_Cons' Suc_diff_le split: if_splits)

lemma open_rest_subset: "open_rest line = Some r \<Longrightarrow> set r \<subseteq> set line"
  by (auto simp: open_rest_def Let_def dest: in_set_dropD set_dropWhileD split: if_splits)

definition errors_within :: "nat \<Rightarrow> nat \<Rightarrow> screen_error list \<Rightarrow> bool" where
  "errors_within lo hi es \<longleftrightarrow> sorted_wrt (<) (map fst es) \<and> list_all (\<lambda>e. lo \<le> fst e \<and> fst e < hi) es"

lemma errors_within_add: "errors_within lo n es \<Longrightarrow> lo \<le> n \<Longrightarrow> errors_within lo (n + 1) (es @ [(n, e)])"
  by (auto simp: errors_within_def sorted_wrt_append list_all_iff)

lemma errors_within_mono: "errors_within lo n es \<Longrightarrow> n \<le> m \<Longrightarrow> errors_within lo m es"
  by (auto simp: errors_within_def list_all_iff)

lemma body_line_errors: "\<exists>new. bs_errors (body_line n raw s) = bs_errors s @ new \<and> (new = [] \<or> (\<exists>e. new = [(n, e)]))"
  by (auto simp: body_line_def add_error_def Let_def split: option.split sum.split)

lemma body_lines_errors:
  "errors_within lo n (bs_errors s) \<Longrightarrow> lo \<le> n \<Longrightarrow> errors_within lo (n + length raws) (bs_errors (body_lines n raws s))"
proof (induction raws arbitrary: n s)
  case (Cons raw raws)
  obtain new where new: "bs_errors (body_line n raw s) = bs_errors s @ new" "new = [] \<or> (\<exists>e. new = [(n, e)])"
    using body_line_errors by blast
  then have "errors_within lo (n + 1) (bs_errors (body_line n raw s))"
    using Cons.prems errors_within_add errors_within_mono [of lo n "bs_errors s" "n + 1"] by auto
  from Cons.IH [OF this] Cons.prems(2) show ?case by simp
qed simp

lemma extract_body_lines:
  assumes "extract_block text = Inr (Some (body, n))"
  shows "1 \<le> n" "n + length (py_split newline body) \<le> length (py_split newline text) + 1"
proof -
  let ?ls = "py_split newline text"
  from assms obtain rest where n: "open_lines 1 ?ls = [n]"
    and body: "before_close (py_join [newline] (rest # drop n ?ls)) = Some body" "rest = the (open_rest (?ls ! (n - 1)))"
    by (auto simp: extract_block_def Let_def split: list.splits option.splits)
  from open_lines_range [of n 1 ?ls] n have range: "1 \<le> n" "n \<le> length ?ls" "open_rest (?ls ! (n - 1)) \<noteq> None" by auto
  have "newline \<notin> set rest"
    using open_rest_subset [of "?ls ! (n - 1)" rest] range body(2) py_split_no_sep [of "?ls ! (n - 1)" newline "text"] nth_mem [of "n - 1" ?ls]
    by fastforce
  moreover have "newline \<notin> set w" if "w \<in> set (drop n ?ls)" for w
    using that py_split_no_sep in_set_dropD by metis
  ultimately have "count_list (py_join [newline] (rest # drop n ?ls)) newline = length ?ls - n"
    using count_join [of "rest # drop n ?ls" newline] by simp
  moreover obtain tail where "py_join [newline] (rest # drop n ?ls) = body @ tail" using before_close_prefix [OF body(1)] by blast
  ultimately have "count_list body newline \<le> length ?ls - n" by (metis count_list_append le_add1)
  with range show "1 \<le> n" "n + length (py_split newline body) \<le> length ?ls + 1" by (simp_all add: length_py_split)
qed

text \<open>
  Errors name their line. A malformed block is never refused without a reason, and every error
  carries the number of a line of the description, in increasing order.
\<close>

theorem screen_errors_in_text:
  assumes "parse_screen text = Malformed es"
  shows "es \<noteq> [] \<and> errors_within 1 (length (py_split newline text) + 1) es"
proof -
  let ?ls = "py_split newline text"
  consider (outside) "extract_block text = Inl es"
    | (body) b n where "extract_block text = Inr (Some (b, n))" "(\<exists>e. es = [(n, e)]) \<or> parse_body (py_split newline b) n = Malformed es"
    using assms by (auto simp: parse_screen_def split: if_splits sum.splits option.splits)
  then show ?thesis
  proof cases
    case outside
    then obtain l e where es: "es = [(l, e)]" "l \<in> set (open_lines 1 ?ls)"
      by (auto simp: extract_block_def Let_def split: list.splits option.splits)
    with open_lines_range [OF es(2)] show ?thesis by (auto simp: errors_within_def)
  next
    case (body b n)
    note lines = extract_body_lines [OF body(1)]
    have "errors_within n (n + length (py_split newline b)) es \<and> es \<noteq> []"
      using body(2)
    proof
      assume "\<exists>e. es = [(n, e)]"
      then show ?thesis using length_py_split [of newline b] by (auto simp: errors_within_def)
    next
      assume parse: "parse_body (py_split newline b) n = Malformed es"
      then show ?thesis
        using body_lines_errors [of n n "\<lparr>bs_criteria = no_criteria, bs_seen = [], bs_errors = []\<rparr>" "py_split newline b"]
        by (auto simp: parse_body_def Let_def errors_within_def [of n n "[]"] split: if_splits)
    qed
    with lines show ?thesis by (auto simp: errors_within_def list_all_iff)
  qed
qed

theorem screen_errors_in_text_witness:
  "\<exists>e. parse_screen (''[screen]'' @ [newline] @ ''limit: all'' @ [newline] @ ''[/screen]'') = Malformed [(2, e)] \<and>
     errors_within 1 4 [(2, e)]"
proof -
  let ?text = "''[screen]'' @ [newline] @ ''limit: all'' @ [newline] @ ''[/screen]''"
  have "(case parse_screen ?text of Malformed [(n, e)] \<Rightarrow> n = 2 | _ \<Rightarrow> False)" by code_simp
  then obtain e where "parse_screen ?text = Malformed [(2, e)]"
    by (auto split: screen_parse.splits list.splits)
  moreover have "length (py_split newline ?text) = 3" by code_simp
  ultimately show ?thesis using screen_errors_in_text [of ?text] by auto
qed

end
