(* ===== verification/Screen_Round_Trip.thy ===== *)
theory Screen_Round_Trip
  imports Screen_Criteria
begin

text \<open>
  Well-formed criteria with whole numbers can be written as a \<open>[screen]\<close> block, and the parser reads
  that block back to the same criteria.
\<close>

subsection \<open>Writing criteria\<close>

definition show_whole :: "rat \<Rightarrow> string" where
  "show_whole x = int_str \<lfloor>x\<rfloor>"

definition show_range :: "num_range \<Rightarrow> string" where
  "show_range r =
     (case (rg_gte r, rg_lte r) of
        (Some lo, Some hi) \<Rightarrow> show_whole lo @ ''..'' @ show_whole hi
      | (Some lo, None) \<Rightarrow> ''>= '' @ show_whole lo
      | (None, Some hi) \<Rightarrow> ''<= '' @ show_whole hi
      | (None, None) \<Rightarrow> [])"

definition entry :: "string \<Rightarrow> string \<Rightarrow> string" where
  "entry key v = key @ '': '' @ v"

definition show_option :: "('a \<Rightarrow> string) \<Rightarrow> string \<Rightarrow> 'a option \<Rightarrow> string list" where
  "show_option f key v = (case v of None \<Rightarrow> [] | Some x \<Rightarrow> [entry key (f x)])"

definition show_lines :: "criteria \<Rightarrow> string list" where
  "show_lines c =
     map (\<lambda>(key, r). entry key (show_range r)) (cr_ranges c) @ map (\<lambda>(key, v). entry key v) (cr_strings c) @
     show_option (\<lambda>b. if b then ''true'' else ''false'') ''etf'' (cr_etf c) @
     map (\<lambda>w. entry ''above_sma'' (int_str w)) (cr_above c) @ map (\<lambda>w. entry ''sma_rising'' (int_str w)) (cr_rising c) @
     show_option show_whole ''near_52w_high'' (cr_near c) @ show_option int_str ''min_history'' (cr_min_history c) @
     show_option int_str ''limit'' (cr_limit c)"

definition screen_block :: "criteria \<Rightarrow> string list" where
  "screen_block c = [''[screen]''] @ show_lines c @ [''[/screen]'']"

text \<open>Numbers that are whole and below \<open>2 ^ 53\<close>, and texts without surrounding blanks, line ends and brackets.\<close>

definition exact :: "rat \<Rightarrow> bool" where
  "exact x \<longleftrightarrow> (\<exists>k. x = of_int k \<and> \<bar>k\<bar> \<le> 2 ^ 53)"

definition trimmed :: "string \<Rightarrow> bool" where
  "trimmed v \<longleftrightarrow> v \<noteq> [] \<and> \<not> is_space_char (hd v) \<and> \<not> is_space_char (last v)"

definition printable :: "criteria \<Rightarrow> bool" where
  "printable c \<longleftrightarrow>
     list_all (\<lambda>(key, r). (case rg_gte r of None \<Rightarrow> True | Some x \<Rightarrow> exact x) \<and>
                           (case rg_lte r of None \<Rightarrow> True | Some x \<Rightarrow> exact x)) (cr_ranges c) \<and>
     list_all (\<lambda>(key, v). trimmed v \<and> newline \<notin> set v \<and> CHR ''['' \<notin> set v) (cr_strings c) \<and>
     (case cr_near c of None \<Rightarrow> True | Some x \<Rightarrow> exact x)"

subsection \<open>Reading one entry\<close>

lemma trimmed_strip: "trimmed v \<Longrightarrow> py_strip v = v"
proof -
  assume v: "trimmed v"
  then have "dropWhile is_space_char v = v" "dropWhile is_space_char (rev v) = rev v"
    by (auto simp: trimmed_def dropWhile_eq_self_iff hd_rev)
  then show ?thesis by (simp add: py_strip_def)
qed

lemma trimmed_strip_blank: "trimmed v \<Longrightarrow> py_strip (CHR '' '' # v) = v"
proof -
  assume v: "trimmed v"
  have "is_space_char CHR '' ''" by code_simp
  with trimmed_strip [OF v] show ?thesis by (simp add: py_strip_def)
qed

lemma int_str_chars: "c \<in> set (int_str i) \<Longrightarrow> is_digit_char c \<or> c = CHR ''-''"
  using nat_str_digits by (auto simp: int_str_def list_all_iff split: if_splits)

lemma digit_facts: "is_digit_char c \<Longrightarrow> \<not> is_space_char c \<and> c \<notin> {CHR ''.'', CHR ''%'', CHR ''['', CHR ''>'', CHR ''<'', CHR '','', CHR ''-''} \<and>
    c \<noteq> newline \<and> c \<noteq> CHR 0x0D"
  by (auto simp: is_digit_char_def is_space_char_def char_code_def newline_def)

lemma int_str_facts:
  assumes "c \<in> set (int_str i)"
  shows "\<not> is_space_char c" "c \<notin> {CHR ''.'', CHR ''%'', CHR ''['', CHR ''>'', CHR ''<'', CHR '',''}" "c \<noteq> newline"
  using int_str_chars [OF assms] digit_facts [of c] by (auto simp: is_space_char_def char_code_def newline_def)

lemma int_str_not_Nil [simp]: "int_str i \<noteq> []"
  by (simp add: int_str_def)

lemma trimmed_int: "trimmed (int_str i)"
  unfolding trimmed_def using int_str_facts(1) [of "hd (int_str i)" i] int_str_facts(1) [of "last (int_str i)" i] by simp

lemma take_digits_all: "list_all is_digit_char ds \<Longrightarrow> take_digits ds = (ds, [])"
  using take_digits_append [of ds "[]"] by simp

lemma number_parts_int: "number_parts (int_str i) = Some (i < 0, nat_str (nat \<bar>i\<bar>), [], 1)"
proof -
  have "hd (nat_str n) \<noteq> CHR ''-''" for n
    using digit_facts [of "hd (nat_str n)"] nat_str_digits [of n] hd_in_set [of "nat_str n"] by (auto simp: list_all_iff)
  then show ?thesis
    by (simp add: number_parts_def int_str_def take_digits_all Let_def)
qed

lemma parse_number_int: "\<bar>i\<bar> \<le> 2 ^ 53 \<Longrightarrow> parse_number (int_str i) = Some (of_int i)"
proof -
  assume i: "\<bar>i\<bar> \<le> 2 ^ 53"
  have "(if i < 0 then - 1 else 1) * rat_of_nat (nat \<bar>i\<bar>) = of_int i" by simp
  moreover have "fl (of_int i) = of_int i" by (rule binary64.rnd_small_int [OF i])
  moreover have "\<not> max_number < \<bar>rat_of_int i\<bar>"
  proof -
    have "\<bar>rat_of_int i\<bar> \<le> of_int (2 ^ 53)" using i by (metis of_int_abs of_int_le_iff)
    then show ?thesis by (simp add: max_number_def)
  qed
  ultimately show ?thesis by (simp add: parse_number_def number_parts_int Let_def)
qed

lemma parse_exact: "exact x \<Longrightarrow> parse_number (show_whole x) = Some x \<and> trimmed (show_whole x) \<and> py_strip (show_whole x) = show_whole x"
  using parse_number_int trimmed_strip [OF trimmed_int] by (auto simp: exact_def show_whole_def trimmed_int)

lemma split_dots_at: "CHR ''.'' \<notin> set a \<Longrightarrow> split_dots (a @ ''..'' @ b) = Some (a, b)"
  by (induction a) auto

lemma split_dots_none: "CHR ''.'' \<notin> set a \<Longrightarrow> split_dots a = None"
  by (induction a) auto

lemma show_whole_no_dot: "CHR ''.'' \<notin> set (show_whole x)"
  using int_str_facts(2) [of "CHR ''.''"] by (auto simp: show_whole_def)

lemma parse_range_show:
  assumes "range_ok r" "case rg_gte r of None \<Rightarrow> True | Some x \<Rightarrow> exact x" "case rg_lte r of None \<Rightarrow> True | Some x \<Rightarrow> exact x"
  shows "parse_range (show_range r) = Inr r \<and> trimmed (show_range r)"
proof -
  have bound: "split_dots (p @ '' '' @ show_whole x) = None" if "CHR ''.'' \<notin> set p" for p x
    using that show_whole_no_dot [of x] by (intro split_dots_none) simp
  have last: "trimmed (c # d # t @ show_whole x)" if "\<not> is_space_char c" "exact x" for c d t x
    using that parse_exact [of x] by (auto simp: trimmed_def)
  have ge: "\<not> is_space_char CHR ''>''" "\<not> is_space_char CHR ''<''" by code_simp+
  obtain lo hi where r: "r = \<lparr>rg_gte = lo, rg_lte = hi\<rparr>" by (cases r)
  show ?thesis
  proof (cases lo)
    case None
    with assms(1) r obtain x where hi: "hi = Some x" by (auto simp: range_ok_def)
    with assms(3) r have x: "exact x" by simp
    have "parse_range (''<= '' @ show_whole x) = Inr \<lparr>rg_gte = None, rg_lte = Some x\<rparr>"
      using bound [of "''<=''" x] parse_exact [OF x] trimmed_strip_blank [of "show_whole x"]
      by (simp add: parse_range_def py_startswith_def)
    with r None hi last [OF ge(2) x, of "CHR ''=''" "'' ''"] show ?thesis by (simp add: show_range_def)
  next
    case lo: (Some y)
    with assms(2) r have y: "exact y" by simp
    show ?thesis
    proof (cases hi)
      case None
      have "parse_range (''>= '' @ show_whole y) = Inr \<lparr>rg_gte = Some y, rg_lte = None\<rparr>"
        using bound [of "''>=''" y] parse_exact [OF y] trimmed_strip_blank [of "show_whole y"]
        by (simp add: parse_range_def py_startswith_def)
      with r None lo last [OF ge(1) y, of "CHR ''=''" "'' ''"] show ?thesis by (simp add: show_range_def)
    next
      case (Some x)
      with assms(3) r have x: "exact x" by simp
      have "y \<le> x" using assms(1) r lo Some by (simp add: range_ok_def)
      then have "parse_range (show_whole y @ ''..'' @ show_whole x) = Inr \<lparr>rg_gte = Some y, rg_lte = Some x\<rparr>"
        using split_dots_at [OF show_whole_no_dot, of y "show_whole x"] parse_exact [OF x] parse_exact [OF y]
        by (simp add: parse_range_def)
      moreover have "trimmed (show_whole y @ ''..'' @ show_whole x)"
        using parse_exact [OF x] parse_exact [OF y] by (simp add: trimmed_def)
      ultimately show ?thesis using r lo Some by (simp add: show_range_def)
    qed
  qed
qed

subsection \<open>Reading the lines back\<close>

lemma key_facts:
  assumes "key \<in> set all_keys"
  shows "trimmed key" "py_lower key = key" "CHR '':'' \<notin> set key" "hd key \<noteq> CHR ''#''" "newline \<notin> set key" "CHR ''['' \<notin> set key"
proof -
  have "list_all (\<lambda>key. trimmed key \<and> py_lower key = key \<and> CHR '':'' \<notin> set key \<and> hd key \<noteq> CHR ''#'' \<and> newline \<notin> set key \<and>
      CHR ''['' \<notin> set key) all_keys" by code_simp
  with assms show "trimmed key" "py_lower key = key" "CHR '':'' \<notin> set key" "hd key \<noteq> CHR ''#''" "newline \<notin> set key" "CHR ''['' \<notin> set key"
    by (simp_all add: list_all_iff)
qed

lemma py_partition_at: "sep \<notin> set a \<Longrightarrow> py_partition sep (a @ sep # b) = Some (a, b)"
  by (induction a) auto

lemma body_line_entry:
  assumes key: "key \<in> set all_keys" and v: "trimmed v" and new: "key \<in> set repeatable \<or> key \<notin> set (bs_seen s)"
    and ok: "apply_line key v (bs_criteria s) = Inr c"
  shows "body_line n (entry key v) s =
    s\<lparr>bs_criteria := c, bs_seen := (if key \<in> set repeatable then bs_seen s else key # bs_seen s)\<rparr>"
proof -
  note k = key_facts [OF key]
  have ne: "key \<noteq> []" "v \<noteq> []" using k(1) v by (simp_all add: trimmed_def)
  have trim: "trimmed (entry key v)" using k(1) v ne by (simp add: trimmed_def entry_def)
  then have "last (entry key v) \<noteq> CHR 0x0D" unfolding trimmed_def by (auto simp: is_space_char_def char_code_def)
  then have cr: "dropWhile (\<lambda>c. c = CHR 0x0D) (rev (entry key v)) = rev (entry key v)"
    using trim by (simp add: trimmed_def dropWhile_eq_self_iff hd_rev)
  have line: "py_strip (rev (dropWhile (\<lambda>c. c = CHR 0x0D) (rev (entry key v)))) = entry key v"
    by (simp add: cr trimmed_strip [OF trim])
  have part: "py_partition (CHR '':'') (entry key v) = Some (key, CHR '' '' # v)"
    using py_partition_at [OF k(3), of "CHR '' '' # v"] by (simp add: entry_def)
  have "\<not> py_startswith (entry key v) ''#''" using k(4) ne by (cases key) (auto simp: py_startswith_def entry_def)
  then show ?thesis
    using part key new ok ne k(2) trimmed_strip [OF k(1)] trimmed_strip_blank [OF v]
    unfolding body_line_def line Let_def part by (auto simp: entry_def)
qed

lemma body_lines_append: "body_lines n (xs @ ys) s = body_lines (n + length xs) ys (body_lines n xs s)"
  by (induction xs arbitrary: n s) simp_all

lemma range_key_facts: "key \<in> set (map fst range_keys) \<Longrightarrow> key \<in> set all_keys \<and> key \<notin> set repeatable"
  by (auto simp: all_keys_def key_lists repeatable_def)

lemma string_key_facts: "key \<in> set (map fst string_keys) \<Longrightarrow> key \<in> set all_keys \<and> key \<notin> set repeatable \<and> key \<notin> set (map fst range_keys)"
  by (auto simp: all_keys_def key_lists repeatable_def)

lemma read_ranges:
  assumes "distinct (map fst rs)" "list_all (\<lambda>(key, r). key \<in> set (map fst range_keys) \<and> range_ok r) rs"
    "list_all (\<lambda>(key, r). (case rg_gte r of None \<Rightarrow> True | Some x \<Rightarrow> exact x) \<and> (case rg_lte r of None \<Rightarrow> True | Some x \<Rightarrow> exact x)) rs"
    "list_all (\<lambda>kr. fst kr \<notin> set (bs_seen s)) rs"
  shows "body_lines n (map (\<lambda>(key, r). entry key (show_range r)) rs) s =
    s\<lparr>bs_criteria := (bs_criteria s)\<lparr>cr_ranges := cr_ranges (bs_criteria s) @ rs\<rparr>, bs_seen := rev (map fst rs) @ bs_seen s\<rparr>"
  using assms
proof (induction rs arbitrary: n s)
  case (Cons kr rs)
  obtain key r where kr: "kr = (key, r)" by (cases kr)
  have r: "parse_range (show_range r) = Inr r" "trimmed (show_range r)" using Cons.prems parse_range_show [of r] by (simp_all add: kr)
  have k: "key \<in> set all_keys" "key \<notin> set repeatable" "key \<in> set (map fst range_keys)"
    using Cons.prems(2) range_key_facts [of key] by (simp_all add: kr)
  let ?s = "s\<lparr>bs_criteria := (bs_criteria s)\<lparr>cr_ranges := cr_ranges (bs_criteria s) @ [(key, r)]\<rparr>, bs_seen := key # bs_seen s\<rparr>"
  have "body_line n (entry key (show_range r)) s = ?s"
    using body_line_entry [OF k(1) r(2)] k(2,3) r(1) Cons.prems(4) by (simp add: kr apply_line_def)
  moreover have "list_all (\<lambda>kr. fst kr \<notin> set (bs_seen ?s)) rs" using Cons.prems(1,4) by (auto simp: kr list_all_iff)
  ultimately show ?case using Cons.IH [of ?s "n + 1"] Cons.prems by (simp add: kr)
qed simp

lemma country_upper: "list_all is_upper_char v \<Longrightarrow> list_all is_alpha v \<and> py_upper v = v"
proof -
  assume v: "list_all is_upper_char v"
  have "upper_char c = c" if "is_upper_char c" for c
    using that by (auto simp: upper_char_def is_upper_char_def is_lower_char_def)
  with v have "map upper_char v = map id v" by (intro map_cong) (auto simp: list_all_iff)
  with v show ?thesis by (auto simp: list_all_iff is_alpha_def py_upper_def)
qed

lemma read_strings:
  assumes "distinct (map fst kvs)" "list_all (\<lambda>kv. fst kv \<in> set (map fst string_keys) \<and> text_ok kv) kvs"
    "list_all (\<lambda>(key, v). trimmed v \<and> newline \<notin> set v \<and> CHR ''['' \<notin> set v) kvs"
    "list_all (\<lambda>kv. fst kv \<notin> set (bs_seen s)) kvs"
  shows "body_lines n (map (\<lambda>(key, v). entry key v) kvs) s =
    s\<lparr>bs_criteria := (bs_criteria s)\<lparr>cr_strings := cr_strings (bs_criteria s) @ kvs\<rparr>, bs_seen := rev (map fst kvs) @ bs_seen s\<rparr>"
  using assms
proof (induction kvs arbitrary: n s)
  case (Cons kv kvs)
  obtain key v where kv: "kv = (key, v)" by (cases kv)
  have v: "trimmed v" "text_ok (key, v)" using Cons.prems by (simp_all add: kv)
  have k: "key \<in> set all_keys" "key \<notin> set repeatable" "key \<in> set (map fst string_keys)" "key \<notin> set (map fst range_keys)"
    using Cons.prems(2) string_key_facts [of key] by (simp_all add: kv)
  have "key = ''country'' \<longrightarrow> list_all is_alpha v \<and> py_upper v = v" using v(2) country_upper [of v] by (simp add: text_ok_def)
  with v k have ap: "apply_line key v c = Inr (c\<lparr>cr_strings := cr_strings c @ [(key, v)]\<rparr>)" for c
    by (auto simp: apply_line_def text_ok_def)
  let ?s = "s\<lparr>bs_criteria := (bs_criteria s)\<lparr>cr_strings := cr_strings (bs_criteria s) @ [(key, v)]\<rparr>, bs_seen := key # bs_seen s\<rparr>"
  have "body_line n (entry key v) s = ?s"
    using body_line_entry [OF k(1) v(1) _ ap] k(2) Cons.prems(4) by (simp add: kv)
  moreover have "list_all (\<lambda>kr. fst kr \<notin> set (bs_seen ?s)) kvs" using Cons.prems(1,4) by (auto simp: kv list_all_iff)
  ultimately show ?case using Cons.IH [of ?s "n + 1"] Cons.prems by (simp add: kv)
qed simp

lemma windows_cases: "windows_ok ws \<Longrightarrow> ws \<in> {[], [50], [200], [50, 200]}"
proof -
  assume ws: "windows_ok ws"
  then have "x = 50 \<or> x = 200" if "x \<in> set ws" for x using that by (auto simp: windows_ok_def sma_windows_def)
  then have "x \<in> set ws \<longleftrightarrow> x \<in> set (filter (\<lambda>w. w \<in> set ws) [50, 200])" for x by auto
  then have same: "set ws = set (filter (\<lambda>w. w \<in> set ws) [50, 200])" by (rule set_eqI)
  have "sorted ws" "distinct ws" "sorted (filter (\<lambda>w. w \<in> set ws) [50, 200])" "distinct (filter (\<lambda>w. w \<in> set ws) [50, 200])"
    using ws by (simp_all add: windows_ok_def)
  then have "ws = filter (\<lambda>w. w \<in> set ws) [50, 200]" using same by (rule sorted_distinct_set_unique)
  moreover have "filter p [50, 200] \<in> {[], [50], [200], [50, 200]}" for p :: "int \<Rightarrow> bool" by simp
  ultimately show ?thesis by metis
qed

lemma add_window_new: "w \<in> set sma_windows \<Longrightarrow> w \<notin> set ws \<Longrightarrow> add_window key (int_str w) ws = Inr (sort (ws @ [w]))"
proof -
  assume w: "w \<in> set sma_windows" "w \<notin> set ws"
  then have "parse_number (int_str w) = Some (of_int w)" by (intro parse_number_int) (auto simp: sma_windows_def)
  with w show ?thesis by (simp add: add_window_def)
qed

lemma read_above:
  assumes "windows_ok ws" "cr_above (bs_criteria s) = []"
  shows "body_lines n (map (\<lambda>w. entry ''above_sma'' (int_str w)) ws) s = s\<lparr>bs_criteria := (bs_criteria s)\<lparr>cr_above := ws\<rparr>\<rparr>"
proof -
  have line: "body_line n (entry ''above_sma'' (int_str w)) s = s\<lparr>bs_criteria := (bs_criteria s)\<lparr>cr_above := sort (cr_above (bs_criteria s) @ [w])\<rparr>\<rparr>"
    if "w \<in> set sma_windows" "w \<notin> set (cr_above (bs_criteria s))" for n w s
  proof -
    have "apply_line ''above_sma'' (int_str w) (bs_criteria s) = Inr ((bs_criteria s)\<lparr>cr_above := sort (cr_above (bs_criteria s) @ [w])\<rparr>)"
      using add_window_new [OF that] by (simp add: apply_line_def key_lists)
    from body_line_entry [OF _ trimmed_int _ this] show ?thesis by (simp add: all_keys_def repeatable_def)
  qed
  from windows_cases [OF assms(1)] assms(2) show ?thesis by (auto simp: line sma_windows_def)
qed

lemma read_rising:
  assumes "windows_ok ws" "cr_rising (bs_criteria s) = []"
  shows "body_lines n (map (\<lambda>w. entry ''sma_rising'' (int_str w)) ws) s = s\<lparr>bs_criteria := (bs_criteria s)\<lparr>cr_rising := ws\<rparr>\<rparr>"
proof -
  have line: "body_line n (entry ''sma_rising'' (int_str w)) s = s\<lparr>bs_criteria := (bs_criteria s)\<lparr>cr_rising := sort (cr_rising (bs_criteria s) @ [w])\<rparr>\<rparr>"
    if "w \<in> set sma_windows" "w \<notin> set (cr_rising (bs_criteria s))" for n w s
  proof -
    have "apply_line ''sma_rising'' (int_str w) (bs_criteria s) = Inr ((bs_criteria s)\<lparr>cr_rising := sort (cr_rising (bs_criteria s) @ [w])\<rparr>)"
      using add_window_new [OF that] by (simp add: apply_line_def key_lists)
    from body_line_entry [OF _ trimmed_int _ this] show ?thesis by (simp add: all_keys_def repeatable_def)
  qed
  from windows_cases [OF assms(1)] assms(2) show ?thesis by (auto simp: line sma_windows_def)
qed

text \<open>The keys written after the ranges and the texts.\<close>

definition single_keys :: "string list" where
  "single_keys = [''etf'', ''near_52w_high'', ''min_history'', ''limit'']"

lemma read_option:
  assumes "key \<in> set single_keys" "key \<notin> set (bs_seen s)"
    "\<And>x. v = Some x \<Longrightarrow> trimmed (f x) \<and> apply_line key (f x) (bs_criteria s) = Inr (upd (bs_criteria s) x)"
  shows "body_lines n (show_option f key v) s =
    (case v of None \<Rightarrow> s | Some x \<Rightarrow> s\<lparr>bs_criteria := upd (bs_criteria s) x, bs_seen := key # bs_seen s\<rparr>)"
proof (cases v)
  case (Some x)
  have k: "key \<in> set all_keys" "key \<notin> set repeatable" using assms(1) by (auto simp: single_keys_def all_keys_def repeatable_def)
  with assms(2,3) Some body_line_entry [OF k(1), of "f x" s "upd (bs_criteria s) x" n] show ?thesis by (simp add: show_option_def)
qed (simp add: show_option_def)

lemma apply_single:
  "apply_line ''etf'' (if b then ''true'' else ''false'') c = Inr (c\<lparr>cr_etf := Some b\<rparr>)"
  "exact x \<Longrightarrow> 1 \<le> x \<Longrightarrow> x \<le> 100 \<Longrightarrow> apply_line ''near_52w_high'' (show_whole x) c = Inr (c\<lparr>cr_near := Some x\<rparr>)"
  "1 \<le> n \<Longrightarrow> n \<le> min_history_max \<Longrightarrow> apply_line ''min_history'' (int_str n) c = Inr (c\<lparr>cr_min_history := Some n\<rparr>)"
  "1 \<le> m \<Longrightarrow> m \<le> 100 \<Longrightarrow> apply_line ''limit'' (int_str m) c = Inr (c\<lparr>cr_limit := Some m\<rparr>)"
proof -
  have "py_lower ''true'' = ''true''" "py_lower ''false'' = ''false''" by code_simp+
  then show "apply_line ''etf'' (if b then ''true'' else ''false'') c = Inr (c\<lparr>cr_etf := Some b\<rparr>)"
    by (simp add: apply_line_def key_lists)
  have "\<not> py_endswith (show_whole x) ''%''"
  proof
    assume "py_endswith (show_whole x) ''%''"
    then have "CHR ''%'' \<in> set (show_whole x)" by (auto simp: py_endswith_def suffix_def)
    then show False using int_str_facts(2) by (auto simp: show_whole_def)
  qed
  then show "apply_line ''near_52w_high'' (show_whole x) c = Inr (c\<lparr>cr_near := Some x\<rparr>)" if "exact x" "1 \<le> x" "x \<le> 100"
    using parse_exact [OF that(1)] that(2,3) by (simp add: apply_line_def key_lists)
  show "apply_line ''min_history'' (int_str n) c = Inr (c\<lparr>cr_min_history := Some n\<rparr>)" if "1 \<le> n" "n \<le> min_history_max"
    using parse_number_int [of n] that by (simp add: apply_line_def key_lists whole_def min_history_max_def)
  show "apply_line ''limit'' (int_str m) c = Inr (c\<lparr>cr_limit := Some m\<rparr>)" if "1 \<le> m" "m \<le> 100"
    using parse_number_int [of m] that by (simp add: apply_line_def key_lists whole_def)
qed

definition clean_body :: "criteria \<Rightarrow> string list \<Rightarrow> body_state" where
  "clean_body c seen = \<lparr>bs_criteria = c, bs_seen = seen, bs_errors = []\<rparr>"

lemma clean_body_simps [simp]:
  "bs_criteria (clean_body c seen) = c" "bs_seen (clean_body c seen) = seen" "bs_errors (clean_body c seen) = []"
  "clean_body c seen\<lparr>bs_criteria := c'\<rparr> = clean_body c' seen" "clean_body c seen\<lparr>bs_seen := seen'\<rparr> = clean_body c seen'"
  by (simp_all add: clean_body_def)

lemma read_single:
  assumes "key \<in> set single_keys" "key \<notin> set seen"
    "\<And>x. v = Some x \<Longrightarrow> trimmed (f x) \<and> apply_line key (f x) c = Inr c'" "v = None \<Longrightarrow> c' = c"
  shows "body_lines n (show_option f key v) (clean_body c seen) = clean_body c' (if v = None then seen else key # seen)"
  using read_option [of key "clean_body c seen" v f "\<lambda>c x. c'" n] assms by (cases v) simp_all

lemma read_back:
  assumes ok: "criteria_ok c" and pr: "printable c"
  shows "\<exists>seen. body_lines n (show_lines c) (clean_body no_criteria []) = clean_body c seen"
proof -
  let ?f = "\<lambda>b. if b then ''true'' else ''false''"
  obtain ranges strings etf above rising near_high history cap where c: "c = \<lparr>cr_ranges = ranges, cr_strings = strings, cr_etf = etf,
      cr_above = above, cr_rising = rising, cr_near = near_high, cr_min_history = history, cr_limit = cap\<rparr>" by (cases c)
  let ?c = "\<lambda>st e a r ne mh li. \<lparr>cr_ranges = ranges, cr_strings = st, cr_etf = e, cr_above = a, cr_rising = r, cr_near = ne,
      cr_min_history = mh, cr_limit = li\<rparr>"
  have rs: "distinct (map fst ranges)" "list_all (\<lambda>(key, r). key \<in> set (map fst range_keys) \<and> range_ok r) ranges"
    and ss: "distinct (map fst strings)" "list_all (\<lambda>kv. fst kv \<in> set (map fst string_keys) \<and> text_ok kv) strings"
    and ws: "windows_ok above" "windows_ok rising" using ok by (simp_all add: criteria_ok_def c)
  have exact: "list_all (\<lambda>(key, r). (case rg_gte r of None \<Rightarrow> True | Some x \<Rightarrow> exact x) \<and> (case rg_lte r of None \<Rightarrow> True | Some x \<Rightarrow> exact x)) ranges"
    and texts: "list_all (\<lambda>(key, v). trimmed v \<and> newline \<notin> set v \<and> CHR ''['' \<notin> set v) strings"
    using pr by (simp_all add: printable_def c)
  define s1 where "s1 = rev (map fst strings) @ rev (map fst ranges)"
  define s2 where "s2 = (if etf = None then s1 else ''etf'' # s1)"
  define s3 where "s3 = (if near_high = None then s2 else ''near_52w_high'' # s2)"
  define s4 where "s4 = (if history = None then s3 else ''min_history'' # s3)"
  have single: "key \<notin> set s1" if "key \<in> set single_keys" for key
    using rs(2) ss(2) that by (auto simp: s1_def list_all_iff single_keys_def key_lists)
  have fresh: "list_all (\<lambda>kv. fst kv \<notin> set (rev (map fst ranges))) strings"
  proof -
    have "fst kr \<in> set (map fst range_keys)" if "kr \<in> set ranges" for kr using rs(2) that by (cases kr) (auto simp: list_all_iff)
    moreover have "fst kv \<notin> set (map fst range_keys)" if "kv \<in> set strings" for kv
      using ss(2) that string_key_facts [of "fst kv"] by (simp add: list_all_iff)
    ultimately show ?thesis unfolding list_all_iff by auto metis
  qed
  have ks: "''etf'' \<in> set single_keys" "''near_52w_high'' \<in> set single_keys" "''min_history'' \<in> set single_keys" "''limit'' \<in> set single_keys"
    by (simp_all add: single_keys_def)
  have 1: "body_lines m (map (\<lambda>(key, r). entry key (show_range r)) ranges) (clean_body no_criteria []) =
      clean_body (?c [] None [] [] None None None) (rev (map fst ranges))" for m
    using read_ranges [OF rs exact, of "clean_body no_criteria []" m] by (simp add: no_criteria_def list_all_iff)
  have 2: "body_lines m (map (\<lambda>(key, v). entry key v) strings) (clean_body (?c [] None [] [] None None None) (rev (map fst ranges))) =
      clean_body (?c strings None [] [] None None None) s1" for m
    using read_strings [OF ss texts, of "clean_body (?c [] None [] [] None None None) (rev (map fst ranges))" m] fresh by (simp add: s1_def)
  have 3: "body_lines m (show_option ?f ''etf'' etf) (clean_body (?c strings None [] [] None None None) s1) =
      clean_body (?c strings etf [] [] None None None) s2" for m
    unfolding s2_def using single [OF ks(1)]
    by (intro read_single [OF ks(1)]) (auto simp: apply_single trimmed_def is_space_char_def char_code_def)
  have 4: "body_lines m (map (\<lambda>w. entry ''above_sma'' (int_str w)) above) (clean_body (?c strings etf [] [] None None None) s2) =
      clean_body (?c strings etf above [] None None None) s2" for m
    using read_above [OF ws(1), of "clean_body (?c strings etf [] [] None None None) s2" m] by simp
  have 5: "body_lines m (map (\<lambda>w. entry ''sma_rising'' (int_str w)) rising) (clean_body (?c strings etf above [] None None None) s2) =
      clean_body (?c strings etf above rising None None None) s2" for m
    using read_rising [OF ws(2), of "clean_body (?c strings etf above [] None None None) s2" m] by simp
  have 6: "body_lines m (show_option show_whole ''near_52w_high'' near_high) (clean_body (?c strings etf above rising None None None) s2) =
      clean_body (?c strings etf above rising near_high None None) s3" for m
    unfolding s3_def using single [OF ks(2)] ok pr
    by (intro read_single [OF ks(2)]) (auto simp: s2_def c criteria_ok_def printable_def apply_single parse_exact)
  have 7: "body_lines m (show_option int_str ''min_history'' history) (clean_body (?c strings etf above rising near_high None None) s3) =
      clean_body (?c strings etf above rising near_high history None) s4" for m
    unfolding s4_def using single [OF ks(3)] ok
    by (intro read_single [OF ks(3)]) (auto simp: s2_def s3_def c criteria_ok_def apply_single trimmed_int)
  have 8: "body_lines m (show_option int_str ''limit'' cap) (clean_body (?c strings etf above rising near_high history None) s4) =
      clean_body (?c strings etf above rising near_high history cap) (if cap = None then s4 else ''limit'' # s4)" for m
    using single [OF ks(4)] ok
    by (intro read_single [OF ks(4)]) (auto simp: s2_def s3_def s4_def c criteria_ok_def apply_single trimmed_int)
  have "body_lines n (show_lines c) (clean_body no_criteria []) = clean_body c (if cap = None then s4 else ''limit'' # s4)"
    unfolding show_lines_def body_lines_append c criteria.select_convs 1 2 3 4 5 6 7 8 by (rule refl)
  then show ?thesis by (rule exI)
qed

subsection \<open>The block in a description\<close>

lemma py_split_join: "ws \<noteq> [] \<Longrightarrow> \<forall>w\<in>set ws. sep \<notin> set w \<Longrightarrow> py_split sep (py_join [sep] ws) = ws"
proof (induction ws)
  case (Cons w ws)
  have single: "py_split sep w = [w]" if "sep \<notin> set w" for w using that by (induction w) auto
  have more: "py_split sep (w @ sep # r) = w # py_split sep r" if "sep \<notin> set w" for w r using that by (induction w) auto
  show ?case using Cons by (cases ws) (simp_all add: single more)
qed simp

definition plain_line :: "string \<Rightarrow> bool" where
  "plain_line l \<longleftrightarrow> newline \<notin> set l \<and> open_rest l = None"

lemma open_lines_plain: "list_all plain_line ls \<Longrightarrow> open_lines n ls = []"
  by (induction ls arbitrary: n) (auto simp: plain_line_def)

lemma open_lines_append: "open_lines n (xs @ ys) = open_lines n xs @ open_lines (n + length xs) ys"
  by (induction xs arbitrary: n) simp_all

lemma lower_bracket: "lower_char c = CHR ''['' \<longleftrightarrow> c = CHR ''[''"
proof (cases "is_upper_char c")
  case True
  then have range: "65 \<le> char_code c" "char_code c \<le> 90" by (simp_all add: is_upper_char_def)
  then have "char_code (char_of (char_code c + 32)) = char_code c + 32" by (simp add: char_code_def)
  moreover have "char_code CHR ''['' = 91" by (simp add: char_code_def)
  ultimately have "lower_char c \<noteq> CHR ''[''" "c \<noteq> CHR ''[''" using True range by (auto simp: lower_char_def)
  then show ?thesis by simp
qed (simp add: lower_char_def)

lemma before_close_at: "CHR ''['' \<notin> set b \<Longrightarrow> before_close (b @ ''[/screen]'' @ r) = Some b"
proof (induction b)
  case Nil
  have "py_lower ''[/screen]'' = ''[/screen]''" by code_simp
  then show ?case by (simp add: py_lower_def)
next
  case (Cons c b)
  then have "py_lower (take 9 (c # b @ ''[/screen]'' @ r)) \<noteq> ''[/screen]''"
    using lower_bracket [of c] by (auto simp: py_lower_def)
  with Cons show ?case by simp
qed

lemma open_rest_no_bracket: "CHR ''['' \<notin> set l \<Longrightarrow> open_rest l = None"
proof -
  assume l: "CHR ''['' \<notin> set l"
  let ?l = "dropWhile (\<lambda>c. c = CHR '' '' \<or> c = CHR 0x09) l"
  show ?thesis
  proof (cases ?l)
    case (Cons a as)
    then have "a \<in> set l" by (metis list.set_intros(1) set_dropWhileD)
    with l have "a \<noteq> CHR ''[''" by metis
    then show ?thesis by (simp add: open_rest_def Cons py_lower_def lower_bracket)
  next
    case Nil
    show ?thesis unfolding open_rest_def Let_def Nil by (simp add: py_lower_def)
  qed
qed

text \<open>The written lines.\<close>

definition body_text_line :: "string \<Rightarrow> bool" where
  "body_text_line l \<longleftrightarrow> newline \<notin> set l \<and> CHR ''['' \<notin> set l"

lemma entry_text: "key \<in> set all_keys \<Longrightarrow> newline \<notin> set v \<Longrightarrow> CHR ''['' \<notin> set v \<Longrightarrow> body_text_line (entry key v)"
  using key_facts(5,6) by (auto simp: body_text_line_def entry_def newline_def)

lemma int_text: "newline \<notin> set (int_str i) \<and> CHR ''['' \<notin> set (int_str i)"
  using int_str_facts(2,3) by fastforce

lemma option_text:
  "key \<in> set single_keys \<Longrightarrow> (\<And>x. newline \<notin> set (f x) \<and> CHR ''['' \<notin> set (f x)) \<Longrightarrow> list_all body_text_line (show_option f key v)"
  by (auto simp: show_option_def single_keys_def all_keys_def intro!: entry_text split: option.split)

lemma set_join: "set (py_join sep ws) \<subseteq> set sep \<union> \<Union> (set ` set ws)"
  by (induction sep ws rule: py_join.induct) auto

lemma show_lines_text:
  assumes ok: "criteria_ok c" and pr: "printable c"
  shows "list_all body_text_line (show_lines c)"
proof -
  have rng: "newline \<notin> set (show_range r) \<and> CHR ''['' \<notin> set (show_range r)" for r
    using int_text by (auto simp: show_range_def show_whole_def newline_def split: option.split)
  have "list_all body_text_line (map (\<lambda>(key, r). entry key (show_range r)) (cr_ranges c))"
  proof -
    have "key \<in> set all_keys" if "(key, r) \<in> set (cr_ranges c)" for key r
    proof -
      have "key \<in> set (map fst range_keys)" using ok that by (auto simp: criteria_ok_def list_all_iff)
      then show ?thesis using range_key_facts by blast
    qed
    then show ?thesis using rng by (auto simp: list_all_iff intro!: entry_text)
  qed
  moreover have "list_all body_text_line (map (\<lambda>(key, v). entry key v) (cr_strings c))"
  proof -
    have "key \<in> set all_keys \<and> newline \<notin> set v \<and> CHR ''['' \<notin> set v" if "(key, v) \<in> set (cr_strings c)" for key v
    proof -
      have "fst (key, v) \<in> set (map fst string_keys)" using ok that unfolding criteria_ok_def list_all_iff by blast
      moreover have "newline \<notin> set v \<and> CHR ''['' \<notin> set v" using pr that by (auto simp: printable_def list_all_iff)
      ultimately show ?thesis using string_key_facts [of key] by simp
    qed
    then show ?thesis by (auto simp: list_all_iff intro!: entry_text)
  qed
  moreover have "list_all body_text_line (map (\<lambda>w. entry ''above_sma'' (int_str w)) (cr_above c))"
    "list_all body_text_line (map (\<lambda>w. entry ''sma_rising'' (int_str w)) (cr_rising c))"
    using int_text by (auto simp: list_all_iff all_keys_def intro!: entry_text)
  ultimately show ?thesis
    using int_text
    by (simp add: show_lines_def option_text single_keys_def show_whole_def newline_def)
qed

lemma split_body: "py_split newline (py_join [newline] ([] # ls @ [[]])) = [] # ls @ [[]]" if "list_all body_text_line ls"
  using that by (intro py_split_join) (auto simp: list_all_iff body_text_line_def)

lemma join_close:
  "py_join [newline] ([] # ls @ ''[/screen]'' # post) = py_join [newline] ([] # ls @ [[]]) @ ''[/screen]'' @ r"
  if "r = (if post = [] then [] else newline # py_join [newline] post)" for ls post r
proof -
  have "py_join [newline] (w # ws @ ''[/screen]'' # post) = py_join [newline] (w # ws @ [[]]) @ ''[/screen]'' @ r" for w ws
    using that by (induction ws arbitrary: w) (cases post; simp)+
  then show ?thesis .
qed


definition sample_criteria :: criteria where
  "sample_criteria = \<lparr>cr_ranges = [(''market_cap'', \<lparr>rg_gte = Some 2000000000, rg_lte = None\<rparr>),
       (''price'', \<lparr>rg_gte = Some 10, rg_lte = Some 1000\<rparr>)], cr_strings = [(''sector'', ''Basic Materials''), (''country'', ''US'')],
     cr_etf = Some False, cr_above = [50, 200], cr_rising = [200], cr_near = Some 25, cr_min_history = None, cr_limit = Some 30\<rparr>"

lemma sample_lines: "show_lines sample_criteria =
  [''market_cap: >= 2000000000'', ''price: 10..1000'', ''sector: Basic Materials'', ''country: US'', ''etf: false'', ''above_sma: 50'',
   ''above_sma: 200'', ''sma_rising: 200'', ''near_52w_high: 25'', ''limit: 30'']"
proof -
  have "int_str 2000000000 = ''2000000000''" "int_str 10 = ''10''" "int_str 1000 = ''1000''" "int_str 50 = ''50''"
    "int_str 200 = ''200''" "int_str 25 = ''25''" "int_str 30 = ''30''"
    by (simp_all add: int_str_def nat_str.simps char_of_def bit_0)
  then show ?thesis
    by (simp add: show_lines_def sample_criteria_def entry_def show_range_def show_whole_def show_option_def)
qed


end
