(* ===== verification/Strategy_Upload.thy ===== *)
theory Strategy_Upload
  imports Decimals
begin

text \<open>
  The validators of a strategy upload and of a webhook schema (\<open>strategies/validators.py\<close>). File
  contents are lists of bytes. \<open>json.loads\<close> of the decoded webhook file and SHA-256 are parameters;
  the file names are text.
\<close>

subsection \<open>Limits and names\<close>

definition pine_max_bytes :: nat where
  "pine_max_bytes = 64 * 1024"

definition desc_max_bytes :: nat where
  "desc_max_bytes = 256 * 1024"

definition webhook_max_bytes :: nat where
  "webhook_max_bytes = 16 * 1024"

definition required_webhook_keys :: "string list" where
  "required_webhook_keys = [''strategy'', ''action'', ''symbol'', ''qty'', ''order_type'']"

definition xss_signatures :: "string list" where
  "xss_signatures = [''<script'', ''javascript:'', ''onerror='', ''onload='']"

definition supported_pine_versions :: "nat list" where
  "supported_pine_versions = [5, 6]"

text \<open>
  A validator either rejects with a code, or an exception of the standard library escapes it that the
  caller does not expect.
\<close>

datatype upload_error = StrategyError string | EscapedValueError

record upload_file =
  uf_name :: string
  uf_bytes :: string

record upload_bundle =
  bu_stem :: string
  bu_pine :: upload_file
  bu_desc :: upload_file
  bu_webhook :: upload_file
  bu_template :: "(string \<times> json) list"

text \<open>The outcome of decoding and parsing the webhook file.\<close>

datatype json_outcome = JsonValue json | JsonMalformed | JsonValueError

record upload_env =
  ue_loads :: "string \<Rightarrow> json_outcome"

subsection \<open>Names\<close>

definition bad_filename :: "string \<Rightarrow> bool" where
  "bad_filename fn \<longleftrightarrow> fn = [] \<or> CHR 0x00 \<in> set fn \<or> CHR ''/'' \<in> set fn \<or> CHR 0x5C \<in> set fn \<or>
     py_startswith fn ''..'' \<or> py_contains ''/..'' fn"

definition stem_char :: "char \<Rightarrow> bool" where
  "stem_char c \<longleftrightarrow> is_upper_char c \<or> is_lower_char c \<or> is_digit_char c \<or> c = CHR ''_'' \<or> c = CHR ''-''"

text \<open>\<open>^[A-Za-z0-9_\-]{3,64}$\<close> with \<open>re.match\<close>: \<open>$\<close> also matches before a final line feed.\<close>

definition stem_matches :: "string \<Rightarrow> bool" where
  "stem_matches s \<longleftrightarrow>
     (let core = (if s \<noteq> [] \<and> last s = CHR 0x0A then butlast s else s)
      in 3 \<le> length core \<and> length core \<le> 64 \<and> list_all stem_char core)"

subsection \<open>The Pine annotation\<close>

definition is_blank :: "char \<Rightarrow> bool" where
  "is_blank c \<longleftrightarrow> c = CHR '' '' \<or> c = CHR 0x09"

definition skip_blanks :: "string \<Rightarrow> string" where
  "skip_blanks s = dropWhile is_blank s"

text \<open>What follows a literal, matched without regard to case.\<close>

definition after_literal :: "string \<Rightarrow> string \<Rightarrow> string option" where
  "after_literal lit s = (if py_lower (take (length lit) s) = lit then Some (drop (length lit) s) else None)"

text \<open>The digits of an annotation that starts the line.\<close>

definition pine_line :: "string \<Rightarrow> string option" where
  "pine_line line =
     Option.bind (after_literal ''//'' (skip_blanks line)) (\<lambda>s1.
     Option.bind (after_literal ''@version'' (skip_blanks s1)) (\<lambda>s2.
     Option.bind (after_literal ''='' (skip_blanks s2)) (\<lambda>s3.
       let ds = fst (take_digits (skip_blanks s3)) in if ds = [] then None else Some ds)))"

definition bom_utf8 :: string where
  "bom_utf8 = [CHR 0xEF, CHR 0xBB, CHR 0xBF]"

text \<open>The first annotation of the file.\<close>

definition pine_version_digits :: "string \<Rightarrow> string option" where
  "pine_version_digits pine =
     (let body = (if py_startswith pine bom_utf8 then drop 3 pine else pine)
      in Option.bind (first_where (\<lambda>l. pine_line l \<noteq> None) (py_split CHR 0x0A body)) pine_line)"

text \<open>\<open>int(text)\<close> refuses more digits than this.\<close>

definition int_max_str_digits :: nat where
  "int_max_str_digits = 4300"

definition validate_pine_version :: "string \<Rightarrow> upload_error + nat" where
  "validate_pine_version pine =
     (case pine_version_digits pine of
        None \<Rightarrow> Inl (StrategyError ''STRATEGY_FILE_MISMATCH'')
      | Some ds \<Rightarrow>
          if int_max_str_digits < length ds then Inl EscapedValueError
          else if digits_nat ds \<notin> set supported_pine_versions then Inl (StrategyError ''STRATEGY_FILE_MISMATCH'')
          else Inr (digits_nat ds))"

definition suspicious :: "string \<Rightarrow> bool" where
  "suspicious blob \<longleftrightarrow> list_ex (\<lambda>sg. py_contains sg (py_lower blob)) xss_signatures"

subsection \<open>The bundle\<close>

definition reject :: "string \<Rightarrow> upload_error + 'a" where
  "reject code = Inl (StrategyError code)"

definition parse_webhook :: "upload_env \<Rightarrow> string \<Rightarrow> upload_error + (string \<times> json) list" where
  "parse_webhook ue blob =
     (case ue_loads ue blob of
        JsonMalformed \<Rightarrow> reject ''STRATEGY_WEBHOOK_INVALID''
      | JsonValueError \<Rightarrow> Inl EscapedValueError
      | JsonValue (JObj d) \<Rightarrow>
          if list_all (\<lambda>k. dict_has k d) required_webhook_keys then Inr d else reject ''STRATEGY_WEBHOOK_INVALID''
      | JsonValue _ \<Rightarrow> reject ''STRATEGY_WEBHOOK_INVALID'')"

definition validate_bundle :: "upload_env \<Rightarrow> upload_file \<Rightarrow> upload_file \<Rightarrow> upload_file \<Rightarrow> upload_error + upload_bundle" where
  "validate_bundle ue pine desc webhook =
     (if bad_filename (uf_name pine) \<or> bad_filename (uf_name desc) \<or> bad_filename (uf_name webhook)
      then reject ''STRATEGY_FILE_MISMATCH''
      else if \<not> py_endswith (uf_name pine) ''.pine'' then reject ''STRATEGY_FILE_MISMATCH''
      else
        let stem = take (length (uf_name pine) - 5) (uf_name pine)
        in if \<not> stem_matches stem then reject ''STRATEGY_FILE_MISMATCH''
           else if uf_name desc \<noteq> stem @ ''_Description.txt'' then reject ''STRATEGY_FILE_MISMATCH''
           else if uf_name webhook \<noteq> stem @ ''_Webhook.json'' then reject ''STRATEGY_FILE_MISMATCH''
           else if pine_max_bytes < length (uf_bytes pine) then reject ''STRATEGY_FILE_TOO_LARGE''
           else if desc_max_bytes < length (uf_bytes desc) then reject ''STRATEGY_FILE_TOO_LARGE''
           else if webhook_max_bytes < length (uf_bytes webhook) then reject ''STRATEGY_FILE_TOO_LARGE''
           else case validate_pine_version (uf_bytes pine) of
                  Inl e \<Rightarrow> Inl e
                | Inr _ \<Rightarrow>
                    if suspicious (uf_bytes pine) \<or> suspicious (uf_bytes desc) \<or> suspicious (uf_bytes webhook)
                    then reject ''STRATEGY_WEBHOOK_INVALID''
                    else case parse_webhook ue (uf_bytes webhook) of
                           Inl e \<Rightarrow> Inl e
                         | Inr d \<Rightarrow> Inr \<lparr>bu_stem = stem, bu_pine = pine, bu_desc = desc, bu_webhook = webhook, bu_template = d\<rparr>)"

subsection \<open>Webhook schemas\<close>

definition max_schema_depth :: nat where
  "max_schema_depth = 12"

definition max_pattern_len :: nat where
  "max_pattern_len = 200"

definition object_ok :: "(string \<times> json) list \<Rightarrow> bool" where
  "object_ok d \<longleftrightarrow> \<not> dict_has ''patternProperties'' d \<and>
     (case dict_get ''pattern'' d of Some (JStr p) \<Rightarrow> length p \<le> max_pattern_len | _ \<Rightarrow> True)"

text \<open>\<open>_check_schema_complexity\<close>: whether the node is accepted at its depth.\<close>

fun schema_simple :: "nat \<Rightarrow> json \<Rightarrow> bool" where
  "schema_simple depth (JObj d) \<longleftrightarrow> depth \<le> max_schema_depth \<and> object_ok d \<and> list_all (\<lambda>kv. schema_simple (depth + 1) (snd kv)) d"
| "schema_simple depth (JArr xs) \<longleftrightarrow> depth \<le> max_schema_depth \<and> list_all (schema_simple (depth + 1)) xs"
| "schema_simple depth _ \<longleftrightarrow> depth \<le> max_schema_depth"

text \<open>The draft's own check of a schema is \<open>jsonschema\<close>'s.\<close>

definition validate_json_schema :: "(json \<Rightarrow> bool) \<Rightarrow> json \<Rightarrow> bool" where
  "validate_json_schema check schema \<longleftrightarrow> (case schema of JObj d \<Rightarrow> check schema \<and> schema_simple 0 schema | _ \<Rightarrow> False)"

subsection \<open>What an accepted bundle is\<close>

definition first_annotation :: "string \<Rightarrow> nat \<Rightarrow> bool" where
  "first_annotation pine v \<longleftrightarrow>
     (\<exists>ds. pine_version_digits pine = Some ds \<and> length ds \<le> int_max_str_digits \<and> digits_nat ds = v)"

lemma validate_version_iff: "validate_pine_version pine = Inr v \<longleftrightarrow> first_annotation pine v \<and> v \<in> {5, 6}"
  by (auto simp: validate_pine_version_def first_annotation_def supported_pine_versions_def split: option.split)

lemma parse_webhook_iff:
  "parse_webhook ue blob = Inr d \<longleftrightarrow> ue_loads ue blob = JsonValue (JObj d) \<and> list_all (\<lambda>k. dict_has k d) required_webhook_keys"
  by (auto simp: parse_webhook_def reject_def split: json_outcome.split json.split)

text \<open>
  Which uploads are accepted. A bundle is accepted exactly when its three names are a stem with
  the three fixed endings, no name has a separator or a zero byte, the sizes are within the limits,
  the first annotation of the script declares version 5 or 6, none of the files contains one of the
  signatures in any letter case, and the webhook file is an object with the required keys.
\<close>

theorem bundle_accepted_iff:
  "validate_bundle ue pine desc webhook = Inr b \<longleftrightarrow>
     (\<exists>stem d v. b = \<lparr>bu_stem = stem, bu_pine = pine, bu_desc = desc, bu_webhook = webhook, bu_template = d\<rparr> \<and>
        uf_name pine = stem @ ''.pine'' \<and> uf_name desc = stem @ ''_Description.txt'' \<and> uf_name webhook = stem @ ''_Webhook.json'' \<and>
        stem_matches stem \<and> \<not> bad_filename (uf_name pine) \<and> \<not> bad_filename (uf_name desc) \<and> \<not> bad_filename (uf_name webhook) \<and>
        length (uf_bytes pine) \<le> pine_max_bytes \<and> length (uf_bytes desc) \<le> desc_max_bytes \<and>
        length (uf_bytes webhook) \<le> webhook_max_bytes \<and> first_annotation (uf_bytes pine) v \<and> v \<in> {5, 6} \<and>
        \<not> suspicious (uf_bytes pine) \<and> \<not> suspicious (uf_bytes desc) \<and> \<not> suspicious (uf_bytes webhook) \<and>
        ue_loads ue (uf_bytes webhook) = JsonValue (JObj d) \<and> list_all (\<lambda>k. dict_has k d) required_webhook_keys)"
  (is "?lhs \<longleftrightarrow> ?rhs")
proof
  assume ?lhs
  let ?stem = "take (length (uf_name pine) - 5) (uf_name pine)"
  have ends: "py_endswith (uf_name pine) ''.pine''" using \<open>?lhs\<close> by (auto simp: validate_bundle_def reject_def split: if_splits)
  then have stem: "uf_name pine = ?stem @ ''.pine''" by (auto simp: py_endswith_def suffix_def)
  obtain v d where parts: "validate_pine_version (uf_bytes pine) = Inr v" "parse_webhook ue (uf_bytes webhook) = Inr d"
    "b = \<lparr>bu_stem = ?stem, bu_pine = pine, bu_desc = desc, bu_webhook = webhook, bu_template = d\<rparr>"
    using \<open>?lhs\<close> by (auto simp: validate_bundle_def reject_def Let_def split: if_splits sum.splits)
  have guards: "uf_name desc = ?stem @ ''_Description.txt''" "uf_name webhook = ?stem @ ''_Webhook.json''" "stem_matches ?stem"
    "\<not> bad_filename (uf_name pine)" "\<not> bad_filename (uf_name desc)" "\<not> bad_filename (uf_name webhook)"
    "length (uf_bytes pine) \<le> pine_max_bytes" "length (uf_bytes desc) \<le> desc_max_bytes"
    "length (uf_bytes webhook) \<le> webhook_max_bytes" "\<not> suspicious (uf_bytes pine)" "\<not> suspicious (uf_bytes desc)"
    "\<not> suspicious (uf_bytes webhook)"
    using \<open>?lhs\<close> by (auto simp: validate_bundle_def reject_def Let_def split: if_splits sum.splits)
  show ?rhs
    using stem parts guards unfolding validate_version_iff parse_webhook_iff
    by (intro exI [of _ ?stem] exI [of _ d] exI [of _ v]) simp
next
  assume ?rhs
  then obtain stem d v where r: "b = \<lparr>bu_stem = stem, bu_pine = pine, bu_desc = desc, bu_webhook = webhook, bu_template = d\<rparr>"
    "uf_name pine = stem @ ''.pine''" "uf_name desc = stem @ ''_Description.txt''" "uf_name webhook = stem @ ''_Webhook.json''"
    "stem_matches stem" "\<not> bad_filename (uf_name pine)" "\<not> bad_filename (uf_name desc)" "\<not> bad_filename (uf_name webhook)"
    "length (uf_bytes pine) \<le> pine_max_bytes" "length (uf_bytes desc) \<le> desc_max_bytes" "length (uf_bytes webhook) \<le> webhook_max_bytes"
    "validate_pine_version (uf_bytes pine) = Inr v" "\<not> suspicious (uf_bytes pine)" "\<not> suspicious (uf_bytes desc)"
    "\<not> suspicious (uf_bytes webhook)" "parse_webhook ue (uf_bytes webhook) = Inr d"
    unfolding validate_version_iff parse_webhook_iff by blast
  have "take (length (uf_name pine) - 5) (uf_name pine) = stem" "py_endswith (uf_name pine) ''.pine''"
    unfolding r(2) by (simp_all add: py_endswith_def suffix_def)
  with r(3-16) show ?lhs unfolding r(1) by (simp add: validate_bundle_def Let_def)
qed

text \<open>A stem with a trailing line feed passes the pattern.\<close>

lemma stem_line_feed: "3 \<le> length s \<Longrightarrow> length s \<le> 64 \<Longrightarrow> list_all stem_char s \<Longrightarrow> stem_matches (s @ [CHR 0x0A])"
  by (simp add: stem_matches_def)

text \<open>
  A version with too many digits. The check of the Pine version lets the exception of \<open>int()\<close>
  escape when the annotation has more than 4300 digits; the upload then answers with a server error
  instead of the documented rejection.
\<close>

theorem long_version_escapes:
  assumes "list_all is_digit_char ds" "int_max_str_digits < length ds" "CHR 0x0A \<notin> set rest" "rest = [] \<or> \<not> is_digit_char (hd rest)"
  shows "validate_pine_version (''//@version='' @ ds @ rest) = Inl EscapedValueError"
proof -
  have ds: "ds \<noteq> []" "CHR 0x0A \<notin> set ds" using assms(1,2) by (auto simp: list_all_iff is_digit_char_def char_code_def)
  have digits: "take_digits (ds @ rest) = (ds, rest)" using assms(1,4) take_digits_append [of ds rest] by auto
  have "\<not> is_blank (hd ds)" using ds(1) assms(1) by (cases ds) (auto simp: is_blank_def is_digit_char_def char_code_def)
  then have skip: "skip_blanks (ds @ rest) = ds @ rest" using ds(1) by (cases ds) (simp_all add: skip_blanks_def)
  have "py_lower ''//'' = ''//''" "py_lower ''@version'' = ''@version''" "py_lower ''='' = ''=''" by code_simp+
  then have line: "pine_line (''//@version='' @ ds @ rest) = Some ds"
    using skip ds(1) by (simp add: pine_line_def after_literal_def skip_blanks_def is_blank_def Let_def digits)
  have whole: "py_split (CHR 0x0A) t = [t]" if "CHR 0x0A \<notin> set t" for t using that by (induction t) auto
  have "\<not> py_startswith (''//@version='' @ ds @ rest) bom_utf8" by (simp add: py_startswith_def bom_utf8_def)
  then have "pine_version_digits (''//@version='' @ ds @ rest) = Some ds"
    using line whole [of "''//@version='' @ ds @ rest"] ds(2) assms(3)
    by (simp add: pine_version_digits_def first_where_Cons Let_def)
  with assms(2) show ?thesis by (simp add: validate_pine_version_def)
qed

theorem long_version_escapes_witness:
  "validate_pine_version (''//@version='' @ replicate 5000 CHR ''9'' @ [])  = Inl EscapedValueError"
  by (rule long_version_escapes) (simp_all add: int_max_str_digits_def list_all_iff is_digit_char_def char_code_def)

subsection \<open>Schema complexity\<close>

text \<open>The nodes of a JSON value with their depth.\<close>

inductive node_at :: "json \<Rightarrow> nat \<Rightarrow> json \<Rightarrow> bool" where
  root_node: "node_at v 0 v"
| member_node: "node_at v n (JObj d) \<Longrightarrow> kv \<in> set d \<Longrightarrow> node_at v (n + 1) (snd kv)"
| item_node: "node_at v n (JArr xs) \<Longrightarrow> x \<in> set xs \<Longrightarrow> node_at v (n + 1) x"

definition node_ok :: "json \<Rightarrow> bool" where
  "node_ok v \<longleftrightarrow> (case v of JObj d \<Rightarrow> object_ok d | _ \<Rightarrow> True)"

lemma simple_here: "schema_simple n v \<Longrightarrow> n \<le> max_schema_depth \<and> node_ok v"
  by (cases v) (simp_all add: node_ok_def)

lemma simple_descends: "node_at v n w \<Longrightarrow> schema_simple k v \<Longrightarrow> schema_simple (k + n) w"
proof (induction rule: node_at.induct)
  case (member_node v n d kv)
  then have "schema_simple (k + n) (JObj d)" by blast
  with member_node.hyps(2) show ?case by (simp add: list_all_iff)
next
  case (item_node v n xs x)
  then have "schema_simple (k + n) (JArr xs)" by blast
  with item_node.hyps(2) show ?case by (simp add: list_all_iff)
qed simp

lemma simple_ascends:
  "node_at v n w \<Longrightarrow> (\<And>m x. node_at v m x \<Longrightarrow> m \<le> max_schema_depth \<and> node_ok x) \<Longrightarrow> schema_simple n w"
proof (induction n w rule: schema_simple.induct)
  case (1 n d)
  have "schema_simple (n + 1) (snd kv)" if "kv \<in> set d" for kv
    using 1 that node_at.member_node [OF 1(2) that] by blast
  moreover have "n \<le> max_schema_depth \<and> node_ok (JObj d)" using 1(2,3) by blast
  ultimately show ?case by (simp add: list_all_iff node_ok_def)
next
  case (2 n xs)
  have "schema_simple (n + 1) x" if "x \<in> set xs" for x
    using 2 that node_at.item_node [OF 2(2) that] by blast
  moreover have "n \<le> max_schema_depth" using 2(2,3) by blast
  ultimately show ?case by (simp add: list_all_iff)
qed (use schema_simple.simps in auto)

definition within_limits :: "json \<Rightarrow> bool" where
  "within_limits schema \<longleftrightarrow> (\<forall>n v. node_at schema n v \<longrightarrow> n \<le> max_schema_depth \<and> node_ok v)"

text \<open>
  What the complexity check guarantees. A schema passes exactly when none of its nodes, at any
  depth, is nested deeper than 12, has the key \<open>patternProperties\<close> or a pattern of more than 200
  characters.
\<close>

theorem schema_simple_iff: "schema_simple 0 schema \<longleftrightarrow> within_limits schema"
  unfolding within_limits_def
  using simple_descends [of schema _ _ 0] simple_here simple_ascends [OF root_node, of schema] by (metis add_0)

end
