(* ===== verification/Strategies.thy ===== *)
theory Strategies
  imports Strategy_Upload Store
begin

text \<open>
  Strategies and their webhook configurations (\<open>strategies/models.py\<close>, \<open>services.py\<close>,
  \<open>permissions.py\<close>, \<open>views.py\<close>): upload, list, change, soft delete, download, and the reading,
  change, rotation and dry run of a webhook configuration. Django's \<open>slugify\<close>, Fernet,
  \<open>jsonschema\<close>, SHA-256 and the drawn secrets are fields of \<open>strategy_env\<close>.
\<close>

subsection \<open>Rows\<close>

record strategy_row =
  sg_id :: nat
  sg_owner :: "nat option"
  sg_name :: string
  sg_slug :: string
  sg_short :: string
  sg_system :: bool
  sg_enabled :: bool
  sg_deleted :: "int option"

datatype file_kind = PINE | DESC | WEBHOOK_TEMPLATE

record strategy_file =
  sf_strategy :: nat
  sf_kind :: file_kind
  sf_name :: string
  sf_sha :: string
  sf_bytes :: string

record config_row =
  cg_id :: nat
  cg_user :: nat
  cg_strategy :: nat
  cg_secret :: string
  cg_schema :: json
  cg_template :: json
  cg_version :: nat
  cg_rotated :: "int option"

record catalog =
  ct_strategies :: "strategy_row list"
  ct_files :: "strategy_file list"
  ct_configs :: "config_row list"
  ct_audits :: "audit_call list"
  ct_next :: nat

record strategy_env =
  se_now :: int
  se_enabled :: bool
  se_upload :: upload_env
  se_sha :: "string \<Rightarrow> string"
  se_slugify :: "string \<Rightarrow> string"
  se_encrypt :: "string \<Rightarrow> string"
  se_decrypt :: "string \<Rightarrow> string option"
  se_secret :: "nat \<Rightarrow> string"
  se_check :: "json \<Rightarrow> bool"
  se_valid :: "json \<Rightarrow> json \<Rightarrow> bool"
  se_base :: string

text \<open>Who makes the request.\<close>

record caller =
  who_id :: nat
  who_staff :: bool
  who_mfa :: bool
  who_impersonated :: bool

datatype strategy_response =
    StrategyListed "strategy_row list"
  | StrategyShown strategy_row
  | StrategyCreated strategy_row
  | StrategyGone nat
  | StrategyFileBytes string
  | ConfigShown config_row "string option"
  | SecretRotated string string nat
  | PayloadValid
  | StrategyFail string nat
  | StrategyMissing
  | StrategyRaised

subsection \<open>Who may do what\<close>

definition can_user_view :: "caller \<Rightarrow> strategy_row \<Rightarrow> bool" where
  "can_user_view who s \<longleftrightarrow> sg_system s \<or> sg_owner s = Some (who_id who)"

definition can_user_modify :: "caller \<Rightarrow> strategy_row \<Rightarrow> bool" where
  "can_user_modify who s = (if sg_system s then who_staff who else sg_owner s = Some (who_id who))"

definition can_user_delete :: "caller \<Rightarrow> strategy_row \<Rightarrow> bool" where
  "can_user_delete who s = (if sg_system s then False else sg_owner s = Some (who_id who))"

definition detail_qs :: "caller \<Rightarrow> strategy_row \<Rightarrow> bool" where
  "detail_qs who s \<longleftrightarrow> sg_deleted s = None \<and> (sg_system s \<or> sg_owner s = Some (who_id who))"

definition get_strategy :: "caller \<Rightarrow> nat \<Rightarrow> catalog \<Rightarrow> strategy_row option" where
  "get_strategy who pk cat = first_where (\<lambda>s. detail_qs who s \<and> sg_id s = pk) (ct_strategies cat)"

text \<open>\<open>order_by('is_system', 'name')\<close>.\<close>

definition visible_strategies :: "caller \<Rightarrow> catalog \<Rightarrow> strategy_row list" where
  "visible_strategies who cat =
     (let rows = sort_key sg_name (filter (detail_qs who) (ct_strategies cat))
      in filter (\<lambda>s. \<not> sg_system s) rows @ filter sg_system rows)"

definition strategy_emit :: "string \<Rightarrow> caller \<Rightarrow> string \<Rightarrow> nat \<Rightarrow> wire_dict \<Rightarrow> catalog \<Rightarrow> catalog" where
  "strategy_emit event who entity i after cat =
     cat\<lparr>ct_audits := ct_audits cat @ [\<lparr>ac_event = event, ac_user = Some (who_id who), ac_actor = Some (who_id who),
       ac_entity = entity, ac_entity_id = nat_str i, ac_after = after\<rparr>]\<rparr>"

subsection \<open>Slugs\<close>

text \<open>\<open>s[:k]\<close>, where a negative \<open>k\<close> counts from the end.\<close>

definition py_upto :: "int \<Rightarrow> string \<Rightarrow> string" where
  "py_upto k s = (if 0 \<le> k then take (nat k) s else take (length s - nat (- k)) s)"

definition slug_candidate :: "string \<Rightarrow> nat \<Rightarrow> string" where
  "slug_candidate base n =
     (let suf = CHR ''-'' # nat_str n in py_upto (64 - int (length suf)) base @ suf)"

lemma slug_candidate_inj: "slug_candidate base n = slug_candidate base m \<longleftrightarrow> n = m"
proof
  have no_dash: "CHR ''-'' \<notin> set (nat_str k)" for k
    using nat_str_digits [of k] by (auto simp: list_all_iff is_digit_char_def char_code_def)
  have tail: "takeWhile (\<lambda>c. c \<noteq> CHR ''-'') (rev (slug_candidate base k)) = rev (nat_str k)" for k
    using no_dash [of k] by (auto simp: slug_candidate_def Let_def takeWhile_append)
  assume same: "slug_candidate base n = slug_candidate base m"
  have "rev (nat_str n) = rev (nat_str m)" by (simp only: tail [symmetric] same)
  then show "n = m" using nat_str_inj by simp
qed simp

text \<open>The loop that counts up until a candidate is free.\<close>

function free_slug :: "string list \<Rightarrow> string \<Rightarrow> nat \<Rightarrow> string" where
  "free_slug taken base n =
     (if slug_candidate base n \<in> set taken then free_slug taken base (n + 1) else slug_candidate base n)"
  by pat_completeness auto

definition blocked_numbers :: "string list \<times> string \<times> nat \<Rightarrow> nat set" where
  "blocked_numbers = (\<lambda>(taken, base, n). {m. n \<le> m \<and> slug_candidate base m \<in> set taken})"

lemma finite_blocked: "finite (blocked_numbers p)"
proof -
  obtain taken base n where p: "p = (taken, base, n)" by (cases p) auto
  have "slug_candidate base ` blocked_numbers p \<subseteq> set taken" by (auto simp: p blocked_numbers_def)
  then show ?thesis using slug_candidate_inj by (intro inj_on_finite [where f = "slug_candidate base"]) (auto intro: inj_onI)
qed

termination free_slug
proof (relation "measure (\<lambda>p. card (blocked_numbers p))")
  fix taken base n
  assume hit: "slug_candidate base n \<in> set taken"
  have "blocked_numbers (taken, base, n + 1) \<subseteq> blocked_numbers (taken, base, n)" by (auto simp: blocked_numbers_def)
  moreover have "n \<in> blocked_numbers (taken, base, n)" "n \<notin> blocked_numbers (taken, base, n + 1)"
    using hit by (simp_all add: blocked_numbers_def)
  ultimately have "blocked_numbers (taken, base, n + 1) \<subset> blocked_numbers (taken, base, n)" by blast
  then show "((taken, base, n + 1), taken, base, n) \<in> measure (\<lambda>p. card (blocked_numbers p))"
    by (simp add: psubset_card_mono [OF finite_blocked])
qed simp

declare free_slug.simps [simp del]

definition make_unique_slug :: "strategy_env \<Rightarrow> nat \<Rightarrow> string \<Rightarrow> catalog \<Rightarrow> string" where
  "make_unique_slug se uid raw cat =
     (let cut = take 60 (se_slugify se raw);
          base = (if cut = [] then ''strategy'' else cut);
          taken = map sg_slug (filter (\<lambda>s. sg_owner s = Some uid) (ct_strategies cat))
      in if base \<in> set taken then free_slug taken base 2 else base)"

subsection \<open>Webhook configurations\<close>

definition build_webhook_url :: "strategy_env \<Rightarrow> nat \<Rightarrow> nat \<Rightarrow> string" where
  "build_webhook_url se uid sid =
     rev (dropWhile (\<lambda>c. c = CHR ''/'') (rev (se_base se))) @ ''/'' @ nat_str uid @ ''/'' @ nat_str sid @ ''/''"

definition default_payload_template :: "string \<Rightarrow> json" where
  "default_payload_template slug =
     JObj [(''strategy'', JStr slug), (''action'', JStr ''buy''), (''symbol'', JStr ''AAPL''), (''qty'', JInt 1),
       (''order_type'', JStr ''MKT''), (''sig'', JStr ''PASTE_YOUR_SECRET_HERE''),
       (''idempotency_key'', JStr ''tv-{{strategy.order.id}}-{{time}}'')]"

definition text_type :: json where
  "text_type = JObj [(''type'', JStr ''string'')]"

definition text_enum :: "string list \<Rightarrow> json" where
  "text_enum vs = JObj [(''type'', JStr ''string''), (''enum'', JArr (map JStr vs))]"

definition default_json_schema :: json where
  "default_json_schema =
     JObj [(''$schema'', JStr ''https://json-schema.org/draft/2020-12/schema''), (''type'', JStr ''object''),
       (''required'', JArr (map JStr required_webhook_keys)),
       (''properties'', JObj [(''strategy'', text_type), (''action'', text_enum [''buy'', ''sell'', ''exit'']),
          (''symbol'', text_type), (''qty'', JObj [(''type'', JStr ''number'')]),
          (''order_type'', text_enum [''MKT'', ''LMT'', ''STP'', ''STP_LMT'']),
          (''asset_class'', text_enum [''STOCK'', ''ETF'', ''OPTION'', ''FUTURE'']),
          (''sig'', text_type), (''idempotency_key'', text_type)]),
       (''additionalProperties'', JBool True)]"

definition config_of :: "nat \<Rightarrow> nat \<Rightarrow> catalog \<Rightarrow> config_row option" where
  "config_of uid sid cat = first_where (\<lambda>c. cg_user c = uid \<and> cg_strategy c = sid) (ct_configs cat)"

text \<open>The configuration, and the plain secret when it was just made.\<close>

definition get_or_create_config ::
  "strategy_env \<Rightarrow> caller \<Rightarrow> strategy_row \<Rightarrow> bool \<Rightarrow> catalog \<Rightarrow> catalog \<times> (config_row \<times> string option) option" where
  "get_or_create_config se who s allow_create cat =
     (case config_of (who_id who) (sg_id s) cat of
        Some c \<Rightarrow> (cat, Some (c, None))
      | None \<Rightarrow>
          if \<not> allow_create then (cat, None)
          else let raw = se_secret se (ct_next cat);
                   c = \<lparr>cg_id = ct_next cat, cg_user = who_id who, cg_strategy = sg_id s, cg_secret = se_encrypt se raw,
                        cg_schema = default_json_schema, cg_template = default_payload_template (sg_slug s),
                        cg_version = 1, cg_rotated = None\<rparr>
               in (cat\<lparr>ct_configs := ct_configs cat @ [c], ct_next := ct_next cat + 1\<rparr>, Some (c, Some raw)))"

definition set_config :: "nat \<Rightarrow> (config_row \<Rightarrow> config_row) \<Rightarrow> catalog \<Rightarrow> catalog" where
  "set_config i f cat = cat\<lparr>ct_configs := update_where (\<lambda>c. cg_id c = i) f (ct_configs cat)\<rparr>"

definition rotated_config :: "strategy_env \<Rightarrow> string \<Rightarrow> config_row \<Rightarrow> config_row" where
  "rotated_config se raw c =
     c\<lparr>cg_secret := se_encrypt se raw, cg_version := cg_version c + 1, cg_rotated := Some (se_now se)\<rparr>"

text \<open>\<open>rotate_secret\<close>: the new state, the row as saved, the plain secret.\<close>

definition rotate_secret :: "strategy_env \<Rightarrow> config_row \<Rightarrow> catalog \<Rightarrow> catalog \<times> config_row \<times> string" where
  "rotate_secret se c cat =
     (let raw = se_secret se (ct_next cat)
      in ((set_config (cg_id c) (rotated_config se raw) cat)\<lparr>ct_next := ct_next cat + 1\<rparr>, rotated_config se raw c, raw))"

subsection \<open>Handlers\<close>

text \<open>The parts of an upload as the form delivers them.\<close>

record upload_request =
  up_accept :: bool
  up_pine :: "upload_file option"
  up_desc :: "upload_file option"
  up_webhook :: "upload_file option"

definition with_blanks :: "string \<Rightarrow> string" where
  "with_blanks s = map (\<lambda>c. if c = CHR ''_'' \<or> c = CHR ''-'' then CHR '' '' else c) s"

definition stored_file :: "strategy_env \<Rightarrow> nat \<Rightarrow> file_kind \<Rightarrow> upload_file \<Rightarrow> strategy_file" where
  "stored_file se sid kind f =
     \<lparr>sf_strategy = sid, sf_kind = kind, sf_name = take 128 (uf_name f), sf_sha = se_sha se (uf_bytes f), sf_bytes = uf_bytes f\<rparr>"

definition save_bundle :: "strategy_env \<Rightarrow> caller \<Rightarrow> upload_bundle \<Rightarrow> catalog \<Rightarrow> catalog \<times> strategy_response" where
  "save_bundle se who b cat =
     (let slug = make_unique_slug se (who_id who) (bu_stem b) cat;
          shown = py_strip (with_blanks (bu_stem b));
          name = (if shown = [] then slug else shown);
          s = \<lparr>sg_id = ct_next cat, sg_owner = Some (who_id who), sg_name = take 64 name, sg_slug = slug,
               sg_short = ''User-uploaded strategy. Untested.'', sg_system = False, sg_enabled = True, sg_deleted = None\<rparr>
      in if exists_where (\<lambda>x. sg_owner x = sg_owner s \<and> sg_slug x = slug) (ct_strategies cat) \<or> 64 < length slug
         then (cat, StrategyFail ''STRATEGY_WEBHOOK_INVALID'' 500)
         else let cat1 = cat\<lparr>ct_strategies := ct_strategies cat @ [s],
                     ct_files := ct_files cat @ [stored_file se (sg_id s) PINE (bu_pine b), stored_file se (sg_id s) DESC (bu_desc b),
                       stored_file se (sg_id s) WEBHOOK_TEMPLATE (bu_webhook b)], ct_next := ct_next cat + 1\<rparr>
              in (strategy_emit ''strategy.created'' who ''strategy'' (sg_id s) [(''name'', WStr name), (''slug'', WStr slug)] cat1,
                  StrategyCreated s))"

definition upload_strategy :: "strategy_env \<Rightarrow> caller \<Rightarrow> upload_request \<Rightarrow> catalog \<Rightarrow> catalog \<times> strategy_response" where
  "upload_strategy se who r cat =
     (if \<not> up_accept r then (cat, StrategyFail ''VALIDATION_ERROR'' 400)
      else case (up_pine r, up_desc r, up_webhook r) of
             (Some pine, Some desc, Some webhook) \<Rightarrow>
               (case validate_bundle (se_upload se) pine desc webhook of
                  Inl (StrategyError code) \<Rightarrow> (cat, StrategyFail code 400)
                | Inl EscapedValueError \<Rightarrow> (cat, StrategyRaised)
                | Inr b \<Rightarrow> save_bundle se who b cat)
           | _ \<Rightarrow> (cat, StrategyFail ''STRATEGY_FILE_MISMATCH'' 400))"

record strategy_form =
  fm_name :: "string option"
  fm_enabled :: "bool option"

definition form_valid :: "strategy_form \<Rightarrow> bool" where
  "form_valid fm \<longleftrightarrow>
     (case fm_name fm of None \<Rightarrow> True
      | Some n \<Rightarrow> py_strip n \<noteq> [] \<and> length (py_strip n) \<le> 64 \<and> CHR 0x00 \<notin> set n)"

definition apply_form :: "strategy_form \<Rightarrow> strategy_row \<Rightarrow> strategy_row" where
  "apply_form fm s =
     s\<lparr>sg_name := (case fm_name fm of None \<Rightarrow> sg_name s | Some n \<Rightarrow> py_strip n),
       sg_enabled := (case fm_enabled fm of None \<Rightarrow> sg_enabled s | Some b \<Rightarrow> b)\<rparr>"

definition form_data :: "strategy_form \<Rightarrow> wire_dict" where
  "form_data fm =
     (case fm_name fm of None \<Rightarrow> [] | Some n \<Rightarrow> [(''name'', WStr (py_strip n))]) @
     (case fm_enabled fm of None \<Rightarrow> [] | Some b \<Rightarrow> [(''is_enabled'', WBool b)])"

definition set_strategy :: "nat \<Rightarrow> (strategy_row \<Rightarrow> strategy_row) \<Rightarrow> catalog \<Rightarrow> catalog" where
  "set_strategy i f cat = cat\<lparr>ct_strategies := update_where (\<lambda>s. sg_id s = i) f (ct_strategies cat)\<rparr>"

definition patch_strategy :: "caller \<Rightarrow> strategy_row \<Rightarrow> strategy_form \<Rightarrow> catalog \<Rightarrow> catalog \<times> strategy_response" where
  "patch_strategy who s fm cat =
     (if \<not> can_user_modify who s then (cat, StrategyFail ''STRATEGY_SYSTEM_IMMUTABLE'' 403)
      else if \<not> form_valid fm then (cat, StrategyFail ''VALIDATION_ERROR'' 400)
      else (strategy_emit ''strategy.updated'' who ''strategy'' (sg_id s) (form_data fm) (set_strategy (sg_id s) (apply_form fm) cat),
            StrategyShown (apply_form fm s)))"

definition delete_strategy :: "strategy_env \<Rightarrow> caller \<Rightarrow> strategy_row \<Rightarrow> catalog \<Rightarrow> catalog \<times> strategy_response" where
  "delete_strategy se who s cat =
     (if \<not> can_user_delete who s then (cat, StrategyFail ''STRATEGY_SYSTEM_IMMUTABLE'' 403)
      else (strategy_emit ''strategy.deleted'' who ''strategy'' (sg_id s) [(''is_enabled'', WBool False), (''deleted'', WBool True)]
              (set_strategy (sg_id s) (\<lambda>x. x\<lparr>sg_enabled := False, sg_deleted := Some (se_now se)\<rparr>) cat),
            StrategyGone (sg_id s)))"

definition kind_named :: "string \<Rightarrow> file_kind option" where
  "kind_named k = map_of [(''PINE'', PINE), (''DESC'', DESC), (''WEBHOOK_TEMPLATE'', WEBHOOK_TEMPLATE)] (py_upper k)"

definition file_of :: "nat \<Rightarrow> file_kind \<Rightarrow> catalog \<Rightarrow> strategy_file option" where
  "file_of sid kind cat = first_where (\<lambda>f. sf_strategy f = sid \<and> sf_kind f = kind) (ct_files cat)"

definition download_file :: "strategy_row \<Rightarrow> file_kind \<Rightarrow> catalog \<Rightarrow> strategy_response" where
  "download_file s kind cat =
     (case file_of (sg_id s) kind cat of
        Some f \<Rightarrow> if sf_bytes f \<noteq> [] then StrategyFileBytes (sf_bytes f) else StrategyFail ''STRATEGY_NOT_FOUND'' 404
      | None \<Rightarrow> StrategyFail ''STRATEGY_NOT_FOUND'' 404)"

definition read_config :: "strategy_env \<Rightarrow> caller \<Rightarrow> strategy_row \<Rightarrow> catalog \<Rightarrow> catalog \<times> strategy_response" where
  "read_config se who s cat =
     (case get_or_create_config se who s (\<not> who_impersonated who) cat of
        (cat1, None) \<Rightarrow> (cat1, StrategyFail ''WEBHOOK_CONFIG_NOT_FOUND'' 404)
      | (cat1, Some (c, raw)) \<Rightarrow> (cat1, ConfigShown c (if who_impersonated who then None else raw)))"

definition update_config ::
  "strategy_env \<Rightarrow> caller \<Rightarrow> strategy_row \<Rightarrow> json \<Rightarrow> json \<Rightarrow> catalog \<Rightarrow> catalog \<times> strategy_response" where
  "update_config se who s schema template cat =
     (if \<not> validate_json_schema (se_check se) schema then (cat, StrategyFail ''WEBHOOK_SCHEMA_INVALID'' 400)
      else if \<not> se_valid se template schema then (cat, StrategyFail ''STRATEGY_WEBHOOK_INVALID'' 400)
      else case get_or_create_config se who s True cat of
             (cat1, None) \<Rightarrow> (cat1, StrategyRaised)
           | (cat1, Some (c, _)) \<Rightarrow>
               (let f = (\<lambda>x. x\<lparr>cg_schema := schema, cg_template := template\<rparr>)
                in (set_config (cg_id c) f cat1, ConfigShown (f c) None)))"

definition rotate_config :: "strategy_env \<Rightarrow> caller \<Rightarrow> strategy_row \<Rightarrow> catalog \<Rightarrow> catalog \<times> strategy_response" where
  "rotate_config se who s cat =
     (case get_or_create_config se who s True cat of
        (cat1, None) \<Rightarrow> (cat1, StrategyRaised)
      | (cat1, Some (c, _)) \<Rightarrow>
          (let (cat2, c', raw) = rotate_secret se c cat1
           in (strategy_emit ''strategy.secret_rotated'' who ''webhook_config'' (cg_id c)
                 [(''strategy_id'', WId (sg_id s)), (''version'', WNum (of_nat (cg_version c')))] cat2,
               SecretRotated (build_webhook_url se (cg_user c) (cg_strategy c)) raw (cg_version c'))))"

definition dry_run :: "strategy_env \<Rightarrow> caller \<Rightarrow> strategy_row \<Rightarrow> json option \<Rightarrow> catalog \<Rightarrow> catalog \<times> strategy_response" where
  "dry_run se who s payload cat =
     (case get_or_create_config se who s True cat of
        (cat1, None) \<Rightarrow> (cat1, StrategyRaised)
      | (cat1, Some (c, _)) \<Rightarrow>
          (case payload of
             None \<Rightarrow> (cat1, StrategyFail ''VALIDATION_ERROR'' 400)
           | Some p \<Rightarrow> if se_valid se p (cg_schema c) then (cat1, PayloadValid)
                       else (cat1, StrategyFail ''STRATEGY_WEBHOOK_INVALID'' 400)))"

subsection \<open>Requests\<close>

datatype strategy_op =
    ListStrategies
  | UploadStrategy upload_request
  | ShowStrategy nat
  | PatchStrategy nat strategy_form
  | DeleteStrategy nat
  | DownloadFile nat string
  | ReadConfig nat
  | UpdateConfig nat "(json \<times> json) option"
  | RotateConfig nat
  | DryRun nat "json option"

definition on_strategy ::
  "caller \<Rightarrow> nat \<Rightarrow> (strategy_row \<Rightarrow> catalog \<Rightarrow> catalog \<times> strategy_response) \<Rightarrow> catalog \<Rightarrow> catalog \<times> strategy_response" where
  "on_strategy who pk f cat =
     (case get_strategy who pk cat of
        None \<Rightarrow> (cat, StrategyMissing)
      | Some s \<Rightarrow> if can_user_view who s then f s cat else (cat, StrategyFail ''STRATEGY_NOT_FOUND'' 404))"

fun strategy_handler :: "strategy_env \<Rightarrow> caller \<Rightarrow> strategy_op \<Rightarrow> catalog \<Rightarrow> catalog \<times> strategy_response" where
  "strategy_handler se who ListStrategies cat = (cat, StrategyListed (visible_strategies who cat))"
| "strategy_handler se who (UploadStrategy r) cat = upload_strategy se who r cat"
| "strategy_handler se who (ShowStrategy pk) cat = on_strategy who pk (\<lambda>s cat. (cat, StrategyShown s)) cat"
| "strategy_handler se who (PatchStrategy pk fm) cat = on_strategy who pk (\<lambda>s. patch_strategy who s fm) cat"
| "strategy_handler se who (DeleteStrategy pk) cat = on_strategy who pk (delete_strategy se who) cat"
| "strategy_handler se who (DownloadFile pk k) cat =
     (case kind_named k of
        None \<Rightarrow> (cat, StrategyFail ''STRATEGY_NOT_FOUND'' 404)
      | Some kind \<Rightarrow> on_strategy who pk (\<lambda>s cat. (cat, download_file s kind cat)) cat)"
| "strategy_handler se who (ReadConfig pk) cat = on_strategy who pk (read_config se who) cat"
| "strategy_handler se who (UpdateConfig pk body) cat =
     on_strategy who pk (\<lambda>s cat. case body of
         None \<Rightarrow> (cat, StrategyFail ''VALIDATION_ERROR'' 400)
       | Some (schema, template) \<Rightarrow> update_config se who s schema template cat) cat"
| "strategy_handler se who (RotateConfig pk) cat = on_strategy who pk (rotate_config se who) cat"
| "strategy_handler se who (DryRun pk payload) cat = on_strategy who pk (\<lambda>s. dry_run se who s payload) cat"

text \<open>\<open>IsAuthenticatedAndMFAEnforced\<close> and the feature flag come before every handler.\<close>

definition strategy_step :: "strategy_env \<Rightarrow> caller \<Rightarrow> strategy_op \<Rightarrow> catalog \<Rightarrow> catalog \<times> strategy_response" where
  "strategy_step se who op cat =
     (if \<not> who_mfa who then (cat, StrategyFail ''MFA_REQUIRED'' 403)
      else if \<not> se_enabled se then (cat, StrategyFail ''FEATURE_DISABLED'' 503)
      else strategy_handler se who op cat)"

fun strategy_run :: "(strategy_env \<times> caller \<times> strategy_op) list \<Rightarrow> catalog \<Rightarrow> catalog \<times> strategy_response list" where
  "strategy_run [] cat = (cat, [])"
| "strategy_run ((se, who, op) # ops) cat =
     (let (cat1, r) = strategy_step se who op cat; (cat2, rs) = strategy_run ops cat1 in (cat2, r # rs))"

end
