(* ===== verification/Strategy_Safety.thy ===== *)
theory Strategy_Safety
  imports Strategies Webhook_Ingest
begin

text \<open>
  What the strategy endpoints guarantee over any sequence of requests, and what that means for the
  webhook that reads the same tables: the tables stay well formed and uploads always find a slug,
  users cannot touch each other's rows, a secret is shown once, a rotation replaces it at once, and
  a deleted strategy never takes an alert again.
\<close>

subsection \<open>Free slugs\<close>

lemma free_slug_number:
  "\<exists>m. n \<le> m \<and> free_slug taken base n = slug_candidate base m \<and> slug_candidate base m \<notin> set taken \<and>
     (\<forall>k. n \<le> k \<and> k < m \<longrightarrow> slug_candidate base k \<in> set taken)"
proof (induction taken base n rule: free_slug.induct)
  case (1 taken base n)
  show ?case
  proof (cases "slug_candidate base n \<in> set taken")
    case True
    with 1 obtain m where m: "n + 1 \<le> m" "free_slug taken base (n + 1) = slug_candidate base m" "slug_candidate base m \<notin> set taken"
      "\<forall>k. n + 1 \<le> k \<and> k < m \<longrightarrow> slug_candidate base k \<in> set taken" by blast
    have "slug_candidate base k \<in> set taken" if "n \<le> k" "k < m" for k
      using that m(4) True by (cases "k = n") auto
    with m True show ?thesis by (intro exI [of _ m]) (auto simp: free_slug.simps [of taken base n])
  next
    case False
    then show ?thesis by (intro exI [of _ n]) (auto simp: free_slug.simps [of taken base n])
  qed
qed

lemma free_slug_bound:
  obtains m where "n \<le> m" "m \<le> n + length taken" "free_slug taken base n = slug_candidate base m" "slug_candidate base m \<notin> set taken"
proof -
  obtain m where m: "n \<le> m" "free_slug taken base n = slug_candidate base m" "slug_candidate base m \<notin> set taken"
    "\<forall>k. n \<le> k \<and> k < m \<longrightarrow> slug_candidate base k \<in> set taken" using free_slug_number by blast
  have "inj_on (slug_candidate base) {n..<m}" using slug_candidate_inj by (auto intro: inj_onI)
  moreover have "slug_candidate base ` {n..<m} \<subseteq> set taken" using m(4) by auto
  ultimately have "card {n..<m} \<le> card (set taken)" by (metis card_image card_mono finite_set)
  also have "\<dots> \<le> length taken" by (rule card_length)
  finally have "m \<le> n + length taken" by simp
  then show thesis using that m(1-3) by blast
qed

lemma length_nat_str: "n < 10 ^ k \<Longrightarrow> 0 < k \<Longrightarrow> length (nat_str n) \<le> k"
proof (induction n arbitrary: k rule: nat_str.induct)
  case (1 n)
  show ?case
  proof (cases "n < 10")
    case True
    with 1(3) show ?thesis by (simp add: nat_str.simps [of n])
  next
    case False
    then obtain j where k: "k = Suc j" "0 < j" using 1(2,3) by (cases k; cases "k - 1") auto
    then have "n div 10 < 10 ^ j" using 1(2) by (simp add: less_mult_imp_div_less mult.commute)
    with 1(1) False k show ?thesis by (simp add: nat_str.simps [of n])
  qed
qed

lemma slug_candidate_length: "n < 10 ^ 60 \<Longrightarrow> length (slug_candidate base n) \<le> 64"
  using length_nat_str [of n 60] by (simp add: slug_candidate_def py_upto_def Let_def)

text \<open>
  C28. Slugs. The search for a free slug always ends; its result is not used by any strategy of the
  user, deleted ones included, and fits the column.
\<close>

theorem unique_slug_free:
  assumes "length (ct_strategies cat) < 10 ^ 50"
  shows "length (make_unique_slug se uid raw cat) \<le> 64 \<and>
    make_unique_slug se uid raw cat \<notin> set (map sg_slug (filter (\<lambda>s. sg_owner s = Some uid) (ct_strategies cat)))"
proof -
  let ?taken = "map sg_slug (filter (\<lambda>s. sg_owner s = Some uid) (ct_strategies cat))"
  let ?cut = "take 60 (se_slugify se raw)"
  define base where "base = (if ?cut = [] then ''strategy'' else ?cut)"
  have base: "length base \<le> 64" by (auto simp: base_def)
  obtain m where m: "m \<le> 2 + length ?taken" "free_slug ?taken base 2 = slug_candidate base m" "slug_candidate base m \<notin> set ?taken"
    by (rule free_slug_bound)
  have "length ?taken \<le> length (ct_strategies cat)" by (metis length_filter_le length_map)
  moreover have "2 + 10 ^ 50 \<le> (10 :: nat) ^ 60" by simp
  ultimately have "m < 10 ^ 60" using m(1) assms by linarith
  with m base slug_candidate_length [of m base] show ?thesis
    unfolding make_unique_slug_def Let_def base_def [symmetric] by simp
qed

theorem unique_slug_free_witness:
  "length (make_unique_slug \<lparr>se_now = 0, se_enabled = True, se_upload = \<lparr>ue_loads = (\<lambda>b. JsonMalformed)\<rparr>, se_sha = (\<lambda>b. b),
      se_slugify = py_lower, se_encrypt = (\<lambda>s. s), se_decrypt = Some, se_secret = nat_str, se_check = (\<lambda>j. True),
      se_valid = (\<lambda>p s. True), se_base = []\<rparr> 7 ''Trend''
      \<lparr>ct_strategies = [], ct_files = [], ct_configs = [], ct_audits = [], ct_next = 1\<rparr>) \<le> 64"
  by (rule unique_slug_free [THEN conjunct1]) simp

subsection \<open>The tables as atomic edits\<close>

text \<open>
  What a request may do to the three tables, as a specification: add a strategy with its files under a fresh id
  and a free slug, change a live row the caller may change, add or change a configuration of the caller, or use
  up a number.
\<close>

definition keeps_identity :: "(strategy_row \<Rightarrow> strategy_row) \<Rightarrow> bool" where
  "keeps_identity f \<longleftrightarrow> (\<forall>s. sg_id (f s) = sg_id s \<and> sg_owner (f s) = sg_owner s \<and> sg_slug (f s) = sg_slug s \<and>
     sg_system (f s) = sg_system s \<and> (sg_deleted s \<noteq> None \<longrightarrow> sg_deleted (f s) \<noteq> None))"

definition keeps_config_key :: "(config_row \<Rightarrow> config_row) \<Rightarrow> bool" where
  "keeps_config_key f \<longleftrightarrow> (\<forall>c. cg_id (f c) = cg_id c \<and> cg_user (f c) = cg_user c \<and> cg_strategy (f c) = cg_strategy c)"

inductive edit :: "caller \<Rightarrow> catalog \<Rightarrow> catalog \<Rightarrow> bool" for who where
  audited: "edit who cat (cat\<lparr>ct_audits := a\<rparr>)"
| numbered: "edit who cat (cat\<lparr>ct_next := ct_next cat + 1\<rparr>)"
| uploaded: "sg_id s = ct_next cat \<Longrightarrow> sg_owner s = Some (who_id who) \<Longrightarrow> \<not> sg_system s \<Longrightarrow>
    (\<forall>x\<in>set (ct_strategies cat). sg_owner x = sg_owner s \<longrightarrow> sg_slug x \<noteq> sg_slug s) \<Longrightarrow>
    distinct (map sf_kind fs) \<Longrightarrow> (\<forall>f\<in>set fs. sf_strategy f = sg_id s) \<Longrightarrow>
    edit who cat (cat\<lparr>ct_strategies := ct_strategies cat @ [s], ct_files := ct_files cat @ fs, ct_next := ct_next cat + 1\<rparr>)"
| changed: "s \<in> set (ct_strategies cat) \<Longrightarrow> can_user_modify who s \<Longrightarrow> sg_deleted s = None \<Longrightarrow> keeps_identity f \<Longrightarrow>
    edit who cat (set_strategy (sg_id s) f cat)"
| config_added: "config_of (who_id who) sid cat = None \<Longrightarrow> cg_id c = ct_next cat \<Longrightarrow> cg_user c = who_id who \<Longrightarrow>
    cg_strategy c = sid \<Longrightarrow> edit who cat (cat\<lparr>ct_configs := ct_configs cat @ [c], ct_next := ct_next cat + 1\<rparr>)"
| config_changed: "c \<in> set (ct_configs cat) \<Longrightarrow> cg_user c = who_id who \<Longrightarrow> keeps_config_key f \<Longrightarrow>
    edit who cat (set_config (cg_id c) f cat)"

abbreviation edits :: "caller \<Rightarrow> catalog \<Rightarrow> catalog \<Rightarrow> bool" where
  "edits who \<equiv> (edit who)\<^sup>*\<^sup>*"

lemma edits_refl [intro]: "edits who cat cat" by simp

lemma edits_step [intro]: "edits who cat cat1 \<Longrightarrow> edit who cat1 cat2 \<Longrightarrow> edits who cat cat2"
  by (rule rtranclp.rtrancl_into_rtrancl)

lemma get_strategy_Some:
  assumes "get_strategy who pk cat = Some s"
  shows "s \<in> set (ct_strategies cat)" "sg_id s = pk" "sg_deleted s = None" "sg_system s \<or> sg_owner s = Some (who_id who)"
  using assms by (auto simp: get_strategy_def detail_qs_def dest!: first_where_Some)

lemma strategy_emit_edit: "edits who cat0 cat \<Longrightarrow> edits who cat0 (strategy_emit e who x i a cat)"
  unfolding strategy_emit_def by (blast intro: edit.audited)

lemma apply_form_identity: "keeps_identity (apply_form fm)"
  by (simp add: keeps_identity_def apply_form_def)

lemma get_or_create_edits:
  assumes "get_or_create_config se who s b cat = (cat1, r)"
  shows "edits who cat cat1 \<and> ct_next cat \<le> ct_next cat1 \<and>
    (\<forall>c raw. r = Some (c, raw) \<longrightarrow> c \<in> set (ct_configs cat1) \<and> cg_user c = who_id who \<and> cg_strategy c = sg_id s \<and>
       (\<forall>x. raw = Some x \<longrightarrow> ct_next cat < ct_next cat1 \<and> x = se_secret se (ct_next cat)))"
proof (cases "config_of (who_id who) (sg_id s) cat")
  case None
  then show ?thesis using assms edit.config_added [of who "sg_id s" cat]
    by (auto simp: get_or_create_config_def Let_def split: if_splits)
next
  case (Some c)
  then have "c \<in> set (ct_configs cat) \<and> cg_user c = who_id who \<and> cg_strategy c = sg_id s"
    by (auto simp: config_of_def dest!: first_where_Some)
  with Some assms show ?thesis by (auto simp: get_or_create_config_def)
qed

lemma get_or_create_Some:
  assumes "get_or_create_config se who s b cat = (cat1, Some (c, raw))"
  shows "edits who cat cat1" "ct_next cat \<le> ct_next cat1" "c \<in> set (ct_configs cat1)" "cg_user c = who_id who"
  using get_or_create_edits [OF assms] by blast+

lemma edits_config:
  "edits who cat cat1 \<Longrightarrow> c \<in> set (ct_configs cat1) \<Longrightarrow> cg_user c = who_id who \<Longrightarrow> keeps_config_key f \<Longrightarrow>
    edits who cat (set_config (cg_id c) f cat1)"
  by (erule edits_step) (rule edit.config_changed)

text \<open>The secrets a response shows.\<close>

definition revealed :: "strategy_response \<Rightarrow> string list" where
  "revealed r = (case r of ConfigShown c (Some raw) \<Rightarrow> [raw] | SecretRotated url raw v \<Rightarrow> [raw] | _ \<Rightarrow> [])"

text \<open>What every handler does: edits, and it shows at most one secret, drawn under a number it uses up.\<close>

definition handled :: "strategy_env \<Rightarrow> caller \<Rightarrow> catalog \<Rightarrow> catalog \<times> strategy_response \<Rightarrow> bool" where
  "handled se who cat out \<longleftrightarrow> edits who cat (fst out) \<and> ct_next cat \<le> ct_next (fst out) \<and>
     (revealed (snd out) = [] \<or>
       (\<exists>k. revealed (snd out) = [se_secret se k] \<and> ct_next cat \<le> k \<and> k < ct_next (fst out)))"

lemma handledI: "edits who cat cat1 \<Longrightarrow> ct_next cat \<le> ct_next cat1 \<Longrightarrow> revealed r = [] \<Longrightarrow> handled se who cat (cat1, r)"
  by (simp add: handled_def)

lemma handled_same: "revealed r = [] \<Longrightarrow> handled se who cat (cat, r)"
  by (simp add: handled_def)

lemma revealed_simps [simp]:
  "revealed (StrategyListed l) = []" "revealed (StrategyShown s) = []" "revealed (StrategyCreated s) = []"
  "revealed (StrategyGone i) = []" "revealed (StrategyFileBytes b) = []" "revealed (ConfigShown c None) = []"
  "revealed (ConfigShown c (Some raw)) = [raw]" "revealed (SecretRotated u raw v) = [raw]" "revealed PayloadValid = []"
  "revealed (StrategyFail e n) = []" "revealed StrategyMissing = []" "revealed StrategyRaised = []"
  by (simp_all add: revealed_def)

lemma next_simps [simp]:
  "ct_next (strategy_emit e who x i a cat) = ct_next cat" "ct_next (set_strategy i f cat) = ct_next cat"
  "ct_next (set_config i g cat) = ct_next cat"
  by (simp_all add: strategy_emit_def set_strategy_def set_config_def)

lemma save_bundle_handled: "handled se who cat (save_bundle se who b cat)"
proof -
  note step = r_into_rtranclp [of "edit who", OF edit.uploaded [simplified]]
  show ?thesis
    unfolding save_bundle_def Let_def
    by (auto intro!: handledI strategy_emit_edit step simp: exists_where_iff stored_file_def)
qed

lemma upload_handled: "handled se who cat (upload_strategy se who r cat)"
  unfolding upload_strategy_def
  by (simp add: handled_same save_bundle_handled split: option.split sum.split upload_error.split)

lemma patch_handled:
  assumes "get_strategy who pk cat = Some s"
  shows "handled se who cat (patch_strategy who s fm cat)"
proof (cases "can_user_modify who s \<and> form_valid fm")
  case True
  then have "edits who cat (set_strategy (sg_id s) (apply_form fm) cat)"
    using get_strategy_Some [OF assms] apply_form_identity by (blast intro: edit.changed)
  with True show ?thesis by (simp add: patch_strategy_def handledI strategy_emit_edit)
next
  case False
  then show ?thesis by (auto simp: patch_strategy_def handled_same)
qed

lemma delete_handled:
  assumes "get_strategy who pk cat = Some s"
  shows "handled se who cat (delete_strategy se who s cat)"
proof (cases "can_user_delete who s")
  case True
  let ?f = "\<lambda>x. x\<lparr>sg_enabled := False, sg_deleted := Some (se_now se)\<rparr>"
  have "can_user_modify who s" using True by (simp add: can_user_delete_def can_user_modify_def split: if_splits)
  moreover have "keeps_identity ?f" by (simp add: keeps_identity_def)
  ultimately have "edits who cat (set_strategy (sg_id s) ?f cat)"
    using get_strategy_Some [OF assms] by (blast intro: edit.changed)
  with True show ?thesis by (simp add: delete_strategy_def handledI strategy_emit_edit)
next
  case False
  then show ?thesis by (simp add: delete_strategy_def handled_same)
qed

lemma read_config_handled: "handled se who cat (read_config se who s cat)"
proof -
  obtain cat1 r where g: "get_or_create_config se who s (\<not> who_impersonated who) cat = (cat1, r)" by fastforce
  note e = get_or_create_edits [OF g]
  show ?thesis
  proof (cases r)
    case None
    with e g show ?thesis by (simp add: read_config_def handled_def)
  next
    case (Some p)
    obtain c raw where p: "p = (c, raw)" by (cases p) auto
    show ?thesis
    proof (cases "who_impersonated who \<or> raw = None")
      case True
      with e g Some p show ?thesis by (auto simp: read_config_def handled_def)
    next
      case False
      then obtain x where "raw = Some x" by blast
      with e g Some p False show ?thesis by (auto simp: read_config_def handled_def)
    qed
  qed
qed

lemma update_config_handled: "handled se who cat (update_config se who s schema template cat)"
proof -
  obtain cat1 r where g: "get_or_create_config se who s True cat = (cat1, r)" by fastforce
  note e = get_or_create_edits [OF g]
  show ?thesis
  proof (cases r)
    case None
    with e g show ?thesis by (simp add: update_config_def handled_same handledI)
  next
    case (Some p)
    obtain c raw where p: "p = (c, raw)" by (cases p) auto
    note c = get_or_create_Some [OF g [unfolded Some p]]
    have "edits who cat (set_config (cg_id c) (\<lambda>x. x\<lparr>cg_schema := schema, cg_template := template\<rparr>) cat1)"
      by (rule edits_config [OF c(1,3,4)]) (simp add: keeps_config_key_def)
    moreover note c(2)
    ultimately show ?thesis using g Some p by (simp add: update_config_def Let_def handled_same handledI)
  qed
qed

lemma rotate_config_handled: "handled se who cat (rotate_config se who s cat)"
proof -
  obtain cat1 r where g: "get_or_create_config se who s True cat = (cat1, r)" by fastforce
  note e = get_or_create_edits [OF g]
  show ?thesis
  proof (cases r)
    case None
    with e g show ?thesis by (simp add: rotate_config_def handledI)
  next
    case (Some p)
    obtain c raw where p: "p = (c, raw)" by (cases p) auto
    let ?draw = "se_secret se (ct_next cat1)"
    let ?cat2 = "set_config (cg_id c) (rotated_config se ?draw) cat1"
    note c = get_or_create_Some [OF g [unfolded Some p]]
    have "edits who cat ?cat2"
      by (rule edits_config [OF c(1,3,4)]) (simp add: keeps_config_key_def rotated_config_def)
    then have "edits who cat (?cat2\<lparr>ct_next := ct_next ?cat2 + 1\<rparr>)" by (blast intro: edit.numbered)
    then have "edits who cat (fst (rotate_config se who s cat))"
      using g Some p by (simp add: rotate_config_def rotate_secret_def Let_def strategy_emit_edit)
    moreover have "revealed (snd (rotate_config se who s cat)) = [?draw]" "ct_next (fst (rotate_config se who s cat)) = ct_next cat1 + 1"
      using g Some p by (simp_all add: rotate_config_def rotate_secret_def Let_def)
    ultimately show ?thesis using c(2) unfolding handled_def by auto
  qed
qed

lemma dry_run_handled: "handled se who cat (dry_run se who s payload cat)"
proof -
  obtain cat1 r where g: "get_or_create_config se who s True cat = (cat1, r)" by fastforce
  with get_or_create_edits [OF g] show ?thesis
    by (simp add: dry_run_def handledI split: option.split)
qed

lemma on_strategy_handled:
  assumes "\<And>s. get_strategy who pk cat = Some s \<Longrightarrow> handled se who cat (f s cat)"
  shows "handled se who cat (on_strategy who pk f cat)"
  using assms by (simp add: on_strategy_def handled_same split: option.split)

lemmas handlers_handled = upload_handled patch_handled delete_handled read_config_handled update_config_handled
  rotate_config_handled dry_run_handled

lemma strategy_step_handled: "handled se who cat (strategy_step se who op cat)"
proof -
  have "handled se who cat (strategy_handler se who op cat)"
  proof (cases op)
    case (DownloadFile pk k)
    have "handled se who cat (cat, download_file s kind cat)" for s kind
      by (simp add: download_file_def handled_same split: option.split)
    then show ?thesis by (simp add: DownloadFile handled_same on_strategy_handled split: option.split)
  qed (auto intro!: on_strategy_handled handled_same handlers_handled split: option.split)
  then show ?thesis by (simp add: strategy_step_def handled_same)
qed

text \<open>Facts kept by every edit hold after every request.\<close>

lemma edits_induct [consumes 1, case_names refl edit]:
  assumes "edits who cat cat'" "P cat" "\<And>cat1 cat2. P cat1 \<Longrightarrow> edit who cat1 cat2 \<Longrightarrow> P cat2"
  shows "P cat'"
  using assms by (induction rule: rtranclp_induct) auto

lemma strategy_step_edits: "edits who cat (fst (strategy_step se who op cat))"
  using strategy_step_handled [of se who cat op] by (simp add: handled_def)

lemma strategy_run_invariant:
  assumes "P cat" "\<And>se who op cat1 cat2. (se, who, op) \<in> set ops \<Longrightarrow> P cat1 \<Longrightarrow> edit who cat1 cat2 \<Longrightarrow> P cat2"
  shows "P (fst (strategy_run ops cat))"
  using assms
proof (induction ops arbitrary: cat)
  case (Cons x ops)
  obtain se who op where x: "x = (se, who, op)" by (cases x) auto
  have "P (fst (strategy_step se who op cat))"
    using strategy_step_edits Cons.prems(1) by (rule edits_induct) (rule Cons.prems(2) [of se who op], auto simp: x)
  then have "P (fst (strategy_run ops (fst (strategy_step se who op cat))))"
    by (rule Cons.IH) (rule Cons.prems(2), auto)
  then show ?case by (simp add: x case_prod_beta)
qed simp

subsection \<open>Well-formed tables\<close>

definition owned_slugs :: "strategy_row list \<Rightarrow> (nat \<times> string) list" where
  "owned_slugs ss = map (\<lambda>s. (the (sg_owner s), sg_slug s)) (filter (\<lambda>s. sg_owner s \<noteq> None) ss)"

definition catalog_ok :: "catalog \<Rightarrow> bool" where
  "catalog_ok cat \<longleftrightarrow>
     distinct (map sg_id (ct_strategies cat)) \<and> (\<forall>s\<in>set (ct_strategies cat). sg_id s < ct_next cat) \<and>
     distinct (owned_slugs (ct_strategies cat)) \<and> (\<forall>s\<in>set (ct_strategies cat). sg_system s \<longrightarrow> sg_owner s = None) \<and>
     distinct (map (\<lambda>f. (sf_strategy f, sf_kind f)) (ct_files cat)) \<and> (\<forall>f\<in>set (ct_files cat). sf_strategy f < ct_next cat) \<and>
     distinct (map cg_id (ct_configs cat)) \<and> (\<forall>c\<in>set (ct_configs cat). cg_id c < ct_next cat) \<and>
     distinct (map (\<lambda>c. (cg_user c, cg_strategy c)) (ct_configs cat))"

lemma owned_slugs_mem: "(uid, slug) \<in> set (owned_slugs ss) \<longleftrightarrow> (\<exists>s\<in>set ss. sg_owner s = Some uid \<and> sg_slug s = slug)"
  by (force simp: owned_slugs_def)

lemma update_identity:
  assumes "keeps_identity f"
  shows "map sg_id (update_where p f ss) = map sg_id ss" "owned_slugs (update_where p f ss) = owned_slugs ss"
    "map sg_owner (update_where p f ss) = map sg_owner ss" "map sg_system (update_where p f ss) = map sg_system ss"
  using assms by (induction ss) (simp_all add: keeps_identity_def update_where_Cons owned_slugs_def)

lemma update_config_keys:
  assumes "keeps_config_key f"
  shows "map cg_id (update_where p f cs) = map cg_id cs"
    "map (\<lambda>c. (cg_user c, cg_strategy c)) (update_where p f cs) = map (\<lambda>c. (cg_user c, cg_strategy c)) cs"
  using assms by (induction cs) (simp_all add: keeps_config_key_def update_where_Cons)

lemma map_keys_below:
  assumes "map g xs = map g ys" "\<forall>y\<in>set ys. g y < (n :: nat)"
  shows "\<forall>x\<in>set xs. g x < n"
proof -
  have "g ` set xs = g ` set ys" by (metis assms(1) list.set_map)
  with assms(2) show ?thesis by (metis image_iff)
qed

lemma edit_catalog_ok: "edit who cat cat' \<Longrightarrow> catalog_ok cat \<Longrightarrow> catalog_ok cat'"
proof (induction rule: edit.induct)
  case (audited cat a)
  then show ?case by (simp add: catalog_ok_def)
next
  case (numbered cat)
  then show ?case by (auto simp: catalog_ok_def less_SucI)
next
  case (uploaded s cat fs)
  have files: "distinct (map (\<lambda>f. (sf_strategy f, sf_kind f)) (ct_files cat @ fs))"
  proof -
    have "map (\<lambda>f. (sf_strategy f, sf_kind f)) fs = map (Pair (sg_id s)) (map sf_kind fs)" using uploaded(6) by simp
    then have "distinct (map (\<lambda>f. (sf_strategy f, sf_kind f)) fs)" using uploaded(5) by (auto simp: distinct_map inj_on_def)
    with uploaded show ?thesis by (force simp: catalog_ok_def)
  qed
  have slugs: "distinct (owned_slugs (ct_strategies cat @ [s]))"
  proof -
    have "(who_id who, sg_slug s) \<notin> set (owned_slugs (ct_strategies cat))" using uploaded(2,4) by (simp add: owned_slugs_mem)
    with uploaded show ?thesis by (simp add: catalog_ok_def owned_slugs_def)
  qed
  have ids: "distinct (map sg_id (ct_strategies cat @ [s]))" using uploaded by (auto simp: catalog_ok_def)
  show ?case unfolding catalog_ok_def using files slugs ids uploaded by (auto simp: catalog_ok_def less_SucI)
next
  case (changed s cat f)
  let ?ss = "update_where (\<lambda>x. sg_id x = sg_id s) f (ct_strategies cat)"
  note keep = update_identity [OF changed(4), of "\<lambda>x. sg_id x = sg_id s" "ct_strategies cat"]
  have "\<forall>x\<in>set ?ss. sg_id x < ct_next cat" using changed(5) by (intro map_keys_below [OF keep(1)]) (simp add: catalog_ok_def)
  moreover have "\<forall>x\<in>set ?ss. sg_system x \<longrightarrow> sg_owner x = None"
    using changed(4,5) by (auto simp: catalog_ok_def set_update_where keeps_identity_def)
  ultimately show ?case using changed(5) keep by (simp add: catalog_ok_def set_strategy_def)
next
  case (config_added sid cat c)
  have "(who_id who, sid) \<notin> (\<lambda>c. (cg_user c, cg_strategy c)) ` set (ct_configs cat)"
    using config_added(1) by (auto simp: config_of_def first_where_None)
  with config_added show ?case by (auto simp: catalog_ok_def less_SucI)
next
  case (config_changed c cat f)
  let ?cs = "update_where (\<lambda>x. cg_id x = cg_id c) f (ct_configs cat)"
  note keep = update_config_keys [OF config_changed(3), of "\<lambda>x. cg_id x = cg_id c" "ct_configs cat"]
  have "\<forall>x\<in>set ?cs. cg_id x < ct_next cat" using config_changed(4) by (intro map_keys_below [OF keep(1)]) (simp add: catalog_ok_def)
  then show ?case using config_changed(4) keep by (simp add: catalog_ok_def set_config_def)
qed

lemma step_catalog_ok: "catalog_ok cat \<Longrightarrow> catalog_ok (fst (strategy_step se who op cat))"
  by (rule edits_induct [OF strategy_step_edits]) (assumption, erule (1) edit_catalog_ok)

text \<open>
  The tables stay well formed. Over any requests of any callers, ids, slugs per owner, files per strategy and
  kind, and configurations per user and strategy stay unique.
\<close>

theorem catalog_stays_ok:
  assumes "catalog_ok cat"
  shows "catalog_ok (fst (strategy_run ops cat))"
  by (rule strategy_run_invariant) (use assms edit_catalog_ok in blast)+

definition sample_strategy_env :: strategy_env where
  "sample_strategy_env = \<lparr>se_now = 5, se_enabled = True, se_upload = \<lparr>ue_loads = (\<lambda>b. JsonMalformed)\<rparr>, se_sha = (\<lambda>b. b),
     se_slugify = py_lower, se_encrypt = (\<lambda>s. CHR ''#'' # s), se_decrypt = (\<lambda>s. if s = [] then None else Some (tl s)),
     se_secret = (\<lambda>n. replicate n CHR ''s''), se_check = (\<lambda>j. True), se_valid = (\<lambda>p s. True), se_base = ''https://h''\<rparr>"

definition sample_caller :: "nat \<Rightarrow> caller" where
  "sample_caller i = \<lparr>who_id = i, who_staff = False, who_mfa = True, who_impersonated = False\<rparr>"

definition sample_catalog :: catalog where
  "sample_catalog = \<lparr>ct_strategies = [\<lparr>sg_id = 3, sg_owner = Some 7, sg_name = ''Trend'', sg_slug = ''trend'', sg_short = [],
     sg_system = False, sg_enabled = True, sg_deleted = None\<rparr>], ct_files = [], ct_configs = [], ct_audits = [], ct_next = 4\<rparr>"

lemma sample_catalog_ok: "catalog_ok sample_catalog"
  by (simp add: catalog_ok_def sample_catalog_def owned_slugs_def)

theorem catalog_stays_ok_witness:
  "catalog_ok (fst (strategy_run [(sample_strategy_env, sample_caller 7, ReadConfig 3),
     (sample_strategy_env, sample_caller 7, RotateConfig 3), (sample_strategy_env, sample_caller 8, DeleteStrategy 3)] sample_catalog))"
  by (rule catalog_stays_ok [OF sample_catalog_ok])

subsection \<open>Tenants\<close>

definition owns :: "nat \<Rightarrow> catalog \<Rightarrow> nat \<Rightarrow> bool" where
  "owns uid cat sid \<longleftrightarrow> exists_where (\<lambda>s. sg_owner s = Some uid \<and> sg_id s = sid) (ct_strategies cat)"

definition rows_of :: "nat \<Rightarrow> catalog \<Rightarrow> strategy_row list \<times> strategy_file list \<times> config_row list" where
  "rows_of uid cat = (filter (\<lambda>s. sg_owner s = Some uid) (ct_strategies cat),
     filter (\<lambda>f. owns uid cat (sf_strategy f)) (ct_files cat), filter (\<lambda>c. cg_user c = uid) (ct_configs cat))"

lemma filter_update_where:
  assumes "\<And>x. x \<in> set xs \<Longrightarrow> p x \<Longrightarrow> \<not> q x \<and> \<not> q (f x)"
  shows "filter q (update_where p f xs) = filter q xs"
  using assms by (induction xs) (auto simp: update_where_Cons)

lemma same_id_same_row:
  assumes "distinct (map g xs)" "x \<in> set xs" "y \<in> set xs" "g x = g y"
  shows "x = y"
  using assms by (meson distinct_map inj_onD)

lemma edit_keeps_rows:
  assumes "edit who cat cat'" "catalog_ok cat" "who_id who \<noteq> uid"
  shows "rows_of uid cat' = rows_of uid cat"
  using assms
proof (induction rule: edit.induct)
  case (uploaded s cat fs)
  have own: "owns uid (cat\<lparr>ct_strategies := ct_strategies cat @ [s], ct_files := ct_files cat @ fs, ct_next := ct_next cat + 1\<rparr>) = owns uid cat"
    using uploaded(2,8) by (auto simp: owns_def exists_where_iff fun_eq_iff)
  have "\<not> owns uid cat (sf_strategy f)" if "f \<in> set fs" for f
    using that uploaded(1,6,7) by (auto simp: owns_def exists_where_iff catalog_ok_def)
  then have "filter (\<lambda>f. owns uid cat (sf_strategy f)) fs = []" by (simp add: filter_empty_conv)
  with own uploaded(2,8) show ?case by (simp add: rows_of_def)
next
  case (changed s cat f)
  let ?ss = "update_where (\<lambda>x. sg_id x = sg_id s) f (ct_strategies cat)"
  have other: "sg_owner s \<noteq> Some uid"
    using changed(1,2,5,6) by (auto simp: can_user_modify_def catalog_ok_def split: if_splits)
  have row: "x = s" if "x \<in> set (ct_strategies cat)" "sg_id x = sg_id s" for x
    using same_id_same_row [of sg_id "ct_strategies cat" x s] changed(1,5) that by (simp add: catalog_ok_def)
  have same: "filter q ?ss = filter q (ct_strategies cat)" if "\<And>x. q x \<Longrightarrow> sg_owner x = Some uid" for q
    using that other row changed(4) by (intro filter_update_where) (metis keeps_identity_def)
  have own: "owns uid (set_strategy (sg_id s) f cat) = owns uid cat"
  proof
    fix sid
    have "exists_where p xs \<longleftrightarrow> filter p xs \<noteq> []" for p and xs :: "strategy_row list"
      by (auto simp: exists_where_iff filter_empty_conv)
    then show "owns uid (set_strategy (sg_id s) f cat) sid = owns uid cat sid"
      using same [of "\<lambda>x. sg_owner x = Some uid \<and> sg_id x = sid"] by (simp add: owns_def set_strategy_def)
  qed
  show ?case unfolding rows_of_def own using same [of "\<lambda>x. sg_owner x = Some uid"] by (simp add: set_strategy_def)
next
  case (config_changed c cat f)
  have row: "x = c" if "x \<in> set (ct_configs cat)" "cg_id x = cg_id c" for x
    using same_id_same_row [of cg_id "ct_configs cat" x c] config_changed(1,4) that by (simp add: catalog_ok_def)
  have "filter (\<lambda>x. cg_user x = uid) (update_where (\<lambda>x. cg_id x = cg_id c) f (ct_configs cat)) = filter (\<lambda>x. cg_user x = uid) (ct_configs cat)"
    using row config_changed(2,3,5) by (intro filter_update_where) (metis keeps_config_key_def)
  moreover have "owns uid (set_config (cg_id c) f cat) = owns uid cat" by (simp add: owns_def set_config_def fun_eq_iff)
  ultimately show ?case by (simp add: rows_of_def set_config_def)
qed (simp_all add: rows_of_def owns_def [abs_def])

lemma others_keep_rows:
  assumes "catalog_ok cat" "\<And>se who op. (se, who, op) \<in> set ops \<Longrightarrow> who_id who \<noteq> uid"
  shows "rows_of uid (fst (strategy_run ops cat)) = rows_of uid cat"
proof -
  have "catalog_ok (fst (strategy_run ops cat)) \<and> rows_of uid (fst (strategy_run ops cat)) = rows_of uid cat"
    using assms by (intro strategy_run_invariant [where P = "\<lambda>c. catalog_ok c \<and> rows_of uid c = rows_of uid cat"])
      (auto intro: edit_catalog_ok simp: edit_keeps_rows)
  then show ?thesis by blast
qed

text \<open>Whose strategies and configurations a response shows.\<close>

fun shows_rows_of :: "nat \<Rightarrow> strategy_response \<Rightarrow> bool" where
  "shows_rows_of uid (StrategyListed ss) \<longleftrightarrow> exists_where (\<lambda>s. sg_owner s = Some uid) ss"
| "shows_rows_of uid (StrategyShown s) \<longleftrightarrow> sg_owner s = Some uid"
| "shows_rows_of uid (StrategyCreated s) \<longleftrightarrow> sg_owner s = Some uid"
| "shows_rows_of uid (ConfigShown c raw) \<longleftrightarrow> cg_user c = uid"
| "shows_rows_of uid _ \<longleftrightarrow> False"

lemma visible_not_of:
  "detail_qs who s \<Longrightarrow> who_id who \<noteq> uid \<Longrightarrow> sg_system s \<longrightarrow> sg_owner s = None \<Longrightarrow> sg_owner s \<noteq> Some uid"
  by (auto simp: detail_qs_def)

lemma get_strategy_not_of:
  assumes "catalog_ok cat" "get_strategy who pk cat = Some s" "who_id who \<noteq> uid"
  shows "sg_owner s \<noteq> Some uid"
  using get_strategy_Some [OF assms(2)] assms(1,3) by (auto simp: catalog_ok_def)

lemma config_response_not_of:
  assumes "who_id who \<noteq> uid"
  shows "\<not> shows_rows_of uid (snd (read_config se who s cat))"
    "\<not> shows_rows_of uid (snd (update_config se who s schema template cat))"
    "\<not> shows_rows_of uid (snd (rotate_config se who s cat))" "\<not> shows_rows_of uid (snd (dry_run se who s payload cat))"
proof -
  have mine: "cg_user c \<noteq> uid" if "get_or_create_config se who s b cat = (cat1, Some (c, raw))" for b cat1 c raw
    using get_or_create_Some(4) [OF that] assms by simp
  show "\<not> shows_rows_of uid (snd (read_config se who s cat))" "\<not> shows_rows_of uid (snd (rotate_config se who s cat))"
    "\<not> shows_rows_of uid (snd (dry_run se who s payload cat))"
    by (auto simp: read_config_def rotate_config_def dry_run_def rotate_secret_def Let_def mine split: prod.split option.split)
  show "\<not> shows_rows_of uid (snd (update_config se who s schema template cat))"
    by (auto simp: update_config_def Let_def mine split: prod.split option.split)
qed

lemma step_shows_not_of:
  assumes "catalog_ok cat" "who_id who \<noteq> uid"
  shows "\<not> shows_rows_of uid (snd (strategy_step se who op cat))"
proof -
  have pass: "\<not> shows_rows_of uid (snd (on_strategy who pk f cat))"
    if "\<And>s. sg_owner s \<noteq> Some uid \<Longrightarrow> \<not> shows_rows_of uid (snd (f s cat))" for pk f
    using that get_strategy_not_of [OF assms(1) _ assms(2)] by (auto simp: on_strategy_def split: option.split)
  have list: "\<not> shows_rows_of uid (StrategyListed (visible_strategies who cat))"
    using assms by (auto simp: visible_strategies_def Let_def exists_where_iff catalog_ok_def detail_qs_def)
  have patch: "\<not> shows_rows_of uid (snd (patch_strategy who s fm cat))" if "sg_owner s \<noteq> Some uid" for s fm
    using that by (auto simp: patch_strategy_def apply_form_def)
  have del: "\<not> shows_rows_of uid (snd (delete_strategy se who s cat))" for s
    by (simp add: delete_strategy_def)
  note config = config_response_not_of [OF assms(2)]
  have upload: "\<not> shows_rows_of uid (snd (upload_strategy se who r cat))" for r
    using assms(2) by (auto simp: upload_strategy_def save_bundle_def Let_def split: option.split sum.split upload_error.split)
  have stored: "\<not> shows_rows_of uid (download_file s k cat)" for s k
    by (simp add: download_file_def split: option.split)
  have "\<not> shows_rows_of uid (snd (strategy_handler se who op cat))"
  proof (cases op)
    case (UpdateConfig pk body)
    show ?thesis unfolding UpdateConfig strategy_handler.simps
      by (rule pass) (simp add: config split: option.split prod.split)
  next
    case (DownloadFile pk k)
    show ?thesis unfolding DownloadFile strategy_handler.simps
      by (auto simp: stored intro!: pass split: option.split)
  qed (use list in \<open>auto simp: upload patch del config intro!: pass\<close>)
  then show ?thesis by (simp add: strategy_step_def)
qed



subsection \<open>Secrets\<close>

text \<open>
  A secret is shown once. When the generator does not repeat itself over the numbers a run uses, no secret
  appears in two responses.
\<close>

theorem secrets_shown_once:
  assumes draw: "\<forall>(se, who, op)\<in>set ops. se_secret se = draw"
    and inj: "inj_on draw {ct_next cat..<ct_next (fst (strategy_run ops cat))}"
  shows "distinct (concat (map revealed (snd (strategy_run ops cat))))"
proof -
  have "ct_next cat \<le> ct_next (fst (strategy_run ops cat)) \<and>
    (\<exists>ks. concat (map revealed (snd (strategy_run ops cat))) = map draw ks \<and> distinct ks \<and>
       set ks \<subseteq> {ct_next cat..<ct_next (fst (strategy_run ops cat))})"
    using draw
  proof (induction ops arbitrary: cat)
    case (Cons x ops)
    obtain se who op where x: "x = (se, who, op)" by (cases x) auto
    let ?out = "strategy_step se who op cat"
    from Cons obtain ks where ks: "ct_next (fst ?out) \<le> ct_next (fst (strategy_run ops (fst ?out)))"
      "concat (map revealed (snd (strategy_run ops (fst ?out)))) = map draw ks" "distinct ks"
      "set ks \<subseteq> {ct_next (fst ?out)..<ct_next (fst (strategy_run ops (fst ?out)))}" by fastforce
    have step: "ct_next cat \<le> ct_next (fst ?out)" using strategy_step_handled [of se who cat op] by (simp add: handled_def)
    obtain js where js: "revealed (snd ?out) = map draw js" "distinct js" "set js \<subseteq> {ct_next cat..<ct_next (fst ?out)}"
    proof -
      consider "revealed (snd ?out) = []" | k where "revealed (snd ?out) = [se_secret se k]" "ct_next cat \<le> k" "k < ct_next (fst ?out)"
        using strategy_step_handled [of se who cat op] by (auto simp: handled_def)
      then show thesis
      proof cases
        case 1
        then show thesis by (intro that [of "[]"]) simp_all
      next
        case (2 k)
        moreover have "se_secret se = draw" using Cons.prems by (simp add: x)
        ultimately show thesis by (intro that [of "[k]"]) simp_all
      qed
    qed
    have "set js \<inter> set ks = {}" using js(3) ks(4) by fastforce
    with js ks step show ?case
      by (intro conjI exI [of _ "js @ ks"]) (auto simp: x case_prod_beta)
  qed simp
  then obtain ks where "concat (map revealed (snd (strategy_run ops cat))) = map draw ks" "distinct ks"
    "set ks \<subseteq> {ct_next cat..<ct_next (fst (strategy_run ops cat))}" by blast
  with inj show ?thesis by (simp add: distinct_map inj_on_subset)
qed

lemma sample_rotations:
  "strategy_run [(sample_strategy_env, sample_caller 7, ReadConfig 3), (sample_strategy_env, sample_caller 7, RotateConfig 3)] sample_catalog =
   (let c = \<lparr>cg_id = 4, cg_user = 7, cg_strategy = 3, cg_secret = ''#ssss'', cg_schema = default_json_schema,
        cg_template = default_payload_template ''trend'', cg_version = 1, cg_rotated = None\<rparr>
    in (strategy_emit ''strategy.secret_rotated'' (sample_caller 7) ''webhook_config'' 4 [(''strategy_id'', WId 3), (''version'', WNum 2)]
          (sample_catalog\<lparr>ct_configs := [c\<lparr>cg_secret := ''#sssss'', cg_version := 2, cg_rotated := Some 5\<rparr>], ct_next := 6\<rparr>),
        [ConfigShown c (Some ''ssss''), SecretRotated (build_webhook_url sample_strategy_env 7 3) ''sssss'' 2]))"
  by (simp add: strategy_step_def on_strategy_def get_strategy_def detail_qs_def can_user_view_def read_config_def
      get_or_create_config_def config_of_def rotate_config_def rotate_secret_def rotated_config_def set_config_def Let_def
      sample_strategy_env_def sample_catalog_def sample_caller_def first_where_Cons first_where_append update_where_Cons
      numeral_eq_Suc)

theorem secrets_shown_once_witness:
  "distinct (concat (map revealed (snd (strategy_run [(sample_strategy_env, sample_caller 7, ReadConfig 3),
     (sample_strategy_env, sample_caller 7, RotateConfig 3)] sample_catalog))))"
proof (rule secrets_shown_once)
  show "\<forall>(se, who, op)\<in>set [(sample_strategy_env, sample_caller 7, ReadConfig 3), (sample_strategy_env, sample_caller 7, RotateConfig 3)].
      se_secret se = (\<lambda>n. replicate n CHR ''s'')" by (simp add: sample_strategy_env_def)
  show "inj_on (\<lambda>n. replicate n CHR ''s'') {ct_next sample_catalog..<ct_next (fst (strategy_run
      [(sample_strategy_env, sample_caller 7, ReadConfig 3), (sample_strategy_env, sample_caller 7, RotateConfig 3)] sample_catalog))}"
    by (simp add: inj_on_def)
qed

subsection \<open>What the webhook sees\<close>

text \<open>
  The tables the webhook and the worker read, as the endpoints leave them. A configuration whose secret does not
  decrypt answers no webhook.
\<close>

definition strategy_view :: "strategy_row \<Rightarrow> strategy" where
  "strategy_view s = \<lparr>s_id = sg_id s, s_owner = sg_owner s, s_enabled = sg_enabled s, s_deleted = sg_deleted s\<rparr>"

definition config_view :: "strategy_env \<Rightarrow> config_row \<Rightarrow> webhook_config list" where
  "config_view se c =
     (case se_decrypt se (cg_secret c) of
        None \<Rightarrow> []
      | Some raw \<Rightarrow> [\<lparr>w_user = cg_user c, w_strategy = cg_strategy c, w_secret = raw, w_schema = cg_schema c\<rparr>])"

definition catalog_db :: "strategy_env \<Rightarrow> catalog \<Rightarrow> db \<Rightarrow> db" where
  "catalog_db se cat db =
     db\<lparr>d_strategies := map strategy_view (ct_strategies cat), d_configs := concat (map (config_view se) (ct_configs cat))\<rparr>"

lemma first_where_map: "first_where p (map g xs) = map_option g (first_where (\<lambda>x. p (g x)) xs)"
  by (induction xs) (simp_all add: first_where_Cons)

text \<open>The row a deletion leaves stays deleted, whoever calls what afterwards.\<close>

definition gone :: "nat \<Rightarrow> catalog \<Rightarrow> bool" where
  "gone sid cat \<longleftrightarrow> sid < ct_next cat \<and> (\<forall>s\<in>set (ct_strategies cat). sg_id s = sid \<longrightarrow> sg_deleted s \<noteq> None)"

lemma edit_gone: "edit who cat cat' \<Longrightarrow> gone sid cat \<Longrightarrow> gone sid cat'"
proof (induction rule: edit.induct)
  case (changed s cat f)
  show ?case
  proof (unfold gone_def set_strategy_def, simp, intro conjI ballI impI)
    show "sid < ct_next cat" using changed(5) by (simp add: gone_def)
    fix x
    assume "x \<in> set (update_where (\<lambda>x. sg_id x = sg_id s) f (ct_strategies cat))" "sg_id x = sid"
    then obtain y where "y \<in> set (ct_strategies cat)" "x = (if sg_id y = sg_id s then f y else y)" by (auto simp: set_update_where)
    with changed(4,5) \<open>sg_id x = sid\<close> show "\<exists>t. sg_deleted x = Some t" by (fastforce simp: gone_def keeps_identity_def)
  qed
qed (auto simp: gone_def set_config_def)

lemma gone_off: "gone sid cat \<Longrightarrow> strategy_off sid (catalog_db se cat db)"
  by (auto simp: gone_def strategy_off_def catalog_db_def strategy_view_def first_where_map split: option.split
      dest!: first_where_Some)

lemma strategy_off_cong: "d_strategies db = d_strategies db' \<Longrightarrow> strategy_off sid db = strategy_off sid db'"
  by (simp add: strategy_off_def)

lemma off_never_accepted:
  assumes "strategy_off (hq_strategy r) db"
  shows "snd (webhook_post env we r db) \<noteq> WebhookAccepted i"
proof
  assume acc: "snd (webhook_post env we r db) = WebhookAccepted i"
  have err: "precheck we r \<noteq> Inl (WebhookAccepted i)"
    by (auto simp: precheck_def split: if_splits option.splits)
  obtain wc b u where wc: "webhook_config_of r db = Some wc"
    "snd (accept_alert env we r wc b (snd (rate_limited env we u ''ok'' db))) = WebhookAccepted i"
    using acc err by (auto simp: webhook_post_def Let_def case_prod_beta split: sum.splits option.splits if_splits)
  have "w_strategy wc = hq_strategy r" using wc(1) by (auto simp: webhook_config_of_def dest: first_where_Some)
  then have "strategy_off (w_strategy wc) (snd (rate_limited env we u ''ok'' db))"
    using assms strategy_off_cong [of "snd (rate_limited env we u ''ok'' db)" db] by simp
  then show False
    using accept_alert_verdict [of env we r wc b "snd (rate_limited env we u ''ok'' db)"] wc(2)
    by (simp add: verdict_def split: if_splits)
qed

lemma delete_gone:
  assumes "strategy_step se who (DeleteStrategy sid) cat = (cat1, StrategyGone sid)" "catalog_ok cat"
  shows "gone sid cat1"
proof -
  obtain s where s: "get_strategy who sid cat = Some s" "can_user_delete who s"
    "cat1 = fst (delete_strategy se who s cat)"
    using assms(1) by (auto simp: strategy_step_def on_strategy_def delete_strategy_def split: if_splits option.splits)
  note row = get_strategy_Some [OF s(1)]
  have "sid < ct_next cat" using row(1,2) assms(2) by (auto simp: catalog_ok_def)
  with s row(2) show ?thesis
    by (auto simp: gone_def delete_strategy_def strategy_emit_def set_strategy_def set_update_where)
qed

text \<open>
  C25. A deleted strategy never trades again. Once a deletion has succeeded, whatever requests follow, the webhook
  accepts no alert for the strategy and the worker's gate turns its waiting alerts away.
\<close>

theorem deleted_strategy_never_trades:
  assumes "catalog_ok cat" "strategy_step se who (DeleteStrategy sid) cat = (cat1, StrategyGone sid)"
    "hq_strategy r = sid" "a_strategy al = sid"
  shows "snd (webhook_post env we r (catalog_db se (fst (strategy_run ops cat1)) db)) \<noteq> WebhookAccepted i \<and>
    gate_alert al (catalog_db se (fst (strategy_run ops cat1)) db) = Inl ''STRATEGY_DISABLED''"
proof -
  have "gone sid (fst (strategy_run ops cat1))"
    by (rule strategy_run_invariant [where P = "gone sid"]) (use delete_gone [OF assms(2,1)] edit_gone in blast)+
  then have "strategy_off sid (catalog_db se (fst (strategy_run ops cat1)) db)" by (rule gone_off)
  with assms(3,4) show ?thesis by (simp add: off_never_accepted gate_alert_def)
qed

lemma sample_delete:
  "strategy_step sample_strategy_env (sample_caller 7) (DeleteStrategy 3) sample_catalog =
     (strategy_emit ''strategy.deleted'' (sample_caller 7) ''strategy'' 3 [(''is_enabled'', WBool False), (''deleted'', WBool True)]
        (set_strategy 3 (\<lambda>x. x\<lparr>sg_enabled := False, sg_deleted := Some 5\<rparr>) sample_catalog), StrategyGone 3)"
  by (simp add: strategy_step_def on_strategy_def get_strategy_def detail_qs_def can_user_view_def can_user_delete_def
      delete_strategy_def sample_strategy_env_def sample_catalog_def sample_caller_def first_where_Cons)

theorem deleted_strategy_never_trades_witness:
  "snd (webhook_post sample_env sample_webhook (sample_request ''s3cret'') (catalog_db sample_strategy_env
     (fst (strategy_run [(sample_strategy_env, sample_caller 7, PatchStrategy 3 \<lparr>fm_name = None, fm_enabled = Some True\<rparr>)]
       (fst (strategy_step sample_strategy_env (sample_caller 7) (DeleteStrategy 3) sample_catalog)))) webhook_db)) \<noteq> WebhookAccepted 4"
  unfolding sample_delete fst_conv
  by (rule deleted_strategy_never_trades [OF sample_catalog_ok sample_delete, where al = sample_alert_row, THEN conjunct1])
    (simp_all add: sample_request_def sample_alert_row_def sample_alert_def)

text \<open>The configuration of a user is found among the user's rows.\<close>

lemma first_where_filter: "first_where p xs = first_where p (filter q xs)" if "\<And>x. x \<in> set xs \<Longrightarrow> p x \<Longrightarrow> q x"
  using that by (induction xs) (auto simp: first_where_Cons)

lemma config_view_keys: "w \<in> set (config_view se c) \<Longrightarrow> w_user w = cg_user c \<and> w_strategy w = cg_strategy c"
  by (auto simp: config_view_def split: option.splits)

lemma webhook_config_view:
  "webhook_config_of r (catalog_db se cat db) =
     first_where (\<lambda>w. w_user w = hq_user r \<and> w_strategy w = hq_strategy r)
       (concat (map (config_view se) (filter (\<lambda>c. cg_user c = hq_user r) (ct_configs cat))))"
proof -
  let ?p = "\<lambda>w. w_user w = hq_user r \<and> w_strategy w = hq_strategy r"
  have "first_where ?p (concat (map (config_view se) cs)) =
      first_where ?p (concat (map (config_view se) (filter (\<lambda>c. cg_user c = hq_user r) cs)))" for cs
  proof (induction cs)
    case (Cons c cs)
    have "first_where ?p (config_view se c) = None" if "cg_user c \<noteq> hq_user r"
      using that config_view_keys [of _ se c] by (auto simp: first_where_None)
    with Cons show ?case by (simp add: first_where_append split: option.split)
  qed simp
  then show ?thesis by (simp add: webhook_config_of_def catalog_db_def)
qed

lemma webhook_config_Some:
  assumes ok: "catalog_ok cat" and c: "c \<in> set (ct_configs cat)" "cg_user c = hq_user r" "cg_strategy c = hq_strategy r"
    and raw: "se_decrypt se (cg_secret c) = Some raw"
  shows "\<exists>wc. webhook_config_of r (catalog_db se cat db) = Some wc \<and> w_secret wc = raw"
proof -
  let ?p = "\<lambda>w. w_user w = hq_user r \<and> w_strategy w = hq_strategy r"
  let ?ws = "concat (map (config_view se) (ct_configs cat))"
  let ?w = "\<lparr>w_user = cg_user c, w_strategy = cg_strategy c, w_secret = raw, w_schema = cg_schema c\<rparr>"
  have w: "?w \<in> set ?ws" using c(1) raw by (auto simp: config_view_def intro!: bexI [of _ c])
  have "y = ?w" if y: "y \<in> set ?ws" "?p y" for y
  proof -
    obtain d where d: "d \<in> set (ct_configs cat)" "y \<in> set (config_view se d)" using y(1) by auto
    have "cg_user d = cg_user c \<and> cg_strategy d = cg_strategy c" using config_view_keys [OF d(2)] y(2) c by simp
    then have "d = c"
      using same_id_same_row [of "\<lambda>c. (cg_user c, cg_strategy c)" "ct_configs cat" d c] ok d(1) c(1) by (simp add: catalog_ok_def)
    with d(2) raw show "y = ?w" by (simp add: config_view_def)
  qed
  moreover have "?p ?w" using c(2,3) by simp
  ultimately have "first_where ?p ?ws = Some ?w" using w by (intro first_where_unique)
  then show ?thesis unfolding webhook_config_of_def catalog_db_def by simp
qed

lemma rotate_row:
  assumes "strategy_step se who (RotateConfig sid) cat = (cat1, SecretRotated url raw v)"
  shows "\<exists>c\<in>set (ct_configs cat1). cg_user c = who_id who \<and> cg_strategy c = sid \<and> cg_secret c = se_encrypt se raw"
proof -
  obtain s where s: "get_strategy who sid cat = Some s" "rotate_config se who s cat = (cat1, SecretRotated url raw v)"
    using assms by (auto simp: strategy_step_def on_strategy_def split: if_splits option.splits)
  obtain cat0 r where g: "get_or_create_config se who s True cat = (cat0, r)" by fastforce
  with s(2) obtain c x where r: "r = Some (c, x)" by (auto simp: rotate_config_def split: option.splits)
  note e = get_or_create_edits [OF g, unfolded r]
  have c: "c \<in> set (ct_configs cat0)" "cg_user c = who_id who" "cg_strategy c = sg_id s" using e by blast+
  have cat1: "ct_configs cat1 = update_where (\<lambda>d. cg_id d = cg_id c) (rotated_config se raw) (ct_configs cat0)"
    using s(2) g r by (auto simp: rotate_config_def rotate_secret_def Let_def set_config_def strategy_emit_def)
  have "rotated_config se raw c \<in> set (ct_configs cat1)" using c(1) by (force simp: cat1 set_update_where)
  moreover have "cg_user (rotated_config se raw c) = who_id who" "cg_strategy (rotated_config se raw c) = sid"
    "cg_secret (rotated_config se raw c) = se_encrypt se raw"
    using c get_strategy_Some(2) [OF s(1)] by (simp_all add: rotated_config_def)
  ultimately show ?thesis by blast
qed

text \<open>
  C26. A rotation takes effect at once. After a rotation, and whatever other users request in between, the webhook of the
  configuration authenticates exactly the requests that carry the new secret; the old one is refused.
\<close>

theorem rotation_replaces_secret:
  assumes ok: "catalog_ok cat" and rot: "strategy_step se who (RotateConfig sid) cat = (cat1, SecretRotated url raw v)"
    and fernet: "se_decrypt se (se_encrypt se raw) = Some raw"
    and others: "\<forall>(se', who', op)\<in>set ops. who_id who' \<noteq> who_id who"
    and req: "hq_user r = who_id who" "hq_strategy r = sid" "precheck we r = Inr b"
  shows "authenticated we r (catalog_db se (fst (strategy_run ops cat1)) db) \<longleftrightarrow> dict_get ''sig'' b = Some (JStr raw)"
proof -
  let ?cat2 = "fst (strategy_run ops cat1)"
  have ok1: "catalog_ok cat1"
    using step_catalog_ok [OF ok, of se who "RotateConfig sid"] rot by simp
  have same: "rows_of (who_id who) ?cat2 = rows_of (who_id who) cat1" using others_keep_rows [OF ok1] others by blast
  obtain c where c: "c \<in> set (ct_configs cat1)" "cg_user c = who_id who" "cg_strategy c = sid" "cg_secret c = se_encrypt se raw"
    using rotate_row [OF rot] by blast
  obtain wc where wc: "webhook_config_of r (catalog_db se cat1 db) = Some wc" "w_secret wc = raw"
    using webhook_config_Some [OF ok1 c(1), of r se raw db] c req fernet by auto
  have "webhook_config_of r (catalog_db se ?cat2 db) = Some wc"
    using same wc(1) req(1) by (simp add: webhook_config_view rows_of_def)
  with req(3) wc(2) show ?thesis by (simp add: authenticated_def sig_ok_def)
qed

lemma sample_precheck:
  "precheck sample_webhook (sample_request ''old'') = Inr ((''sig'', JStr ''old'') # (''idempotency_key'', JStr ''k1'') # sample_body)"
proof -
  have "media_type (sample_request ''old'') = ''application/json''"
    by (simp add: media_type_def sample_request_def) code_simp
  then show ?thesis by (simp add: precheck_def parse_body_def sample_webhook_def sample_request_def)
qed

lemma sample_rotation:
  obtains cat1 url where "strategy_step sample_strategy_env (sample_caller 7) (RotateConfig 3) sample_catalog = (cat1, SecretRotated url ''sssss'' 2)"
  by (simp add: strategy_step_def on_strategy_def get_strategy_def detail_qs_def can_user_view_def
      get_or_create_config_def config_of_def rotate_config_def rotate_secret_def rotated_config_def set_config_def Let_def
      sample_strategy_env_def sample_catalog_def sample_caller_def first_where_Cons first_where_append update_where_Cons
      numeral_eq_Suc)

theorem rotation_replaces_secret_witness:
  "\<not> authenticated sample_webhook (sample_request ''old'') (catalog_db sample_strategy_env
     (fst (strategy_run [(sample_strategy_env, sample_caller 8, RotateConfig 3)]
       (fst (strategy_step sample_strategy_env (sample_caller 7) (RotateConfig 3) sample_catalog)))) webhook_db)"
proof -
  obtain cat1 url where rot: "strategy_step sample_strategy_env (sample_caller 7) (RotateConfig 3) sample_catalog =
    (cat1, SecretRotated url ''sssss'' 2)" by (rule sample_rotation)
  note key = rotation_replaces_secret [OF sample_catalog_ok rot, where r = "sample_request ''old''" and
      ops = "[(sample_strategy_env, sample_caller 8, RotateConfig 3)]" and db = webhook_db, OF _ _ _ _ sample_precheck]
  show ?thesis unfolding rot fst_conv
    by (subst key) (simp_all add: sample_strategy_env_def sample_caller_def sample_request_def dict_get_def)
qed

end
