(* ===== verification/Fmp_Client.thy ===== *)
theory Fmp_Client
  imports Cache Screen_Criteria
begin

text \<open>
  The market-data client (\<open>marketdata/fmp.py\<close>): per-minute throttle, retries, circuit breaker, and
  the response cache that answers when the vendor does not. The HTTP client is a field of
  \<open>fmp_env\<close>, numbered by the requests sent so far; the shared cache is kept as one map per kind of
  entry, which is what its key prefixes make of it. The lemmas bound the requests per minute, show
  that a cached answer is never lost, and follow the breaker through consecutive failures.
\<close>

type_synonym params = "(string \<times> param) list"

datatype fmp_reply = TransportDown | HttpReply nat "json option"

datatype fmp_outcome = FmpGot json | FmpRateLimited | FmpServerError | FmpCircuitOpen | FmpError

record fmp_env =
  fe_now :: int
  fe_http :: "nat \<Rightarrow> string \<Rightarrow> params \<Rightarrow> fmp_reply"
  fe_cap :: int
  fe_threshold :: int
  fe_cooldown :: int
  fe_digest :: "string \<Rightarrow> params \<Rightarrow> string"

record fmp =
  fm_counts :: "int cache"
  fm_open :: "bool cache"
  fm_data :: "json cache"
  fm_sent :: "(string \<times> params) list"

definition cb_fails_key :: string where
  "cb_fails_key = ''fmp:cb:fails''"

definition cb_open_key :: string where
  "cb_open_key = ''fmp:cb:open''"

definition minute_key :: "int \<Rightarrow> string" where
  "minute_key m = ''fmp:rl:'' @ int_str m"

definition resp_key :: "fmp_env \<Rightarrow> string \<Rightarrow> params \<Rightarrow> string" where
  "resp_key fe path ps = ''fmp:resp:'' @ fe_digest fe path ps"

subsection \<open>Throttle and breaker\<close>

definition throttle :: "fmp_env \<Rightarrow> fmp \<Rightarrow> fmp \<times> bool" where
  "throttle fe st =
     (let (n, c) = bump (fm_counts st) (fe_now fe) (minute_key (fe_now fe div seconds 60)) 90
      in (st\<lparr>fm_counts := c\<rparr>, n \<le> fe_cap fe))"

definition circuit_open :: "fmp_env \<Rightarrow> fmp \<Rightarrow> bool" where
  "circuit_open fe st \<longleftrightarrow> cache_get (fm_open st) (fe_now fe) cb_open_key = Some True"

definition record_failure :: "fmp_env \<Rightarrow> fmp \<Rightarrow> fmp" where
  "record_failure fe st =
     (let (fails, c) = bump (fm_counts st) (fe_now fe) cb_fails_key (fe_cooldown fe);
          st1 = st\<lparr>fm_counts := c\<rparr>
      in if fe_threshold fe \<le> fails
         then st1\<lparr>fm_open := cache_set (fm_open st1) (fe_now fe) cb_open_key True (fe_cooldown fe)\<rparr>
         else st1)"

definition record_success :: "fmp \<Rightarrow> fmp" where
  "record_success st = st\<lparr>fm_counts := cache_delete (fm_counts st) cb_fails_key\<rparr>"

subsection \<open>Requests\<close>

definition read_reply :: "fmp_reply \<Rightarrow> fmp_outcome" where
  "read_reply r =
     (case r of
        TransportDown \<Rightarrow> FmpServerError
      | HttpReply code data \<Rightarrow>
          if code = 429 then FmpRateLimited
          else if 500 \<le> code then FmpServerError
          else if 400 \<le> code then FmpError
          else (case data of None \<Rightarrow> FmpServerError | Some d \<Rightarrow> FmpGot d))"

definition raw_get :: "fmp_env \<Rightarrow> string \<Rightarrow> params \<Rightarrow> fmp \<Rightarrow> fmp \<times> fmp_outcome" where
  "raw_get fe path ps st =
     (st\<lparr>fm_sent := fm_sent st @ [(path, ps)]\<rparr>, read_reply (fe_http fe (length (fm_sent st)) path ps))"

text \<open>\<open>_get_with_retry\<close>: after the first attempt, so many more on a retryable failure.\<close>

fun get_with_retry :: "fmp_env \<Rightarrow> string \<Rightarrow> params \<Rightarrow> nat \<Rightarrow> fmp \<Rightarrow> fmp \<times> fmp_outcome" where
  "get_with_retry fe path ps 0 st = raw_get fe path ps st"
| "get_with_retry fe path ps (Suc n) st =
     (let (st1, r) = raw_get fe path ps st
      in if r = FmpRateLimited \<or> r = FmpServerError then get_with_retry fe path ps n st1 else (st1, r))"

text \<open>An error: count it, then answer from the cache if that has something.\<close>

definition fall_back :: "fmp_env \<Rightarrow> string \<Rightarrow> params \<Rightarrow> fmp_outcome \<Rightarrow> fmp \<Rightarrow> fmp \<times> fmp_outcome" where
  "fall_back fe path ps err st =
     (let st1 = (if err = FmpCircuitOpen \<or> err = FmpRateLimited then st else record_failure fe st)
      in case cache_get (fm_data st1) (fe_now fe) (resp_key fe path ps) of
           None \<Rightarrow> (st1, err)
         | Some d \<Rightarrow> if d = JNull then (st1, err) else (st1, FmpGot d))"

definition fmp_get :: "fmp_env \<Rightarrow> string \<Rightarrow> params \<Rightarrow> int \<Rightarrow> fmp \<Rightarrow> fmp \<times> fmp_outcome" where
  "fmp_get fe path ps ttl st =
     (if circuit_open fe st then fall_back fe path ps FmpCircuitOpen st
      else
        let (st1, pass) = throttle fe st
        in if \<not> pass then fall_back fe path ps FmpRateLimited st1
           else case get_with_retry fe path ps 2 st1 of
                  (st2, FmpGot d) \<Rightarrow>
                    (let st3 = record_success st2
                     in (st3\<lparr>fm_data := cache_set (fm_data st3) (fe_now fe) (resp_key fe path ps) d (max ttl 30)\<rparr>, FmpGot d))
                | (st2, err) \<Rightarrow> fall_back fe path ps err st2)"

subsection \<open>Endpoints\<close>

definition json_or :: "json \<Rightarrow> json \<Rightarrow> json" where
  "json_or a b = (if py_truthy a then a else b)"

record bar =
  br_ts :: json
  br_open :: json
  br_high :: json
  br_low :: json
  br_close :: json
  br_volume :: json

text \<open>\<open>None\<close> when the row is no dictionary, which raises; an empty list for a partial row.\<close>

fun normalize_row :: "json \<Rightarrow> bar list option" where
  "normalize_row (JObj d) =
     (let ts = json_or (dict_get_or ''date'' JNull d) (json_or (dict_get_or ''datetime'' JNull d) (dict_get_or ''timestamp'' JNull d));
          b = \<lparr>br_ts = ts, br_open = dict_get_or ''open'' JNull d, br_high = dict_get_or ''high'' JNull d,
               br_low = dict_get_or ''low'' JNull d, br_close = dict_get_or ''close'' JNull d,
               br_volume = dict_get_or ''volume'' (JInt 0) d\<rparr>
      in Some (if JNull \<in> {ts, br_open b, br_high b, br_low b, br_close b} then [] else [b]))"
| "normalize_row _ = None"

definition normalize_bars :: "json \<Rightarrow> bar list option" where
  "normalize_bars data =
     (let rows = (case data of JObj d \<Rightarrow> dict_get_or ''historical'' data d | _ \<Rightarrow> data)
      in if \<not> py_truthy rows then Some []
         else case rows of JArr xs \<Rightarrow> map_option concat (those (map normalize_row xs)) | _ \<Rightarrow> None)"

text \<open>What a call answers, or how it raises; \<open>FetchRaised\<close> is an exception that is no FMP error.\<close>

datatype 'a fetch = Fetched 'a | FetchFailed fmp_outcome | FetchRaised

definition daily_bars :: "fmp_env \<Rightarrow> string \<Rightarrow> fmp \<Rightarrow> fmp \<times> bar list fetch" where
  "daily_bars fe symb st =
     (case fmp_get fe ''/historical-price-eod/full'' [(''symbol'', PText symb)] 86400 st of
        (st1, FmpGot data) \<Rightarrow> (st1, case normalize_bars data of None \<Rightarrow> FetchRaised | Some bs \<Rightarrow> Fetched bs)
      | (st1, err) \<Rightarrow> (st1, FetchFailed err))"

definition company_screener :: "fmp_env \<Rightarrow> params \<Rightarrow> fmp \<Rightarrow> fmp \<times> json fetch" where
  "company_screener fe ps st =
     (case fmp_get fe ''/company-screener'' ps 300 st of
        (st1, FmpGot data) \<Rightarrow> (st1, Fetched (json_or data (JArr [])))
      | (st1, err) \<Rightarrow> (st1, FetchFailed err))"

definition intraday_bars :: "fmp_env \<Rightarrow> string \<Rightarrow> string \<Rightarrow> params \<Rightarrow> fmp \<Rightarrow> fmp \<times> bar list fetch" where
  "intraday_bars fe symb tf kw st =
     (case fmp_get fe (''/historical-chart/'' @ tf) ((''symbol'', PText symb) # kw) 30 st of
        (st1, FmpGot data) \<Rightarrow> (st1, case normalize_bars data of None \<Rightarrow> FetchRaised | Some bs \<Rightarrow> Fetched bs)
      | (st1, err) \<Rightarrow> (st1, FetchFailed err))"

definition fmp_quote :: "fmp_env \<Rightarrow> string \<Rightarrow> fmp \<Rightarrow> fmp \<times> json fetch" where
  "fmp_quote fe symb st =
     (case fmp_get fe ''/quote'' [(''symbol'', PText symb)] 15 st of
        (st1, FmpGot data) \<Rightarrow> (st1, Fetched (json_or (case data of JArr (x # xs) \<Rightarrow> x | _ \<Rightarrow> data) (JObj [])))
      | (st1, err) \<Rightarrow> (st1, FetchFailed err))"

definition treasury_yield_curve :: "fmp_env \<Rightarrow> params \<Rightarrow> fmp \<Rightarrow> fmp \<times> json fetch" where
  "treasury_yield_curve fe kw st =
     (case fmp_get fe ''/economics/treasury-yield-curve'' kw 3600 st of
        (st1, FmpGot data) \<Rightarrow> (st1, Fetched (json_or data (JArr [])))
      | (st1, err) \<Rightarrow> (st1, FetchFailed err))"

definition sector_performance :: "fmp_env \<Rightarrow> fmp \<Rightarrow> fmp \<times> json fetch" where
  "sector_performance fe st =
     (case fmp_get fe ''/historical-sector-performance'' [] 3600 st of
        (st1, FmpGot data) \<Rightarrow> (st1, Fetched (json_or data (JArr [])))
      | (st1, err) \<Rightarrow> (st1, FetchFailed err))"

subsection \<open>Cached answers are not lost\<close>

text \<open>
  A response that is still cached is never lost to an outage. Whatever the vendor answers, and with the breaker
  open or the minute's budget spent, a call whose last response is still in the cache returns data.
\<close>

theorem cached_answer_survives:
  assumes "cache_get (fm_data st) (fe_now fe) (resp_key fe path ps) = Some d" "d \<noteq> JNull"
  shows "\<exists>data. snd (fmp_get fe path ps ttl st) = FmpGot data"
proof -
  have retry: "fm_data (fst (get_with_retry fe path ps n s)) = fm_data s" for n s
    by (induction n arbitrary: s) (simp_all add: raw_get_def Let_def case_prod_beta)
  have fall: "snd (fall_back fe path ps err s) = FmpGot d" if "fm_data s = fm_data st" for err s
    using assms that by (simp add: fall_back_def record_failure_def Let_def case_prod_beta)
  have thr: "fm_data (fst (throttle fe st)) = fm_data st"
    by (simp add: throttle_def Let_def case_prod_beta)
  obtain st1 pass where t: "throttle fe st = (st1, pass)" by fastforce
  obtain st2 r where g: "get_with_retry fe path ps 2 st1 = (st2, r)" by fastforce
  have "fm_data st1 = fm_data st" "fm_data st2 = fm_data st"
    using thr t retry [of 2 st1] g by simp_all
  then show ?thesis by (cases r) (simp_all add: fmp_get_def Let_def t g fall)
qed

definition sample_fmp_env :: fmp_env where
  "sample_fmp_env = \<lparr>fe_now = 90000000, fe_http = (\<lambda>n path ps. HttpReply 503 None), fe_cap = 2, fe_threshold = 5,
     fe_cooldown = 60, fe_digest = (\<lambda>path ps. path)\<rparr>"

definition empty_fmp :: fmp where
  "empty_fmp = \<lparr>fm_counts = Map.empty, fm_open = Map.empty, fm_data = Map.empty, fm_sent = []\<rparr>"

theorem cached_answer_survives_witness:
  "\<exists>data. snd (fmp_get sample_fmp_env ''/quote'' [] 15
     (empty_fmp\<lparr>fm_data := cache_set Map.empty 80000000 ''fmp:resp:/quote'' (JInt 5) 30\<rparr>)) = FmpGot data"
  by (rule cached_answer_survives [where d = "JInt 5"])
    (simp_all add: empty_fmp_def sample_fmp_env_def resp_key_def cache_get_def cache_set_def seconds_def)

subsection \<open>The minute's budget\<close>

fun fmp_calls :: "(fmp_env \<times> string \<times> params \<times> int) list \<Rightarrow> fmp \<Rightarrow> fmp" where
  "fmp_calls [] st = st"
| "fmp_calls ((fe, path, ps, ttl) # cs) st = fmp_calls cs (fst (fmp_get fe path ps ttl st))"

lemma retry_sent:
  "length (fm_sent (fst (get_with_retry fe path ps n st))) \<le> length (fm_sent st) + Suc n \<and>
   fm_counts (fst (get_with_retry fe path ps n st)) = fm_counts st"
proof (induction n arbitrary: st)
  case (Suc n)
  show ?case using Suc [of "fst (raw_get fe path ps st)"]
    by (simp add: raw_get_def Let_def case_prod_beta)
qed (simp add: raw_get_def)

lemma keys_apart: "minute_key m \<noteq> cb_fails_key"
  by (simp add: minute_key_def cb_fails_key_def)

lemma bump_at: "k' \<noteq> k \<Longrightarrow> snd (bump c now k ttl) k' = c k'"
  by (simp add: bump_def cache_add_def cache_set_def cache_incr_def Let_def split: option.split)

lemma record_failure_frame:
  "fm_counts (record_failure fe st) (minute_key m) = fm_counts st (minute_key m)" "fm_sent (record_failure fe st) = fm_sent st"
  by (simp_all add: record_failure_def Let_def case_prod_beta bump_at keys_apart)

lemma fall_back_frame:
  "fm_counts (fst (fall_back fe path ps err st)) (minute_key m) = fm_counts st (minute_key m)"
  "fm_sent (fst (fall_back fe path ps err st)) = fm_sent st"
  by (simp_all add: fall_back_def Let_def record_failure_frame split: option.split)

text \<open>The counter of a minute: absent before the first call, alive to the end of the minute after it.\<close>

definition counted :: "int \<Rightarrow> int \<Rightarrow> fmp \<Rightarrow> bool" where
  "counted m n st \<longleftrightarrow>
     (if n = 0 then fm_counts st (minute_key m) = None
      else 0 < n \<and> (\<exists>e. fm_counts st (minute_key m) = Some (n, e) \<and> (m + 1) * seconds 60 \<le> e))"

lemma throttle_counted:
  assumes "counted m n st" "fe_now fe div seconds 60 = m"
  shows "\<exists>n'. counted m n' (fst (throttle fe st)) \<and> n' = n + 1 \<and> snd (throttle fe st) = (n + 1 \<le> fe_cap fe) \<and>
    fm_sent (fst (throttle fe st)) = fm_sent st"
proof -
  have lo: "m * seconds 60 \<le> fe_now fe" and hi: "fe_now fe < (m + 1) * seconds 60"
    using assms(2) by (auto simp: seconds_def)
  show ?thesis
  proof (cases "n = 0")
    case True
    with assms lo show ?thesis
      by (auto simp: counted_def throttle_def Let_def bump_def cache_add_def cache_get_def cache_set_def cache_incr_def
          seconds_def distrib_right)
  next
    case False
    then obtain e where e: "fm_counts st (minute_key m) = Some (n, e)" "(m + 1) * seconds 60 \<le> e" "0 < n"
      using assms(1) by (auto simp: counted_def)
    then have "fe_now fe < e" using hi by linarith
    with e assms(2) show ?thesis
      by (simp add: counted_def throttle_def Let_def bump_def cache_add_def cache_get_def cache_incr_def)
  qed
qed

lemma fmp_get_counted:
  assumes c: "counted m n st" and now: "fe_now fe div seconds 60 = m" and n: "0 \<le> n"
  shows "\<exists>n'. counted m n' (fst (fmp_get fe path ps ttl st)) \<and> n \<le> n' \<and>
    length (fm_sent (fst (fmp_get fe path ps ttl st))) + 3 * nat (min n (fe_cap fe)) \<le> length (fm_sent st) + 3 * nat (min n' (fe_cap fe))"
proof (cases "circuit_open fe st")
  case True
  then show ?thesis using c by (intro exI [of _ n]) (simp add: fmp_get_def fall_back_frame counted_def)
next
  case False
  obtain st1 pass where t: "throttle fe st = (st1, pass)" by fastforce
  have t1: "counted m (n + 1) st1" "pass = (n + 1 \<le> fe_cap fe)" "fm_sent st1 = fm_sent st"
    using throttle_counted [OF c now] by (auto simp: t)
  show ?thesis
  proof (cases pass)
    case False
    moreover have "nat (min n (fe_cap fe)) \<le> nat (min (n + 1) (fe_cap fe))" by (rule nat_mono) simp
    ultimately show ?thesis using t1 t n \<open>\<not> circuit_open fe st\<close>
      by (intro exI [of _ "n + 1"]) (simp add: fmp_get_def fall_back_frame counted_def)
  next
    case True
    obtain st2 r where g: "get_with_retry fe path ps 2 st1 = (st2, r)" by fastforce
    have g1: "length (fm_sent st2) \<le> length (fm_sent st) + 3" "fm_counts st2 = fm_counts st1"
      using retry_sent [of fe path ps 2 st1] g t1(3) by simp_all
    have "counted m (n + 1) (fst (fmp_get fe path ps ttl st)) \<and> length (fm_sent (fst (fmp_get fe path ps ttl st))) \<le> length (fm_sent st) + 3"
      using False t True g g1 t1(1) n
      by (cases r) (simp_all add: fmp_get_def Let_def fall_back_frame counted_def record_success_def cache_delete_def keys_apart)
    moreover have "nat (min (n + 1) (fe_cap fe)) = nat (min n (fe_cap fe)) + 1"
      using True t1(2) n by (simp add: min_def)
    ultimately show ?thesis by (intro exI [of _ "n + 1"] conjI) (blast, simp, linarith)
  qed
qed

text \<open>
  Requests per minute. In a minute that starts without a counter the client sends at most three requests per
  permitted call, however many calls are made and whatever the vendor answers.
\<close>

theorem minute_budget:
  assumes "\<forall>(fe, path, ps, ttl)\<in>set cs. fe_now fe div seconds 60 = m \<and> fe_cap fe = cap"
    and "fm_counts st (minute_key m) = None"
  shows "length (fm_sent (fmp_calls cs st)) \<le> length (fm_sent st) + 3 * nat cap"
proof -
  have "length (fm_sent (fmp_calls cs st)) + 3 * nat (min n cap) \<le> length (fm_sent st) + 3 * nat cap"
    if "counted m n st" "0 \<le> n" for n
    using assms(1) that
  proof (induction cs arbitrary: st n)
    case (Cons c cs)
    obtain fe path ps ttl where fe: "c = (fe, path, ps, ttl)" by (cases c) auto
    have env: "fe_now fe div seconds 60 = m" "fe_cap fe = cap" using Cons.prems(1) by (auto simp: fe)
    obtain n' where n': "counted m n' (fst (fmp_get fe path ps ttl st))" "n \<le> n'"
      "length (fm_sent (fst (fmp_get fe path ps ttl st))) + 3 * nat (min n cap) \<le> length (fm_sent st) + 3 * nat (min n' cap)"
      using fmp_get_counted [OF Cons.prems(2) env(1) Cons.prems(3)] env(2) by blast
    have "length (fm_sent (fmp_calls cs (fst (fmp_get fe path ps ttl st)))) + 3 * nat (min n' cap) \<le>
        length (fm_sent (fst (fmp_get fe path ps ttl st))) + 3 * nat cap"
      using Cons.IH [OF _ n'(1)] Cons.prems(1,3) n'(2) by simp
    with n'(3) show ?case by (simp add: fe)
  qed (use nat_mono [of "min n cap" cap] in simp)
  from this [of 0] assms(2) show ?thesis by (simp add: counted_def)
qed

theorem minute_budget_witness:
  "length (fm_sent (fmp_calls (replicate 1000 (sample_fmp_env, ''/quote'', [], 15)) empty_fmp)) \<le> 6"
  using minute_budget [of "replicate 1000 (sample_fmp_env, ''/quote'', [], 15)" 1 2 empty_fmp]
  by (simp add: sample_fmp_env_def empty_fmp_def seconds_def)

subsection \<open>The breaker\<close>

definition breaker_count :: "fmp_env \<Rightarrow> fmp \<Rightarrow> int" where
  "breaker_count fe st = (case cache_get (fm_counts st) (fe_now fe) cb_fails_key of None \<Rightarrow> 0 | Some n \<Rightarrow> n)"

definition budget_used :: "fmp_env \<Rightarrow> fmp \<Rightarrow> int" where
  "budget_used fe st =
     (case cache_get (fm_counts st) (fe_now fe) (minute_key (fe_now fe div seconds 60)) of None \<Rightarrow> 0 | Some n \<Rightarrow> n)"

lemma cache_get_set: "0 < ttl \<Longrightarrow> cache_get (cache_set c now k v ttl) now k' = (if k' = k then Some v else cache_get c now k')"
  by (simp add: cache_get_def cache_set_def seconds_def)

lemma bump_now: "0 < ttl \<Longrightarrow> cache_get (snd (bump c now k ttl)) now k = Some (case cache_get c now k of None \<Rightarrow> 1 | Some n \<Rightarrow> n + 1)"
  by (simp add: bump_get seconds_def split: option.split)

text \<open>A client error with nothing cached and budget left: one request, counted, the breaker open at the threshold.\<close>

lemma client_error_step:
  assumes "\<not> circuit_open fe st" "budget_used fe st < fe_cap fe" "0 < fe_cooldown fe"
    "fe_http fe (length (fm_sent st)) path ps = HttpReply code body" "400 \<le> code" "code < 500" "code \<noteq> 429"
    "cache_get (fm_data st) (fe_now fe) (resp_key fe path ps) = None"
  assumes out_eq: "out = fmp_get fe path ps ttl st"
  shows "snd out = FmpError" "fm_sent (fst out) = fm_sent st @ [(path, ps)]" "fm_data (fst out) = fm_data st"
    "breaker_count fe (fst out) = breaker_count fe st + 1" "budget_used fe (fst out) = budget_used fe st + 1"
    "circuit_open fe (fst out) = (fe_threshold fe \<le> breaker_count fe st + 1)"
proof -
  let ?k = "minute_key (fe_now fe div seconds 60)"
  let ?c1 = "snd (bump (fm_counts st) (fe_now fe) ?k 90)"
  let ?st1 = "st\<lparr>fm_counts := ?c1\<rparr>"
  have thr: "throttle fe st = (?st1, True)"
    using assms(2) by (simp add: throttle_def Let_def case_prod_beta bump_value budget_used_def split: option.splits)
  have "get_with_retry fe path ps 2 ?st1 = (?st1\<lparr>fm_sent := fm_sent st @ [(path, ps)]\<rparr>, FmpError)"
    using assms(4-7) by (simp add: numeral_2_eq_2 raw_get_def read_reply_def)
  then have out: "out = (record_failure fe (?st1\<lparr>fm_sent := fm_sent st @ [(path, ps)]\<rparr>), FmpError)"
    using assms(1,8) thr
    by (simp add: out_eq fmp_get_def fall_back_def record_failure_def Let_def case_prod_beta)
  have fails: "cache_get ?c1 (fe_now fe) cb_fails_key = cache_get (fm_counts st) (fe_now fe) cb_fails_key"
    by (rule bump_other) (simp_all add: keys_apart [symmetric])
  have open_: "cache_get (fm_open st) (fe_now fe) cb_open_key \<noteq> Some True" using assms(1) by (simp add: circuit_open_def)
  show "snd out = FmpError" "fm_sent (fst out) = fm_sent st @ [(path, ps)]" "fm_data (fst out) = fm_data st"
    by (simp_all add: out record_failure_def Let_def case_prod_beta)
  show "breaker_count fe (fst out) = breaker_count fe st + 1"
    using assms(3) by (simp add: out breaker_count_def record_failure_def Let_def case_prod_beta bump_now fails split: option.split)
  show "budget_used fe (fst out) = budget_used fe st + 1"
    using assms(3) keys_apart
    by (simp add: out budget_used_def record_failure_def Let_def case_prod_beta bump_other bump_now split: option.split)
  show "circuit_open fe (fst out) = (fe_threshold fe \<le> breaker_count fe st + 1)"
    using assms(3) open_
    by (simp add: out circuit_open_def record_failure_def Let_def case_prod_beta bump_value fails breaker_count_def cache_get_set
        split: option.split)
qed

text \<open>An open breaker answers from the cache or not at all.\<close>

lemma open_breaker_step:
  assumes "circuit_open fe st" "cache_get (fm_data st) (fe_now fe) (resp_key fe path ps) = None"
  shows "fmp_get fe path ps ttl st = (st, FmpCircuitOpen)"
  using assms by (simp add: fmp_get_def fall_back_def)

end
