(* ===== verification/Screen_Runs.thy ===== *)
theory Screen_Runs
  imports Fmp_Client Strategies Sizing "HOL-Library.Product_Lexorder"
begin

text \<open>
  Screen runs (\<open>screener/enrich.py\<close>, \<open>tasks.py\<close>, \<open>models.py\<close>, \<open>views.py\<close>): the
  metrics of a symbol, the derived criteria, the ranking, the pipeline of one run over the market-data client,
  and the table of runs with the two writes of the task kept apart, so that requests can come between them.
  Floats are rational numbers rounded after every operation; infinities and NaN are left out. The copy of the
  bars into the bar store is left out, since its failures are swallowed and nothing here reads it.
\<close>

subsection \<open>Metrics\<close>

definition slope_lookback :: nat where
  "slope_lookback = 20"

definition high_window :: nat where
  "high_window = 252"

text \<open>\<open>float(v)\<close>.\<close>

definition text_float :: "string \<Rightarrow> rat option" where
  "text_float t = Option.bind (dec_parse t) (\<lambda>d. if dec_is_finite d then Some (fl (dec_value d)) else None)"

definition num_value :: "json \<Rightarrow> rat option" where
  "num_value v =
     (case v of
        JInt i \<Rightarrow> Some (fl (of_int i)) | JReal t \<Rightarrow> text_float t | JStr t \<Rightarrow> text_float t
      | JBool b \<Rightarrow> Some (if b then 1 else 0) | _ \<Rightarrow> None)"

definition sorted_closes :: "bar list \<Rightarrow> bar list" where
  "sorted_closes bars = sort_key (\<lambda>b. py_str (br_ts b)) bars"

text \<open>\<open>sum()\<close> of floats carries a compensation for the digits an addition loses, added at the end.\<close>

fun comp_sum :: "rat \<Rightarrow> rat \<Rightarrow> rat list \<Rightarrow> rat" where
  "comp_sum s c [] = (if c = 0 then s else fl (s + c))"
| "comp_sum s c (x # xs) =
     (let t = fl (s + x)
      in comp_sum t (fl (c + (if \<bar>x\<bar> \<le> \<bar>s\<bar> then fl (fl (s - t) + x) else fl (fl (x - t) + s)))) xs)"

definition py_sum :: "rat list \<Rightarrow> rat" where
  "py_sum xs = (case xs of [] \<Rightarrow> 0 | x # ys \<Rightarrow> comp_sum x 0 ys)"

definition sma :: "rat list \<Rightarrow> nat \<Rightarrow> nat \<Rightarrow> rat option" where
  "sma closes window offset =
     (if length closes < window + offset \<or> length closes \<le> offset then None
      else Some (fl (py_sum (take window (drop (length closes - offset - window) closes)) / of_nat window)))"

record metrics =
  mt_bars :: nat
  mt_close :: rat
  mt_sma_50 :: "rat option"
  mt_sma_200 :: "rat option"
  mt_prev_50 :: "rat option"
  mt_prev_200 :: "rat option"
  mt_high :: "rat option"
  mt_pct :: "rat option"

definition last_part :: "nat \<Rightarrow> 'a list \<Rightarrow> 'a list" where
  "last_part n xs = drop (length xs - n) xs"

definition list_max :: "rat list \<Rightarrow> rat option" where
  "list_max xs = (case xs of [] \<Rightarrow> None | x # ys \<Rightarrow> Some (fold max ys x))"

definition metrics_of :: "rat list \<Rightarrow> rat list \<Rightarrow> metrics" where
  "metrics_of closes highs =
     (let close = last closes; high = list_max (last_part high_window highs)
      in \<lparr>mt_bars = length closes, mt_close = close, mt_sma_50 = sma closes 50 0, mt_sma_200 = sma closes 200 0,
          mt_prev_50 = sma closes 50 slope_lookback, mt_prev_200 = sma closes 200 slope_lookback, mt_high = high,
          mt_pct = (case high of None \<Rightarrow> None
            | Some h \<Rightarrow> if h = 0 then None else Some (py_round 2 (fl (fl (fl (h - close) / h) * 100))))\<rparr>)"

definition compute_metrics :: "bar list \<Rightarrow> metrics option" where
  "compute_metrics bars =
     (let rows = sorted_closes bars
      in if rows = [] then None
         else case (those (map (num_value \<circ> br_close) rows), those (map (num_value \<circ> br_high) rows)) of
                (Some closes, Some highs) \<Rightarrow> Some (metrics_of closes highs)
              | _ \<Rightarrow> None)"

subsection \<open>Derived criteria\<close>

definition metric_sma :: "metrics \<Rightarrow> int \<Rightarrow> rat option" where
  "metric_sma m w = (if w = 50 then mt_sma_50 m else if w = 200 then mt_sma_200 m else None)"

definition metric_prev :: "metrics \<Rightarrow> int \<Rightarrow> rat option" where
  "metric_prev m w = (if w = 50 then mt_prev_50 m else if w = 200 then mt_prev_200 m else None)"

definition greater :: "rat option \<Rightarrow> rat option \<Rightarrow> bool" where
  "greater a b = (case (a, b) of (Some x, Some y) \<Rightarrow> y < x | _ \<Rightarrow> False)"

definition passes :: "metrics \<Rightarrow> derived \<Rightarrow> bool" where
  "passes m d \<longleftrightarrow>
     list_all (\<lambda>w. greater (Some (mt_close m)) (metric_sma m w)) (dv_above d) \<and>
     list_all (\<lambda>w. greater (metric_sma m w) (metric_prev m w)) (dv_rising d) \<and>
     (case dv_near d of None \<Rightarrow> True
      | Some pct \<Rightarrow> (case mt_high m of None \<Rightarrow> False | Some h \<Rightarrow> fl (fl (1 - fl (pct / 100)) * h) \<le> mt_close m))"

subsection \<open>Rows and their ranking\<close>

record result_row =
  rr_symbol :: string
  rr_name :: json
  rr_exchange :: json
  rr_sector :: json
  rr_cap :: json
  rr_price :: json
  rr_volume :: json
  rr_beta :: json
  rr_pct :: "rat option"
  rr_above_50 :: "bool option"
  rr_above_200 :: "bool option"
  rr_rising :: "bool option"

text \<open>\<open>None\<close> when the row is no dictionary or its symbol no text, which raises.\<close>

fun row_symbol :: "json \<Rightarrow> string option" where
  "row_symbol (JObj v) = (case json_or (dict_get_or ''symbol'' JNull v) (JStr []) of JStr s \<Rightarrow> Some (py_upper s) | _ \<Rightarrow> None)"
| "row_symbol _ = None"

fun row_dict :: "json \<Rightarrow> (string \<times> json) list" where
  "row_dict (JObj v) = v"
| "row_dict _ = []"

definition compare_opt :: "rat option \<Rightarrow> rat option \<Rightarrow> bool option" where
  "compare_opt a b = (case (a, b) of (Some x, Some y) \<Rightarrow> Some (y < x) | _ \<Rightarrow> None)"

definition make_row :: "json \<Rightarrow> metrics option \<Rightarrow> result_row option" where
  "make_row vendor m =
     map_option (\<lambda>symb.
       (let v = row_dict vendor; get = (\<lambda>k. dict_get_or k JNull v)
        in \<lparr>rr_symbol = symb, rr_name = json_or (get ''companyName'') (JStr []),
            rr_exchange = json_or (get ''exchangeShortName'') (json_or (get ''exchange'') (JStr [])),
            rr_sector = json_or (get ''sector'') (JStr []), rr_cap = get ''marketCap'', rr_price = get ''price'',
            rr_volume = get ''volume'', rr_beta = get ''beta'', rr_pct = Option.bind m mt_pct,
            rr_above_50 = compare_opt (map_option mt_close m) (Option.bind m mt_sma_50),
            rr_above_200 = compare_opt (map_option mt_close m) (Option.bind m mt_sma_200),
            rr_rising = compare_opt (Option.bind m mt_sma_200) (Option.bind m mt_prev_200)\<rparr>)) (row_symbol vendor)"

text \<open>\<open>-(cap or 0)\<close>, which raises on a non-empty text, list or dictionary.\<close>

definition cap_value :: "json \<Rightarrow> rat option" where
  "cap_value v =
     (if \<not> py_truthy v then Some 0
      else case v of JInt i \<Rightarrow> Some (of_int i) | JReal t \<Rightarrow> text_float t | JBool b \<Rightarrow> Some 1 | _ \<Rightarrow> None)"

definition near_key :: "result_row \<Rightarrow> bool \<times> rat \<times> string" where
  "near_key r = (rr_pct r = None, (case rr_pct r of None \<Rightarrow> 0 | Some p \<Rightarrow> p), rr_symbol r)"

definition cap_key :: "result_row \<Rightarrow> bool \<times> rat \<times> string" where
  "cap_key r = (rr_cap r = JNull, - (case cap_value (rr_cap r) of None \<Rightarrow> 0 | Some x \<Rightarrow> x), rr_symbol r)"

definition rank :: "derived \<Rightarrow> result_row list \<Rightarrow> result_row list option" where
  "rank d rows =
     (if dv_near d \<noteq> None then Some (sort_key near_key rows)
      else if list_all (\<lambda>r. cap_value (rr_cap r) \<noteq> None) rows then Some (sort_key cap_key rows)
      else None)"

subsection \<open>The pipeline\<close>

record screen_counts =
  sc_matches :: nat
  sc_enriched :: nat
  sc_returned :: nat
  sc_short :: nat
  sc_rate_limited :: nat
  sc_unavailable :: nat

definition empty_counts :: screen_counts where
  "empty_counts = \<lparr>sc_matches = 0, sc_enriched = 0, sc_returned = 0, sc_short = 0, sc_rate_limited = 0, sc_unavailable = 0\<rparr>"

text \<open>
  What the enrichment of a list of candidates gives: the rows and whether the run is degraded, or an exception that
  it does not catch.
\<close>

type_synonym enriched = "(result_row list \<times> bool) option"

definition with_row :: "result_row option \<Rightarrow> fmp \<times> screen_counts \<times> enriched \<Rightarrow> fmp \<times> screen_counts \<times> enriched" where
  "with_row row out =
     (case out of (st, c, r) \<Rightarrow>
        (st, c, case (row, r) of (Some x, Some (rows, g)) \<Rightarrow> Some (x # rows, g) | _ \<Rightarrow> None))"

definition degraded_by :: "fmp \<times> screen_counts \<times> enriched \<Rightarrow> fmp \<times> screen_counts \<times> enriched" where
  "degraded_by out = (case out of (st, c, r) \<Rightarrow> (st, c, map_option (\<lambda>(rows, g). (rows, True)) r))"

fun enrich_candidates :: "(nat \<Rightarrow> fmp_env) \<Rightarrow> derived \<Rightarrow> nat \<Rightarrow> json list \<Rightarrow> screen_counts \<Rightarrow> fmp \<Rightarrow> fmp \<times> screen_counts \<times> enriched" where
  "enrich_candidates fe d i [] c st = (st, c, Some ([], False))"
| "enrich_candidates fe d i (v # vs) c st =
     (case row_symbol v of
        None \<Rightarrow> (st, c, None)
      | Some symb \<Rightarrow>
          if symb = [] then degraded_by (enrich_candidates fe d (Suc i) vs (c\<lparr>sc_unavailable := sc_unavailable c + 1\<rparr>) st)
          else
            (case daily_bars (fe i) symb st of
               (st1, FetchRaised) \<Rightarrow> (st1, c, None)
             | (st1, FetchFailed err) \<Rightarrow>
                 if err = FmpRateLimited \<or> err = FmpCircuitOpen
                 then (st1, c\<lparr>sc_rate_limited := sc_rate_limited c + length (v # vs)\<rparr>, Some ([], True))
                 else if err = FmpServerError
                 then (st1, c\<lparr>sc_unavailable := sc_unavailable c + length (v # vs)\<rparr>, Some ([], True))
                 else degraded_by (enrich_candidates fe d (Suc i) vs (c\<lparr>sc_unavailable := sc_unavailable c + 1\<rparr>) st1)
             | (st1, Fetched bars) \<Rightarrow>
                 (case compute_metrics bars of
                    None \<Rightarrow> enrich_candidates fe d (Suc i) vs (c\<lparr>sc_short := sc_short c + 1\<rparr>) st1
                  | Some m \<Rightarrow>
                      if int (mt_bars m) < (case dv_min_history d of None \<Rightarrow> 0 | Some n \<Rightarrow> n)
                      then enrich_candidates fe d (Suc i) vs (c\<lparr>sc_short := sc_short c + 1\<rparr>) st1
                      else
                        let rest = enrich_candidates fe d (Suc i) vs (c\<lparr>sc_enriched := sc_enriched c + 1\<rparr>) st1
                        in if passes m d then with_row (make_row v (Some m)) rest else rest)))"

record screen_env =
  se_fmp :: "nat \<Rightarrow> fmp_env"
  se_has_key :: bool

text \<open>What a run ends with: results and counts, or an error code; both say whether it is degraded.\<close>

datatype exec_result = ExecDone "result_row list" screen_counts bool | ExecFailed string bool

definition vendor_list :: "json \<Rightarrow> json list" where
  "vendor_list v = (case v of JArr xs \<Rightarrow> xs | _ \<Rightarrow> [])"

definition ranked_result :: "derived \<Rightarrow> screen_counts \<Rightarrow> result_row list \<Rightarrow> bool \<Rightarrow> exec_result" where
  "ranked_result d c rows degraded =
     (case rank d rows of
        None \<Rightarrow> ExecFailed ''SCREEN_FAILED'' degraded
      | Some ranked \<Rightarrow> ExecDone ranked (c\<lparr>sc_returned := length ranked\<rparr>) degraded)"

definition execute :: "screen_env \<Rightarrow> screen_criteria \<Rightarrow> fmp \<Rightarrow> fmp \<times> exec_result" where
  "execute se sc st =
     (if \<not> se_has_key se then (st, ExecFailed ''FMP_NOT_CONFIGURED'' False)
      else case company_screener (se_fmp se 0) (sn_vendor sc) st of
             (st1, FetchRaised) \<Rightarrow> (st1, ExecFailed ''SCREEN_FAILED'' False)
           | (st1, FetchFailed err) \<Rightarrow>
               (st1, ExecFailed (if err = FmpRateLimited \<or> err = FmpCircuitOpen then ''FMP_RATE_LIMITED'' else ''FMP_UNAVAILABLE'') False)
           | (st1, Fetched data) \<Rightarrow>
               (let rows = vendor_list data; c = empty_counts\<lparr>sc_matches := length rows\<rparr>;
                    candidates = take (nat (sn_limit sc)) rows; d = sn_derived sc
                in if derived_empty d
                   then (st1, case those (map (\<lambda>v. make_row v None) candidates) of
                                None \<Rightarrow> ExecFailed ''SCREEN_FAILED'' False
                              | Some rs \<Rightarrow> ranked_result d c rs False)
                   else (case enrich_candidates (\<lambda>i. se_fmp se (Suc i)) d 0 candidates c st1 of
                           (st2, c2, None) \<Rightarrow> (st2, ExecFailed ''SCREEN_FAILED'' False)
                         | (st2, c2, Some (rs, degraded)) \<Rightarrow> (st2, ranked_result d c2 rs degraded))))"

subsection \<open>Runs\<close>

datatype run_status = QUEUED | RUNNING | DONE | FAILED

record screen_run =
  rn_id :: nat
  rn_user :: nat
  rn_strategy :: nat
  rn_status :: run_status
  rn_screen :: screen_criteria
  rn_sha :: string
  rn_results :: "result_row list"
  rn_counts :: "screen_counts option"
  rn_degraded :: bool
  rn_error :: string
  rn_created :: int
  rn_started :: "int option"
  rn_finished :: "int option"

definition run_active :: "screen_run \<Rightarrow> bool" where
  "run_active r \<longleftrightarrow> rn_status r = QUEUED \<or> rn_status r = RUNNING"

definition same_pair :: "screen_run \<Rightarrow> screen_run \<Rightarrow> bool" where
  "same_pair r x \<longleftrightarrow> rn_user x = rn_user r \<and> rn_strategy x = rn_strategy r"

text \<open>
  The runs, the client's state, and the rows that tasks under way hold in memory, with which they overwrite the table
  when they end.
\<close>

record screen_state =
  ss_runs :: "screen_run list"
  ss_memory :: "screen_run list"
  ss_fmp :: fmp
  ss_queue :: "nat list"
  ss_audits :: "audit_call list"
  ss_next :: nat

definition history_keep :: nat where
  "history_keep = 20"

definition stale_after :: int where
  "stale_after = seconds 600"

text \<open>The partial unique index on the user and the strategy of active runs.\<close>

definition unique_active :: "screen_run list \<Rightarrow> bool" where
  "unique_active rs \<longleftrightarrow> distinct (map (\<lambda>r. (rn_user r, rn_strategy r)) (filter run_active rs))"

text \<open>\<open>run.save()\<close> of all fields: an update, or an insert when the row is gone.\<close>

definition save_run :: "screen_run \<Rightarrow> screen_run list \<Rightarrow> screen_run list" where
  "save_run r rs =
     (if exists_where (\<lambda>x. rn_id x = rn_id r) rs then update_where (\<lambda>x. rn_id x = rn_id r) (\<lambda>_. r) rs else rs @ [r])"

definition start_fields :: "int \<Rightarrow> screen_run \<Rightarrow> screen_run" where
  "start_fields now r = r\<lparr>rn_status := RUNNING, rn_started := Some now\<rparr>"

text \<open>
  The beginning of the task: the row is read and written as running. The write fails, and the task with it, when another
  run of the pair is active.
\<close>

definition start_run :: "int \<Rightarrow> nat \<Rightarrow> screen_state \<Rightarrow> screen_state" where
  "start_run now i st =
     (case first_where (\<lambda>r. rn_id r = i) (ss_runs st) of
        None \<Rightarrow> st
      | Some r \<Rightarrow>
          let rs = update_where (\<lambda>x. rn_id x = i) (start_fields now) (ss_runs st)
          in if unique_active rs then st\<lparr>ss_runs := rs, ss_memory := ss_memory st @ [start_fields now r]\<rparr> else st)"

text \<open>The end: \<open>_finish\<close> or \<open>_fail\<close> on the row in memory.\<close>

definition ended_run :: "int \<Rightarrow> exec_result \<Rightarrow> screen_run \<Rightarrow> screen_run" where
  "ended_run now res r =
     (case res of
        ExecDone rows c degraded \<Rightarrow>
          r\<lparr>rn_results := rows, rn_counts := Some c, rn_degraded := rn_degraded r \<or> degraded, rn_status := DONE, rn_finished := Some now\<rparr>
      | ExecFailed code degraded \<Rightarrow>
          r\<lparr>rn_status := FAILED, rn_error := code, rn_degraded := rn_degraded r \<or> degraded,
            rn_counts := (case rn_counts r of None \<Rightarrow> Some empty_counts | c \<Rightarrow> c), rn_finished := Some now\<rparr>)"

text \<open>\<open>order_by("-created_at")\<close>; runs created at the same time come in table order.\<close>

definition newest_first :: "screen_run list \<Rightarrow> screen_run list" where
  "newest_first rs = sort_key (\<lambda>r. - rn_created r) rs"

definition prune_history :: "screen_run \<Rightarrow> screen_run list \<Rightarrow> screen_run list" where
  "prune_history r rs =
     (let old = drop history_keep (newest_first (filter (same_pair r) rs))
      in filter (\<lambda>x. \<not> exists_where (\<lambda>y. rn_id y = rn_id x) old) rs)"

text \<open>When the soft time limit strikes: the client's state and the degraded mark at that moment.\<close>

definition finish_run :: "screen_env \<Rightarrow> int \<Rightarrow> (fmp \<times> bool) option \<Rightarrow> nat \<Rightarrow> screen_state \<Rightarrow> screen_state" where
  "finish_run se now struck i st =
     (case first_where (\<lambda>r. rn_id r = i) (ss_memory st) of
        None \<Rightarrow> st
      | Some r \<Rightarrow>
          let (f, res) = (case struck of
                Some (f, degraded) \<Rightarrow> (f, ExecFailed ''SCREEN_TIME_CAP'' degraded)
              | None \<Rightarrow> execute se (rn_screen r) (ss_fmp st))
          in st\<lparr>ss_fmp := f, ss_runs := prune_history r (save_run (ended_run now res r) (ss_runs st)),
               ss_memory := filter (\<lambda>x. rn_id x \<noteq> i) (ss_memory st)\<rparr>)"

subsection \<open>Requests\<close>

datatype screen_response =
    ScreenQueued nat
  | ScreenFail string nat
  | ScreenShown screen_parse
  | RunsListed "screen_run list"
  | RunShown screen_run

record screen_view =
  sv_now :: int
  sv_enabled :: bool
  sv_limited :: bool
  sv_has_key :: bool
  sv_decode :: "string \<Rightarrow> string"

definition screen_not_found :: screen_response where
  "screen_not_found = ScreenFail ''STRATEGY_NOT_FOUND'' 404"

text \<open>The permission class and the feature flag.\<close>

definition screen_gate :: "screen_view \<Rightarrow> caller \<Rightarrow> screen_response option" where
  "screen_gate sv who =
     (if \<not> who_mfa who then Some (ScreenFail ''MFA_REQUIRED'' 403)
      else if \<not> sv_enabled sv then Some (ScreenFail ''FEATURE_DISABLED'' 503) else None)"

definition load_strategy :: "caller \<Rightarrow> nat \<Rightarrow> catalog \<Rightarrow> strategy_row option" where
  "load_strategy who pk cat = Option.bind (get_strategy who pk cat) (\<lambda>s. if can_user_view who s then Some s else None)"

definition description_of :: "screen_view \<Rightarrow> strategy_row \<Rightarrow> catalog \<Rightarrow> string" where
  "description_of sv s cat = (case file_of (sg_id s) DESC cat of None \<Rightarrow> [] | Some f \<Rightarrow> sv_decode sv (sf_bytes f))"

definition reap_stale_runs :: "int \<Rightarrow> nat \<Rightarrow> nat \<Rightarrow> screen_run list \<Rightarrow> screen_run list" where
  "reap_stale_runs now uid sid rs =
     update_where (\<lambda>r. rn_user r = uid \<and> rn_strategy r = sid \<and> run_active r \<and> rn_created r < now - stale_after)
       (\<lambda>r. r\<lparr>rn_status := FAILED, rn_error := ''SCREEN_STALE'', rn_finished := Some now\<rparr>) rs"

definition new_run :: "screen_view \<Rightarrow> nat \<Rightarrow> nat \<Rightarrow> nat \<Rightarrow> screen_criteria \<Rightarrow> string \<Rightarrow> screen_run" where
  "new_run sv i uid sid sc sha =
     \<lparr>rn_id = i, rn_user = uid, rn_strategy = sid, rn_status = QUEUED, rn_screen = sc, rn_sha = sha, rn_results = [],
      rn_counts = None, rn_degraded = False, rn_error = [], rn_created = sv_now sv, rn_started = None, rn_finished = None\<rparr>"

definition queue_run :: "screen_view \<Rightarrow> caller \<Rightarrow> strategy_row \<Rightarrow> screen_criteria \<Rightarrow> string \<Rightarrow> screen_state \<Rightarrow> screen_state \<times> screen_response" where
  "queue_run sv who s sc sha st =
     (let st1 = st\<lparr>ss_runs := reap_stale_runs (sv_now sv) (who_id who) (sg_id s) (ss_runs st)\<rparr>
      in if exists_where (\<lambda>r. rn_user r = who_id who \<and> rn_strategy r = sg_id s \<and> run_active r) (ss_runs st1)
         then (st1, ScreenFail ''SCREEN_RUN_ACTIVE'' 409)
         else
           let i = ss_next st1; rs = ss_runs st1 @ [new_run sv i (who_id who) (sg_id s) sc sha]
           in if \<not> unique_active rs then (st1, ScreenFail ''SCREEN_RUN_ACTIVE'' 409)
              else (st1\<lparr>ss_runs := rs, ss_queue := ss_queue st1 @ [i], ss_next := i + 1,
                      ss_audits := ss_audits st1 @ [\<lparr>ac_event = ''screener.run_requested'', ac_user = Some (who_id who),
                        ac_actor = Some (who_id who), ac_entity = ''strategy'', ac_entity_id = nat_str (sg_id s),
                        ac_after = [(''run_id'', WId i)]\<rparr>]\<rparr>, ScreenQueued i))"

definition screen_post :: "screen_view \<Rightarrow> caller \<Rightarrow> nat \<Rightarrow> catalog \<Rightarrow> screen_state \<Rightarrow> screen_state \<times> screen_response" where
  "screen_post sv who pk cat st =
     (if screen_gate sv who \<noteq> None then (st, the (screen_gate sv who))
      else if sv_limited sv then (st, ScreenFail ''RATE_LIMITED'' 429)
      else case load_strategy who pk cat of
             None \<Rightarrow> (st, screen_not_found)
           | Some s \<Rightarrow>
               if \<not> sv_has_key sv then (st, ScreenFail ''FMP_NOT_CONFIGURED'' 409)
               else (case parse_screen (description_of sv s cat) of
                       Malformed errors \<Rightarrow> (st, ScreenFail ''SCREEN_CRITERIA_INVALID'' 400)
                     | NoBlock \<Rightarrow> (st, ScreenFail ''NO_SCREEN_CRITERIA'' 409)
                     | Parsed sc \<Rightarrow>
                         queue_run sv who s sc (case file_of (sg_id s) DESC cat of None \<Rightarrow> [] | Some f \<Rightarrow> sf_sha f) st))"

definition screen_criteria_get :: "screen_view \<Rightarrow> caller \<Rightarrow> nat \<Rightarrow> catalog \<Rightarrow> screen_response" where
  "screen_criteria_get sv who pk cat =
     (if screen_gate sv who \<noteq> None then the (screen_gate sv who)
      else case load_strategy who pk cat of
             None \<Rightarrow> screen_not_found
           | Some s \<Rightarrow>
               (case parse_screen (description_of sv s cat) of
                  Malformed errors \<Rightarrow> ScreenFail ''SCREEN_CRITERIA_INVALID'' 400
                | p \<Rightarrow> ScreenShown p))"

text \<open>The limit is the query parameter read as an integer, if it is one.\<close>

definition runs_list :: "screen_view \<Rightarrow> caller \<Rightarrow> nat \<Rightarrow> int option \<Rightarrow> catalog \<Rightarrow> screen_state \<Rightarrow> screen_response" where
  "runs_list sv who pk wanted cat st =
     (if screen_gate sv who \<noteq> None then the (screen_gate sv who)
      else case load_strategy who pk cat of
             None \<Rightarrow> screen_not_found
           | Some s \<Rightarrow>
               (let n = max 1 (min 20 (case wanted of None \<Rightarrow> 5 | Some k \<Rightarrow> k))
                in RunsListed (take (nat n) (newest_first
                     (filter (\<lambda>r. rn_user r = who_id who \<and> rn_strategy r = sg_id s) (ss_runs st))))))"

definition run_get :: "screen_view \<Rightarrow> caller \<Rightarrow> nat \<Rightarrow> nat \<Rightarrow> catalog \<Rightarrow> screen_state \<Rightarrow> screen_response" where
  "run_get sv who pk i cat st =
     (if screen_gate sv who \<noteq> None then the (screen_gate sv who)
      else case load_strategy who pk cat of
             None \<Rightarrow> screen_not_found
           | Some s \<Rightarrow>
               (case first_where (\<lambda>r. rn_id r = i \<and> rn_user r = who_id who \<and> rn_strategy r = sg_id s) (ss_runs st) of
                  None \<Rightarrow> ScreenFail ''SCREEN_RUN_NOT_FOUND'' 404
                | Some r \<Rightarrow> RunShown r))"

text \<open>Requests and the two halves of tasks, in any order.\<close>

datatype screen_op =
    PostScreen screen_view caller nat catalog
  | StartRun int nat
  | FinishRun screen_env int "(fmp \<times> bool) option" nat

fun screen_step :: "screen_op \<Rightarrow> screen_state \<Rightarrow> screen_state" where
  "screen_step (PostScreen sv who pk cat) st = fst (screen_post sv who pk cat st)"
| "screen_step (StartRun now i) st = start_run now i st"
| "screen_step (FinishRun se now struck i) st = finish_run se now struck i st"

definition screen_steps :: "screen_op list \<Rightarrow> screen_state \<Rightarrow> screen_state" where
  "screen_steps ops st = fold screen_step ops st"

end
