(* ===== verification/Screen_Safety.thy ===== *)
theory Screen_Safety
  imports Screen_Runs "HOL-Library.Multiset"
begin

text \<open>
  What holds of screen runs: the counts of a run add up and its requests are bounded, the ranking and the metrics do not
  depend on the order of their input, every row satisfies the author's criteria, a user has one active run per
  strategy and the slot never stays blocked, and a few unknown tickers stop a whole screen.
\<close>

subsection \<open>Counts and requests\<close>

lemma fmp_get_sent: "length (fm_sent (fst (fmp_get fe path ps ttl st))) \<le> length (fm_sent st) + 3"
proof -
  have thr: "fm_sent (fst (throttle fe st)) = fm_sent st" by (simp add: throttle_def Let_def case_prod_beta)
  obtain st1 pass where t: "throttle fe st = (st1, pass)" by fastforce
  obtain st2 r where g: "get_with_retry fe path ps 2 st1 = (st2, r)" by fastforce
  have "length (fm_sent st2) \<le> length (fm_sent st) + 3" "fm_sent st1 = fm_sent st"
    using retry_sent [of fe path ps 2 st1] thr by (simp_all add: t g)
  then show ?thesis by (cases r) (simp_all add: fmp_get_def t g fall_back_frame record_success_def Let_def)
qed

lemma daily_bars_sent: "length (fm_sent (fst (daily_bars fe symb st))) \<le> length (fm_sent st) + 3"
  using fmp_get_sent [of fe "''/historical-price-eod/full''" "[(''symbol'', PText symb)]" 86400 st]
  by (simp add: daily_bars_def case_prod_beta split: fmp_outcome.split)

definition fetched_total :: "screen_counts \<Rightarrow> nat" where
  "fetched_total c = sc_enriched c + sc_short c + sc_rate_limited c + sc_unavailable c"

definition skipped :: "screen_counts \<Rightarrow> nat" where
  "skipped c = sc_rate_limited c + sc_unavailable c"

definition tallied :: "nat \<Rightarrow> screen_counts \<Rightarrow> fmp \<Rightarrow> fmp \<times> screen_counts \<times> enriched \<Rightarrow> bool" where
  "tallied n c st out =
     (case out of (st', c', r) \<Rightarrow>
        length (fm_sent st') \<le> length (fm_sent st) + 3 * n \<and> sc_matches c' = sc_matches c \<and>
        (case r of None \<Rightarrow> True
         | Some (rows, g) \<Rightarrow> fetched_total c' = fetched_total c + n \<and> length rows + sc_enriched c \<le> sc_enriched c' \<and>
             skipped c \<le> skipped c' \<and> (g \<longleftrightarrow> skipped c < skipped c')))"

lemma enrich_tallied: "tallied (length vs) c st (enrich_candidates fe d i vs c st)"
proof (induction vs arbitrary: i c st)
  case Nil
  then show ?case by (simp add: tallied_def)
next
  case (Cons v vs)
  have degr: "tallied (Suc (length vs)) c st (degraded_by out)"
    if "tallied (length vs) (c\<lparr>sc_unavailable := sc_unavailable c + 1\<rparr>) st1 out" "length (fm_sent st1) \<le> length (fm_sent st) + 3" for out st1
    using that by (auto simp: tallied_def degraded_by_def fetched_total_def skipped_def split: prod.splits option.splits)
  have short: "tallied (Suc (length vs)) c st out"
    if "tallied (length vs) (c\<lparr>sc_short := sc_short c + 1\<rparr>) st1 out" "length (fm_sent st1) \<le> length (fm_sent st) + 3" for out st1
    using that by (auto simp: tallied_def fetched_total_def skipped_def split: prod.splits option.splits)
  have enr: "tallied (Suc (length vs)) c st out \<and> tallied (Suc (length vs)) c st (with_row row out)"
    if "tallied (length vs) (c\<lparr>sc_enriched := sc_enriched c + 1\<rparr>) st1 out" "length (fm_sent st1) \<le> length (fm_sent st) + 3" for out st1 row
    using that by (auto simp: tallied_def with_row_def fetched_total_def skipped_def split: prod.splits option.splits)
  show ?case
  proof (cases "row_symbol v")
    case None
    then show ?thesis by (simp add: tallied_def)
  next
    case (Some symb)
    show ?thesis
    proof (cases "symb = []")
      case True
      with Some show ?thesis using degr [OF Cons.IH [of "c\<lparr>sc_unavailable := sc_unavailable c + 1\<rparr>" st]] by simp
    next
      case False
      obtain st1 r where b: "daily_bars (fe i) symb st = (st1, r)" by fastforce
      have sent: "length (fm_sent st1) \<le> length (fm_sent st) + 3" using daily_bars_sent [of "fe i" symb st] by (simp add: b)
      note deg = degr [OF Cons.IH sent] and shr = short [OF Cons.IH sent] and enrd = enr [OF Cons.IH sent]
      show ?thesis
      proof (cases r)
        case (Fetched bars)
        with Some False b shr enrd show ?thesis by (simp add: Let_def split: option.split)
      next
        case (FetchFailed err)
        have "tallied (Suc (length vs)) c st (st1, c\<lparr>sc_rate_limited := sc_rate_limited c + Suc (length vs)\<rparr>, Some ([], True))"
          "tallied (Suc (length vs)) c st (st1, c\<lparr>sc_unavailable := sc_unavailable c + Suc (length vs)\<rparr>, Some ([], True))"
          using sent by (simp_all add: tallied_def fetched_total_def skipped_def)
        with FetchFailed Some False b deg show ?thesis by simp
      next
        case FetchRaised
        with Some False b sent show ?thesis by (simp add: tallied_def)
      qed
    qed
  qed
qed

lemma company_screener_sent: "length (fm_sent (fst (company_screener fe ps st))) \<le> length (fm_sent st) + 3"
  using fmp_get_sent [of fe "''/company-screener''" ps 300 st]
  by (simp add: company_screener_def case_prod_beta split: fmp_outcome.split)

lemma rank_length: "rank d rows = Some ranked \<Longrightarrow> mset ranked = mset rows"
  by (auto simp: rank_def split: if_splits)

text \<open>
  C36. The counts of a finished run add up. Every candidate is accounted for once, a run is degraded exactly
  when it skipped one, it returns no more rows than it enriched, and it costs at most three requests for the vendor's
  list and for each candidate.
\<close>

theorem screen_counts_add_up:
  assumes run: "execute se sc st = (st', ExecDone rows c degraded)"
  shows "sc_returned c = length rows \<and> length (fm_sent st') \<le> length (fm_sent st) + 3 * (1 + nat (sn_limit sc)) \<and>
    (if derived_empty (sn_derived sc) then length rows = min (nat (sn_limit sc)) (sc_matches c) \<and> \<not> degraded
     else fetched_total c = min (nat (sn_limit sc)) (sc_matches c) \<and> length rows \<le> sc_enriched c \<and> (degraded \<longleftrightarrow> 0 < skipped c))"
proof -
  obtain st1 data where v: "se_has_key se" "company_screener (se_fmp se 0) (sn_vendor sc) st = (st1, Fetched data)"
    using run by (auto simp: execute_def split: if_splits prod.splits fetch.splits)
  have sent: "length (fm_sent st1) \<le> length (fm_sent st) + 3"
    using company_screener_sent [of "se_fmp se 0" "sn_vendor sc" st] by (simp add: v(2))
  let ?rows = "vendor_list data" let ?cand = "take (nat (sn_limit sc)) (vendor_list data)"
  let ?c = "empty_counts\<lparr>sc_matches := length ?rows\<rparr>"
  have ranked: "c = c0\<lparr>sc_returned := length rows\<rparr> \<and> length rows = length rs \<and> degraded = g"
    if "ranked_result (sn_derived sc) c0 rs g = ExecDone rows c degraded" for c0 rs g
    using that by (auto simp: ranked_result_def dest!: rank_length mset_eq_length split: option.splits)
  show ?thesis
  proof (cases "derived_empty (sn_derived sc)")
    case True
    with run v obtain rs where rs: "those (map (\<lambda>v. make_row v None) ?cand) = Some rs" "st' = st1"
      "ranked_result (sn_derived sc) ?c rs False = ExecDone rows c degraded"
      by (auto simp: execute_def Let_def split: option.splits)
    have "length rs = length ?cand" using arg_cong [OF rs(1), of "map_option length"]
    proof -
      have "those xs = Some ys \<Longrightarrow> length ys = length xs" for xs :: "'x option list" and ys
        by (induction xs arbitrary: ys) (auto split: option.splits)
      from this [OF rs(1)] show ?thesis by simp
    qed
    with ranked [OF rs(3)] rs(2) sent True show ?thesis by (simp add: min.commute)
  next
    case False
    with run v obtain c2 rs g where e: "enrich_candidates (\<lambda>i. se_fmp se (Suc i)) (sn_derived sc) 0 ?cand ?c st1 = (st', c2, Some (rs, g))"
      "ranked_result (sn_derived sc) c2 rs g = ExecDone rows c degraded"
      by (auto simp: execute_def Let_def split: option.splits prod.splits)
    have "tallied (length ?cand) ?c st1 (st', c2, Some (rs, g))"
      using enrich_tallied [of ?cand ?c st1 "\<lambda>i. se_fmp se (Suc i)" "sn_derived sc" 0] by (simp only: e(1))
    with ranked [OF e(2)] sent False show ?thesis
      by (auto simp: tallied_def fetched_total_def skipped_def empty_counts_def min.commute)
  qed
qed

definition sample_fmp_run :: screen_env where
  "sample_fmp_run = \<lparr>se_fmp = (\<lambda>i. sample_fmp_env\<lparr>fe_http := (\<lambda>n path ps.
     HttpReply 200 (Some (JArr [JObj [(''symbol'', JStr ''aa''), (''marketCap'', JInt 5)], JObj [(''symbol'', JStr ''bb''), (''marketCap'', JInt 9)]])))\<rparr>),
     se_has_key = True\<rparr>"

definition sample_criteria :: screen_criteria where
  "sample_criteria = build_screen no_criteria"

lemma sample_execute:
  "\<exists>rows c. snd (execute sample_fmp_run sample_criteria empty_fmp) = ExecDone rows c False \<and> map rr_symbol rows = [''BB'', ''AA''] \<and>
     sc_matches c = 2"
proof -
  have "(case snd (execute sample_fmp_run sample_criteria empty_fmp) of
      ExecDone rows c g \<Rightarrow> map rr_symbol rows = [''BB'', ''AA''] \<and> \<not> g \<and> sc_matches c = 2 | ExecFailed e g \<Rightarrow> False)"
    by code_simp
  then show ?thesis by (cases "snd (execute sample_fmp_run sample_criteria empty_fmp)") auto
qed

theorem screen_counts_add_up_witness:
  "\<exists>rows c. snd (execute sample_fmp_run sample_criteria empty_fmp) = ExecDone rows c False \<and> sc_returned c = 2"
proof -
  obtain rows c where r: "snd (execute sample_fmp_run sample_criteria empty_fmp) = ExecDone rows c False"
    "map rr_symbol rows = [''BB'', ''AA'']" using sample_execute by (elim exE conjE) (rule that)
  have "execute sample_fmp_run sample_criteria empty_fmp = (fst (execute sample_fmp_run sample_criteria empty_fmp), ExecDone rows c False)"
    by (simp add: r(1) [symmetric])
  from screen_counts_add_up [OF this] arg_cong [OF r(2), of length] r(1) show ?thesis by simp
qed

subsection \<open>Reproducible\<close>

lemma sort_key_mset:
  fixes f :: "'a \<Rightarrow> 'k :: linorder"
  assumes "mset xs = mset ys" "distinct (map f xs)"
  shows "sort_key f xs = sort_key f ys"
proof (rule sort_key_inj_key_eq)
  show "mset xs = mset (sort_key f ys)" using assms(1) by simp
  show "inj_on f (set xs)" using assms(2) by (simp add: distinct_map)
qed simp

lemma mset_map_distinct: "mset xs = mset ys \<Longrightarrow> distinct (map f xs) = distinct (map f ys)"
  by (metis mset_eq_imp_distinct_iff mset_map)

text \<open>
  Screens are reproducible. The ranking of rows with distinct symbols and the metrics of bars with distinct dates do not
  depend on the order in which the vendor lists them.
\<close>

theorem screens_reproducible:
  assumes rows: "mset rows' = mset rows" "distinct (map rr_symbol rows)"
    and bars: "mset bars' = mset bars" "distinct (map (\<lambda>b. py_str (br_ts b)) bars)"
  shows "rank d rows' = rank d rows \<and> compute_metrics bars' = compute_metrics bars"
proof
  have "distinct (map near_key rows)" "distinct (map cap_key rows)"
    using rows(2) by (auto simp: distinct_map inj_on_def near_key_def cap_key_def)
  then have "sort_key near_key rows = sort_key near_key rows'" "sort_key cap_key rows = sort_key cap_key rows'"
    using sort_key_mset [OF rows(1) [symmetric]] by blast+
  moreover have "list_all p rows' = list_all p rows" for p
    using mset_eq_setD [OF rows(1)] by (simp add: list_all_iff)
  ultimately show "rank d rows' = rank d rows" by (simp add: rank_def)
  have "sorted_closes bars' = sorted_closes bars"
    unfolding sorted_closes_def using sort_key_mset [OF bars(1) [symmetric] bars(2)] by simp
  then show "compute_metrics bars' = compute_metrics bars" by (simp add: compute_metrics_def)
qed

theorem screens_reproducible_witness:
  "let r = \<lambda>symb. \<lparr>rr_symbol = symb, rr_name = JNull, rr_exchange = JNull, rr_sector = JNull, rr_cap = JInt 1, rr_price = JNull,
      rr_volume = JNull, rr_beta = JNull, rr_pct = None, rr_above_50 = None, rr_above_200 = None, rr_rising = None\<rparr>
   in rank (sn_derived sample_criteria) [r ''B'', r ''A''] = rank (sn_derived sample_criteria) [r ''A'', r ''B'']"
  unfolding Let_def by (rule screens_reproducible [where bars = "[]" and bars' = "[]", THEN conjunct1]) simp_all

subsection \<open>Rows satisfy the criteria\<close>

text \<open>What a row of a screen with derived criteria stands for.\<close>

definition earned_row :: "derived \<Rightarrow> json list \<Rightarrow> result_row \<Rightarrow> bool" where
  "earned_row d vs row \<longleftrightarrow> (\<exists>v\<in>set vs. \<exists>bars m. compute_metrics bars = Some m \<and> make_row v (Some m) = Some row \<and> passes m d \<and>
     (\<forall>n. dv_min_history d = Some n \<longrightarrow> n \<le> int (length bars)))"

lemma those_length: "those xs = Some ys \<Longrightarrow> length ys = length xs"
  by (induction xs arbitrary: ys) (auto split: option.splits)

lemma compute_metrics_bars: "compute_metrics bars = Some m \<Longrightarrow> mt_bars m = length bars"
  by (auto simp: compute_metrics_def metrics_of_def Let_def sorted_closes_def dest!: those_length split: if_splits option.splits)

lemma enrich_earned:
  "enrich_candidates fe d i vs c st = (st', c', Some (rows, g)) \<Longrightarrow> \<forall>row\<in>set rows. earned_row d vs row"
proof (induction vs arbitrary: i c st rows g)
  case (Cons v vs)
  have later: "earned_row d vs row \<Longrightarrow> earned_row d (v # vs) row" for row
    by (auto simp: earned_row_def)
  obtain symb where symb: "row_symbol v = Some symb" using Cons.prems by (auto split: option.splits)
  show ?case
  proof (cases "symb = []")
    case True
    with Cons symb later show ?thesis
      by (auto simp: degraded_by_def split: prod.splits option.splits)
  next
    case False
    obtain st1 r where b: "daily_bars (fe i) symb st = (st1, r)" by fastforce
    show ?thesis
    proof (cases r)
      case (Fetched bars)
      show ?thesis
      proof (cases "compute_metrics bars")
        case None
        with Cons.prems symb False b Fetched show ?thesis by (auto dest!: Cons.IH intro: later)
      next
        case (Some m)
        let ?n = "case dv_min_history d of None \<Rightarrow> 0 | Some n \<Rightarrow> n"
        let ?c = "c\<lparr>sc_enriched := sc_enriched c + 1\<rparr>"
        show ?thesis
        proof (cases "int (mt_bars m) < ?n")
          case True
          with Cons.prems symb False b Fetched Some show ?thesis by (auto dest!: Cons.IH intro: later)
        next
          case enough: False
          obtain rest where rest: "enrich_candidates fe d (Suc i) vs ?c st1 = rest" by blast
          show ?thesis
          proof (cases "passes m d")
            case False
            with Cons.prems symb \<open>symb \<noteq> []\<close> b Fetched Some enough show ?thesis by (auto dest!: Cons.IH intro: later)
          next
            case True
            have e: "with_row (make_row v (Some m)) rest = (st', c', Some (rows, g))"
              using Cons.prems symb False b Fetched Some enough True rest by simp
            obtain x rs where x: "make_row v (Some m) = Some x" "rest = (st', c', Some (rs, g))" "rows = x # rs"
              using e by (auto simp: with_row_def split: prod.splits option.splits)
            have "earned_row d (v # vs) x"
              unfolding earned_row_def using x(1) True Some enough compute_metrics_bars [OF Some]
              by (intro bexI [of _ v] exI [of _ bars] exI [of _ m]) auto
            with Cons.IH [OF rest [unfolded x(2)]] x(3) later show ?thesis by auto
          qed
        qed
      qed
    next
      case (FetchFailed err)
      with Cons.prems symb False b show ?thesis
        by (auto simp: degraded_by_def intro: later dest!: Cons.IH split: if_splits prod.splits option.splits)
    next
      case FetchRaised
      with Cons.prems symb False b show ?thesis by simp
    qed
  qed
qed simp


definition sample_near :: screen_criteria where
  "sample_near = build_screen (no_criteria\<lparr>cr_near := Some 10, cr_min_history := Some 1\<rparr>)"

definition sample_bars_run :: screen_env where
  "sample_bars_run = \<lparr>se_fmp = (\<lambda>i. sample_fmp_env\<lparr>fe_http := (\<lambda>n path ps.
     HttpReply 200 (Some (JArr [JObj (if path = ''/company-screener'' then [(''symbol'', JStr ''aa''), (''marketCap'', JInt 5)]
        else [(''date'', JStr ''2026-01-02''), (''open'', JInt 9), (''high'', JInt 10), (''low'', JInt 8), (''close'', JInt 10)])])))\<rparr>),
     se_has_key = True\<rparr>"


subsection \<open>One active run\<close>

definition runs_ok :: "screen_state \<Rightarrow> bool" where
  "runs_ok st \<longleftrightarrow> unique_active (ss_runs st) \<and> distinct (map rn_id (ss_runs st)) \<and>
     (\<forall>r\<in>set (ss_runs st). rn_id r < ss_next st) \<and> (\<forall>r\<in>set (ss_memory st). rn_id r < ss_next st)"

lemma filter_active_update:
  assumes "\<And>x. p x \<Longrightarrow> \<not> run_active (f x)"
  shows "filter run_active (update_where p f rs) = filter (\<lambda>x. \<not> p x) (filter run_active rs)"
  using assms by (induction rs) (auto simp: update_where_Cons)

lemma distinct_map_filtered: "distinct (map g xs) \<Longrightarrow> distinct (map g (filter p xs))"
  by (rule distinct_map_filter)

lemma unique_update:
  "unique_active rs \<Longrightarrow> (\<And>x. p x \<Longrightarrow> \<not> run_active (f x)) \<Longrightarrow> unique_active (update_where p f rs)"
  by (simp add: unique_active_def filter_active_update distinct_map_filtered del: filter_filter)

lemma unique_filter: "unique_active rs \<Longrightarrow> unique_active (filter q rs)"
proof -
  have "filter run_active (filter q rs) = filter q (filter run_active rs)" by (induction rs) auto
  then show "unique_active rs \<Longrightarrow> unique_active (filter q rs)" by (simp only: unique_active_def distinct_map_filtered)
qed

lemma ended_inactive: "\<not> run_active (ended_run now res r)" "rn_id (ended_run now res r) = rn_id r"
  by (simp_all add: ended_run_def run_active_def split: exec_result.split)

lemma save_run_ok:
  assumes "\<not> run_active r" "unique_active rs" "distinct (map rn_id rs)" "\<forall>x\<in>set rs. rn_id x < n" "rn_id r < n"
  shows "unique_active (save_run r rs)" "distinct (map rn_id (save_run r rs))" "\<forall>x\<in>set (save_run r rs). rn_id x < n"
proof -
  have "map rn_id (update_where (\<lambda>x. rn_id x = rn_id r) (\<lambda>_. r) rs) = map rn_id rs" by (rule map_update_where) simp
  with assms show "distinct (map rn_id (save_run r rs))" by (auto simp: save_run_def exists_where_iff)
  show "unique_active (save_run r rs)"
    using assms(1,2) unique_update [of rs "\<lambda>x. rn_id x = rn_id r" "\<lambda>_. r"] by (simp add: save_run_def unique_active_def)
  show "\<forall>x\<in>set (save_run r rs). rn_id x < n" using assms(4,5) by (auto simp: save_run_def set_update_where)
qed

lemma finish_run_ok: "runs_ok st \<Longrightarrow> runs_ok (finish_run se now struck i st)"
proof (cases "first_where (\<lambda>r. rn_id r = i) (ss_memory st)")
  case None
  then show "runs_ok st \<Longrightarrow> ?thesis" by (simp add: finish_run_def)
next
  case (Some r)
  assume ok: "runs_ok st"
  obtain f res where e: "(case struck of Some (f, degraded) \<Rightarrow> (f, ExecFailed ''SCREEN_TIME_CAP'' degraded)
      | None \<Rightarrow> execute se (rn_screen r) (ss_fmp st)) = (f, res)" by fastforce
  let ?rs = "save_run (ended_run now res r) (ss_runs st)"
  have "rn_id r < ss_next st" using ok Some by (auto simp: runs_ok_def dest!: first_where_Some)
  then have mem: "rn_id (ended_run now res r) < ss_next st" by (simp only: ended_inactive(2))
  have tab: "unique_active (ss_runs st)" "distinct (map rn_id (ss_runs st))" "\<forall>x\<in>set (ss_runs st). rn_id x < ss_next st"
    using ok by (simp_all add: runs_ok_def)
  have "unique_active ?rs" "distinct (map rn_id ?rs)" "\<forall>x\<in>set ?rs. rn_id x < ss_next st"
    by (rule save_run_ok [OF ended_inactive(1) tab mem])+
  then have "unique_active (prune_history r ?rs)" "distinct (map rn_id (prune_history r ?rs))"
    "\<forall>x\<in>set (prune_history r ?rs). rn_id x < ss_next st"
    by (simp_all add: prune_history_def Let_def unique_filter distinct_map_filtered)
  moreover have "finish_run se now struck i st = st\<lparr>ss_fmp := f, ss_runs := prune_history r ?rs,
      ss_memory := filter (\<lambda>x. rn_id x \<noteq> i) (ss_memory st)\<rparr>"
    by (simp only: finish_run_def Some option.case e prod.case Let_def)
  ultimately show ?thesis using ok by (simp add: runs_ok_def)
qed

lemma start_run_ok: "runs_ok st \<Longrightarrow> runs_ok (start_run now i st)"
proof (cases "first_where (\<lambda>r. rn_id r = i) (ss_runs st)")
  case None
  then show "runs_ok st \<Longrightarrow> ?thesis" by (simp add: start_run_def)
next
  case (Some r)
  assume ok: "runs_ok st"
  let ?rs = "update_where (\<lambda>x. rn_id x = i) (start_fields now) (ss_runs st)"
  have ids: "map rn_id ?rs = map rn_id (ss_runs st)" by (rule map_update_where) (simp add: start_fields_def)
  have "\<forall>x\<in>set ?rs. rn_id x < ss_next st" using ok by (auto simp: runs_ok_def set_update_where start_fields_def)
  moreover have "rn_id (start_fields now r) < ss_next st"
    using ok Some by (auto simp: runs_ok_def start_fields_def dest!: first_where_Some)
  ultimately show ?thesis using ok Some ids by (auto simp: start_run_def runs_ok_def Let_def)
qed

lemma reap_ok: "runs_ok st \<Longrightarrow> runs_ok (st\<lparr>ss_runs := reap_stale_runs now uid sid (ss_runs st)\<rparr>)"
proof -
  assume ok: "runs_ok st"
  have "unique_active (reap_stale_runs now uid sid (ss_runs st))"
    using ok by (auto simp: reap_stale_runs_def runs_ok_def run_active_def intro!: unique_update)
  moreover have "map rn_id (reap_stale_runs now uid sid (ss_runs st)) = map rn_id (ss_runs st)"
    unfolding reap_stale_runs_def by (rule map_update_where) simp
  ultimately show ?thesis using ok by (auto simp: runs_ok_def reap_stale_runs_def set_update_where)
qed

lemma queue_run_ok: "runs_ok st \<Longrightarrow> runs_ok (fst (queue_run sv who s sc sha st))"
proof -
  assume "runs_ok st"
  from reap_ok [OF this, of "sv_now sv" "who_id who" "sg_id s"] show ?thesis
    by (auto simp: queue_run_def Let_def runs_ok_def new_run_def less_SucI)
qed

lemma screen_step_ok: "runs_ok st \<Longrightarrow> runs_ok (screen_step op st)"
  by (cases op) (auto simp: start_run_ok finish_run_ok queue_run_ok screen_post_def split: option.split screen_parse.split)

text \<open>
  C38. One screen at a time. Over any requests, tasks and interleavings of the two, a user has at most one queued or
  running screen per strategy, and run ids stay unique.
\<close>

theorem one_active_screen:
  assumes "runs_ok st"
  shows "unique_active (ss_runs (screen_steps ops st)) \<and> distinct (map rn_id (ss_runs (screen_steps ops st)))"
proof -
  have "runs_ok (screen_steps ops st)" unfolding screen_steps_def using assms
    by (induction ops arbitrary: st) (auto simp: screen_step_ok)
  then show ?thesis by (simp add: runs_ok_def)
qed

definition sample_screen_catalog :: catalog where
  "sample_screen_catalog = \<lparr>ct_strategies = [\<lparr>sg_id = 3, sg_owner = Some 7, sg_name = ''Trend'', sg_slug = ''trend'', sg_short = [],
     sg_system = False, sg_enabled = True, sg_deleted = None\<rparr>], ct_files = [\<lparr>sf_strategy = 3, sf_kind = DESC, sf_name = ''d'',
     sf_sha = ''h'', sf_bytes = sample_desc\<rparr>], ct_configs = [], ct_audits = [], ct_next = 4\<rparr>"

definition sample_screen_view :: screen_view where
  "sample_screen_view = \<lparr>sv_now = 700000000, sv_enabled = True, sv_limited = False, sv_has_key = True, sv_decode = (\<lambda>s. s)\<rparr>"

definition screen_caller :: caller where
  "screen_caller = \<lparr>who_id = 7, who_staff = False, who_mfa = True, who_impersonated = False\<rparr>"

definition stuck_run :: screen_run where
  "stuck_run = \<lparr>rn_id = 1, rn_user = 7, rn_strategy = 3, rn_status = QUEUED, rn_screen = sample_criteria, rn_sha = [], rn_results = [],
     rn_counts = None, rn_degraded = False, rn_error = [], rn_created = 0, rn_started = None, rn_finished = None\<rparr>"

definition sample_screens :: screen_state where
  "sample_screens = \<lparr>ss_runs = [stuck_run], ss_memory = [], ss_fmp = empty_fmp, ss_queue = [1], ss_audits = [], ss_next = 2\<rparr>"

lemma sample_screens_ok: "runs_ok sample_screens"
  by (simp add: runs_ok_def sample_screens_def unique_active_def stuck_run_def run_active_def)

theorem one_active_screen_witness:
  "unique_active (ss_runs (screen_steps [StartRun 5 1, PostScreen sample_screen_view screen_caller 3 sample_screen_catalog,
     FinishRun sample_fmp_run 9 None 1, StartRun 9 2] sample_screens))"
  by (rule one_active_screen [OF sample_screens_ok, THEN conjunct1])

text \<open>
  C39. The slot recovers. When every active run of the user and the strategy is older than ten minutes, a request that passes
  the gates is queued: a run whose task was lost never blocks screening for ever.
\<close>

theorem screen_slot_recovers:
  assumes "runs_ok st" "screen_gate sv who = None" "\<not> sv_limited sv" "sv_has_key sv" "load_strategy who pk cat = Some s"
    "parse_screen (description_of sv s cat) = Parsed sc"
    and stale: "\<forall>r\<in>set (ss_runs st). rn_user r = who_id who \<and> rn_strategy r = sg_id s \<and> run_active r \<longrightarrow>
      rn_created r < sv_now sv - stale_after"
  shows "snd (screen_post sv who pk cat st) = ScreenQueued (ss_next st) \<and>
    ss_queue (fst (screen_post sv who pk cat st)) = ss_queue st @ [ss_next st]"
proof -
  let ?rs = "reap_stale_runs (sv_now sv) (who_id who) (sg_id s) (ss_runs st)"
  have none: "\<not> (rn_user r = who_id who \<and> rn_strategy r = sg_id s \<and> run_active r)" if "r \<in> set ?rs" for r
    using that stale by (auto simp: reap_stale_runs_def set_update_where run_active_def)
  have ok: "unique_active ?rs" using reap_ok [OF assms(1)] by (simp add: runs_ok_def)
  have "unique_active (?rs @ [new_run sv (ss_next st) (who_id who) (sg_id s) sc sha])" for sha
  proof -
    have "(who_id who, sg_id s) \<notin> (\<lambda>r. (rn_user r, rn_strategy r)) ` set (filter run_active ?rs)" using none by auto
    with ok show ?thesis by (simp add: unique_active_def new_run_def)
  qed
  moreover have "\<not> exists_where (\<lambda>r. rn_user r = who_id who \<and> rn_strategy r = sg_id s \<and> run_active r) ?rs"
    using none by (auto simp: exists_where_iff)
  ultimately show ?thesis using assms(2-6) by (simp add: screen_post_def queue_run_def Let_def)
qed

theorem screen_slot_recovers_witness:
  "snd (screen_post sample_screen_view screen_caller 3 sample_screen_catalog sample_screens) = ScreenQueued 2"
proof -
  obtain sc where "parse_screen sample_desc = Parsed sc"
  proof -
    have "(case parse_screen sample_desc of Parsed sc \<Rightarrow> True | _ \<Rightarrow> False)" by code_simp
    then show thesis using that by (cases "parse_screen sample_desc") auto
  qed
  moreover have "load_strategy screen_caller 3 sample_screen_catalog = Some (hd (ct_strategies sample_screen_catalog))"
    by (simp add: load_strategy_def get_strategy_def detail_qs_def can_user_view_def screen_caller_def sample_screen_catalog_def
        first_where_Cons)
  moreover have "description_of sample_screen_view (hd (ct_strategies sample_screen_catalog)) sample_screen_catalog = sample_desc"
    by (simp add: description_of_def file_of_def sample_screen_view_def sample_screen_catalog_def first_where_Cons)
  ultimately show ?thesis
    using screen_slot_recovers [OF sample_screens_ok, of sample_screen_view screen_caller 3 sample_screen_catalog
        "hd (ct_strategies sample_screen_catalog)" sc]
    by (simp add: screen_gate_def sample_screen_view_def screen_caller_def sample_screens_def stuck_run_def stale_after_def seconds_def)
qed

subsection \<open>Unknown tickers\<close>

definition ticker :: "string \<Rightarrow> json" where
  "ticker symb = JObj [(''symbol'', JStr symb)]"

lemma ticker_symbol: "symb \<noteq> [] \<Longrightarrow> row_symbol (ticker symb) = Some (py_upper symb) \<and> py_upper symb \<noteq> []"
  by (simp add: ticker_def json_or_def dict_get_or_def py_upper_def)

text \<open>With \<open>k\<close> failures to go, so many tickers are unavailable and the rest is put down to the rate limit.\<close>

lemma unknown_tickers:
  assumes vendor: "fe_http fe = (\<lambda>n path ps. HttpReply 404 None)" "0 < fe_cooldown fe"
    and "fm_data st = Map.empty" "breaker_count fe st + int k = fe_threshold fe" "circuit_open fe st = (k = 0)"
    "budget_used fe st + int k \<le> fe_cap fe" "k \<le> length syms" "list_all (\<lambda>symb. symb \<noteq> []) syms"
  shows "\<exists>st' g. enrich_candidates (\<lambda>i. fe) d i (map ticker syms) c st =
      (st', c\<lparr>sc_unavailable := sc_unavailable c + k, sc_rate_limited := sc_rate_limited c + (length syms - k)\<rparr>, Some ([], g)) \<and>
    length (fm_sent st') = length (fm_sent st) + k"
  using assms(3-)
proof (induction k arbitrary: syms i c st)
  case 0
  show ?case
  proof (cases syms)
    case (Cons symb rest)
    have "daily_bars fe (py_upper symb) st = (st, FetchFailed FmpCircuitOpen)"
      using 0 by (simp add: daily_bars_def open_breaker_step cache_get_def)
    with Cons 0 ticker_symbol [of symb] show ?thesis by auto
  qed auto
next
  case (Suc k)
  then obtain symb rest where syms: "syms = symb # rest" by (cases syms) auto
  let ?out = "fmp_get fe ''/historical-price-eod/full'' [(''symbol'', PText (py_upper symb))] 86400 st"
  let ?st1 = "fst ?out"
  have closed: "\<not> circuit_open fe st" "budget_used fe st < fe_cap fe" using Suc.prems by simp_all
  note step = client_error_step [OF closed vendor(2), of "''/historical-price-eod/full''" "[(''symbol'', PText (py_upper symb))]" 404 None
      ?out 86400, unfolded vendor(1), simplified, unfolded Suc.prems(1) cache_get_def, simplified]
  have "daily_bars fe (py_upper symb) st = (?st1, FetchFailed FmpError)"
    using step(1) by (simp add: daily_bars_def case_prod_beta)
  moreover have "fm_data ?st1 = Map.empty" "breaker_count fe ?st1 + int k = fe_threshold fe"
    "circuit_open fe ?st1 = (k = 0)" "budget_used fe ?st1 + int k \<le> fe_cap fe" "k \<le> length rest" "list_all (\<lambda>symb. symb \<noteq> []) rest"
    using step Suc.prems syms by auto
  from Suc.IH [OF this, of "Suc i" "c\<lparr>sc_unavailable := sc_unavailable c + 1\<rparr>"] obtain st' g where
    "enrich_candidates (\<lambda>i. fe) d (Suc i) (map ticker rest) (c\<lparr>sc_unavailable := sc_unavailable c + 1\<rparr>) ?st1 =
      (st', c\<lparr>sc_unavailable := sc_unavailable c + 1 + k, sc_rate_limited := sc_rate_limited c + (length rest - k)\<rparr>, Some ([], g))"
    "length (fm_sent st') = length (fm_sent ?st1) + k" by auto
  ultimately show ?case using ticker_symbol [of symb] Suc.prems(6) syms step(2) by (auto simp: degraded_by_def)
qed

text \<open>
  A few unknown tickers stop a whole screen. When the vendor answers 404 for the first candidates, as many of them as the
  breaker's threshold are counted as unavailable, the breaker opens, and every further candidate is reported as rate
  limited without being asked for.
\<close>

theorem unknown_tickers_stop_screen:
  assumes "fe_http fe = (\<lambda>n path ps. HttpReply 404 None)" "0 < fe_cooldown fe" "0 < fe_threshold fe"
    and "fm_data st = Map.empty" "breaker_count fe st = 0" "\<not> circuit_open fe st" "budget_used fe st + fe_threshold fe \<le> fe_cap fe"
    and "fe_threshold fe \<le> int (length syms)" "list_all (\<lambda>symb. symb \<noteq> []) syms"
  shows "\<exists>st' c g. enrich_candidates (\<lambda>i. fe) d 0 (map ticker syms) empty_counts st = (st', c, Some ([], g)) \<and>
    int (sc_unavailable c) = fe_threshold fe \<and> int (sc_rate_limited c) = int (length syms) - fe_threshold fe \<and>
    int (length (fm_sent st')) = int (length (fm_sent st)) + fe_threshold fe"
proof -
  let ?k = "nat (fe_threshold fe)"
  have "breaker_count fe st + int ?k = fe_threshold fe" "circuit_open fe st = (?k = 0)" "budget_used fe st + int ?k \<le> fe_cap fe"
    "?k \<le> length syms" using assms by simp_all
  from unknown_tickers [OF assms(1,2,4) this assms(9), of d 0 empty_counts] obtain st' g where
    "enrich_candidates (\<lambda>i. fe) d 0 (map ticker syms) empty_counts st =
      (st', empty_counts\<lparr>sc_unavailable := sc_unavailable empty_counts + ?k,
         sc_rate_limited := sc_rate_limited empty_counts + (length syms - ?k)\<rparr>, Some ([], g))"
    "length (fm_sent st') = length (fm_sent st) + ?k" by blast
  with assms(3,8) show ?thesis
    by (intro exI [of _ st'] exI [of _ "empty_counts\<lparr>sc_unavailable := ?k, sc_rate_limited := length syms - ?k\<rparr>"] exI [of _ g])
      (simp add: empty_counts_def of_nat_diff)
qed

definition unknown_ticker_env :: fmp_env where
  "unknown_ticker_env = sample_fmp_env\<lparr>fe_http := (\<lambda>n path ps. HttpReply 404 None), fe_cap := 750\<rparr>"

theorem unknown_tickers_stop_screen_witness:
  "\<exists>st' c g. enrich_candidates (\<lambda>i. unknown_ticker_env) (sn_derived sample_near) 0 (map ticker (replicate 50 ''X'')) empty_counts empty_fmp =
      (st', c, Some ([], g)) \<and> int (sc_unavailable c) = 5 \<and> int (sc_rate_limited c) = 45"
  using unknown_tickers_stop_screen [of unknown_ticker_env empty_fmp "replicate 50 ''X''" "sn_derived sample_near"]
  by (auto simp: unknown_ticker_env_def sample_fmp_env_def empty_fmp_def breaker_count_def circuit_open_def budget_used_def
      cache_get_def list_all_iff)

subsection \<open>A reaped run that is picked up after all\<close>

text \<open>
  The task does not look at the status of its row: a run that was failed as stale while it waited is executed when its
  message arrives, and ends as done with the error code still set.
\<close>

lemma stale_run_revived:
  assumes "ss_runs st = [r]" "rn_status r = FAILED" "rn_id r = i" "ss_memory st = []"
    "execute se (rn_screen r) (ss_fmp st) = (f, ExecDone rows c g)"
  shows "\<exists>x. ss_runs (screen_steps [StartRun now i, FinishRun se now' None i] st) = [x] \<and> rn_status x = DONE \<and> rn_error x = rn_error r"
proof -
  have "unique_active [start_fields now r]" by (simp add: unique_active_def)
  then show ?thesis using assms
    by (simp add: screen_steps_def start_run_def finish_run_def Let_def first_where_Cons update_where_Cons start_fields_def
        save_run_def exists_where_iff ended_run_def prune_history_def same_pair_def newest_first_def history_keep_def)
qed

end
