(* ===== verification/Portal.thy ===== *)
theory Portal
  imports Auth_Api Broker_Services Flags Audit_Log
begin

text \<open>
  Personal data and administration: exports, deletion and terms (\<open>users/gdpr.py\<close>, \<open>tasks.py\<close>,
  \<open>terms.py\<close>, \<open>onboarding.py\<close>, \<open>views_gdpr.py\<close>), the impersonation-aware authentication
  (\<open>users/authentication.py\<close>, \<open>admin_portal/impersonation.py\<close>) and the administrators' requests
  that change state (\<open>admin_portal/views.py\<close>, \<open>permissions.py\<close>). The ZIP format, the storage's way with a taken name, the other apps' rows in
  an export, a user's \<open>updated_at\<close>, random draws and the text of times are fields of \<open>portal_env\<close>.
\<close>

subsection \<open>State and surroundings\<close>

text \<open>A row as the serializer sees it: for each field its name, the name of its attribute, and the value.\<close>

type_synonym field_row = "(string \<times> string \<times> json) list"

record portal =
  po_auth :: auth
  po_db :: db
  po_flags :: flags
  po_files :: "(string \<times> string) list"
  po_queue :: "nat list"

record portal_env =
  pe_ax :: auth_env
  pe_cfg :: auth_settings
  pe_env :: env
  pe_flag :: flag_env
  pe_enabled :: bool
  pe_storage_ready :: bool
  pe_overwrites :: bool
  pe_suffix :: string
  pe_zip :: "(string \<times> json) list \<Rightarrow> string"
  pe_tables :: "nat \<Rightarrow> portal \<Rightarrow> (string \<times> field_row list) list"
  pe_profile :: "nat \<Rightarrow> portal \<Rightarrow> field_row option"
  pe_updated :: "nat \<Rightarrow> portal \<Rightarrow> int"
  pe_iso :: "int \<Rightarrow> string"
  pe_hex :: "nat \<Rightarrow> string"
  pe_unusable :: "nat \<Rightarrow> string"
  pe_request :: web_request

definition now_of :: "portal_env \<Rightarrow> int" where
  "now_of pe = ax_now (pe_ax pe)"

definition on_auth :: "(auth \<Rightarrow> auth) \<Rightarrow> portal \<Rightarrow> portal" where
  "on_auth f po = po\<lparr>po_auth := f (po_auth po)\<rparr>"

definition note_event :: "string \<Rightarrow> nat option \<Rightarrow> nat option \<Rightarrow> string \<Rightarrow> string \<Rightarrow> wire_dict \<Rightarrow> portal \<Rightarrow> portal" where
  "note_event event user actor entity i after po =
     on_auth (auth_emit \<lparr>ac_event = event, ac_user = user, ac_actor = actor, ac_entity = entity, ac_entity_id = i,
       ac_after = after\<rparr>) po"

subsection \<open>Exports\<close>

definition export_redacted :: string where
  "export_redacted = ''[REDACTED]''"

definition is_sensitive :: "string \<Rightarrow> bool" where
  "is_sensitive name \<longleftrightarrow> list_ex (\<lambda>part. py_contains part (py_lower name)) sensitive_field_parts"

definition serialize_instance :: "field_row \<Rightarrow> (string \<times> json) list" where
  "serialize_instance row =
     map (\<lambda>(name, attname, v). (name, if is_sensitive attname \<or> is_sensitive name then JStr export_redacted else v)) row"

definition json_time :: "portal_env \<Rightarrow> int option \<Rightarrow> json" where
  "json_time pe t = (case t of None \<Rightarrow> JNull | Some x \<Rightarrow> JStr (pe_iso pe x))"

definition export_sections :: "portal_env \<Rightarrow> user_row \<Rightarrow> portal \<Rightarrow> (string \<times> json) list" where
  "export_sections pe u po =
     (''account.json'', JObj [(''id'', JStr (nat_str (ur_id u))), (''email'', JStr (ur_email u)), (''display_name'', JStr (ur_name u)),
        (''is_verified'', JBool (ur_verified u)), (''is_active'', JBool (ur_active u)), (''created_at'', json_time pe (Some (ur_created u))), (''updated_at'', json_time pe (Some (pe_updated pe (ur_id u) po))),
        (''pending_delete_at'', json_time pe (ur_pending u)), (''mfa_enabled'', JBool (user_mfa (ur_id u) (po_auth po)))]) #
     (''profile.json'', case pe_profile pe (ur_id u) po of None \<Rightarrow> JNull | Some row \<Rightarrow> JObj (serialize_instance row)) #
     map (\<lambda>(name, rows). (name, JArr (map (\<lambda>row. JObj (serialize_instance row)) rows))) (pe_tables pe (ur_id u) po)"

definition build_export_zip :: "portal_env \<Rightarrow> user_row \<Rightarrow> portal \<Rightarrow> string" where
  "build_export_zip pe u po = pe_zip pe (export_sections pe u po)"

definition export_ttl :: int where
  "export_ttl = seconds (24 * 3600)"

definition set_job :: "nat \<Rightarrow> (export_job \<Rightarrow> export_job) \<Rightarrow> portal \<Rightarrow> portal" where
  "set_job i f po = on_auth (\<lambda>st. st\<lparr>st_exports := update_where (\<lambda>j. xj_id j = i) f (st_exports st)\<rparr>) po"

definition file_key :: "export_job \<Rightarrow> string" where
  "file_key j = ''exports/'' @ nat_str (xj_user j) @ ''/'' @ nat_str (xj_id j) @ ''.zip''"

text \<open>
  Storing under a name that is taken: an object store overwrites, the filesystem storage picks another name with a random
  suffix.
\<close>

definition store_file :: "portal_env \<Rightarrow> export_job \<Rightarrow> string \<Rightarrow> (string \<times> string) list \<Rightarrow> (string \<times> string) list" where
  "store_file pe j data files =
     (if \<not> pe_overwrites pe \<and> exists_where (\<lambda>f. fst f = file_key j) files
      then files @ [(''exports/'' @ nat_str (xj_user j) @ ''/'' @ nat_str (xj_id j) @ ''_'' @ pe_suffix pe @ ''.zip'', data)]
      else filter (\<lambda>f. fst f \<noteq> file_key j) files @ [(file_key j, data)])"

text \<open>How the task ends: its worker is killed, building or storing raises, or it completes.\<close>

datatype export_fate = WorkerKilled | ExportRaised string | ExportBuilt

definition run_data_export :: "portal_env \<Rightarrow> export_fate \<Rightarrow> nat \<Rightarrow> portal \<Rightarrow> portal" where
  "run_data_export pe fate jid po =
     (case first_where (\<lambda>j. xj_id j = jid) (st_exports (po_auth po)) of
        None \<Rightarrow> po
      | Some j \<Rightarrow>
          if xj_status j = EXPORT_READY \<or> xj_status j = EXPORT_EXPIRED then po
          else if \<not> pe_storage_ready pe then set_job jid (\<lambda>x. x\<lparr>xj_error := ''Export storage is not configured. Set EXPORTS_BUCKET + AWS_* for S3/R2, or rely on the local filesystem default.''\<rparr>) po
          else
            let po1 = set_job jid (\<lambda>x. x\<lparr>xj_status := EXPORT_RUNNING\<rparr>) po
            in case (fate, find_user (xj_user j) (po_auth po)) of
                 (ExportBuilt, Some u) \<Rightarrow>
                   let data = build_export_zip pe u po1;
                       po2 = po1\<lparr>po_files := store_file pe j data (po_files po1)\<rparr>;
                       po3 = set_job jid (\<lambda>x. x\<lparr>xj_status := EXPORT_READY, xj_file := file_key j, xj_size := length data,
                         xj_ready := Some (now_of pe), xj_expires := Some (now_of pe + export_ttl)\<rparr>) po2;
                       po4 = note_event ''account.export_ready'' (Some (ur_id u)) (Some (ur_id u)) ''export_job'' (nat_str jid)
                         [(''size_bytes'', WNum (of_nat (length data)))] po3
                   in on_auth (\<lambda>st. fst (send_mail (pe_ax pe) (ur_email u) ''data_export_ready'' [] st)) po4
               | (ExportRaised err, _) \<Rightarrow>
                   note_event ''account.export_failed'' (Some (xj_user j)) (Some (xj_user j)) ''export_job'' (nat_str jid)
                     [(''error'', WStr (take 256 err))]
                     (set_job jid (\<lambda>x. x\<lparr>xj_status := EXPORT_FAILED, xj_error := take 256 err\<rparr>) po1)
               | _ \<Rightarrow> po1)"

definition delete_export_jobs :: "(export_job \<Rightarrow> bool) \<Rightarrow> portal \<Rightarrow> portal" where
  "delete_export_jobs p po =
     (let keys = map xj_file (filter p (st_exports (po_auth po)))
      in on_auth (\<lambda>st. st\<lparr>st_exports := filter (\<lambda>j. \<not> p j) (st_exports st)\<rparr>)
           (po\<lparr>po_files := filter (\<lambda>f. fst f = [] \<or> fst f \<notin> set keys) (po_files po)\<rparr>))"

definition job_expired :: "int \<Rightarrow> export_job \<Rightarrow> bool" where
  "job_expired now j = (case xj_expires j of None \<Rightarrow> False | Some t \<Rightarrow> t < now)"

definition evict_expired_exports :: "portal_env \<Rightarrow> portal \<Rightarrow> portal" where
  "evict_expired_exports pe po = delete_export_jobs (job_expired (now_of pe)) po"

subsection \<open>Erasure\<close>

fun delete_accounts :: "nat list \<Rightarrow> db \<Rightarrow> db" where
  "delete_accounts [] db = db"
| "delete_accounts (i # is) db = delete_accounts is (delete_account i db)"

definition anonymized :: "portal_env \<Rightarrow> nat \<Rightarrow> user_row \<Rightarrow> user_row" where
  "anonymized pe n u =
     u\<lparr>ur_email := ''deleted-'' @ pe_hex pe n @ ''@anonymized.invalid'', ur_name := ''deleted user'', ur_active := False,
       ur_verified := False, ur_password := pe_unusable pe n, ur_pending := None\<rparr>"

definition anonymize_user :: "portal_env \<Rightarrow> user_row \<Rightarrow> portal \<Rightarrow> portal" where
  "anonymize_user pe u po =
     (let uid = ur_id u;
          po1 = on_auth (\<lambda>st. st\<lparr>st_devices := filter (\<lambda>d. md_user d \<noteq> uid) (st_devices st),
                  st_backups := filter (\<lambda>b. bk_user b \<noteq> uid) (st_backups st)\<rparr>) po;
          po2 = po1\<lparr>po_db := delete_accounts (map b_id (filter (\<lambda>a. b_user a = uid) (d_accounts (po_db po1)))) (po_db po1)\<rparr>;
          po3 = delete_export_jobs (\<lambda>j. xj_user j = uid) po2;
          po4 = on_auth (\<lambda>st. (update_user uid (anonymized pe (st_next st)) st)\<lparr>st_next := st_next st + 1,
                  st_profiles := update_where (\<lambda>p. pf_user p = uid) (\<lambda>p. p\<lparr>pf_broker := None, pf_terms := []\<rparr>) (st_profiles st)\<rparr>) po3
      in note_event ''account.anonymized'' (Some uid) (Some uid) ''user'' (nat_str uid) [(''reason'', WStr ''soft_delete_expiry'')] po4)"

definition erasure_due :: "int \<Rightarrow> user_row \<Rightarrow> bool" where
  "erasure_due now u \<longleftrightarrow> ur_active u \<and> (case ur_pending u of None \<Rightarrow> False | Some t \<Rightarrow> t \<le> now)"

definition anonymize_expired_accounts :: "portal_env \<Rightarrow> portal \<Rightarrow> portal" where
  "anonymize_expired_accounts pe po = fold (anonymize_user pe) (filter (erasure_due (now_of pe)) (st_users (po_auth po))) po"

subsection \<open>Terms and onboarding\<close>

definition newest_document :: "terms_document list \<Rightarrow> terms_document option" where
  "newest_document ds = (case sort_key (\<lambda>d. - td_effective d) ds of [] \<Rightarrow> None | d # _ \<Rightarrow> Some d)"

definition current_document :: "int \<Rightarrow> terms_kind \<Rightarrow> auth \<Rightarrow> terms_document option" where
  "current_document now kind st =
     newest_document (filter (\<lambda>d. td_kind d = kind \<and> td_effective d \<le> now) (st_documents st))"

definition version_of :: "terms_document option \<Rightarrow> string" where
  "version_of d = (case d of None \<Rightarrow> [] | Some x \<Rightarrow> td_version x)"

definition current_versions :: "int \<Rightarrow> auth \<Rightarrow> string \<times> string" where
  "current_versions now st = (version_of (current_document now TERMS st), version_of (current_document now PRIVACY st))"

definition latest_acceptance :: "nat \<Rightarrow> auth \<Rightarrow> terms_acceptance option" where
  "latest_acceptance uid st =
     (case sort_key (\<lambda>x. - tx_at x) (filter (\<lambda>x. tx_user x = uid) (st_acceptances st)) of [] \<Rightarrow> None | x # _ \<Rightarrow> Some x)"

definition needs_acceptance :: "int \<Rightarrow> nat \<Rightarrow> auth \<Rightarrow> bool" where
  "needs_acceptance now uid st =
     (let (tos, privacy) = current_versions now st
      in if tos = [] \<and> privacy = [] then False
         else case latest_acceptance uid st of
                None \<Rightarrow> True
              | Some x \<Rightarrow> tx_tos x \<noteq> tos \<or> tx_privacy x \<noteq> privacy)"

definition record_acceptance :: "portal_env \<Rightarrow> nat \<Rightarrow> string \<Rightarrow> string \<Rightarrow> string option \<Rightarrow> portal \<Rightarrow> portal" where
  "record_acceptance pe uid tos privacy ip po =
     note_event ''terms.accepted'' (Some uid) (Some uid) ''terms'' tos [(''tos_version'', WStr tos), (''privacy_version'', WStr privacy)]
       (on_auth (\<lambda>st. st\<lparr>st_acceptances := st_acceptances st @
          [\<lparr>tx_user = uid, tx_tos = tos, tx_privacy = privacy, tx_at = now_of pe, tx_ip = ip\<rparr>],
          st_profiles := update_where (\<lambda>p. pf_user p = uid) (\<lambda>p. p\<lparr>pf_terms := tos\<rparr>) (st_profiles st)\<rparr>) po)"

record onboarding =
  ob_mfa :: bool
  ob_broker :: bool
  ob_strategy :: bool
  ob_fill :: bool

definition compute_onboarding :: "nat \<Rightarrow> portal \<Rightarrow> onboarding" where
  "compute_onboarding uid po =
     (let db = po_db po
      in \<lparr>ob_mfa = user_mfa uid (po_auth po), ob_broker = exists_where (\<lambda>a. b_user a = uid) (d_accounts db),
          ob_strategy = exists_where (\<lambda>w. w_user w = uid \<and>
            exists_where (\<lambda>s. s_id s = w_strategy w \<and> s_enabled s) (d_strategies db)) (d_configs db),
          ob_fill = exists_where (\<lambda>f. exists_where (\<lambda>od. o_id od = f_order f \<and> o_user od = uid) (d_orders db)) (d_fills db)\<rparr>)"

definition onboarding_complete :: "onboarding \<Rightarrow> bool" where
  "onboarding_complete ob \<longleftrightarrow> ob_mfa ob \<and> ob_broker ob \<and> ob_strategy ob \<and> ob_fill ob"

subsection \<open>Impersonation\<close>

definition impersonation_purpose :: string where
  "impersonation_purpose = ''impersonation''"

definition session_active :: "int \<Rightarrow> impersonation \<Rightarrow> bool" where
  "session_active now s \<longleftrightarrow> im_ended s = None \<and> now < im_expires s"

definition mint_token :: "portal_env \<Rightarrow> nat \<Rightarrow> impersonation \<Rightarrow> string" where
  "mint_token pe jti s =
     ax_encode (pe_ax pe) ACCESS (now_of pe + minutes (as_impersonation_ttl (pe_cfg pe)))
       \<lparr>cl_jti = jti, cl_user = Some (im_target s), cl_family = None, cl_purpose = impersonation_purpose, cl_session = Some (im_id s),
        cl_extra = [(''actor_id'', WId (im_actor s))]\<rparr>"

definition start_session :: "portal_env \<Rightarrow> nat \<Rightarrow> nat \<Rightarrow> string \<Rightarrow> portal \<Rightarrow> portal \<times> impersonation \<times> string" where
  "start_session pe actor target reason po =
     (let i = st_next (po_auth po);
          s = \<lparr>im_id = i, im_actor = actor, im_target = target, im_reason = take 255 reason, im_started = now_of pe,
               im_expires = now_of pe + minutes (as_impersonation_ttl (pe_cfg pe)), im_ended = None\<rparr>;
          po1 = on_auth (\<lambda>st. st\<lparr>st_sessions := st_sessions st @ [s], st_next := i + 2\<rparr>) po
      in (note_event ''admin.impersonation_started'' (Some target) (Some actor) ''impersonation_session'' (nat_str i)
            [(''target'', WId target), (''reason'', WStr reason)] po1, s, mint_token pe (i + 1) s))"

definition stop_session :: "portal_env \<Rightarrow> nat \<Rightarrow> impersonation \<Rightarrow> portal \<Rightarrow> portal \<times> bool" where
  "stop_session pe actor s po =
     (if im_ended s \<noteq> None then (po, False)
      else (note_event ''admin.impersonation_stopped'' (Some (im_target s)) (Some actor) ''impersonation_session'' (nat_str (im_id s))
              [(''target'', WId (im_target s))]
              (on_auth (\<lambda>st. st\<lparr>st_sessions := update_where (\<lambda>x. im_id x = im_id s) (\<lambda>x. x\<lparr>im_ended := Some (now_of pe)\<rparr>)
                 (st_sessions st)\<rparr>) po), True))"

text \<open>Who makes a request.\<close>

record principal =
  pl_user :: user_row
  pl_session :: "impersonation option"

text \<open>The token library's own part: a valid access token of an active user.\<close>

definition jwt_user :: "portal_env \<Rightarrow> string \<Rightarrow> portal \<Rightarrow> (claims \<times> user_row) option" where
  "jwt_user pe raw po =
     Option.bind (ax_decode (pe_ax pe) ACCESS (now_of pe) raw) (\<lambda>c.
     Option.bind (cl_user c) (\<lambda>uid.
     Option.bind (find_user uid (po_auth po)) (\<lambda>u. if ur_active u then Some (c, u) else None)))"

definition find_session :: "nat option \<Rightarrow> portal \<Rightarrow> impersonation option" where
  "find_session sid po = Option.bind sid (\<lambda>i. first_where (\<lambda>s. im_id s = i) (st_sessions (po_auth po)))"

definition jwt_authenticate :: "portal_env \<Rightarrow> string \<Rightarrow> bool \<Rightarrow> portal \<Rightarrow> portal \<times> ((nat \<times> string) + principal)" where
  "jwt_authenticate pe raw safe po =
     (case jwt_user pe raw po of
        None \<Rightarrow> (po, Inl (401, ''NOT_AUTHENTICATED''))
      | Some (c, u) \<Rightarrow>
          if cl_purpose c \<noteq> impersonation_purpose then (po, Inr \<lparr>pl_user = u, pl_session = None\<rparr>)
          else case find_session (cl_session c) po of
                 None \<Rightarrow> (po, Inl (401, ''impersonation_ended''))
               | Some s \<Rightarrow>
                   if \<not> session_active (now_of pe) s then (po, Inl (401, ''impersonation_ended''))
                   else if \<not> safe then (po, Inl (403, ''IMPERSONATION_READONLY''))
                   else (note_event ''admin.impersonated_read'' (Some (ur_id u)) (Some (im_actor s)) ''user'' (nat_str (ur_id u))
                           [(''session_id'', WId (im_id s))] po, Inr \<lparr>pl_user = u, pl_session = Some s\<rparr>))"

definition admin_allowed :: "principal \<Rightarrow> portal \<Rightarrow> bool" where
  "admin_allowed p po \<longleftrightarrow> pl_session p = None \<and> ur_staff (pl_user p) \<and> user_mfa (ur_id (pl_user p)) (po_auth po)"

subsection \<open>Requests\<close>

datatype portal_response =
    PortalFail nat string
  | PortalRaised
  | ExportJob nat export_status
  | ExportView nat export_status bool
  | ExportBytes string
  | DeletePending int
  | DeleteCancelled
  | TermsState "string \<times> string" bool
  | TermsAccepted
  | OnboardingState onboarding
  | UserSet nat bool nat
  | Impersonating string nat int
  | Stopped nat bool
  | PlatformHalt nat
  | PlatformReleased bool
  | PlatformState bool
  | FlagFlipped "flag_view option"

record step_up =
  su_code :: string
  su_reason :: string

datatype user_op =
    ExportStart
  | ExportStatus nat
  | ExportDownload nat
  | DeleteAccount
  | CancelDelete
  | TermsCurrent
  | TermsAccept string string
  | OnboardingGet

datatype admin_op =
    SetActive nat bool step_up
  | Impersonate nat step_up
  | StopImpersonation nat
  | PlatformStatus
  | PlatformEngage step_up string
  | PlatformRelease step_up
  | FlagFlip string bool step_up

text \<open>Whether the request is a GET.\<close>

fun user_safe :: "user_op \<Rightarrow> bool" where
  "user_safe DeleteAccount = False"
| "user_safe CancelDelete = False"
| "user_safe (TermsAccept tos privacy) = False"
| "user_safe _ = True"

fun admin_safe :: "admin_op \<Rightarrow> bool" where
  "admin_safe PlatformStatus = True"
| "admin_safe _ = False"

definition own_job :: "nat \<Rightarrow> nat \<Rightarrow> portal \<Rightarrow> export_job option" where
  "own_job uid jid po = first_where (\<lambda>j. xj_id j = jid \<and> xj_user j = uid) (st_exports (po_auth po))"

definition export_request :: "portal_env \<Rightarrow> nat \<Rightarrow> portal \<Rightarrow> portal \<times> portal_response" where
  "export_request pe uid po =
     (let active = filter (\<lambda>j. xj_user j = uid \<and> (xj_status j = EXPORT_PENDING \<or> xj_status j = EXPORT_RUNNING)) (st_exports (po_auth po))
      in case sort_key (\<lambda>j. - xj_created j) active of
           j # _ \<Rightarrow> (po, ExportJob (xj_id j) (xj_status j))
         | [] \<Rightarrow>
             let i = st_next (po_auth po);
                 j = \<lparr>xj_id = i, xj_user = uid, xj_status = EXPORT_PENDING, xj_file = [], xj_size = 0, xj_error = [],
                      xj_created = now_of pe, xj_ready = None, xj_expires = None\<rparr>;
                 po1 = on_auth (\<lambda>st. st\<lparr>st_exports := st_exports st @ [j], st_next := i + 1\<rparr>) po;
                 po2 = note_event ''account.export_requested'' (Some uid) (Some uid) ''export_job'' (nat_str i) [] po1
             in (po2\<lparr>po_queue := po_queue po2 @ [i]\<rparr>, ExportJob i EXPORT_PENDING))"

definition export_status_view :: "portal_env \<Rightarrow> nat \<Rightarrow> nat \<Rightarrow> portal \<Rightarrow> portal_response" where
  "export_status_view pe uid jid po =
     (case own_job uid jid po of
        None \<Rightarrow> PortalFail 404 ''EXPORT_NOT_FOUND''
      | Some j \<Rightarrow>
          if xj_status j = EXPORT_READY
          then (if job_expired (now_of pe) j then ExportView jid EXPORT_EXPIRED False else ExportView jid EXPORT_READY True)
          else ExportView jid (xj_status j) False)"

definition export_download :: "portal_env \<Rightarrow> nat \<Rightarrow> nat \<Rightarrow> portal \<Rightarrow> portal_response" where
  "export_download pe uid jid po =
     (case own_job uid jid po of
        None \<Rightarrow> PortalFail 404 ''EXPORT_NOT_FOUND''
      | Some j \<Rightarrow>
          if xj_status j \<noteq> EXPORT_READY \<or> xj_file j = [] then PortalFail 404 ''EXPORT_NOT_READY''
          else if job_expired (now_of pe) j then PortalFail 410 ''EXPORT_EXPIRED''
          else (case map_of (po_files po) (xj_file j) of None \<Rightarrow> PortalFail 404 ''EXPORT_NOT_FOUND'' | Some data \<Rightarrow> ExportBytes data))"

definition delete_window :: int where
  "delete_window = seconds (30 * 24 * 3600)"

definition request_delete :: "portal_env \<Rightarrow> user_row \<Rightarrow> portal \<Rightarrow> portal \<times> portal_response" where
  "request_delete pe u po =
     (case ur_pending u of
        Some t \<Rightarrow> (po, DeletePending t)
      | None \<Rightarrow>
          let t = now_of pe + delete_window;
              po1 = on_auth (update_user (ur_id u) (\<lambda>x. x\<lparr>ur_pending := Some t\<rparr>)) po;
              po2 = note_event ''account.delete_requested'' (Some (ur_id u)) (Some (ur_id u)) ''user'' (nat_str (ur_id u))
                [(''pending_delete_at'', WTime t)] po1
          in (on_auth (\<lambda>st. fst (send_mail (pe_ax pe) (ur_email u) ''account_delete_requested'' [] st)) po2, DeletePending t))"

definition cancel_delete :: "user_row \<Rightarrow> portal \<Rightarrow> portal \<times> portal_response" where
  "cancel_delete u po =
     (if ur_pending u = None then (po, PortalFail 409 ''NO_PENDING_DELETE'')
      else (note_event ''account.delete_cancelled'' (Some (ur_id u)) (Some (ur_id u)) ''user'' (nat_str (ur_id u)) []
              (on_auth (update_user (ur_id u) (\<lambda>x. x\<lparr>ur_pending := None\<rparr>)) po), DeleteCancelled))"

text \<open>A required text field: stripped, not empty, not too long.\<close>

definition char_field :: "nat \<Rightarrow> string \<Rightarrow> string option" where
  "char_field hi raw = (let s = py_strip raw in if s = [] \<or> hi < length s then None else Some s)"

definition accept_terms :: "portal_env \<Rightarrow> nat \<Rightarrow> string \<Rightarrow> string \<Rightarrow> portal \<Rightarrow> portal \<times> portal_response" where
  "accept_terms pe uid raw_tos raw_privacy po =
     (case (char_field 32 raw_tos, char_field 32 raw_privacy) of
        (Some tos, Some privacy) \<Rightarrow>
          if (tos, privacy) \<noteq> current_versions (now_of pe) (po_auth po) then (po, PortalFail 409 ''TERMS_VERSION_MISMATCH'')
          else (record_acceptance pe uid tos privacy (client_ip (pe_request pe)) po, TermsAccepted)
      | _ \<Rightarrow> (po, PortalFail 400 ''INVALID''))"

fun user_handler :: "portal_env \<Rightarrow> user_row \<Rightarrow> user_op \<Rightarrow> portal \<Rightarrow> portal \<times> portal_response" where
  "user_handler pe u ExportStart po = export_request pe (ur_id u) po"
| "user_handler pe u (ExportStatus jid) po = (po, export_status_view pe (ur_id u) jid po)"
| "user_handler pe u (ExportDownload jid) po = (po, export_download pe (ur_id u) jid po)"
| "user_handler pe u DeleteAccount po = request_delete pe u po"
| "user_handler pe u CancelDelete po = cancel_delete u po"
| "user_handler pe u TermsCurrent po =
     (po, TermsState (current_versions (now_of pe) (po_auth po)) (needs_acceptance (now_of pe) (ur_id u) (po_auth po)))"
| "user_handler pe u (TermsAccept tos privacy) po = accept_terms pe (ur_id u) tos privacy po"
| "user_handler pe u OnboardingGet po = (po, OnboardingState (compute_onboarding (ur_id u) po))"

text \<open>A form with a code and a reason, and the check of the code: the state with its throttle, and what to do then.\<close>

definition stepped_up ::
  "portal_env \<Rightarrow> user_row \<Rightarrow> step_up \<Rightarrow> (string \<Rightarrow> portal \<Rightarrow> portal \<times> portal_response) \<Rightarrow> portal \<Rightarrow> portal \<times> portal_response" where
  "stepped_up pe u su f po =
     (case (char_field 16 (su_code su), char_field 255 (su_reason su)) of
        (Some code, Some reason) \<Rightarrow>
          (case verify_mfa_code (pe_ax pe) (pe_cfg pe) (ur_id u) code (po_auth po) of
             (st, None) \<Rightarrow> (po\<lparr>po_auth := st\<rparr>, PortalRaised)
           | (st, Some False) \<Rightarrow> (po\<lparr>po_auth := st\<rparr>, PortalFail 403 ''MFA_REQUIRED'')
           | (st, Some True) \<Rightarrow> f reason (po\<lparr>po_auth := st\<rparr>))
      | _ \<Rightarrow> (po, PortalFail 400 ''VALIDATION_ERROR''))"

definition set_active :: "portal_env \<Rightarrow> user_row \<Rightarrow> nat \<Rightarrow> bool \<Rightarrow> string \<Rightarrow> portal \<Rightarrow> portal \<times> portal_response" where
  "set_active pe admin uid active reason po =
     (case find_user uid (po_auth po) of
        None \<Rightarrow> (po, PortalFail 404 ''NOT_FOUND'')
      | Some u \<Rightarrow>
          let st1 = update_user uid (\<lambda>x. x\<lparr>ur_active := active\<rparr>) (po_auth po);
              (st2, n) = (if active then (st1, 0) else revoke_other_sessions (pe_ax pe) uid None ''admin_disable'' st1)
          in (note_event (if active then ''admin.user_enabled'' else ''admin.user_disabled'') (Some uid) (Some (ur_id admin)) ''user''
                (nat_str uid) [(''is_active'', WBool active), (''reason'', WStr reason), (''families_revoked'', WNum (of_nat n))]
                (po\<lparr>po_auth := st2\<rparr>), UserSet uid active n))"

definition impersonate :: "portal_env \<Rightarrow> user_row \<Rightarrow> nat \<Rightarrow> string \<Rightarrow> portal \<Rightarrow> portal \<times> portal_response" where
  "impersonate pe admin uid reason po =
     (case find_user uid (po_auth po) of
        None \<Rightarrow> (po, PortalFail 404 ''NOT_FOUND'')
      | Some target \<Rightarrow>
          if ur_id target = ur_id admin then (po, PortalFail 400 ''VALIDATION_ERROR'')
          else let (po1, s, token) = start_session pe (ur_id admin) (ur_id target) reason po
               in (po1, Impersonating token (im_id s) (im_expires s)))"

definition halt_confirm_phrase :: string where
  "halt_confirm_phrase = ''HALT PLATFORM''"

definition platform_request :: "nat \<Rightarrow> string \<Rightarrow> halt_request" where
  "platform_request admin reason =
     \<lparr>q_user = None, q_level = L3, q_strategy = None, q_reason = reason, q_created_by = Some admin, q_auto = False, q_flatten = False\<rparr>"

definition engage_platform :: "portal_env \<Rightarrow> user_row \<Rightarrow> string \<Rightarrow> string \<Rightarrow> portal \<Rightarrow> portal \<times> portal_response" where
  "engage_platform pe admin phrase reason po =
     (if phrase \<noteq> halt_confirm_phrase then (po, PortalFail 400 ''CONFIRM_PHRASE_MISMATCH'')
      else let (db1, h) = trigger_halt (pe_env pe) (platform_request (ur_id admin) reason) (po_db po)
           in (note_event ''admin.platform_halt_engaged'' None (Some (ur_id admin)) ''trading_halt'' (nat_str (h_id h))
                 [(''reason'', WStr reason), (''level'', WStr ''L3'')] (po\<lparr>po_db := db1\<rparr>), PlatformHalt (h_id h)))"

definition release_platform :: "portal_env \<Rightarrow> user_row \<Rightarrow> string \<Rightarrow> portal \<Rightarrow> portal \<times> portal_response" where
  "release_platform pe admin reason po =
     (case first_where (\<lambda>h. h_level h = L3 \<and> h_released h = None) (d_halts (po_db po)) of
        None \<Rightarrow> (po, PlatformReleased False)
      | Some h \<Rightarrow>
          (note_event ''admin.platform_halt_released'' None (Some (ur_id admin)) ''trading_halt'' (nat_str (h_id h))
             [(''reason'', WStr reason)] (po\<lparr>po_db := fst (release_halt (pe_env pe) (h_id h) (Some (ur_id admin)) (po_db po))\<rparr>),
           PlatformReleased True))"

definition flip_flag :: "portal_env \<Rightarrow> string \<Rightarrow> bool \<Rightarrow> string \<Rightarrow> portal \<Rightarrow> portal \<times> portal_response" where
  "flip_flag pe name enabled note po =
     (case set_flag (pe_flag pe) name enabled note (po_flags po) of
        (fs, Some FlagImmutable) \<Rightarrow> (po\<lparr>po_flags := fs\<rparr>, PortalFail 400 ''FLAG_IMMUTABLE'')
      | (fs, Some FlagUnknown) \<Rightarrow> (po\<lparr>po_flags := fs\<rparr>, PortalFail 404 ''FLAG_UNKNOWN'')
      | (fs, Some FlagTableError) \<Rightarrow> (po\<lparr>po_flags := fs\<rparr>, PortalRaised)
      | (fs, None) \<Rightarrow> (let (fs2, v) = flag_state (pe_flag pe) name fs in (po\<lparr>po_flags := fs2\<rparr>, FlagFlipped v)))"

fun admin_handler :: "portal_env \<Rightarrow> user_row \<Rightarrow> admin_op \<Rightarrow> portal \<Rightarrow> portal \<times> portal_response" where
  "admin_handler pe u (SetActive uid active su) po = stepped_up pe u su (set_active pe u uid active) po"
| "admin_handler pe u (Impersonate uid su) po = stepped_up pe u su (impersonate pe u uid) po"
| "admin_handler pe u (StopImpersonation sid) po =
     (case find_session (Some sid) po of
        None \<Rightarrow> (po, PortalFail 404 ''NOT_FOUND'')
      | Some s \<Rightarrow> (let (po1, done) = stop_session pe (ur_id u) s po in (po1, Stopped sid done)))"
| "admin_handler pe u PlatformStatus po =
     (po, PlatformState (exists_where (\<lambda>h. h_level h = L3 \<and> h_released h = None) (d_halts (po_db po))))"
| "admin_handler pe u (PlatformEngage su raw) po =
     (let phrase = py_strip raw
      in if 64 < length phrase then (po, PortalFail 400 ''VALIDATION_ERROR'') else stepped_up pe u su (engage_platform pe u phrase) po)"
| "admin_handler pe u (PlatformRelease su) po = stepped_up pe u su (release_platform pe u) po"
| "admin_handler pe u (FlagFlip name enabled su) po =
     (let note = py_strip (su_reason su)
      in if 255 < length note then (po, PortalFail 400 ''VALIDATION_ERROR'')
         else stepped_up pe u (su\<lparr>su_reason := ''-''\<rparr>) (\<lambda>_. flip_flag pe name enabled note) po)"

definition user_request :: "portal_env \<Rightarrow> string \<Rightarrow> user_op \<Rightarrow> portal \<Rightarrow> portal \<times> portal_response" where
  "user_request pe raw op po =
     (case jwt_authenticate pe raw (user_safe op) po of
        (po1, Inl (status, code)) \<Rightarrow> (po1, PortalFail status code)
      | (po1, Inr p) \<Rightarrow> user_handler pe (pl_user p) op po1)"

definition admin_request :: "portal_env \<Rightarrow> string \<Rightarrow> admin_op \<Rightarrow> portal \<Rightarrow> portal \<times> portal_response" where
  "admin_request pe raw op po =
     (if \<not> pe_enabled pe then (po, PortalFail 503 ''ADMIN_PORTAL_DISABLED'')
      else case jwt_authenticate pe raw (admin_safe op) po of
             (po1, Inl (status, code)) \<Rightarrow> (po1, PortalFail status code)
           | (po1, Inr p) \<Rightarrow>
               if admin_allowed p po1 then admin_handler pe (pl_user p) op po1 else (po1, PortalFail 403 ''FORBIDDEN''))"

text \<open>Requests with their tokens, the tasks, and the nightly jobs.\<close>

datatype portal_event =
    UserRequest string user_op
  | AdminRequest string admin_op
  | ExportTask export_fate nat
  | EvictExports
  | Erase

fun portal_step :: "portal_env \<Rightarrow> portal_event \<Rightarrow> portal \<Rightarrow> portal" where
  "portal_step pe (UserRequest raw op) po = fst (user_request pe raw op po)"
| "portal_step pe (AdminRequest raw op) po = fst (admin_request pe raw op po)"
| "portal_step pe (ExportTask fate jid) po = run_data_export pe fate jid po"
| "portal_step pe EvictExports po = evict_expired_exports pe po"
| "portal_step pe Erase po = anonymize_expired_accounts pe po"

fun portal_run :: "(portal_env \<times> portal_event) list \<Rightarrow> portal \<Rightarrow> portal" where
  "portal_run [] po = po"
| "portal_run ((pe, ev) # evs) po = portal_run evs (portal_step pe ev po)"

end
