(* ===== verification/Portal_Safety.thy ===== *)
theory Portal_Safety
  imports Portal
begin

text \<open>
  What the portal guarantees: an impersonator reads and does not write, a stopped impersonation
  stays dead, erasure leaves nothing of an account behind and touches nobody else, an export holds
  no secret and reaches its owner only, and the platform halt needs a step-up and blocks everybody.
\<close>

named_theorems portal_frame

subsection \<open>What the operations leave alone\<close>

lemma on_auth_simps [portal_frame, simp]:
  "po_auth (on_auth f po) = f (po_auth po)" "po_db (on_auth f po) = po_db po" "po_files (on_auth f po) = po_files po"
  "po_flags (on_auth f po) = po_flags po" "po_queue (on_auth f po) = po_queue po"
  by (simp_all add: on_auth_def)

definition with_audits :: "audit_call list \<Rightarrow> portal \<Rightarrow> portal" where
  "with_audits evs = on_auth (\<lambda>st. st\<lparr>st_audits := st_audits st @ evs\<rparr>)"

lemma with_no_audits [simp]: "with_audits [] po = po"
  by (simp add: with_audits_def on_auth_def)

lemma note_event_audits: "\<exists>ev. note_event e u a n i x po = with_audits [ev] po"
  by (auto simp: note_event_def with_audits_def auth_emit_def on_auth_def)

lemma note_event_simps [portal_frame, simp]:
  "po_db (note_event e u a n i x po) = po_db po" "po_files (note_event e u a n i x po) = po_files po"
  "po_flags (note_event e u a n i x po) = po_flags po" "po_queue (note_event e u a n i x po) = po_queue po"
  "st_users (po_auth (note_event e u a n i x po)) = st_users (po_auth po)"
  "st_sessions (po_auth (note_event e u a n i x po)) = st_sessions (po_auth po)"
  "st_exports (po_auth (note_event e u a n i x po)) = st_exports (po_auth po)"
  "st_devices (po_auth (note_event e u a n i x po)) = st_devices (po_auth po)"
  "st_backups (po_auth (note_event e u a n i x po)) = st_backups (po_auth po)"
  "st_profiles (po_auth (note_event e u a n i x po)) = st_profiles (po_auth po)"
  "st_next (po_auth (note_event e u a n i x po)) = st_next (po_auth po)"
  by (simp_all add: note_event_def)

lemma send_mail_more [simp]:
  "st_sessions (fst (send_mail ax t m k st)) = st_sessions st" "st_exports (fst (send_mail ax t m k st)) = st_exports st"
  "st_profiles (fst (send_mail ax t m k st)) = st_profiles st"
  by (simp_all add: send_mail_def Let_def)

lemma update_user_more [simp]:
  "st_sessions (update_user i f st) = st_sessions st" "st_exports (update_user i f st) = st_exports st"
  "st_next (update_user i f st) = st_next st"
  "st_devices (update_user i f st) = st_devices st" "st_backups (update_user i f st) = st_backups st"
  by (simp_all add: update_user_def)

lemma verify_mfa_frame [portal_frame, simp]:
  "st_sessions (fst (verify_mfa_code ax cfg uid code st)) = st_sessions st"
  "st_users (fst (verify_mfa_code ax cfg uid code st)) = st_users st"
  "st_exports (fst (verify_mfa_code ax cfg uid code st)) = st_exports st"
  "st_next (fst (verify_mfa_code ax cfg uid code st)) = st_next st"
  by (simp_all add: verify_mfa_code_def check_code_def consume_backup_code_def emit_stepup_throttled_def Let_def case_prod_beta
      split: option.split bool.split)

lemma revoke_sessions_frame [simp]:
  "st_sessions (fst (revoke_other_sessions ax uid x r st)) = st_sessions st"
  "st_exports (fst (revoke_other_sessions ax uid x r st)) = st_exports st"
  "st_next (fst (revoke_other_sessions ax uid x r st)) = st_next st"
  by (simp_all add: revoke_other_sessions_def revoke_where_def)

subsection \<open>Impersonation only reads\<close>

lemma impersonated_cases:
  assumes "ax_decode (pe_ax pe) ACCESS (now_of pe) raw = Some c" "cl_purpose c = impersonation_purpose"
  obtains (refused) status code where "jwt_authenticate pe raw safe po = (po, Inl (status, code))"
    | (reads) u s ev where "safe" "find_session (cl_session c) po = Some s" "session_active (now_of pe) s"
        "jwt_authenticate pe raw safe po = (with_audits [ev] po, Inr \<lparr>pl_user = u, pl_session = Some s\<rparr>)"
proof (cases "jwt_user pe raw po")
  case None
  then show thesis by (intro refused) (simp add: jwt_authenticate_def)
next
  case (Some cu)
  obtain u where cu: "cu = (c, u)" using Some assms(1)
    by (auto simp: jwt_user_def bind_eq_Some_conv split: if_splits)
  show thesis
  proof (cases "find_session (cl_session c) po")
    case None
    then show thesis using Some cu assms(2) by (intro refused) (simp add: jwt_authenticate_def)
  next
    case (Some s)
    note s = this
    show thesis
    proof (cases "session_active (now_of pe) s \<and> safe")
      case True
      obtain ev where ev: "note_event ''admin.impersonated_read'' (Some (ur_id u)) (Some (im_actor s)) ''user'' (nat_str (ur_id u))
          [(''session_id'', WId (im_id s))] po = with_audits [ev] po" using note_event_audits by blast
      show thesis
      proof (rule reads)
        show "jwt_authenticate pe raw safe po = (with_audits [ev] po, Inr \<lparr>pl_user = u, pl_session = Some s\<rparr>)"
          using \<open>jwt_user pe raw po = Some cu\<close> cu assms(2) s True ev by (simp add: jwt_authenticate_def)
      qed (use s True in auto)
    next
      case False
      then have "\<exists>status code. jwt_authenticate pe raw safe po = (po, Inl (status, code))"
        using \<open>jwt_user pe raw po = Some cu\<close> cu assms(2) s by (auto simp: jwt_authenticate_def)
      then show thesis using refused by blast
    qed
  qed
qed

lemma reads_leave_state: "user_safe op \<Longrightarrow> op \<noteq> ExportStart \<Longrightarrow> fst (user_handler pe u op po) = po"
  by (cases op) auto

lemma impersonated_admin_refused:
  assumes "ax_decode (pe_ax pe) ACCESS (now_of pe) raw = Some c" "cl_purpose c = impersonation_purpose"
  shows "\<exists>evs status code. length evs \<le> 1 \<and> admin_request pe raw aop po = (with_audits evs po, PortalFail status code)"
proof (cases "pe_enabled pe")
  case False
  then show ?thesis by (intro exI [of _ "[]"]) (simp add: admin_request_def)
next
  case True
  from assms show ?thesis
  proof (cases rule: impersonated_cases [of pe raw c "admin_safe aop" po])
    case (refused status code)
    with True show ?thesis by (intro exI [of _ "[]"]) (simp add: admin_request_def)
  next
    case (reads u s ev)
    with True show ?thesis by (intro exI [of _ "[ev]"]) (simp add: admin_request_def admin_allowed_def)
  qed
qed

lemma impersonated_user_request:
  assumes "ax_decode (pe_ax pe) ACCESS (now_of pe) raw = Some c" "cl_purpose c = impersonation_purpose"
  shows "(op \<noteq> ExportStart \<longrightarrow> (\<exists>evs. length evs \<le> 1 \<and> fst (user_request pe raw op po) = with_audits evs po)) \<and>
    (\<not> user_safe op \<longrightarrow> fst (user_request pe raw op po) = po \<and> (\<exists>status code. snd (user_request pe raw op po) = PortalFail status code))"
  using assms
proof (cases rule: impersonated_cases [of pe raw c "user_safe op" po])
  case (refused status code)
  then have "user_request pe raw op po = (po, PortalFail status code)" by (simp add: user_request_def)
  then show ?thesis by (metis fst_conv snd_conv list.size(3) with_no_audits zero_le)
next
  case (reads u s ev)
  then have "user_request pe raw op po = user_handler pe u op (with_audits [ev] po)" by (simp add: user_request_def)
  with reads(1) reads_leave_state [of op pe u "with_audits [ev] po"] show ?thesis
    by (intro conjI impI exI [of _ "[ev]"]) auto
qed

subsection \<open>Stopping an impersonation\<close>

definition session_ended :: "nat \<Rightarrow> portal \<Rightarrow> bool" where
  "session_ended i po \<longleftrightarrow> (\<exists>s. find_session (Some i) po = Some s \<and> im_ended s \<noteq> None)"

lemma session_ended_sessions:
  "session_ended i po \<longleftrightarrow> (\<exists>s. first_where (\<lambda>x. im_id x = i) (st_sessions (po_auth po)) = Some s \<and> im_ended s \<noteq> None)"
  by (simp add: session_ended_def find_session_def)

lemma ended_same:
  "session_ended i po \<Longrightarrow> st_sessions (po_auth po') = st_sessions (po_auth po) \<Longrightarrow> session_ended i po'"
  by (simp add: session_ended_sessions)

lemma stop_ends:
  assumes "find_session (Some i) po = Some s"
  shows "session_ended i (fst (stop_session pe a s po))"
proof -
  have i: "im_id s = i" and f: "first_where (\<lambda>x. im_id x = i) (st_sessions (po_auth po)) = Some s"
    using assms first_where_Some [of "\<lambda>x. im_id x = i"] by (auto simp: find_session_def)
  show ?thesis
    by (auto simp: stop_session_def session_ended_sessions f i first_where_update_where)
qed

lemma stop_keeps_ended:
  assumes "session_ended i po"
  shows "session_ended i (fst (stop_session pe a s po))"
proof -
  obtain x where x: "first_where (\<lambda>x. im_id x = i) (st_sessions (po_auth po)) = Some x" "im_ended x \<noteq> None"
    using assms by (auto simp: session_ended_sessions)
  show ?thesis
    by (cases "im_id x = im_id s") (use x in \<open>simp_all add: stop_session_def session_ended_sessions first_where_update_where\<close>)
qed

lemma start_keeps_ended: "session_ended i po \<Longrightarrow> session_ended i (fst (start_session pe a t r po))"
  by (auto simp: start_session_def session_ended_sessions first_where_append Let_def)

lemma authenticate_sessions: "st_sessions (po_auth (fst (jwt_authenticate pe raw safe po))) = st_sessions (po_auth po)"
  by (simp add: jwt_authenticate_def split: option.split prod.split)

lemma user_handler_sessions: "st_sessions (po_auth (fst (user_handler pe u op po))) = st_sessions (po_auth po)"
  by (cases op) (auto simp: export_request_def request_delete_def cancel_delete_def accept_terms_def record_acceptance_def Let_def
      split: list.split option.split)

text \<open>What a step-up check and the operation behind it keep, the whole request keeps.\<close>

lemma stepped_up_keeps:
  assumes "P po" "\<And>code. P (po\<lparr>po_auth := fst (verify_mfa_code (pe_ax pe) (pe_cfg pe) (ur_id u) code (po_auth po))\<rparr>)"
    and "\<And>reason po'. P po' \<Longrightarrow> P (fst (f reason po'))"
  shows "P (fst (stepped_up pe u su f po))"
  using assms by (auto simp: stepped_up_def split: option.splits bool.splits prod.splits) (metis fst_conv)+

definition portal_part :: "portal \<Rightarrow> impersonation list \<times> export_job list \<times> nat \<times> (string \<times> string) list" where
  "portal_part po = (st_sessions (po_auth po), st_exports (po_auth po), st_next (po_auth po), po_files po)"

lemma admin_parts:
  "portal_part (fst (set_active pe u uid active r po)) = portal_part po"
  "portal_part (fst (engage_platform pe u phrase r po)) = portal_part po"
  "portal_part (fst (release_platform pe u r po)) = portal_part po"
  "portal_part (fst (flip_flag pe name enabled r po)) = portal_part po"
  "portal_part (po\<lparr>po_auth := fst (verify_mfa_code ax cfg uid code (po_auth po))\<rparr>) = portal_part po"
  by (auto simp: portal_part_def set_active_def engage_platform_def release_platform_def flip_flag_def Let_def case_prod_beta
      split: option.split prod.splits flag_error.splits)

text \<open>What only depends on these tables and survives starting and stopping, an administrator's request keeps.\<close>

lemma admin_handler_keeps:
  assumes P: "P po" and same: "\<And>po po'. P po \<Longrightarrow> portal_part po' = portal_part po \<Longrightarrow> P po'"
    and start: "\<And>a t r po. P po \<Longrightarrow> P (fst (start_session pe a t r po))"
    and stop: "\<And>a s po. P po \<Longrightarrow> P (fst (stop_session pe a s po))"
  shows "P (fst (admin_handler pe u op po))"
proof -
  have up: "P (fst (stepped_up pe u su f po))" if "\<And>reason po'. P po' \<Longrightarrow> P (fst (f reason po'))" for su f
    by (rule stepped_up_keeps [OF P same [OF P admin_parts(5)] that])
  have imp: "P (fst (impersonate pe u uid r po'))" if "P po'" for uid r po'
    using that start by (auto simp: impersonate_def case_prod_beta split: option.split)
  show ?thesis
  proof (cases op)
    case (StopImpersonation sid)
    with P stop show ?thesis by (auto simp: case_prod_beta split: option.split)
  qed (use P up imp same [OF _ admin_parts(1)] same [OF _ admin_parts(2)] same [OF _ admin_parts(3)] same [OF _ admin_parts(4)] in \<open>simp_all add: Let_def\<close>)
qed

lemma admin_handler_ended: "session_ended i po \<Longrightarrow> session_ended i (fst (admin_handler pe u op po))"
  by (rule admin_handler_keeps [where P = "session_ended i"])
    (auto simp: portal_part_def intro: ended_same start_keeps_ended stop_keeps_ended)

lemma portal_step_ended: "session_ended i po \<Longrightarrow> session_ended i (portal_step pe ev po)"
proof (cases ev)
  case (UserRequest raw op)
  assume "session_ended i po"
  then show ?thesis unfolding UserRequest
    by (rule ended_same)
      (simp add: user_request_def authenticate_sessions user_handler_sessions split: prod.split sum.split;
       metis authenticate_sessions fst_conv user_handler_sessions)
next
  case (AdminRequest raw op)
  assume *: "session_ended i po"
  then have "session_ended i (fst (jwt_authenticate pe raw (admin_safe op) po))"
    by (rule ended_same) (rule authenticate_sessions)
  with * show ?thesis
    by (auto simp: AdminRequest admin_request_def admin_handler_ended split: prod.split sum.split)
next
  case (ExportTask fate jid)
  assume "session_ended i po"
  then show ?thesis unfolding ExportTask
    by (rule ended_same) (simp add: run_data_export_def set_job_def Let_def split: option.split export_fate.split)
next
  case EvictExports
  assume "session_ended i po"
  then show ?thesis unfolding EvictExports
    by (rule ended_same) (simp add: evict_expired_exports_def delete_export_jobs_def Let_def)
next
  case Erase
  assume *: "session_ended i po"
  have "st_sessions (po_auth (anonymize_user pe u po')) = st_sessions (po_auth po')" for u po'
    by (simp add: anonymize_user_def delete_export_jobs_def Let_def)
  then have "st_sessions (po_auth (fold (anonymize_user pe) us po')) = st_sessions (po_auth po')" for us po'
    by (induction us arbitrary: po') simp_all
  with * show ?thesis unfolding Erase
    by (intro ended_same [OF *]) (simp add: anonymize_expired_accounts_def)
qed

lemma portal_run_ended: "session_ended i po \<Longrightarrow> session_ended i (portal_run evs po)"
  by (induction evs po rule: portal_run.induct) (simp_all add: portal_step_ended)

lemma ended_session_refused:
  assumes "session_ended i po" "ax_decode (pe_ax pe) ACCESS (now_of pe) raw = Some c"
    "cl_purpose c = impersonation_purpose" "cl_session c = Some i"
  shows "\<exists>code. \<forall>safe. jwt_authenticate pe raw safe po = (po, Inl (401, code))"
proof (cases "jwt_user pe raw po")
  case (Some cu)
  then obtain u where "cu = (c, u)" using assms(2) by (auto simp: jwt_user_def bind_eq_Some_conv split: if_splits)
  with Some assms show ?thesis
    by (auto simp: session_ended_def jwt_authenticate_def session_active_def)
qed (simp add: jwt_authenticate_def)

subsection \<open>A sample portal\<close>

text \<open>User 7 has a broker account and asks for erasure; user 8 is an administrator with MFA.\<close>

definition portal_claims :: "nat \<Rightarrow> string \<Rightarrow> nat option \<Rightarrow> claims" where
  "portal_claims uid purpose sid =
     \<lparr>cl_jti = 1, cl_user = Some uid, cl_family = None, cl_purpose = purpose, cl_session = sid, cl_extra = []\<rparr>"

definition portal_ax :: "int \<Rightarrow> auth_env" where
  "portal_ax now = sample_ax\<lparr>ax_now := now, ax_decode := (\<lambda>t now raw.
     if raw = ''trader'' then Some (portal_claims 7 [] None)
     else if raw = ''admin'' then Some (portal_claims 8 [] None)
     else if raw = ''as-trader'' then Some (portal_claims 7 impersonation_purpose (Some 100)) else None)\<rparr>"

definition sample_pe :: "int \<Rightarrow> portal_env" where
  "sample_pe now = \<lparr>pe_ax = portal_ax now, pe_cfg = sample_settings, pe_env = sample_env, pe_flag = sample_flags_env,
     pe_enabled = True, pe_storage_ready = True, pe_overwrites = False, pe_suffix = ''x'', pe_zip = (\<lambda>sections. concat (map fst sections)), pe_tables = (\<lambda>uid po. []),
     pe_profile = (\<lambda>uid po. None), pe_updated = (\<lambda>uid po. 0), pe_iso = int_str, pe_hex = nat_str, pe_unusable = (\<lambda>n. ''!'' @ nat_str n),
     pe_request = sample_web ''10.0.0.1''\<rparr>"

definition sample_portal :: portal where
  "sample_portal = \<lparr>po_auth = sample_auth\<lparr>st_users := [(sample_user 7 ''a@x.io'')\<lparr>ur_pending := Some 900\<rparr>,
       (sample_user 8 ''b@x.io'')\<lparr>ur_staff := True\<rparr>],
     st_devices := [\<lparr>md_id = 71, md_user = 7, md_secret = ''S'', md_verified = True, md_enrolled = Some 5\<rparr>,
       \<lparr>md_id = 72, md_user = 8, md_secret = ''S'', md_verified = True, md_enrolled = Some 5\<rparr>]\<rparr>,
     po_db = sample_db, po_flags = sample_flags, po_files = [], po_queue = []\<rparr>"

definition sample_su :: step_up where
  "sample_su = \<lparr>su_code = ''123456'', su_reason = ''ticket 12''\<rparr>"

definition impersonated_portal :: portal where
  "impersonated_portal = on_auth (\<lambda>st. st\<lparr>st_sessions := [\<lparr>im_id = 100, im_actor = 8, im_target = 7,
     im_reason = ''ticket 12'', im_started = 1000, im_expires = 5000, im_ended = None\<rparr>]\<rparr>) sample_portal"

lemma sample_jwt:
  "jwt_authenticate (sample_pe now) ''admin'' safe impersonated_portal =
     (impersonated_portal, Inr \<lparr>pl_user = (sample_user 8 ''b@x.io'')\<lparr>ur_staff := True\<rparr>, pl_session = None\<rparr>)"
  "admin_allowed \<lparr>pl_user = (sample_user 8 ''b@x.io'')\<lparr>ur_staff := True\<rparr>, pl_session = None\<rparr> impersonated_portal"
  "pe_enabled (sample_pe now)"
  by (simp_all add: jwt_authenticate_def jwt_user_def find_user_def first_where_Cons sample_pe_def portal_ax_def portal_claims_def
      impersonated_portal_def sample_portal_def sample_user_def sample_auth_def impersonation_purpose_def admin_allowed_def
      user_mfa_def exists_where_def)

subsection \<open>Properties\<close>



text \<open>
  C32. Stopping an impersonation is at once and for good: after an administrator has stopped session
  \<open>i\<close>, whatever requests, tasks and nightly jobs follow, a token of that session - not yet
  expired - is refused with 401 by the users' and by the administrators' requests, and changes nothing.
\<close>

theorem stopped_session_stays_dead:
  assumes "admin_request pe raw (StopImpersonation i) po = (po1, Stopped i done)"
    and "ax_decode (pe_ax pe') ACCESS (now_of pe') token = Some c" "cl_purpose c = impersonation_purpose" "cl_session c = Some i"
    and "pe_enabled pe'"
  shows "\<exists>code. user_request pe' token op (portal_run evs po1) = (portal_run evs po1, PortalFail 401 code) \<and>
    admin_request pe' token aop (portal_run evs po1) = (portal_run evs po1, PortalFail 401 code)"
proof -
  from assms(1) have "session_ended i po1"
    by (auto simp: admin_request_def case_prod_beta intro: stop_ends split: if_splits sum.splits option.splits)
  then have "session_ended i (portal_run evs po1)" by (rule portal_run_ended)
  from ended_session_refused [OF this assms(2-4)] obtain code
    where "\<And>safe. jwt_authenticate pe' token safe (portal_run evs po1) = (portal_run evs po1, Inl (401, code))" by blast
  then show ?thesis using assms(5) by (auto simp: user_request_def admin_request_def)
qed

definition stopped_portal :: portal where
  "stopped_portal = fst (admin_request (sample_pe 1001) ''admin'' (StopImpersonation 100) impersonated_portal)"

theorem stopped_session_stays_dead_witness:
  "\<exists>code. user_request (sample_pe 1003) ''as-trader'' ExportStart (portal_run [(sample_pe 1002, Erase)] stopped_portal) =
     (portal_run [(sample_pe 1002, Erase)] stopped_portal, PortalFail 401 code)"
proof -
  have "admin_request (sample_pe 1001) ''admin'' (StopImpersonation 100) impersonated_portal = (stopped_portal, Stopped 100 True)"
    by (simp add: stopped_portal_def prod_eq_iff admin_request_def sample_jwt find_session_def case_prod_beta)
      (simp add: impersonated_portal_def stop_session_def first_where_Cons)
  moreover have "ax_decode (pe_ax (sample_pe 1003)) ACCESS (now_of (sample_pe 1003)) ''as-trader'' =
      Some (portal_claims 7 impersonation_purpose (Some 100))" by (simp add: sample_pe_def portal_ax_def)
  ultimately show ?thesis
    using stopped_session_stays_dead [of "sample_pe 1001" "''admin''" 100 impersonated_portal stopped_portal True "sample_pe 1003"
        "''as-trader''" _ ExportStart "[(sample_pe 1002, Erase)]" PlatformStatus]
    by (auto simp: portal_claims_def sample_pe_def)
qed

subsection \<open>Erasure\<close>

text \<open>What the tables hold of one user: the row, the second factor's rows, broker accounts and exports.\<close>

definition own_rows :: "nat \<Rightarrow> portal \<Rightarrow> user_row list \<times> mfa_device list \<times> backup_code list \<times> account list \<times> export_job list" where
  "own_rows uid po =
     (filter (\<lambda>u. ur_id u = uid) (st_users (po_auth po)), filter (\<lambda>d. md_user d = uid) (st_devices (po_auth po)),
      filter (\<lambda>b. bk_user b = uid) (st_backups (po_auth po)), filter (\<lambda>a. b_user a = uid) (d_accounts (po_db po)),
      filter (\<lambda>j. xj_user j = uid) (st_exports (po_auth po)))"

lemma delete_accounts_rows: "d_accounts (delete_accounts is db) = filter (\<lambda>a. b_id a \<notin> set is) (d_accounts db)"
  by (induction "is" db rule: delete_accounts.induct) (simp_all add: delete_account_def conj_commute)

lemma filter_update_keeps:
  "(\<And>x. q (f x) = q x) \<Longrightarrow> filter q (update_where p f xs) = update_where p f (filter q xs)"
  by (induction xs) (auto simp: update_where_Cons)

lemma filter_other: "a \<noteq> b \<Longrightarrow> filter (\<lambda>x. f x = a \<and> f x \<noteq> b) xs = filter (\<lambda>x. f x = a) xs"
  by (rule filter_cong) auto

lemma key_differs: "distinct (map f (x # xs)) \<Longrightarrow> y \<in> set xs \<Longrightarrow> f y \<noteq> f x"
  by (metis distinct.simps(2) image_eqI list.simps(9) set_map)

lemma filter_key: "distinct (map f xs) \<Longrightarrow> x \<in> set xs \<Longrightarrow> filter (\<lambda>y. f y = f x) xs = [x]"
  by (induction xs) (auto simp: filter_empty_conv image_iff)

lemma anonymize_tables:
  fixes pe u po
  defines "po' \<equiv> anonymize_user pe u po"
  shows "st_users (po_auth po') = update_where (\<lambda>x. ur_id x = ur_id u) (anonymized pe (st_next (po_auth po))) (st_users (po_auth po))"
    and "st_devices (po_auth po') = filter (\<lambda>d. md_user d \<noteq> ur_id u) (st_devices (po_auth po))"
    and "st_backups (po_auth po') = filter (\<lambda>d. bk_user d \<noteq> ur_id u) (st_backups (po_auth po))"
    and "st_exports (po_auth po') = filter (\<lambda>d. xj_user d \<noteq> ur_id u) (st_exports (po_auth po))"
    and "d_accounts (po_db po') =
      filter (\<lambda>a. b_id a \<notin> b_id ` {a \<in> set (d_accounts (po_db po)). b_user a = ur_id u}) (d_accounts (po_db po))"
    and "po_files po' = filter (\<lambda>f. fst f = [] \<or> fst f \<notin> xj_file ` {j \<in> set (st_exports (po_auth po)). xj_user j = ur_id u}) (po_files po)"
  by (simp_all add: po'_def anonymize_user_def delete_export_jobs_def delete_accounts_rows update_user_def Let_def)

lemma anonymized_simps [simp]: "ur_id (anonymized pe n u) = ur_id u"
  by (simp add: anonymized_def)

lemma anonymize_other:
  assumes "distinct (map b_id (d_accounts (po_db po)))" "uid \<noteq> ur_id u"
  shows "own_rows uid (anonymize_user pe u po) = own_rows uid po"
proof -
  have users: "filter (\<lambda>x. ur_id x = uid) (update_where (\<lambda>x. ur_id x = ur_id u) (anonymized pe n) xs) =
      filter (\<lambda>x. ur_id x = uid) xs" for n xs
    using assms(2) by (simp add: filter_update_keeps) (rule update_where_none, simp)
  have "b_id a \<notin> b_id ` {a \<in> set (d_accounts (po_db po)). b_user a = ur_id u}"
    if "a \<in> set (d_accounts (po_db po))" "b_user a = uid" for a
    using that assms by (auto simp: distinct_map dest: inj_onD)
  then have accounts: "filter (\<lambda>a. b_user a = uid \<and> b_id a \<notin> b_id ` {a \<in> set (d_accounts (po_db po)). b_user a = ur_id u})
      (d_accounts (po_db po)) = filter (\<lambda>a. b_user a = uid) (d_accounts (po_db po))"
    by (intro filter_cong) auto
  from users accounts show ?thesis by (simp add: own_rows_def anonymize_tables conj_commute filter_other [OF assms(2)])
qed

lemma anonymize_self:
  "\<exists>n. own_rows (ur_id u) (anonymize_user pe u po) = (map (anonymized pe n) (fst (own_rows (ur_id u) po)), [], [], [], [])"
proof -
  have users: "filter (\<lambda>x. ur_id x = ur_id u) (update_where (\<lambda>x. ur_id x = ur_id u) (anonymized pe n) xs) =
      map (anonymized pe n) (filter (\<lambda>x. ur_id x = ur_id u) xs)" for n xs
    by (induction xs) (auto simp: update_where_Cons)
  show ?thesis
    by (intro exI [of _ "st_next (po_auth po)"]) (auto simp: own_rows_def anonymize_tables users filter_empty_conv)
qed

lemma erase_others:
  assumes "distinct (map b_id (d_accounts (po_db po)))" "uid \<notin> ur_id ` set us"
  shows "own_rows uid (fold (anonymize_user pe) us po) = own_rows uid po"
  using assms
proof (induction us arbitrary: po)
  case (Cons u us)
  have "distinct (map b_id (d_accounts (po_db (anonymize_user pe u po))))"
    using Cons.prems(1) by (simp add: anonymize_tables distinct_map_filter)
  with Cons show ?case by (simp add: anonymize_other)
qed simp

lemma erase_each:
  assumes "distinct (map b_id (d_accounts (po_db po)))" "distinct (map ur_id us)" "u \<in> set us"
  shows "\<exists>n. own_rows (ur_id u) (fold (anonymize_user pe) us po) =
    (map (anonymized pe n) (fst (own_rows (ur_id u) po)), [], [], [], [])"
  using assms
proof (induction us arbitrary: po)
  case (Cons x us)
  have d: "distinct (map b_id (d_accounts (po_db (anonymize_user pe x po))))"
    using Cons.prems(1) by (simp add: anonymize_tables distinct_map_filter)
  show ?case
  proof (cases "u = x")
    case True
    with Cons.prems erase_others [OF d, of "ur_id u" us pe] anonymize_self [of u pe po] show ?thesis by simp
  next
    case False
    with Cons.prems have "u \<in> set us" "ur_id u \<noteq> ur_id x" using key_differs [of ur_id x us u] by auto
    with Cons.IH [OF d] Cons.prems show ?thesis by (simp add: anonymize_other)
  qed
qed simp

lemma fold_files: "set (po_files (fold (anonymize_user pe) us po)) \<subseteq> set (po_files po)"
proof (induction us arbitrary: po)
  case (Cons u us)
  from Cons [of "anonymize_user pe u po"] show ?case by (auto simp: anonymize_tables)
qed simp

lemma erase_files:
  assumes "distinct (map b_id (d_accounts (po_db po)))" "distinct (map ur_id us)" "u \<in> set us"
    and "j \<in> set (st_exports (po_auth po))" "xj_user j = ur_id u" "xj_file j \<noteq> []"
  shows "xj_file j \<notin> fst ` set (po_files (fold (anonymize_user pe) us po))"
  using assms
proof (induction us arbitrary: po)
  case (Cons x us)
  have d: "distinct (map b_id (d_accounts (po_db (anonymize_user pe x po))))"
    using Cons.prems(1) by (simp add: anonymize_tables distinct_map_filter)
  show ?case
  proof (cases "u = x")
    case True
    have "xj_file j \<notin> fst ` set (po_files (anonymize_user pe x po))"
      using Cons.prems True by (auto simp: anonymize_tables)
    then show ?thesis using fold_files [of pe us "anonymize_user pe x po"] by auto
  next
    case False
    with Cons.prems have "u \<in> set us" "j \<in> set (st_exports (po_auth (anonymize_user pe x po)))"
      using key_differs [of ur_id x us u] by (auto simp: anonymize_tables)
    with Cons.IH [OF d] Cons.prems show ?thesis by simp
  qed
qed simp



text \<open>
  An account that an administrator disabled while its erasure was pending is passed over by the job,
  however long ago the period ended: the job asks for active accounts.
\<close>

lemma disabled_never_erased:
  assumes "distinct (map ur_id (st_users (po_auth po)))" "distinct (map b_id (d_accounts (po_db po)))"
    and "u \<in> set (st_users (po_auth po))" "\<not> ur_active u"
  shows "own_rows (ur_id u) (anonymize_expired_accounts pe po) = own_rows (ur_id u) po"
proof -
  have "ur_id u \<notin> ur_id ` set (filter (erasure_due (now_of pe)) (st_users (po_auth po)))"
    using assms(1,3,4) by (auto simp: distinct_map erasure_due_def dest: inj_onD)
  then show ?thesis unfolding anonymize_expired_accounts_def by (rule erase_others [OF assms(2)])
qed

subsection \<open>Exports\<close>

definition export_path :: "nat \<Rightarrow> string \<Rightarrow> string" where
  "export_path uid name = ''exports/'' @ nat_str uid @ ''/'' @ name"

definition made_for :: "nat \<Rightarrow> string \<Rightarrow> bool" where
  "made_for uid data \<longleftrightarrow> (\<exists>pe u po. ur_id u = uid \<and> data = build_export_zip pe u po)"

text \<open>A job names no file but its own, and a stored file was built for the user in its path.\<close>

definition exports_ok :: "portal \<Rightarrow> bool" where
  "exports_ok po \<longleftrightarrow>
     distinct (map xj_id (st_exports (po_auth po))) \<and>
     (\<forall>j\<in>set (st_exports (po_auth po)). xj_id j < st_next (po_auth po) \<and> xj_file j \<in> {[], file_key j}) \<and>
     (\<forall>f\<in>set (po_files po). \<exists>uid name. fst f = export_path uid name \<and> made_for uid (snd f))"

lemma exports_ok_same:
  assumes "exports_ok po" "st_exports (po_auth po') = st_exports (po_auth po)" "po_files po' = po_files po"
    "st_next (po_auth po) \<le> st_next (po_auth po')"
  shows "exports_ok po'"
  using assms by (fastforce simp: exports_ok_def)

lemma exports_ok_fewer:
  assumes "exports_ok po" "st_exports (po_auth po') = filter p (st_exports (po_auth po))" "set (po_files po') \<subseteq> set (po_files po)"
    "st_next (po_auth po) \<le> st_next (po_auth po')"
  shows "exports_ok po'"
  using assms by (fastforce simp: exports_ok_def distinct_map_filter)

lemma export_path_user: "export_path a x = export_path b y \<Longrightarrow> a = b"
proof -
  assume same: "export_path a x = export_path b y"
  have no_slash: "CHR ''/'' \<notin> set (nat_str k)" for k
    using nat_str_digits [of k] by (auto simp: list_all_iff is_digit_char_def char_code_def)
  have "takeWhile (\<lambda>c. c \<noteq> CHR ''/'') (drop 8 (export_path k x)) = nat_str k" for k x
    using no_slash [of k] by (auto simp: export_path_def takeWhile_append)
  from this [of a x] this [of b y] same have "nat_str a = nat_str b" by simp
  then show "a = b" by (simp add: nat_str_inj)
qed

lemma file_key_path: "\<exists>name. file_key j = export_path (xj_user j) name"
  by (auto simp: file_key_def export_path_def)

lemma store_file_ok:
  assumes "f \<in> set (store_file pe j data files)"
  shows "f \<in> set files \<or> (snd f = data \<and> (\<exists>name. fst f = export_path (xj_user j) name))"
  using assms file_key_path [of j] by (auto simp: store_file_def export_path_def split: if_splits)

lemma set_job_ok:
  assumes "exports_ok po" "\<And>x. xj_id (f x) = xj_id x" "\<And>x. xj_user (f x) = xj_user x"
    "\<And>x. x \<in> set (st_exports (po_auth po)) \<Longrightarrow> xj_id x = i \<Longrightarrow> xj_file (f x) \<in> {[], file_key x}"
  shows "exports_ok (set_job i f po)"
proof -
  have "file_key (f x) = file_key x" for x by (simp add: file_key_def assms(2,3))
  moreover have "map xj_id (update_where (\<lambda>j. xj_id j = i) f (st_exports (po_auth po))) = map xj_id (st_exports (po_auth po))"
    by (rule map_update_where) (rule assms(2))
  moreover have "\<forall>x\<in>set (st_exports (po_auth po)). xj_id x = i \<longrightarrow> xj_file (f x) \<noteq> [] \<longrightarrow> xj_file (f x) = file_key x"
    using assms(4) by auto
  ultimately show ?thesis using assms(1,2) by (auto simp: exports_ok_def set_job_def set_update_where)
qed

lemma note_event_ok: "exports_ok po \<Longrightarrow> exports_ok (note_event e u a n i x po)"
  by (erule exports_ok_same) simp_all

lemma send_mail_ok_exports: "exports_ok po \<Longrightarrow> exports_ok (on_auth (\<lambda>st. fst (send_mail ax t m k st)) po)"
  by (erule exports_ok_same) simp_all

lemma run_data_export_ok:
  assumes ok: "exports_ok po"
  shows "exports_ok (run_data_export pe fate jid po)"
proof (cases "first_where (\<lambda>j. xj_id j = jid) (st_exports (po_auth po))")
  case None
  with ok show ?thesis by (simp add: run_data_export_def)
next
  case (Some j)
  then have j: "j \<in> set (st_exports (po_auth po))" "xj_id j = jid" using first_where_Some by fastforce+
  have kept: "exports_ok (set_job jid f po')"
    if "exports_ok po'" "\<And>x. xj_id (f x) = xj_id x" "\<And>x. xj_user (f x) = xj_user x" "\<And>x. xj_file (f x) = xj_file x" for f po'
    using that by (intro set_job_ok) (auto simp: exports_ok_def file_key_def)
  let ?po1 = "set_job jid (\<lambda>x. x\<lparr>xj_status := EXPORT_RUNNING\<rparr>) po"
  have ok1: "exports_ok ?po1" by (rule kept [OF ok]) simp_all
  have built: "exports_ok (set_job jid (\<lambda>x. x\<lparr>xj_status := EXPORT_READY, xj_file := file_key j, xj_size := n, xj_ready := r,
      xj_expires := t\<rparr>) (?po1\<lparr>po_files := store_file pe j (build_export_zip pe u ?po1) (po_files ?po1)\<rparr>))"
    if "find_user (xj_user j) (po_auth po) = Some u" for n r t u
  proof (rule set_job_ok)
    have "ur_id u = xj_user j" using that first_where_Some by (fastforce simp: find_user_def)
    then have "made_for (xj_user j) (build_export_zip pe u ?po1)" unfolding made_for_def by blast
    with ok1 show "exports_ok (?po1\<lparr>po_files := store_file pe j (build_export_zip pe u ?po1) (po_files ?po1)\<rparr>)"
      by (auto simp: exports_ok_def dest!: store_file_ok)
    fix x
    assume x: "x \<in> set (st_exports (po_auth (?po1\<lparr>po_files := store_file pe j (build_export_zip pe u ?po1) (po_files ?po1)\<rparr>)))" "xj_id x = jid"
    then have "x \<in> (\<lambda>y. if xj_id y = jid then y\<lparr>xj_status := EXPORT_RUNNING\<rparr> else y) ` set (st_exports (po_auth po))"
      by (simp add: set_job_def set_update_where)
    then obtain x0 where x0: "x0 \<in> set (st_exports (po_auth po))" "x = (if xj_id x0 = jid then x0\<lparr>xj_status := EXPORT_RUNNING\<rparr> else x0)"
      by (rule imageE)
    have "xj_id x0 = jid" using x(2) x0(2) by (cases "xj_id x0 = jid") simp_all
    moreover from this x0(2) have "file_key x0 = file_key x" by (simp add: file_key_def)
    moreover have "x0 = j" using ok j x0(1) \<open>xj_id x0 = jid\<close> by (auto simp: exports_ok_def distinct_map dest: inj_onD)
    ultimately show "xj_file (x\<lparr>xj_status := EXPORT_READY, xj_file := file_key j, xj_size := n, xj_ready := r, xj_expires := t\<rparr>)
      \<in> {[], file_key x}" by simp
  qed simp_all
  have stored: "exports_ok (run_data_export pe fate jid po)"
    if "\<not> (xj_status j = EXPORT_READY \<or> xj_status j = EXPORT_EXPIRED)" "pe_storage_ready pe"
  proof (cases fate)
    case WorkerKilled
    with that Some ok1 show ?thesis by (simp add: run_data_export_def Let_def)
  next
    case (ExportRaised err)
    have "exports_ok (set_job jid (\<lambda>x. x\<lparr>xj_status := EXPORT_FAILED, xj_error := take 256 err\<rparr>) ?po1)"
      by (rule kept [OF ok1]) simp_all
    with that Some ExportRaised show ?thesis by (simp add: run_data_export_def Let_def note_event_ok)
  next
    case ExportBuilt
    show ?thesis
    proof (cases "find_user (xj_user j) (po_auth po)")
      case None
      with that Some ExportBuilt ok1 show ?thesis by (simp add: run_data_export_def Let_def)
    next
      case (Some u)
      with that \<open>first_where _ _ = Some j\<close> ExportBuilt show ?thesis
        by (simp add: run_data_export_def Let_def) (intro send_mail_ok_exports note_event_ok built, simp)
    qed
  qed
  have "exports_ok (set_job jid (\<lambda>x. x\<lparr>xj_error := e\<rparr>) po)" for e by (rule kept [OF ok]) simp_all
  then show ?thesis using stored Some ok
    by (cases "xj_status j = EXPORT_READY \<or> xj_status j = EXPORT_EXPIRED"; cases "pe_storage_ready pe")
      (auto simp: run_data_export_def)
qed

lemma export_request_ok: "exports_ok po \<Longrightarrow> exports_ok (fst (export_request pe uid po))"
  by (auto simp: export_request_def Let_def exports_ok_def less_Suc_eq split: list.split)

lemma authenticate_ok: "exports_ok po \<Longrightarrow> exports_ok (fst (jwt_authenticate pe raw safe po))"
  by (auto simp: jwt_authenticate_def intro: note_event_ok split: option.split)

lemma user_handler_ok: "exports_ok po \<Longrightarrow> exports_ok (fst (user_handler pe u op po))"
  by (cases op) (auto simp: export_request_ok request_delete_def cancel_delete_def accept_terms_def record_acceptance_def Let_def
      intro!: note_event_ok send_mail_ok_exports split: option.split elim: exports_ok_same)

lemma admin_handler_ok: "exports_ok po \<Longrightarrow> exports_ok (fst (admin_handler pe u op po))"
proof (rule admin_handler_keeps [where P = exports_ok])
  show "exports_ok po'" if "exports_ok po" "portal_part po' = portal_part po" for po po'
    by (rule exports_ok_same [OF that(1)]) (use that(2) in \<open>simp_all add: portal_part_def\<close>)
  show "exports_ok (fst (start_session pe a t r po))" if "exports_ok po" for a t r po
    by (rule exports_ok_same [OF that]) (simp_all add: start_session_def Let_def)
  show "exports_ok (fst (stop_session pe a s po))" if "exports_ok po" for a s po
    by (rule exports_ok_same [OF that]) (simp_all add: stop_session_def)
qed

lemma anonymize_ok: "exports_ok po \<Longrightarrow> exports_ok (anonymize_user pe u po)"
  by (erule exports_ok_fewer) (auto simp: anonymize_tables, simp add: anonymize_user_def delete_export_jobs_def Let_def)

lemma portal_step_ok: "exports_ok po \<Longrightarrow> exports_ok (portal_step pe ev po)"
proof (induction pe ev po rule: portal_step.induct)
  case (1 pe raw op po)
  then show ?case using authenticate_ok [of po pe raw "user_safe op"]
    by (auto simp: user_request_def user_handler_ok split: prod.splits sum.splits)
next
  case (2 pe raw op po)
  then show ?case using authenticate_ok [of po pe raw "admin_safe op"]
    by (auto simp: admin_request_def admin_handler_ok split: prod.splits sum.splits)
next
  case (3 pe fate jid po)
  then show ?case by (simp add: run_data_export_ok)
next
  case (4 pe po)
  then show ?case by (auto simp: evict_expired_exports_def delete_export_jobs_def Let_def elim: exports_ok_fewer)
next
  case (5 pe po)
  then have "exports_ok (fold (anonymize_user pe) us po)" for us
    by (induction us arbitrary: po) (simp_all add: anonymize_ok)
  then show ?case by (simp add: anonymize_expired_accounts_def)
qed

lemma portal_run_ok: "exports_ok po \<Longrightarrow> exports_ok (portal_run evs po)"
  by (induction evs po rule: portal_run.induct) (simp_all add: portal_step_ok)


definition exporting :: "(portal_env \<times> portal_event) list" where
  "exporting = [(sample_pe 1000, UserRequest ''as-trader'' ExportStart), (sample_pe 1001, ExportTask ExportBuilt 100)]"

text \<open>An impersonator can have the user's data exported, and downloads it: asking for an export is a GET.\<close>

lemma impersonator_gets_export:
  "\<exists>data. snd (user_request (sample_pe 1002) ''as-trader'' (ExportDownload 100) (portal_run exporting impersonated_portal)) = ExportBytes data"
  by (simp add: exporting_def user_request_def jwt_authenticate_def jwt_user_def find_user_def first_where_Cons sample_pe_def portal_ax_def
      portal_claims_def impersonated_portal_def sample_portal_def sample_user_def sample_auth_def impersonation_purpose_def
      find_session_def session_active_def now_of_def note_event_def auth_emit_def on_auth_def export_request_def Let_def
      run_data_export_def set_job_def update_where_Cons send_mail_def sample_ax_def export_download_def own_job_def job_expired_def
      export_ttl_def seconds_def file_key_def store_file_def exists_where_def)


text \<open>A row without the values of its sensitive fields.\<close>

definition public_row :: "field_row \<Rightarrow> field_row" where
  "public_row row = map (\<lambda>(name, attname, v). (name, attname, if is_sensitive attname \<or> is_sensitive name then JNull else v)) row"

definition public_tables :: "(string \<times> field_row list) list \<Rightarrow> (string \<times> field_row list) list" where
  "public_tables = map (\<lambda>(name, rows). (name, map public_row rows))"

lemma serialize_public: "serialize_instance row =
    map (\<lambda>(name, attname, v). (name, if is_sensitive attname \<or> is_sensitive name then JStr export_redacted else v)) (public_row row)"
  by (auto simp: serialize_instance_def public_row_def)

lemma public_serialized: "public_row row = public_row row' \<Longrightarrow> serialize_instance row = serialize_instance row'"
  by (simp add: serialize_public)

lemma public_sections:
  assumes "public_tables ts = public_tables ts'"
  shows "map (\<lambda>(name, rows). (name, JArr (map (\<lambda>row. JObj (serialize_instance row)) rows))) ts =
    map (\<lambda>(name, rows). (name, JArr (map (\<lambda>row. JObj (serialize_instance row)) rows))) ts'"
proof -
  have "map (\<lambda>(name, rows). (name, JArr (map (\<lambda>row. JObj (serialize_instance row)) rows))) ts =
      map (\<lambda>(name, rows). (name, JArr (map (\<lambda>row. JObj (map (\<lambda>(name, attname, v).
        (name, if is_sensitive attname \<or> is_sensitive name then JStr export_redacted else v)) row)) rows))) (public_tables ts)" for ts
    by (auto simp: public_tables_def serialize_public)
  with assms show ?thesis by simp
qed

text \<open>
  An export tells no secret: two states of the tables that differ only in the values of fields
  whose name looks sensitive give the very same archive. Broker keys and tokens, webhook and MFA
  secrets and backup-code hashes are such fields.
\<close>

theorem export_tells_no_secret:
  assumes "public_tables (pe_tables pe (ur_id u) po) = public_tables (t (ur_id u) po)"
    and "map_option public_row (pe_profile pe (ur_id u) po) = map_option public_row (p (ur_id u) po)"
  shows "build_export_zip pe u po = build_export_zip (pe\<lparr>pe_tables := t, pe_profile := p\<rparr>) u po \<and>
    list_all is_sensitive [''api_key_id_enc'', ''api_secret_enc'', ''ts_access_token_enc'', ''ts_refresh_token_enc'',
      ''secret_encrypted'', ''code_hash'']"
proof
  have "(case pe_profile pe (ur_id u) po of None \<Rightarrow> JNull | Some row \<Rightarrow> JObj (serialize_instance row)) =
      (case p (ur_id u) po of None \<Rightarrow> JNull | Some row \<Rightarrow> JObj (serialize_instance row))"
    using assms(2) by (cases "pe_profile pe (ur_id u) po"; cases "p (ur_id u) po") (auto dest: public_serialized)
  with public_sections [OF assms(1)]
  show "build_export_zip pe u po = build_export_zip (pe\<lparr>pe_tables := t, pe_profile := p\<rparr>) u po"
    by (cases "ur_pending u") (simp_all add: build_export_zip_def export_sections_def json_time_def)
qed code_simp

theorem export_tells_no_secret_witness:
  "build_export_zip ((sample_pe 1)\<lparr>pe_tables := \<lambda>i po. [(''broker_accounts.json'', [[(''api_secret_enc'', ''api_secret_enc'', JStr ''k1'')]])]\<rparr>)
      (sample_user 7 ''a@x.io'') sample_portal =
   build_export_zip ((sample_pe 1)\<lparr>pe_tables := \<lambda>i po. [(''broker_accounts.json'', [[(''api_secret_enc'', ''api_secret_enc'', JStr ''k2'')]])]\<rparr>)
      (sample_user 7 ''a@x.io'') sample_portal"
proof -
  have "is_sensitive ''api_secret_enc''" by code_simp
  then show ?thesis
    using export_tells_no_secret [of "(sample_pe 1)\<lparr>pe_tables :=
        \<lambda>i po. [(''broker_accounts.json'', [[(''api_secret_enc'', ''api_secret_enc'', JStr ''k1'')]])]\<rparr>" "sample_user 7 ''a@x.io''" sample_portal
        "\<lambda>i po. [(''broker_accounts.json'', [[(''api_secret_enc'', ''api_secret_enc'', JStr ''k2'')]])]" "\<lambda>i po. None"]
    by (simp add: public_tables_def public_row_def sample_pe_def)
qed

subsection \<open>Administrators\<close>

fun form_of :: "admin_op \<Rightarrow> step_up option" where
  "form_of (SetActive uid active su) = Some su"
| "form_of (Impersonate uid su) = Some su"
| "form_of (PlatformEngage su phrase) = Some su"
| "form_of (PlatformRelease su) = Some su"
| "form_of (FlagFlip name enabled su) = Some su"
| "form_of _ = None"

definition passed :: "portal_response \<Rightarrow> bool" where
  "passed r \<longleftrightarrow> (case r of PortalFail status code \<Rightarrow> False | PortalRaised \<Rightarrow> False | _ \<Rightarrow> True)"

lemma stepped_up_passed:
  assumes "passed (snd (stepped_up pe u su f po))"
  shows "snd (verify_mfa_code (pe_ax pe) (pe_cfg pe) (ur_id u) (py_strip (su_code su)) (po_auth po)) = Some True"
  using assms
  by (auto simp: stepped_up_def char_field_def passed_def Let_def split: option.splits bool.splits prod.splits if_splits)

lemma admin_request_passed:
  assumes "passed (snd (admin_request pe raw op po))"
  obtains c u where "jwt_user pe raw po = Some (c, u)" "cl_purpose c \<noteq> impersonation_purpose" "ur_staff u"
    "user_mfa (ur_id u) (po_auth po)" "pe_enabled pe" "admin_request pe raw op po = admin_handler pe u op po"
proof -
  from assms have on: "pe_enabled pe" by (auto simp: admin_request_def passed_def split: if_splits)
  from assms obtain c u where cu: "jwt_user pe raw po = Some (c, u)"
    by (cases "jwt_user pe raw po") (auto simp: admin_request_def jwt_authenticate_def passed_def split: if_splits)
  have own: "cl_purpose c \<noteq> impersonation_purpose"
    using assms cu by (auto simp: admin_request_def jwt_authenticate_def passed_def admin_allowed_def split: if_splits option.splits)
  with assms cu on that show thesis
    by (auto simp: admin_request_def jwt_authenticate_def passed_def admin_allowed_def split: if_splits)
qed

text \<open>
  C35. Administration is guarded: a request that is not refused carries its caller's own token - an
  active staff account with MFA, not an impersonation - and, if it changes anything but the end of an
  impersonation, a code that passed the step-up check.
\<close>

theorem admin_requests_guarded:
  assumes "passed (snd (admin_request pe raw op po))"
  shows "\<exists>c u. jwt_user pe raw po = Some (c, u) \<and> cl_purpose c \<noteq> impersonation_purpose \<and> ur_active u \<and> ur_staff u \<and>
    user_mfa (ur_id u) (po_auth po) \<and>
    (case form_of op of
       None \<Rightarrow> True
     | Some su \<Rightarrow> snd (verify_mfa_code (pe_ax pe) (pe_cfg pe) (ur_id u) (py_strip (su_code su)) (po_auth po)) = Some True)"
proof -
  from assms obtain c u where u: "jwt_user pe raw po = Some (c, u)" "cl_purpose c \<noteq> impersonation_purpose" "ur_staff u"
    "user_mfa (ur_id u) (po_auth po)" "admin_request pe raw op po = admin_handler pe u op po"
    by (rule admin_request_passed)
  have "ur_active u" using u(1) by (auto simp: jwt_user_def bind_eq_Some_conv split: if_splits)
  moreover have "case form_of op of None \<Rightarrow> True
      | Some su \<Rightarrow> snd (verify_mfa_code (pe_ax pe) (pe_cfg pe) (ur_id u) (py_strip (su_code su)) (po_auth po)) = Some True"
    using assms unfolding u(5) by (cases op) (auto simp: Let_def passed_def [of "PortalFail _ _"] dest: stepped_up_passed split: if_splits)
  ultimately show ?thesis using u by blast
qed

lemma code_passes: "snd (verify_mfa_code (portal_ax 1000) sample_settings 8 ''123456'' (po_auth impersonated_portal)) = Some True"
  by code_simp

lemma sample_su_fields: "char_field 16 ''123456'' = Some ''123456''" "char_field 255 ''ticket 12'' = Some ''ticket 12''"
  "py_strip ''HALT PLATFORM'' = ''HALT PLATFORM''"
  "py_strip ''123456'' = ''123456''"
  by code_simp+

lemma sample_engage: "snd (admin_request (sample_pe 1000) ''admin'' (PlatformEngage sample_su ''HALT PLATFORM'') impersonated_portal) = PlatformHalt 100"
proof -
  obtain st where "verify_mfa_code (portal_ax 1000) sample_settings 8 ''123456'' (po_auth impersonated_portal) = (st, Some True)"
    using code_passes by (cases "verify_mfa_code (portal_ax 1000) sample_settings 8 ''123456'' (po_auth impersonated_portal)") auto
  moreover have "h_id (snd (trigger_halt sample_env (platform_request 8 ''ticket 12'') sample_db)) = 100" by code_simp
  ultimately show ?thesis
    by (simp add: admin_request_def sample_jwt)
      (simp add: stepped_up_def sample_su_def sample_su_fields sample_pe_def engage_platform_def
        halt_confirm_phrase_def case_prod_beta impersonated_portal_def sample_portal_def sample_user_def)
qed

theorem admin_requests_guarded_witness:
  "\<exists>c u. jwt_user (sample_pe 1000) ''admin'' impersonated_portal = Some (c, u) \<and> ur_staff u \<and>
    snd (verify_mfa_code (pe_ax (sample_pe 1000)) (pe_cfg (sample_pe 1000)) (ur_id u) (py_strip (su_code sample_su))
      (po_auth impersonated_portal)) = Some True"
  using admin_requests_guarded [of "sample_pe 1000" "''admin''" "PlatformEngage sample_su ''HALT PLATFORM''" impersonated_portal] sample_engage
  by (auto simp: passed_def)

text \<open>
  The platform halt of an administrator takes effect on everybody at once: when the request
  succeeds, the confirmation phrase was typed, and new orders of every user and of every strategy are
  blocked as \<open>PLATFORM_HALTED\<close>; nothing else of the accounts, flags and files changes.
\<close>

theorem platform_halt_blocks_everyone:
  assumes "halts_wf (po_db po)" "admin_request pe raw (PlatformEngage su phrase) po = (po', PlatformHalt i)"
  shows "py_strip phrase = ''HALT PLATFORM'' \<and> is_blocked (po_db po') uid st = Some ''PLATFORM_HALTED'' \<and> halts_wf (po_db po') \<and>
    st_users (po_auth po') = st_users (po_auth po) \<and> st_sessions (po_auth po') = st_sessions (po_auth po) \<and>
    po_flags po' = po_flags po \<and> po_files po' = po_files po"
proof -
  have "passed (snd (admin_request pe raw (PlatformEngage su phrase) po))" using assms(2) by (simp add: passed_def)
  then obtain c u where "admin_request pe raw (PlatformEngage su phrase) po = admin_handler pe u (PlatformEngage su phrase) po"
    by (rule admin_request_passed)
  with assms(2) have "stepped_up pe u su (engage_platform pe u (py_strip phrase)) po = (po', PlatformHalt i)"
    by (simp add: Let_def split: if_splits)
  then obtain reason st1 where st1: "st1 = fst (verify_mfa_code (pe_ax pe) (pe_cfg pe) (ur_id u) (py_strip (su_code su)) (po_auth po))"
    and e: "engage_platform pe u (py_strip phrase) reason (po\<lparr>po_auth := st1\<rparr>) = (po', PlatformHalt i)"
    by (auto simp: stepped_up_def char_field_def Let_def split: option.splits bool.splits prod.splits if_splits)
  let ?q = "platform_request (ur_id u) reason"
  from e have phrase: "py_strip phrase = halt_confirm_phrase"
    and db': "po_db po' = fst (trigger_halt (pe_env pe) ?q (po_db po))"
    and rest: "st_users (po_auth po') = st_users st1" "st_sessions (po_auth po') = st_sessions st1"
      "po_flags po' = po_flags po" "po_files po' = po_files po"
    by (auto simp: engage_platform_def case_prod_beta split: if_splits)
  have q: "request_ok ?q" "q_level ?q = L3" "q_user ?q = None" by (simp_all add: request_ok_def platform_request_def)
  from trigger_in_force [OF q(1) assms(1), of "pe_env pe"] q
  obtain h where "h \<in> set (d_halts (po_db po'))" "h_user h = None" "h_level h = L3" "h_released h = None"
    unfolding db' by (auto simp: halt_scope_query_def)
  then have "is_blocked (po_db po') uid st = Some ''PLATFORM_HALTED''" by (auto simp: is_blocked_def exists_where_iff)
  moreover have "halts_wf (po_db po')" unfolding db' by (rule trigger_halt_wf [OF assms(1) q(1)])
  ultimately show ?thesis using phrase rest st1 by (simp add: halt_confirm_phrase_def)
qed

theorem platform_halt_blocks_everyone_witness:
  "is_blocked (po_db (fst (admin_request (sample_pe 1000) ''admin'' (PlatformEngage sample_su ''HALT PLATFORM'') impersonated_portal)))
     8 (Some 3) = Some ''PLATFORM_HALTED''"
  using platform_halt_blocks_everyone [of impersonated_portal "sample_pe 1000" "''admin''" sample_su "''HALT PLATFORM''" _ 100 8 "Some 3"]
    sample_engage sample_halts_wf
  by (metis (no_types, lifting) impersonated_portal_def on_auth_simps(2) prod.collapse portal.select_convs(2) sample_portal_def)

end
