(* ===== verification/Replay.thy ===== *)
theory Replay
  imports Risk_Integration
begin

text \<open>
  The replay engine of the backtester (\<open>backtest/replay_engine.py\<close>): market fills at the next
  open with slippage and a volume cap, stops and targets inside a bar, forced close on the last bar.
  The arithmetic is that of floats, each operation followed by the rounding \<open>rnd\<close>: the program is
  \<open>rnd = fl\<close>, and \<open>rnd = exact\<close> is the same engine in exact arithmetic. A frame is a list of bars with their
  signals, oldest first; prices are finite.
\<close>

subsection \<open>Bars, configuration and positions\<close>

record rp_bar =
  rb_ts :: int
  rb_open :: rat
  rb_high :: rat
  rb_low :: rat
  rb_close :: rat
  rb_volume :: rat

record rp_signal =
  gs_entry :: bool
  gs_exit :: bool
  gs_stop :: "rat option"
  gs_target :: "rat option"

type_synonym frame = "(rp_bar \<times> rp_signal) list"

record replay_config =
  rc_cash :: rat
  rc_slippage_bps :: rat
  rc_per_order :: rat
  rc_per_share :: rat
  rc_participation :: rat
  rc_production :: bool

record trade =
  tr_symbol :: string
  tr_entry_ts :: "int option"
  tr_exit_ts :: int
  tr_entry_price :: rat
  tr_exit_price :: rat
  tr_qty :: rat
  tr_pnl :: rat
  tr_mfe :: rat
  tr_mae :: rat
  tr_bars_held :: nat
  tr_reason :: string
  tr_entry_commission :: rat
  tr_exit_commission :: rat
  tr_partial :: bool
  tr_cancelled :: rat

record held =
  hp_target_qty :: rat
  hp_stop_pct :: "rat option"
  hp_target_pct :: "rat option"
  hp_qty :: rat
  hp_cost :: rat
  hp_filling :: nat
  hp_complete :: bool
  hp_entry_ts :: "int option"
  hp_entry_bar :: nat
  hp_commission :: rat
  hp_mfe :: rat
  hp_mae :: rat
  hp_init :: bool

definition max_fill_bars :: nat where
  "max_fill_bars = 5"

definition tiny_qty :: rat where
  "tiny_qty = fl (1 / 10 ^ 12)"

definition small_qty :: rat where
  "small_qty = fl (1 / 10 ^ 9)"

definition exact :: "rat \<Rightarrow> rat" where
  "exact x = x"

definition avg_entry :: "(rat \<Rightarrow> rat) \<Rightarrow> held \<Rightarrow> rat" where
  "avg_entry rnd p = (if 0 < hp_qty p then rnd (hp_cost p / hp_qty p) else 0)"

definition stop_price :: "(rat \<Rightarrow> rat) \<Rightarrow> held \<Rightarrow> rat option" where
  "stop_price rnd p =
     (case hp_stop_pct p of None \<Rightarrow> None | Some x \<Rightarrow> if x = 0 then None else Some (rnd (avg_entry rnd p * rnd (1 - x))))"

definition target_price :: "(rat \<Rightarrow> rat) \<Rightarrow> held \<Rightarrow> rat option" where
  "target_price rnd p =
     (case hp_target_pct p of None \<Rightarrow> None | Some x \<Rightarrow> if x = 0 then None else Some (rnd (avg_entry rnd p * rnd (1 + x))))"

subsection \<open>Sizing an entry\<close>

text \<open>Bars are oldest first; each price is read as the decimal its text shows.\<close>

definition atr14_from_bars :: "rp_bar list \<Rightarrow> nat \<Rightarrow> rat option" where
  "atr14_from_bars bars end_pos =
     (let window = drop (end_pos - 14) (take (Suc end_pos) bars);
          rows = map (\<lambda>b. (float_str_value (rb_high b), float_str_value (rb_low b), float_str_value (rb_close b))) window;
          trs = map (\<lambda>((h, l, c), prev). max (max (h - l) \<bar>h - prev\<bar>) \<bar>l - prev\<bar>)
                  (zip (tl rows) (map (\<lambda>(h, l, c). c) rows))
      in if length window < 2 then None else Some (dec_round (sum_list trs / of_nat (length trs))))"

definition build_sizing_inputs :: "string \<Rightarrow> rat \<Rightarrow> rat \<Rightarrow> rat option \<Rightarrow> rat option \<Rightarrow> sizing_inputs" where
  "build_sizing_inputs symb price equity atr stop =
     \<lparr>si_requested = 0, si_side = ''BUY'', si_symbol = symb, si_price = price, si_equity = equity, si_regime = ''NEUTRAL'',
      si_sentiment = 0, si_dd = 0, si_atr14 = atr, si_stop = stop, si_mult = 1, si_lot = 1\<rparr>"

definition size_entry ::
  "rp_bar list \<Rightarrow> string \<Rightarrow> replay_config \<Rightarrow> risk_profile option \<Rightarrow> nat \<Rightarrow> rat \<Rightarrow> rat \<Rightarrow> rat option \<Rightarrow> rat" where
  "size_entry bars symb cfg profile full_pos price equity stop_pct =
     (if \<not> rc_production cfg then 1
      else case profile of
             None \<Rightarrow> 0
           | Some pr \<Rightarrow>
               let stop = (case stop_pct of None \<Rightarrow> None
                     | Some x \<Rightarrow> if x = 0 then None else Some (dec_round (float_str_value price * float_str_value x)));
                   r = compute_size (build_sizing_inputs symb (float_str_value price) (float_str_value equity)
                         (atr14_from_bars bars full_pos) stop) pr
               in if sr_ok r then fl (sr_qty r) else 0)"

subsection \<open>One bar\<close>

record rp_state =
  rs_cash :: rat
  rs_pos :: "held option"
  rs_signal :: "(rat option \<times> rat option \<times> rat) option"
  rs_exit :: bool
  rs_trades :: "trade list"
  rs_equity :: "rat list"
  rs_exposure :: nat

definition slip :: "(rat \<Rightarrow> rat) \<Rightarrow> replay_config \<Rightarrow> rat" where
  "slip rnd cfg = rnd (rc_slippage_bps cfg / 10000)"

definition commission :: "(rat \<Rightarrow> rat) \<Rightarrow> replay_config \<Rightarrow> rat \<Rightarrow> rat" where
  "commission rnd cfg q = rnd (rc_per_order cfg + rnd (rc_per_share cfg * q))"

definition sell_price :: "(rat \<Rightarrow> rat) \<Rightarrow> replay_config \<Rightarrow> rat \<Rightarrow> rat" where
  "sell_price rnd cfg x = rnd (x * rnd (1 - slip rnd cfg))"

text \<open>\<open>_close\<close>, with the position dropped.\<close>

definition close_position ::
  "(rat \<Rightarrow> rat) \<Rightarrow> replay_config \<Rightarrow> string \<Rightarrow> held \<Rightarrow> rat \<Rightarrow> string \<Rightarrow> int \<Rightarrow> nat \<Rightarrow> rp_state \<Rightarrow> rp_state" where
  "close_position rnd cfg symb p price reason ts j st =
     (let q = hp_qty p; exit_comm = commission rnd cfg q; proceeds = rnd (q * price);
          pnl = rnd (rnd (rnd (proceeds - rnd (q * avg_entry rnd p)) - hp_commission p) - exit_comm);
          t = \<lparr>tr_symbol = symb, tr_entry_ts = hp_entry_ts p, tr_exit_ts = ts, tr_entry_price = avg_entry rnd p,
               tr_exit_price = price, tr_qty = q, tr_pnl = pnl, tr_mfe = hp_mfe p, tr_mae = hp_mae p,
               tr_bars_held = max 1 (Suc j - hp_entry_bar p), tr_reason = reason, tr_entry_commission = hp_commission p,
               tr_exit_commission = exit_comm, tr_partial = rnd (q + small_qty) < hp_target_qty p,
               tr_cancelled = max 0 (rnd (hp_target_qty p - q))\<rparr>
      in st\<lparr>rs_cash := rnd (rs_cash st + rnd (proceeds - exit_comm)), rs_trades := rs_trades st @ [t], rs_pos := None\<rparr>)"

definition exit_at_open :: "(rat \<Rightarrow> rat) \<Rightarrow> replay_config \<Rightarrow> string \<Rightarrow> nat \<Rightarrow> rp_bar \<Rightarrow> rp_state \<Rightarrow> rp_state" where
  "exit_at_open rnd cfg symb j b st =
     (case rs_pos st of
        None \<Rightarrow> st
      | Some p \<Rightarrow>
          if rs_exit st \<and> hp_complete p \<and> 0 < hp_qty p
          then (close_position rnd cfg symb p (sell_price rnd cfg (rb_open b)) ''signal'' (rb_ts b) j st)\<lparr>rs_exit := False\<rparr>
          else st)"

definition new_held :: "rat option \<Rightarrow> rat option \<Rightarrow> rat \<Rightarrow> nat \<Rightarrow> held" where
  "new_held sp tp q j =
     \<lparr>hp_target_qty = q, hp_stop_pct = sp, hp_target_pct = tp, hp_qty = 0, hp_cost = 0, hp_filling = 0, hp_complete = False,
      hp_entry_ts = None, hp_entry_bar = j, hp_commission = 0, hp_mfe = 0, hp_mae = 0, hp_init = False\<rparr>"

definition begin_entry :: "nat \<Rightarrow> rp_state \<Rightarrow> rp_state" where
  "begin_entry j st =
     (case (rs_signal st, rs_pos st) of
        (Some (sp, tp, q), None) \<Rightarrow> st\<lparr>rs_pos := Some (new_held sp tp q j), rs_signal := None\<rparr>
      | _ \<Rightarrow> st)"

text \<open>What of the order is bought in this bar, and the position and the cash after it.\<close>

definition fill_qty :: "(rat \<Rightarrow> rat) \<Rightarrow> replay_config \<Rightarrow> held \<Rightarrow> rp_bar \<Rightarrow> rat" where
  "fill_qty rnd cfg p b =
     (let cap = rnd (rnd (rc_participation cfg / 100) * rb_volume b)
      in if 0 < cap then min (rnd (hp_target_qty p - hp_qty p)) cap else 0)"

definition buy :: "(rat \<Rightarrow> rat) \<Rightarrow> replay_config \<Rightarrow> nat \<Rightarrow> rp_bar \<Rightarrow> held \<Rightarrow> rat \<Rightarrow> held \<times> rat" where
  "buy rnd cfg j b p cash =
     (let fill = fill_qty rnd cfg p b; price = rnd (rb_open b * rnd (1 + slip rnd cfg)); spent = rnd (fill * price)
      in if tiny_qty < fill
         then (let p1 = p\<lparr>hp_qty := rnd (hp_qty p + fill), hp_cost := rnd (hp_cost p + spent)\<rparr>
               in (if hp_entry_ts p = None then p1\<lparr>hp_entry_ts := Some (rb_ts b), hp_entry_bar := j\<rparr> else p1, rnd (cash - spent)))
         else (p, cash))"

definition fill_entry :: "(rat \<Rightarrow> rat) \<Rightarrow> replay_config \<Rightarrow> nat \<Rightarrow> rp_bar \<Rightarrow> rp_state \<Rightarrow> rp_state" where
  "fill_entry rnd cfg j b st =
     (case rs_pos st of
        None \<Rightarrow> st
      | Some p \<Rightarrow>
          if hp_complete p then st
          else
            let (p1, cash) = buy rnd cfg j b p (rs_cash st);
                p2 = p1\<lparr>hp_filling := hp_filling p1 + 1\<rparr>
            in if rnd (hp_target_qty p2 - hp_qty p2) \<le> small_qty \<or> max_fill_bars \<le> hp_filling p2
               then (if hp_qty p2 \<le> tiny_qty then st\<lparr>rs_cash := cash, rs_pos := None\<rparr>
                     else let c = commission rnd cfg (hp_qty p2)
                          in st\<lparr>rs_cash := rnd (cash - c), rs_pos := Some (p2\<lparr>hp_complete := True, hp_commission := c\<rparr>)\<rparr>)
               else st\<lparr>rs_cash := cash, rs_pos := Some p2\<rparr>)"

definition update_excursions :: "(rat \<Rightarrow> rat) \<Rightarrow> held \<Rightarrow> rp_bar \<Rightarrow> held" where
  "update_excursions rnd p b =
     (let fav = rnd (rb_high b - avg_entry rnd p); adv = rnd (rb_low b - avg_entry rnd p)
      in if \<not> hp_init p then p\<lparr>hp_mfe := fav, hp_mae := adv, hp_init := True\<rparr>
         else p\<lparr>hp_mfe := max (hp_mfe p) fav, hp_mae := min (hp_mae p) adv\<rparr>)"

definition check_exit :: "(rat \<Rightarrow> rat) \<Rightarrow> held \<Rightarrow> rp_bar \<Rightarrow> (rat \<times> string) option" where
  "check_exit rnd p b =
     (case stop_price rnd p of
        Some s \<Rightarrow>
          if rb_low b \<le> s then Some (min (rb_open b) s, ''stop'')
          else (case target_price rnd p of Some t \<Rightarrow> if t \<le> rb_high b then Some (max (rb_open b) t, ''target'') else None | None \<Rightarrow> None)
      | None \<Rightarrow>
          (case target_price rnd p of Some t \<Rightarrow> if t \<le> rb_high b then Some (max (rb_open b) t, ''target'') else None | None \<Rightarrow> None))"

definition stops_and_targets :: "(rat \<Rightarrow> rat) \<Rightarrow> replay_config \<Rightarrow> string \<Rightarrow> nat \<Rightarrow> rp_bar \<Rightarrow> rp_state \<Rightarrow> rp_state" where
  "stops_and_targets rnd cfg symb j b st =
     (case rs_pos st of
        None \<Rightarrow> st
      | Some p \<Rightarrow>
          if \<not> 0 < hp_qty p then st
          else
            let p1 = update_excursions rnd p b
            in case check_exit rnd p1 b of
                 None \<Rightarrow> st\<lparr>rs_pos := Some p1\<rparr>
               | Some (px, reason) \<Rightarrow> close_position rnd cfg symb p1 (sell_price rnd cfg px) reason (rb_ts b) j st)"

definition force_close :: "(rat \<Rightarrow> rat) \<Rightarrow> replay_config \<Rightarrow> string \<Rightarrow> nat \<Rightarrow> nat \<Rightarrow> rp_bar \<Rightarrow> rp_state \<Rightarrow> rp_state" where
  "force_close rnd cfg symb n j b st =
     (case rs_pos st of
        None \<Rightarrow> st
      | Some p \<Rightarrow>
          if Suc j = n \<and> 0 < hp_qty p
          then
            (let late = \<not> hp_complete p \<and> hp_commission p = 0; c = commission rnd cfg (hp_qty p);
                 p1 = (if late then p\<lparr>hp_commission := c, hp_complete := True\<rparr> else p);
                 st1 = (if late then st\<lparr>rs_cash := rnd (rs_cash st - c)\<rparr> else st)
             in close_position rnd cfg symb p1 (sell_price rnd cfg (rb_close b)) ''force_close'' (rb_ts b) j st1)
          else st)"

definition mark_equity :: "(rat \<Rightarrow> rat) \<Rightarrow> rp_bar \<Rightarrow> rp_state \<Rightarrow> rp_state" where
  "mark_equity rnd b st =
     (case rs_pos st of
        None \<Rightarrow> st\<lparr>rs_equity := rs_equity st @ [rs_cash st]\<rparr>
      | Some p \<Rightarrow> st\<lparr>rs_equity := rs_equity st @ [rnd (rs_cash st + rnd (hp_qty p * rb_close b))],
                   rs_exposure := rs_exposure st + (if 0 < hp_qty p then 1 else 0)\<rparr>)"

definition new_signals :: "(rp_bar \<Rightarrow> rat \<Rightarrow> rat option \<Rightarrow> rat) \<Rightarrow> nat \<Rightarrow> nat \<Rightarrow> rp_bar \<Rightarrow> rp_signal \<Rightarrow> rp_state \<Rightarrow> rp_state" where
  "new_signals size_of n j b s st =
     (if gs_entry s \<and> gs_exit s then st
      else if gs_entry s \<and> rs_pos st = None \<and> rs_signal st = None \<and> Suc j < n
      then (let q = size_of b (rs_cash st) (gs_stop s)
            in if 0 < q then st\<lparr>rs_signal := Some (gs_stop s, gs_target s, q)\<rparr> else st)
      else if gs_exit s \<and> (case rs_pos st of None \<Rightarrow> False | Some p \<Rightarrow> hp_complete p) then st\<lparr>rs_exit := True\<rparr>
      else st)"

definition replay_bar ::
  "(rat \<Rightarrow> rat) \<Rightarrow> replay_config \<Rightarrow> string \<Rightarrow> (rp_bar \<Rightarrow> rat \<Rightarrow> rat option \<Rightarrow> rat) \<Rightarrow> nat \<Rightarrow> nat \<Rightarrow> rp_bar \<Rightarrow> rp_signal \<Rightarrow>
     rp_state \<Rightarrow> rp_state" where
  "replay_bar rnd cfg symb size_of n j b s st =
     new_signals size_of n j b s
       (mark_equity rnd b
         (force_close rnd cfg symb n j b
           (stops_and_targets rnd cfg symb j b
             (fill_entry rnd cfg j b
               (begin_entry j (exit_at_open rnd cfg symb j b st))))))"

subsection \<open>A window\<close>

fun replay_bars ::
  "(rat \<Rightarrow> rat) \<Rightarrow> replay_config \<Rightarrow> string \<Rightarrow> (rp_bar \<Rightarrow> rat \<Rightarrow> rat option \<Rightarrow> rat) \<Rightarrow> nat \<Rightarrow> nat \<Rightarrow> frame \<Rightarrow> rp_state \<Rightarrow> rp_state" where
  "replay_bars rnd cfg symb size_of n j [] st = st"
| "replay_bars rnd cfg symb size_of n j ((b, s) # w) st =
     replay_bars rnd cfg symb size_of n (Suc j) w (replay_bar rnd cfg symb size_of n j b s st)"

definition start_state :: "replay_config \<Rightarrow> rp_state" where
  "start_state cfg =
     \<lparr>rs_cash = rc_cash cfg, rs_pos = None, rs_signal = None, rs_exit = False, rs_trades = [], rs_equity = [], rs_exposure = 0\<rparr>"

record replay_result =
  rr_equity :: "rat list"
  rr_trades :: "trade list"
  rr_exposure :: nat
  rr_n_bars :: nat

definition in_window :: "int \<Rightarrow> int \<Rightarrow> rp_bar \<times> rp_signal \<Rightarrow> bool" where
  "in_window start_ts end_ts x \<longleftrightarrow> start_ts \<le> rb_ts (fst x) \<and> rb_ts (fst x) < end_ts"

text \<open>The position of a bar in the whole frame, by its time.\<close>

definition full_pos :: "frame \<Rightarrow> int \<Rightarrow> nat" where
  "full_pos fr ts = length (takeWhile (\<lambda>x. rb_ts (fst x) \<noteq> ts) fr)"

definition size_in :: "frame \<Rightarrow> string \<Rightarrow> replay_config \<Rightarrow> risk_profile option \<Rightarrow> rp_bar \<Rightarrow> rat \<Rightarrow> rat option \<Rightarrow> rat" where
  "size_in fr symb cfg profile b cash sp =
     size_entry (map fst fr) symb cfg profile (full_pos fr (rb_ts b)) (rb_close b) cash sp"

definition replay_from :: "(rat \<Rightarrow> rat) \<Rightarrow> frame \<Rightarrow> string \<Rightarrow> int \<Rightarrow> int \<Rightarrow> replay_config \<Rightarrow> risk_profile option \<Rightarrow> rp_state" where
  "replay_from rnd fr symb start_ts end_ts cfg profile =
     (let w = filter (in_window start_ts end_ts) fr
      in replay_bars rnd cfg symb (size_in fr symb cfg profile) (length w) 0 w (start_state cfg))"

definition replay :: "(rat \<Rightarrow> rat) \<Rightarrow> frame \<Rightarrow> string \<Rightarrow> int \<Rightarrow> int \<Rightarrow> replay_config \<Rightarrow> risk_profile option \<Rightarrow> replay_result" where
  "replay rnd fr symb start_ts end_ts cfg profile =
     (let st = replay_from rnd fr symb start_ts end_ts cfg profile
      in \<lparr>rr_equity = rs_equity st, rr_trades = rs_trades st, rr_exposure = rs_exposure st,
          rr_n_bars = length (filter (in_window start_ts end_ts) fr)\<rparr>)"

end
