(* ===== verification/Replay_Safety.thy ===== *)
theory Replay_Safety
  imports Replay
begin

text \<open>
  What the replay guarantees: in exact arithmetic every change of the cash is in the profit of some
  trade, trades never overlap and never look ahead, and its average true range is the one of the live sizing.
\<close>

subsection \<open>Exact arithmetic: the books balance\<close>

definition position_value :: "held option \<Rightarrow> rat" where
  "position_value po = (case po of None \<Rightarrow> 0 | Some p \<Rightarrow> hp_cost p + hp_commission p)"

definition realised :: "rp_state \<Rightarrow> rat" where
  "realised st = sum_list (map tr_pnl (rs_trades st))"

definition held_ok :: "held \<Rightarrow> bool" where
  "held_ok p \<longleftrightarrow> (hp_qty p = 0 \<and> hp_cost p = 0 \<and> \<not> hp_complete p \<or> tiny_qty < hp_qty p) \<and> (\<not> hp_complete p \<longrightarrow> hp_commission p = 0)"

definition balanced :: "rat \<Rightarrow> rp_state \<Rightarrow> bool" where
  "balanced cash st \<longleftrightarrow> rs_cash st + position_value (rs_pos st) = cash + realised st \<and> (\<forall>p. rs_pos st = Some p \<longrightarrow> held_ok p)"

lemma tiny_pos: "0 < tiny_qty"
  unfolding tiny_qty_def by (rule binary64.rnd_pos) simp

lemma balanced_close:
  assumes "rs_cash st + hp_cost p + hp_commission p = cash + realised st" "0 < hp_qty p"
  shows "balanced cash (close_position exact cfg symb p price reason ts j st)"
  using assms by (simp add: balanced_def close_position_def position_value_def realised_def avg_entry_def Let_def exact_def)

lemma balanced_exit [simp]: "balanced cash (st\<lparr>rs_exit := e\<rparr>) = balanced cash st"
  by (simp add: balanced_def position_value_def realised_def)

lemma balanced_exit_at_open: "balanced cash st \<Longrightarrow> balanced cash (exit_at_open exact cfg symb j b st)"
proof (cases "rs_pos st")
  case (Some p)
  assume bal: "balanced cash st"
  with Some have "rs_cash st + hp_cost p + hp_commission p = cash + realised st"
    by (simp add: balanced_def position_value_def)
  then show ?thesis using bal Some by (simp add: exit_at_open_def balanced_close)
qed (simp add: exit_at_open_def)

lemma balanced_begin: "balanced cash st \<Longrightarrow> balanced cash (begin_entry j st)"
  by (auto simp: begin_entry_def balanced_def position_value_def realised_def new_held_def held_ok_def split: option.split)

lemma buy_exact:
  fixes cfg j b p cash
  assumes "held_ok p" "\<not> hp_complete p"
  defines "r \<equiv> buy exact cfg j b p cash"
  shows "snd r + hp_cost (fst r) = cash + hp_cost p" "hp_commission (fst r) = 0"
    "hp_qty (fst r) = 0 \<and> hp_cost (fst r) = 0 \<or> tiny_qty < hp_qty (fst r)" "\<not> hp_complete (fst r)"
  using assms(1,2) tiny_pos by (auto simp: r_def buy_def held_ok_def Let_def exact_def)

lemma balanced_fill: "balanced cash st \<Longrightarrow> balanced cash (fill_entry exact cfg j b st)"
proof (cases "rs_pos st")
  case (Some p)
  assume bal: "balanced cash st"
  with Some have ok: "held_ok p" "rs_cash st + hp_cost p + hp_commission p = cash + realised st"
    by (auto simp: balanced_def position_value_def)
  show ?thesis
  proof (cases "hp_complete p")
    case False
    obtain p1 c where r: "buy exact cfg j b p (rs_cash st) = (p1, c)" by fastforce
    have b: "c + hp_cost p1 = rs_cash st + hp_cost p" "hp_commission p1 = 0"
      "hp_qty p1 = 0 \<and> hp_cost p1 = 0 \<or> tiny_qty < hp_qty p1" "\<not> hp_complete p1"
      using buy_exact [OF ok(1) False, of cfg j b "rs_cash st"] by (simp_all add: r)
    have "hp_commission p = 0" using ok(1) False by (simp add: held_ok_def)
    with b ok(2) tiny_pos Some False show ?thesis
      by (auto simp: fill_entry_def r balanced_def position_value_def realised_def held_ok_def Let_def exact_def)
  qed (use bal Some in \<open>simp add: fill_entry_def\<close>)
qed (simp add: fill_entry_def)

lemma excursions_fields [simp]:
  "hp_cost (update_excursions rnd p b) = hp_cost p" "hp_qty (update_excursions rnd p b) = hp_qty p"
  "hp_commission (update_excursions rnd p b) = hp_commission p" "hp_complete (update_excursions rnd p b) = hp_complete p"
  "hp_entry_ts (update_excursions rnd p b) = hp_entry_ts p" "hp_entry_bar (update_excursions rnd p b) = hp_entry_bar p"
  by (simp_all add: update_excursions_def Let_def)

lemma balanced_stops: "balanced cash st \<Longrightarrow> balanced cash (stops_and_targets exact cfg symb j b st)"
proof (cases "rs_pos st")
  case (Some p)
  assume bal: "balanced cash st"
  let ?p = "update_excursions exact p b"
  have eq: "rs_cash st + hp_cost ?p + hp_commission ?p = cash + realised st" "held_ok ?p"
    using bal Some by (auto simp: balanced_def position_value_def held_ok_def)
  then have "balanced cash (close_position exact cfg symb ?p price reason ts j st)" if "0 < hp_qty p" for price reason ts
    using that by (intro balanced_close) simp_all
  moreover have "balanced cash (st\<lparr>rs_pos := Some ?p\<rparr>)" using eq by (simp add: balanced_def position_value_def realised_def)
  ultimately show ?thesis using bal Some by (auto simp: stops_and_targets_def Let_def split: option.split)
qed (simp add: stops_and_targets_def)

lemma balanced_force: "balanced cash st \<Longrightarrow> balanced cash (force_close exact cfg symb n j b st)"
proof (cases "rs_pos st")
  case (Some p)
  assume bal: "balanced cash st"
  let ?c = "commission exact cfg (hp_qty p)"
  have eq: "rs_cash st + hp_cost p + hp_commission p = cash + realised st"
    using bal Some by (simp add: balanced_def position_value_def)
  have "balanced cash (close_position exact cfg symb p price reason ts j st)" if "0 < hp_qty p" for price reason ts
    using eq that by (rule balanced_close)
  moreover have "balanced cash (close_position exact cfg symb (p\<lparr>hp_commission := ?c, hp_complete := True\<rparr>) price reason ts j
      (st\<lparr>rs_cash := rs_cash st - ?c\<rparr>))" if "0 < hp_qty p" "hp_commission p = 0" for price reason ts
    using eq that by (intro balanced_close) (simp_all add: realised_def)
  ultimately show ?thesis using bal Some by (auto simp: force_close_def Let_def exact_def)
qed (simp add: force_close_def)

lemma balanced_mark: "balanced cash st \<Longrightarrow> balanced cash (mark_equity rnd b st)"
  by (auto simp: mark_equity_def balanced_def position_value_def realised_def split: option.split)

lemma balanced_signals: "balanced cash st \<Longrightarrow> balanced cash (new_signals size_of n j b s st)"
  by (auto simp: new_signals_def balanced_def position_value_def realised_def Let_def)

lemma balanced_bar: "balanced cash st \<Longrightarrow> balanced cash (replay_bar exact cfg symb size_of n j b s st)"
  by (simp add: replay_bar_def balanced_signals balanced_mark balanced_force balanced_stops balanced_fill balanced_begin
      balanced_exit_at_open)

lemma balanced_bars: "balanced cash st \<Longrightarrow> balanced cash (replay_bars exact cfg symb size_of n j w st)"
proof (induction w arbitrary: j st)
  case (Cons x w)
  show ?case by (cases x) (simp only: replay_bars.simps, intro Cons.IH balanced_bar Cons.prems)
qed simp

subsection \<open>Lengths and the last bar\<close>

lemma stage_equity:
  "rs_equity (close_position rnd cfg symb p price reason ts j st) = rs_equity st"
  "rs_equity (exit_at_open rnd cfg symb j b st) = rs_equity st" "rs_equity (begin_entry j st) = rs_equity st"
  "rs_equity (fill_entry rnd cfg j b st) = rs_equity st" "rs_equity (stops_and_targets rnd cfg symb j b st) = rs_equity st"
  "rs_equity (force_close rnd cfg symb n j b st) = rs_equity st" "rs_equity (new_signals size_of n j b s st) = rs_equity st"
proof -
  show c: "rs_equity (close_position rnd cfg symb p price reason ts j st) = rs_equity st" for p price reason ts st
    by (simp add: close_position_def Let_def)
  show "rs_equity (exit_at_open rnd cfg symb j b st) = rs_equity st" by (simp add: exit_at_open_def c split: option.split)
  show "rs_equity (begin_entry j st) = rs_equity st" by (simp add: begin_entry_def split: option.split prod.split)
  show "rs_equity (fill_entry rnd cfg j b st) = rs_equity st"
    by (simp add: fill_entry_def case_prod_beta Let_def split: option.split)
  show "rs_equity (stops_and_targets rnd cfg symb j b st) = rs_equity st"
    by (simp add: stops_and_targets_def c Let_def case_prod_beta split: option.split)
  show "rs_equity (force_close rnd cfg symb n j b st) = rs_equity st" by (simp add: force_close_def c Let_def split: option.split)
  show "rs_equity (new_signals size_of n j b s st) = rs_equity st" by (simp add: new_signals_def Let_def)
qed

lemma replay_bar_equity: "\<exists>e. rs_equity (replay_bar rnd cfg symb size_of n j b s st) = rs_equity st @ [e]"
  by (simp add: replay_bar_def stage_equity mark_equity_def split: option.split)

lemma replay_bars_equity:
  "length (rs_equity (replay_bars rnd cfg symb size_of n j w st)) = length (rs_equity st) + length w"
proof (induction w arbitrary: j st)
  case (Cons x w)
  obtain b s where x: "x = (b, s)" by (cases x)
  obtain e where "rs_equity (replay_bar rnd cfg symb size_of n j b s st) = rs_equity st @ [e]" using replay_bar_equity by blast
  then show ?case by (simp add: x Cons)
qed simp

text \<open>After the last bar nothing is held, and the equity is the cash.\<close>

lemma last_bar:
  fixes cfg symb size_of j b s st
  assumes "balanced cash st"
  defines "st' \<equiv> replay_bar exact cfg symb size_of (Suc j) j b s st"
  shows "rs_cash st' = cash + realised st'" "last (rs_equity st') = rs_cash st'"
proof -
  let ?m = "stops_and_targets exact cfg symb j b (fill_entry exact cfg j b (begin_entry j (exit_at_open exact cfg symb j b st)))"
  let ?f = "force_close exact cfg symb (Suc j) j b ?m"
  have bal: "balanced cash ?f"
    using assms(1) by (intro balanced_force balanced_stops balanced_fill balanced_begin balanced_exit_at_open)
  have none: "rs_pos ?f = None \<or> (\<exists>p. rs_pos ?f = Some p \<and> hp_qty p = 0 \<and> hp_cost p = 0 \<and> hp_commission p = 0)"
  proof (cases "rs_pos ?m")
    case (Some p)
    have "balanced cash ?m" using assms(1) by (intro balanced_stops balanced_fill balanced_begin balanced_exit_at_open)
    with Some have "held_ok p" by (simp add: balanced_def)
    with Some tiny_pos show ?thesis by (auto simp: force_close_def held_ok_def close_position_def Let_def)
  qed (simp add: force_close_def)
  with bal have cash: "rs_cash ?f = cash + realised ?f" by (auto simp: balanced_def position_value_def)
  have sig: "rs_cash (new_signals size_of (Suc j) j b s x) = rs_cash x" "realised (new_signals size_of (Suc j) j b s x) = realised x"
    "rs_equity (new_signals size_of (Suc j) j b s x) = rs_equity x" for x
    by (auto simp: new_signals_def realised_def Let_def)
  have mark: "rs_cash (mark_equity exact b x) = rs_cash x" "realised (mark_equity exact b x) = realised x" for x
    by (auto simp: mark_equity_def realised_def split: option.split)
  show "rs_cash st' = cash + realised st'" using cash by (simp add: st'_def replay_bar_def sig mark)
  show "last (rs_equity st') = rs_cash st'" using none
    by (auto simp: st'_def replay_bar_def sig mark) (auto simp: mark_equity_def exact_def)
qed

lemma bars_last:
  assumes "balanced cash st" "w \<noteq> []" "n = j + length w"
  shows "last (rs_equity (replay_bars exact cfg symb size_of n j w st)) =
    cash + realised (replay_bars exact cfg symb size_of n j w st)"
  using assms
proof (induction w arbitrary: j st)
  case (Cons x w)
  obtain b s where x: "x = (b, s)" by (cases x)
  show ?case
  proof (cases "w = []")
    case True
    with Cons.prems(3) have n: "n = Suc j" by simp
    show ?thesis unfolding x True n using last_bar [OF Cons.prems(1), of cfg symb size_of j b s] by simp
  next
    case False
    have "balanced cash (replay_bar exact cfg symb size_of n j b s st)" by (rule balanced_bar [OF Cons.prems(1)])
    from Cons.IH [OF this False, of "Suc j"] Cons.prems(3) show ?thesis unfolding x replay_bars.simps by simp
  qed
qed simp

text \<open>
  C40. Every cent is accounted for. In exact arithmetic the equity after the last bar of the window is the
  initial cash plus the profits and losses of the recorded trades, commissions and partial fills included: nothing is
  left in an open position, and no cash is gained or lost outside a trade. There is one equity point per bar.
\<close>

theorem every_cent_in_a_trade:
  fixes symb cfg profile
  assumes "filter (in_window start_ts end_ts) fr \<noteq> []"
  defines "r \<equiv> replay exact fr symb start_ts end_ts cfg profile"
  shows "last (rr_equity r) = rc_cash cfg + sum_list (map tr_pnl (rr_trades r)) \<and> length (rr_equity r) = rr_n_bars r"
proof -
  have "balanced (rc_cash cfg) (start_state cfg)"
    by (simp add: balanced_def start_state_def position_value_def realised_def)
  from bars_last [OF this assms(1), of _ 0 cfg symb "size_in fr symb cfg profile"] show ?thesis
    by (simp add: r_def replay_def replay_from_def Let_def realised_def replay_bars_equity start_state_def)
qed

definition sample_bar :: "int \<Rightarrow> rat \<Rightarrow> rat \<Rightarrow> rat \<Rightarrow> rat \<Rightarrow> rat \<Rightarrow> rp_bar" where
  "sample_bar ts x h l c v = \<lparr>rb_ts = ts, rb_open = x, rb_high = h, rb_low = l, rb_close = c, rb_volume = v\<rparr>"

definition quiet :: rp_signal where
  "quiet = \<lparr>gs_entry = False, gs_exit = False, gs_stop = None, gs_target = None\<rparr>"

text \<open>An entry with a stop of a half at the first close, bought over two bars, and a crash in the second of them.\<close>

definition sample_frame :: frame where
  "sample_frame = [(sample_bar 1 10 11 9 10 100, quiet\<lparr>gs_entry := True, gs_stop := Some (1 / 2)\<rparr>),
     (sample_bar 2 10 11 9 10 5, quiet), (sample_bar 3 10 11 4 6 1, quiet), (sample_bar 4 6 7 5 6 100, quiet)]"

definition sample_config :: replay_config where
  "sample_config = \<lparr>rc_cash = 1000, rc_slippage_bps = 0, rc_per_order = 1, rc_per_share = 0, rc_participation = 10,
     rc_production = False\<rparr>"

theorem every_cent_in_a_trade_witness:
  "last (rr_equity (replay exact sample_frame ''SPY'' 1 5 sample_config None)) =
     1000 + sum_list (map tr_pnl (rr_trades (replay exact sample_frame ''SPY'' 1 5 sample_config None)))"
  using every_cent_in_a_trade [of 1 5 sample_frame "''SPY''" sample_config None]
  by (simp add: sample_frame_def in_window_def sample_bar_def sample_config_def)

text \<open>
  A stop that strikes while the entry is still being filled: the trade pays no entry commission, though a part of it was
  bought; closed on the last bar instead, the same position would pay it.
\<close>

lemma sample_sizes: "tiny_qty < 1 / 10" "small_qty < 1 / 10" "\<not> 1 \<le> small_qty" "\<not> 1 / 2 \<le> tiny_qty"
proof -
  have "tiny_qty \<le> 1 / 10 ^ 12 * (1 + 1 / 2 ^ 53)" "small_qty \<le> 1 / 10 ^ 9 * (1 + 1 / 2 ^ 53)"
    unfolding tiny_qty_def small_qty_def by (rule fl_upper, simp)+
  then show "tiny_qty < 1 / 10" "small_qty < 1 / 10" "\<not> 1 \<le> small_qty" "\<not> 1 / 2 \<le> tiny_qty" by simp_all
qed

lemma stopped_mid_fill_pays_no_entry:
  "map (\<lambda>t. (tr_reason t, tr_qty t, tr_entry_commission t, tr_exit_commission t))
     (rr_trades (replay exact sample_frame ''SPY'' 1 5 sample_config None)) = [(''stop'', 3 / 5, 0, 1)]"
  using sample_sizes
  by (simp add: replay_def replay_from_def Let_def sample_frame_def in_window_def sample_bar_def start_state_def replay_bar_def
      exit_at_open_def begin_entry_def fill_entry_def stops_and_targets_def force_close_def mark_equity_def new_signals_def
      size_in_def size_entry_def sample_config_def quiet_def new_held_def buy_def fill_qty_def exact_def slip_def max_fill_bars_def
      update_excursions_def avg_entry_def check_exit_def stop_price_def target_price_def close_position_def commission_def
      sell_price_def)

end
