(* ===== verification/Spec2Isabelle.thy ===== *)
theory Spec2Isabelle
  imports Webhook_Ingest Fills Audit_Log Flags Alpaca Trade_Station Broker_Services Fake_Broker Streams Risk_Api Auth_Limits Screen_Round_Trip Strategy_Safety Screen_Safety Portal_Safety Replay_Safety
begin

text \<open>
  StratTraderPro receives trading alerts over webhooks, decides whether and how much to trade,
  places orders at a broker, and keeps orders, fills and positions in step with what the broker
  reports. Around that it has accounts with a second factor, uploaded strategies, a stock screener,
  an administrators' portal and a backtester. This development models the part of its Django back end
  (\<open>src/backend/apps\<close>) that decides and records trades and the handlers of accounts, strategies, screens
  and administration that change state, and proves what makes them correct.

  \<^bold>\<open>Theories and code.\<close>
  \<^item> \<open>Prelude\<close>: strings, JSON values and the list lookups and updates that stand for the
    queries of the ORM (\<open>first_where\<close> is \<open>filter(...).first()\<close>, \<open>update_where\<close> is
    \<open>filter(...).update(...)\<close>).
  \<^item> \<open>Numerics\<close>, \<open>Decimals\<close>: decimal columns, the 28 digit decimal context, binary floats,
    and parsing and printing of Python's \<open>Decimal\<close>. The locale \<open>float_format\<close> states what
    the sizing arithmetic needs of a rounding; both roundings interpret it.
  \<^item> \<open>Store\<close>: the rows of \<open>orders/models.py\<close>, \<open>brokers/models.py\<close>, \<open>risk/models.py\<close>,
    \<open>webhooks/models.py\<close>, the messages of \<open>brokers/base.py\<close>, and the state \<open>db\<close> of tables,
    cache and outbound effects that every handler takes and returns. \<open>Samples\<close> has the rows
    the witnesses use.
  \<^item> \<open>Cache\<close>: the counters with expiry that Django's cache provides. The locale
    \<open>expiring_store\<close> is the interface its clients use.
  \<^item> \<open>Orders\<close>: \<open>orders/services.py\<close>, the ingestion of broker events.
  \<^item> \<open>Reconcile\<close>: \<open>orders/reconcile.py\<close>, and the snapping of positions and the resolution of
    ambiguous orders of \<open>orders/services.py\<close>.
  \<^item> \<open>Killswitch\<close>: \<open>risk/killswitch.py\<close> and \<open>risk/tasks.py\<close>.
  \<^item> \<open>Sizing\<close>: \<open>risk/sizing.py\<close> and the profile validators of \<open>risk/serializers.py\<close>.
  \<^item> \<open>Risk_Integration\<close>: \<open>risk/integration.py\<close>, sizing in the order path.
  \<^item> \<open>Process_Alert\<close>: \<open>webhooks/tasks.py\<close>.
  \<^item> \<open>Webhook_Ingest\<close>: \<open>webhooks/views.py\<close>, the whole request handler from the size cap to the
    hand-over to the worker.
  \<^item> \<open>Fills\<close>: \<open>orders/fills.py\<close>, the wire form of a broker event and the Redis streams it travels
    on: consumer, retry counters, dead letters, drain and sweep.
  \<^item> \<open>Audit_Log\<close>: \<open>audit/scrub.py\<close>, \<open>hashing.py\<close>, \<open>services.py\<close> and \<open>verifier.py\<close>, the hash
    chain of the audit log.
  \<^item> \<open>Flags\<close>: \<open>admin_portal/flags.py\<close> with its two caches, and \<open>brokers/live_gate.py\<close>.
  \<^item> \<open>Broker_Calls\<close>: what the adapters share, the error taxonomy of \<open>brokers/errors.py\<close> and the
    audited call of \<open>brokers/audit.py\<close>; the locale \<open>acking_adapter\<close> is the contract of an adapter
    whose acknowledgements name the order that was sent.
  \<^item> \<open>Alpaca\<close>, \<open>Trade_Station\<close>, \<open>Fake_Broker\<close>: the three adapters with their request and response
    mapping, each an interpretation of \<open>acking_adapter\<close>.
  \<^item> \<open>Broker_Services\<close>: \<open>brokers/services.py\<close>, the OAuth state, the default risk profile, and the
    handlers of \<open>brokers/views.py\<close> that change accounts.
  \<^item> \<open>Streams\<close>: \<open>brokers/streams.py\<close>, the catch-up and the supervisor of the fill streams.
  \<^item> \<open>Risk_Api\<close>: the kill-switch endpoint of \<open>risk/views.py\<close>.
  \<^item> \<open>One_Time\<close>: the locale of rows that can be consumed once, which tokens and backup codes interpret.
  \<^item> \<open>Users\<close>: \<open>users/services.py\<close> and the rows of \<open>users/models.py\<close>: lockout, one-time tokens, refresh-token
    families and sessions.
  \<^item> \<open>Mfa\<close>: \<open>users/mfa.py\<close>, codes, backup codes, and the step-up check; the locale \<open>attempt_limit\<close> is the
    contract of an operation with a limit of failures.
  \<^item> \<open>Auth_Api\<close>: the handlers of \<open>users/views.py\<close>, \<open>views_m02.py\<close> and \<open>views_oauth.py\<close> that change state, composed
    to runs of requests; \<open>Auth_Safety\<close> and \<open>Auth_Limits\<close> hold what they guarantee.
  \<^item> \<open>Screen_Criteria\<close>, \<open>Screen_Round_Trip\<close>: \<open>screener/criteria.py\<close>, the grammar of the \<open>[screen]\<close> block of a
    strategy's description, and its inverse.
  \<^item> \<open>Strategy_Upload\<close>, \<open>Strategies\<close>, \<open>Strategy_Safety\<close>: \<open>strategies/validators.py\<close>, \<open>services.py\<close>,
    \<open>permissions.py\<close> and \<open>views.py\<close>: uploads, slugs, the catalog, webhook configurations and their secrets.
  \<^item> \<open>Fmp_Client\<close>: \<open>marketdata/fmp.py\<close>, the vendor client with throttle, retries, breaker and cache.
  \<^item> \<open>Screen_Runs\<close>, \<open>Screen_Safety\<close>: \<open>screener/enrich.py\<close>, \<open>tasks.py\<close>, \<open>models.py\<close> and \<open>views.py\<close>: metrics, ranking,
    the pipeline of a run and the table of runs; a task is two steps, between which requests can come.
  \<^item> \<open>Portal\<close>, \<open>Portal_Safety\<close>: \<open>users/gdpr.py\<close>, \<open>tasks.py\<close>, \<open>terms.py\<close>, \<open>onboarding.py\<close>, \<open>views_gdpr.py\<close>,
    \<open>authentication.py\<close> and the handlers of \<open>admin_portal\<close> that change state: exports, erasure, terms,
    impersonation, disabling of accounts, the platform halt and flag flips.
  \<^item> \<open>Replay\<close>, \<open>Replay_Safety\<close>: \<open>backtest/replay_engine.py\<close>, one function per numbered step of the loop
    over bars, with the rounding of the arithmetic as an argument.

  \<^bold>\<open>How the parts interact.\<close> A request of the webhook becomes an alert row (\<open>webhook_post\<close>) and
  goes through \<open>process_alert\<close>: the gates (\<open>Killswitch.is_blocked\<close> among them), the order row,
  the intent, \<open>apply_sizing\<close> (which may refuse, or trip a halt through \<open>trigger_halt\<close>), and the
  submit through an adapter. The broker's events travel over the streams of \<open>Fills\<close> to
  \<open>ingest_fill_event\<close>; \<open>reconcile_account\<close>, \<open>catch_up_account\<close> and \<open>flatten_user\<close> bring positions
  and ambiguous orders back to broker truth. Halts are set by the kill-switch endpoint and by
  the daily-loss watcher. An adapter in live mode connects only past \<open>live_trading_permitted\<close>.
  The webhook and the worker read the strategies, configurations and secrets that the handlers of
  \<open>Strategies\<close> write; the description file of a strategy carries the criteria that \<open>Screen_Runs\<close> executes
  through \<open>Fmp_Client\<close>. \<open>Portal\<close> works on the accounts of \<open>Users\<close>, checks codes with \<open>verify_mfa_code\<close>, sets
  halts with \<open>trigger_halt\<close> and flags with \<open>set_flag\<close>. \<open>Replay\<close> sizes its entries with the \<open>compute_size\<close> of the
  live path.

  \<^bold>\<open>Conventions.\<close> A handler is a function from the state to the new state and its result; an
  exception is an \<open>Inl\<close>, and where the code runs inside \<open>transaction.atomic\<close> the caller
  keeps the old state. Row ids are natural numbers drawn from a counter. Broker connections
  are records of what their calls return; SHA-256, Fernet, the canonical JSON text, date
  parsing, the clock, the time-zone data, the SDK and HTTP clients, Redis and the market-data
  tables are parameters. A decimal column rounds half to even, as
  Django does when it formats a value for SQLite; PostgreSQL differs only on exact ties
  beyond the scale of the column. Text columns do not enforce their length except where the
  code cuts the text itself. Text is ASCII, and a dash in two messages is written as a hyphen. The
  password hasher, the JWT library, OAuth, slugify, jsonschema, UTF-8 decoding, the ZIP format and the
  file storage are parameters too. Floats are finite rationals rounded by \<open>fl\<close>.

  \<^bold>\<open>Bounds and termination.\<close> Loops are recursions on data (bars, candidates, events, list of requests).
  The search for a free slug is a recursion with a measure, since finitely many slugs are taken; a
  call of the vendor client makes three attempts, and the complexity check of a webhook schema goes to the
  depth 12 at which the code refuses it. No definition needs fuel that its caller would have to choose.

  \<^bold>\<open>What the lemmas show.\<close> Each theory proves one preservation lemma per operation and builds
  its properties on them: positions are the signed sum of the recorded fills, redelivery is
  harmless (\<open>Orders\<close>); drifts heal on the second strike and two runs settle every symbol
  (\<open>Reconcile\<close>); the gate is exactly the meaning of the halt levels, daily-loss halts stay
  for the day, missing data never halts (\<open>Killswitch\<close>); accepted sizes are whole, capped and
  monotone in equity in spite of float rounding (\<open>Sizing\<close>); the order path fails closed
  (\<open>Risk_Integration\<close>); no client order id is placed twice and every submit outcome is
  recorded (\<open>Process_Alert\<close>); one alert per idempotency key, and unauthenticated requests take
  nothing from authenticated ones (\<open>Webhook_Ingest\<close>); a stream message is acknowledged exactly
  when it was ingested or dead-lettered (\<open>Fills\<close>); a written audit log verifies, and a log cannot
  be exchanged under the same head hash (\<open>Audit_Log\<close>); revocations of live trading arrive within
  the cache's lifetime (\<open>Flags\<close>); one call of an adapter hands over at most one order, and keys and
  modes cannot be mixed (\<open>Alpaca\<close>); every user with accounts keeps one default account
  (\<open>Broker_Services\<close>); the fake broker's own book is refined by the ingested position table
  (\<open>Fake_Broker\<close>); the kill switch engages at once and reaches only its own scope (\<open>Risk_Api\<close>);
  replayed tokens, wrong codes and spent backup codes get nowhere (\<open>Auth_Safety\<close>, \<open>Auth_Limits\<close>, \<open>Mfa\<close>);
  criteria that parse are well formed and print back (\<open>Screen_Criteria\<close>, \<open>Screen_Round_Trip\<close>); a deleted
  strategy trades no more, secrets rotate for good, tenants are apart (\<open>Strategy_Safety\<close>); the counts of a screen add
  up, its rows are earned, and one screen runs at a time (\<open>Screen_Safety\<close>); impersonation only reads and stops for
  good, erasure is complete and confined, exports reach their owner (\<open>Portal_Safety\<close>); and every cent of a replay
  is in a trade (\<open>Replay_Safety\<close>).

  \<^bold>\<open>Not modelled.\<close> Read-only lists and detail views, the user list, audit search, health probes and queue
  lengths of the administrators; the seeding of system strategies; the FRED client, stored vendor keys and the bar
  store; regime detection, sentiment and the backtester beyond its replay engine, which rest on numpy, pandas,
  hmmlearn, vectorbt and language models; the dashboard sockets and the settings. Of what is modelled:
  Prometheus metrics, log lines, tracing and latencies; the blocking loops of the stream
  threads; the intermediate rounding of average costs to the 28 digits of the decimal context;
  broker amounts that are not finite; the overflow and underflow of binary floats; and the
  \<open>data_before\<close> image of audit rows.
\<close>

end
